(* ===== verification/Prelude.thy ===== *)
theory Prelude
  imports Complex_Main "HOL-Library.Product_Lexorder"
begin

text \<open>
  Shared vocabulary of the development: errors as the left side of a sum, the two clocks, tables
  as lists of rows, and the generic lemmas every component uses.

  \<^item> \<open>bindR\<close> sequences computations that may raise; a Python statement list that may raise in the
    middle is a chain of \<open>bindR\<close>.
  \<^item> A \<open>datetime\<close> is a whole number of microseconds (what Python's \<open>datetime\<close> is); the float
    clocks (\<open>time.time\<close>, \<open>time.monotonic\<close>) are rationals.
  \<^item> A database table is the list of its rows; \<open>upd_where\<close> is the UPDATE of the rows that satisfy
    a predicate, \<open>find\<close> the SELECT of the first.
\<close>

named_theorems result_simps \<open>rules that open a chain of computations that may raise\<close>
named_theorems table_simps \<open>facts about tables and their updates\<close>

type_synonym datetime = int
type_synonym clock = rat

definition seconds :: "int \<Rightarrow> int" where
  "seconds s = s * 1000000"

definition opt_max0 :: "int option \<Rightarrow> int" where
  "opt_max0 x = (case x of None \<Rightarrow> 0 | Some v \<Rightarrow> max v 0)"

lemma opt_max0_nonneg [simp]: "0 \<le> opt_max0 x"
  by (simp add: opt_max0_def split: option.split)

section \<open>Results\<close>

definition bindR :: "'e + 'a \<Rightarrow> ('a \<Rightarrow> 'e + 'b) \<Rightarrow> 'e + 'b" where
  "bindR m f = (case m of Inl e \<Rightarrow> Inl e | Inr a \<Rightarrow> f a)"

lemma bindR_simps [simp]: "bindR (Inl e) f = Inl e" "bindR (Inr a) f = f a"
  by (simp_all add: bindR_def)

lemma bindR_Inr_iff [result_simps]:
  "bindR m f = Inr b \<longleftrightarrow> (\<exists>a. m = Inr a \<and> f a = Inr b)"
  by (cases m) simp_all

lemma bindR_Inl_iff [result_simps]:
  "bindR m f = Inl e \<longleftrightarrow> m = Inl e \<or> (\<exists>a. m = Inr a \<and> f a = Inl e)"
  by (cases m) simp_all

lemma if_Inl_Inr_iff [result_simps]:
  "(if c then Inl e else m) = Inr b \<longleftrightarrow> \<not> c \<and> m = Inr b"
  by simp

definition is_ok :: "'e + 'a \<Rightarrow> bool" where
  "is_ok m = (case m of Inl _ \<Rightarrow> False | Inr _ \<Rightarrow> True)"

lemma is_ok_simps [simp]: "is_ok (Inr a)" "\<not> is_ok (Inl e)"
  by (simp_all add: is_ok_def)

lemma is_ok_iff: "is_ok m \<longleftrightarrow> (\<exists>a. m = Inr a)"
  by (cases m) simp_all

section \<open>Tables\<close>

definition upd_where :: "('r \<Rightarrow> bool) \<Rightarrow> ('r \<Rightarrow> 'r) \<Rightarrow> 'r list \<Rightarrow> 'r list" where
  "upd_where P f rows = map (\<lambda>r. if P r then f r else r) rows"

lemma upd_where_simps [simp]:
  "upd_where P f [] = []"
  "upd_where P f (r # rs) = (if P r then f r else r) # upd_where P f rs"
  by (simp_all add: upd_where_def)

lemma length_upd_where [simp, table_simps]: "length (upd_where P f rows) = length rows"
  by (simp add: upd_where_def)

lemma set_upd_where [table_simps]:
  "set (upd_where P f rows) = (\<lambda>r. if P r then f r else r) ` set rows"
  by (simp add: upd_where_def)

lemma map_upd_where [table_simps]:
  "(\<And>r. P r \<Longrightarrow> g (f r) = g r) \<Longrightarrow> map g (upd_where P f rows) = map g rows"
  by (induction rows) auto

lemma upd_where_cong_key [table_simps]:
  "(\<And>r. r \<in> set rows \<Longrightarrow> \<not> P r) \<Longrightarrow> upd_where P f rows = rows"
  by (induction rows) auto

lemma filter_upd_where_frame [table_simps]:
  "(\<And>r. P r \<Longrightarrow> Q (f r) = False) \<Longrightarrow>
   filter Q (upd_where P f rows) = filter (\<lambda>r. Q r \<and> \<not> P r) rows"
  by (induction rows) auto

lemma count_upd_where_le:
  "(\<And>r. r \<in> set rows \<Longrightarrow> P r \<Longrightarrow> Q (f r) \<Longrightarrow> Q r) \<Longrightarrow>
   length (filter Q (upd_where P f rows)) \<le> length (filter Q rows)"
  by (induction rows) (auto simp: le_SucI)

lemma find_Some_mem: "find P xs = Some x \<Longrightarrow> x \<in> set xs \<and> P x"
  by (induction xs) (auto split: if_splits)

lemma find_None_notin: "find P xs = None \<Longrightarrow> x \<in> set xs \<Longrightarrow> \<not> P x"
  by (induction xs) (auto split: if_splits)

lemma distinct_key_eq:
  "distinct (map k xs) \<Longrightarrow> x \<in> set xs \<Longrightarrow> y \<in> set xs \<Longrightarrow> k x = k y \<Longrightarrow> x = y"
  by (induction xs) (auto simp: rev_image_eqI)

lemma length_filter_le1_eq:
  "length (filter P xs) \<le> 1 \<Longrightarrow> distinct xs \<Longrightarrow> x \<in> set xs \<Longrightarrow> y \<in> set xs \<Longrightarrow>
   P x \<Longrightarrow> P y \<Longrightarrow> x = y"
proof -
  assume len: "length (filter P xs) \<le> 1" and d: "distinct xs"
    and m: "x \<in> set xs" "y \<in> set xs" "P x" "P y"
  from d have "card (set (filter P xs)) = length (filter P xs)"
    by (intro distinct_card distinct_filter)
  with len have "card (set (filter P xs)) \<le> Suc 0" by simp
  with m show "x = y"
    by (auto simp: card_le_Suc0_iff_eq)
qed

lemma filter_empty_if_none: "(\<And>x. x \<in> set xs \<Longrightarrow> \<not> P x) \<Longrightarrow> filter P xs = []"
  by (induction xs) auto

lemma length_filter_key_le1: "distinct (map k xs) \<Longrightarrow> length (filter (\<lambda>r. k r = i) xs) \<le> 1"
proof (induction xs)
  case (Cons x xs)
  have "filter (\<lambda>r. k r = i) xs = []" if "k x = i"
    using Cons.prems that by (intro filter_empty_if_none) (metis distinct.simps(2) image_eqI list.simps(9) set_map)
  with Cons show ?case by auto
qed simp

lemma find_upd_where_same:
  "find P rows = Some r \<Longrightarrow> P (f r) \<Longrightarrow> (\<And>x. P (f x) \<longleftrightarrow> P x) \<Longrightarrow>
   find P (upd_where P f rows) = Some (f r)"
  by (induction rows) (auto split: if_splits)

lemma list_all2_upd_where:
  "(\<And>b. b \<in> set bs \<Longrightarrow> R b b) \<Longrightarrow> (\<And>b. b \<in> set bs \<Longrightarrow> P b \<Longrightarrow> R b (f b)) \<Longrightarrow> list_all2 R bs (upd_where P f bs)"
  by (induction bs) auto

lemma list_all2_mem1: "list_all2 R xs ys \<Longrightarrow> x \<in> set xs \<Longrightarrow> \<exists>y \<in> set ys. R x y"
  by (induction xs ys rule: list_all2_induct) auto

lemma list_all2_mem2: "list_all2 R xs ys \<Longrightarrow> y \<in> set ys \<Longrightarrow> \<exists>x \<in> set xs. R x y"
  by (induction xs ys rule: list_all2_induct) auto

section \<open>Sorting\<close>

lemma set_take_filter_subset: "set (take n (filter P xs)) \<subseteq> {x \<in> set xs. P x}"
  by (auto dest: in_set_takeD)

lemma sorted_key_take_le:
  "sorted (map k xs) \<Longrightarrow> x \<in> set (take n xs) \<Longrightarrow> y \<in> set (drop n xs) \<Longrightarrow> k x \<le> k y"
proof -
  assume s: "sorted (map k xs)" and x: "x \<in> set (take n xs)" and y: "y \<in> set (drop n xs)"
  have "map k xs = map k (take n xs) @ map k (drop n xs)"
    by (simp flip: map_append)
  with s have "sorted (map k (take n xs) @ map k (drop n xs))" by simp
  with x y show "k x \<le> k y"
    by (auto simp: sorted_append)
qed

lemma sorted_map_filter_key: "sorted (map k xs) \<Longrightarrow> sorted (map k (filter P xs))"
  by (induction xs) auto

end
