(* ===== verification/Py_Text.thy ===== *)
theory Py_Text
  imports Prelude
begin

text \<open>
  The part of Python's \<open>str\<close> the program uses. A string is a list of code points; the model's
  \<open>char\<close> holds the code points 0 to 255, so the character classes below are exact on Latin-1:
  \<open>isspace\<close>, \<open>isdigit\<close> (which accepts the superscripts 2, 3 and 1), \<open>isalnum\<close>, \<open>lower\<close>,
  \<open>strip\<close>, \<open>split\<close>, \<open>splitlines\<close>, \<open>int\<close> and \<open>float\<close>.
\<close>

definition code :: "char \<Rightarrow> nat" where
  "code c = of_char c"

definition NUL :: char where "NUL = CHR 0x00"
definition NL :: char where "NL = CHR 0x0A"

definition py_isspace :: "char \<Rightarrow> bool" where
  "py_isspace c = (code c \<in> {9, 10, 11, 12, 13, 28, 29, 30, 31, 32, 133, 160})"

definition is_digit :: "char \<Rightarrow> bool" where
  "is_digit c = (48 \<le> code c \<and> code c \<le> 57)"

definition is_lower :: "char \<Rightarrow> bool" where
  "is_lower c = (97 \<le> code c \<and> code c \<le> 122)"

definition is_upper :: "char \<Rightarrow> bool" where
  "is_upper c = (65 \<le> code c \<and> code c \<le> 90)"

definition is_ascii_alnum :: "char \<Rightarrow> bool" where
  "is_ascii_alnum c = (is_digit c \<or> is_lower c \<or> is_upper c)"

definition py_isdigit_char :: "char \<Rightarrow> bool" where
  "py_isdigit_char c = (is_digit c \<or> code c \<in> {178, 179, 185})"

definition py_isdigit :: "string \<Rightarrow> bool" where
  "py_isdigit s = (s \<noteq> [] \<and> list_all py_isdigit_char s)"

definition py_isalnum :: "char \<Rightarrow> bool" where
  "py_isalnum c = (is_ascii_alnum c \<or> code c \<in> {170, 178, 179, 181, 185, 186, 188, 189, 190}
     \<or> (192 \<le> code c \<and> code c \<noteq> 215 \<and> code c \<noteq> 247))"

definition is_control :: "char \<Rightarrow> bool" where
  "is_control c = (code c < 32 \<or> code c = 127)"

definition lower_char :: "char \<Rightarrow> char" where
  "lower_char c = (if is_upper c \<or> (192 \<le> code c \<and> code c \<le> 222 \<and> code c \<noteq> 215)
                   then char_of (code c + 32) else c)"

definition py_lower :: "string \<Rightarrow> string" where
  "py_lower s = map lower_char s"

section \<open>Stripping\<close>

definition lstrip_of :: "(char \<Rightarrow> bool) \<Rightarrow> string \<Rightarrow> string" where
  "lstrip_of P s = dropWhile P s"

definition rstrip_of :: "(char \<Rightarrow> bool) \<Rightarrow> string \<Rightarrow> string" where
  "rstrip_of P s = rev (dropWhile P (rev s))"

definition strip_of :: "(char \<Rightarrow> bool) \<Rightarrow> string \<Rightarrow> string" where
  "strip_of P s = rstrip_of P (lstrip_of P s)"

definition py_strip :: "string \<Rightarrow> string" where
  "py_strip s = strip_of py_isspace s"

lemma set_strip_of_subset: "set (strip_of P s) \<subseteq> set s"
  by (fastforce simp: strip_of_def rstrip_of_def lstrip_of_def dest: set_dropWhileD)

lemma rstrip_of_last: "rstrip_of P s \<noteq> [] \<Longrightarrow> \<not> P (last (rstrip_of P s))"
  by (simp add: rstrip_of_def last_rev hd_dropWhile)

lemma rstrip_of_hd: "rstrip_of P s \<noteq> [] \<Longrightarrow> hd (rstrip_of P s) = hd s"
proof -
  assume ne: "rstrip_of P s \<noteq> []"
  have "rev s = takeWhile P (rev s) @ dropWhile P (rev s)" by simp
  then have "s = rstrip_of P s @ rev (takeWhile P (rev s))"
    unfolding rstrip_of_def by (metis rev_append rev_rev_ident)
  with ne show ?thesis by (metis hd_append2)
qed

lemma strip_of_hd: "strip_of P s \<noteq> [] \<Longrightarrow> \<not> P (hd (strip_of P s))"
proof -
  assume ne: "strip_of P s \<noteq> []"
  then have "hd (strip_of P s) = hd (lstrip_of P s)"
    unfolding strip_of_def by (rule rstrip_of_hd)
  moreover have "lstrip_of P s \<noteq> []"
    using ne by (auto simp: strip_of_def rstrip_of_def)
  ultimately show ?thesis by (simp add: lstrip_of_def hd_dropWhile)
qed

lemma strip_of_last: "strip_of P s \<noteq> [] \<Longrightarrow> \<not> P (last (strip_of P s))"
  unfolding strip_of_def by (rule rstrip_of_last)

lemma strip_of_id:
  "s = [] \<or> (\<not> P (hd s) \<and> \<not> P (last s)) \<Longrightarrow> strip_of P s = s"
  by (cases s) (auto simp: strip_of_def rstrip_of_def lstrip_of_def dropWhile_eq_self_iff
      hd_append hd_rev split: if_splits)

section \<open>Splitting and joining\<close>

fun split_on :: "char \<Rightarrow> string \<Rightarrow> string list" where
  "split_on c [] = [[]]"
| "split_on c (x # xs) = (let r = split_on c xs in
     if x = c then [] # r else (x # hd r) # tl r)"

fun join_with :: "string \<Rightarrow> string list \<Rightarrow> string" where
  "join_with sep [] = []"
| "join_with sep [x] = x"
| "join_with sep (x # y # zs) = x @ sep @ join_with sep (y # zs)"

fun split_ws_aux :: "string \<Rightarrow> string \<Rightarrow> string list" where
  "split_ws_aux acc [] = (if acc = [] then [] else [rev acc])"
| "split_ws_aux acc (x # xs) =
     (if py_isspace x then (if acc = [] then [] else [rev acc]) @ split_ws_aux [] xs
      else split_ws_aux (x # acc) xs)"

definition py_split :: "string \<Rightarrow> string list" where
  "py_split s = split_ws_aux [] s"

definition partition_on :: "char \<Rightarrow> string \<Rightarrow> (string \<times> string) option" where
  "partition_on c s = (if c \<in> set s then Some (takeWhile (\<lambda>x. x \<noteq> c) s, tl (dropWhile (\<lambda>x. x \<noteq> c) s))
                       else None)"

definition is_linebreak :: "char \<Rightarrow> bool" where
  "is_linebreak c = (code c \<in> {10, 11, 12, 13, 28, 29, 30, 133})"

fun splitlines_aux :: "string \<Rightarrow> string \<Rightarrow> string list" where
  "splitlines_aux acc [] = (if acc = [] then [] else [rev acc])"
| "splitlines_aux acc [x] = (if is_linebreak x then [rev acc] else [rev (x # acc)])"
| "splitlines_aux acc (x # y # zs) =
     (if code x = 13 \<and> code y = 10 then rev acc # splitlines_aux [] zs
      else if is_linebreak x then rev acc # splitlines_aux [] (y # zs)
      else splitlines_aux (x # acc) (y # zs))"

definition py_splitlines :: "string \<Rightarrow> string list" where
  "py_splitlines s = splitlines_aux [] s"

fun strip_prefix :: "string \<Rightarrow> string \<Rightarrow> string option" where
  "strip_prefix [] s = Some s"
| "strip_prefix (p # ps) [] = None"
| "strip_prefix (p # ps) (x # xs) = (if p = x then strip_prefix ps xs else None)"

definition startswith :: "string \<Rightarrow> string \<Rightarrow> bool" where
  "startswith s p = (strip_prefix p s \<noteq> None)"

definition endswith :: "string \<Rightarrow> string \<Rightarrow> bool" where
  "endswith s p = (strip_prefix (rev p) (rev s) \<noteq> None)"

definition removesuffix :: "string \<Rightarrow> string \<Rightarrow> string" where
  "removesuffix s p = (if p \<noteq> [] \<and> endswith s p then take (length s - length p) s else s)"

fun contains_sub :: "string \<Rightarrow> string \<Rightarrow> bool" where
  "contains_sub p [] = (p = [])"
| "contains_sub p (x # xs) = (startswith (x # xs) p \<or> contains_sub p xs)"

lemma strip_prefix_Some_iff: "strip_prefix p s = Some r \<longleftrightarrow> s = p @ r"
  by (induction p s rule: strip_prefix.induct) auto

lemma strip_prefix_append [simp]: "strip_prefix p (p @ r) = Some r"
  by (simp add: strip_prefix_Some_iff)

lemma startswith_iff: "startswith s p \<longleftrightarrow> (\<exists>r. s = p @ r)"
  by (auto simp: startswith_def strip_prefix_Some_iff)

lemma split_on_ne [simp]: "split_on c s \<noteq> []"
  by (induction s) (auto simp: Let_def)

lemma join_split_on: "join_with [c] (split_on c s) = s"
proof (induction s)
  case Nil
  then show ?case by simp
next
  case (Cons x xs)
  obtain h t where r: "split_on c xs = h # t"
    by (cases "split_on c xs") auto
  show ?case
  proof (cases "x = c")
    case True
    with Cons r show ?thesis by simp
  next
    case False
    with Cons r show ?thesis by (cases t) auto
  qed
qed

lemma split_on_no_sep: "seg \<in> set (split_on c s) \<Longrightarrow> c \<notin> set seg"
proof (induction s arbitrary: seg)
  case Nil
  then show ?case by simp
next
  case (Cons x xs)
  obtain h t where r: "split_on c xs = h # t"
    by (cases "split_on c xs") auto
  have h: "c \<notin> set h" and t: "\<And>z. z \<in> set t \<Longrightarrow> c \<notin> set z"
    using Cons.IH by (auto simp: r)
  show ?case
  proof (cases "x = c")
    case True
    from Cons.prems r True have "seg = [] \<or> seg = h \<or> seg \<in> set t" by (simp add: Let_def)
    with h t show ?thesis by auto
  next
    case False
    from Cons.prems r False have "seg = x # h \<or> seg \<in> set t" by (simp add: Let_def)
    with h t False show ?thesis by auto
  qed
qed

lemma split_on_id: "c \<notin> set s \<Longrightarrow> split_on c s = [s]"
  by (induction s) (auto simp: Let_def)

lemma split_at_first: "c \<in> set s \<Longrightarrow> s = takeWhile (\<lambda>x. x \<noteq> c) s @ c # tl (dropWhile (\<lambda>x. x \<noteq> c) s)"
  by (induction s) auto

lemma partition_on_Some: "partition_on c s = Some (a, b) \<Longrightarrow> s = a @ c # b \<and> c \<notin> set a"
  using split_at_first [of c s] by (auto simp: partition_on_def split: if_splits dest: set_takeWhileD)

section \<open>Numbers\<close>

definition digit_val :: "char \<Rightarrow> nat" where
  "digit_val c = code c - 48"

definition digit_char :: "nat \<Rightarrow> char" where
  "digit_char d = char_of (48 + d)"

fun digits_val :: "nat \<Rightarrow> string \<Rightarrow> nat" where
  "digits_val acc [] = acc"
| "digits_val acc (c # cs) = digits_val (10 * acc + digit_val c) cs"

fun show_nat :: "nat \<Rightarrow> string" where
  "show_nat n = (if n < 10 then [digit_char n] else show_nat (n div 10) @ [digit_char (n mod 10)])"

declare show_nat.simps [simp del]

definition show_int :: "int \<Rightarrow> string" where
  "show_int i = (if i < 0 then CHR ''-'' # show_nat (nat (- i)) else show_nat (nat i))"

definition digit_groups :: "string \<Rightarrow> bool" where
  "digit_groups s = list_all (\<lambda>g. g \<noteq> [] \<and> list_all is_digit g) (split_on (CHR ''_'') s)"

definition drop_underscores :: "string \<Rightarrow> string" where
  "drop_underscores s = filter (\<lambda>c. c \<noteq> CHR ''_'') s"

definition py_nat_text :: "string \<Rightarrow> nat option" where
  "py_nat_text s = (if digit_groups s then Some (digits_val 0 (drop_underscores s)) else None)"

definition split_sign :: "string \<Rightarrow> bool \<times> string" where
  "split_sign s = (case s of
     c # r \<Rightarrow> if c = CHR ''-'' then (True, r) else if c = CHR ''+'' then (False, r) else (False, s)
   | [] \<Rightarrow> (False, []))"

definition py_int :: "string \<Rightarrow> int option" where
  "py_int s = (case split_sign (py_strip s) of (neg, body) \<Rightarrow>
     map_option (\<lambda>n. if neg then - int n else int n) (py_nat_text body))"

text \<open>\<open>float(text)\<close>: the finite values are kept exact, the special values are constructors.\<close>

datatype py_float = Fin rat | PosInf | NegInf | NaN

definition pow10 :: "int \<Rightarrow> rat" where
  "pow10 e = (if e < 0 then 1 / 10 ^ nat (- e) else 10 ^ nat e)"

definition mantissa_value :: "string \<Rightarrow> rat option" where
  "mantissa_value s = (case partition_on (CHR ''.'') s of
     None \<Rightarrow> map_option of_nat (py_nat_text s)
   | Some (ip, fp) \<Rightarrow>
       if ip = [] \<and> fp = [] then None
       else if (ip = [] \<or> digit_groups ip) \<and> (fp = [] \<or> digit_groups fp)
       then Some (of_nat (digits_val 0 (drop_underscores (ip @ fp)))
                  / 10 ^ length (drop_underscores fp))
       else None)"

definition exponent_value :: "string \<Rightarrow> int option" where
  "exponent_value s = (case split_sign s of (neg, body) \<Rightarrow>
     map_option (\<lambda>n. if neg then - int n else int n) (py_nat_text body))"

definition unsigned_float :: "string \<Rightarrow> py_float option" where
  "unsigned_float s = (let l = py_lower s in
     if l = ''inf'' \<or> l = ''infinity'' then Some PosInf
     else if l = ''nan'' then Some NaN
     else case partition_on (CHR ''e'') l of
       None \<Rightarrow> map_option Fin (mantissa_value l)
     | Some (m, e) \<Rightarrow> (case (mantissa_value m, exponent_value e) of
         (Some v, Some x) \<Rightarrow> Some (Fin (v * pow10 x)) | _ \<Rightarrow> None))"

definition negate_float :: "py_float \<Rightarrow> py_float" where
  "negate_float f = (case f of Fin v \<Rightarrow> Fin (- v) | PosInf \<Rightarrow> NegInf | NegInf \<Rightarrow> PosInf | NaN \<Rightarrow> NaN)"

definition py_float_of :: "string \<Rightarrow> py_float option" where
  "py_float_of s = (case split_sign (py_strip s) of (neg, body) \<Rightarrow>
     map_option (\<lambda>f. if neg then negate_float f else f) (unsigned_float body))"

text \<open>\<open>int(x)\<close> on a float truncates towards zero.\<close>

definition trunc_rat :: "rat \<Rightarrow> int" where
  "trunc_rat q = (if q < 0 then - \<lfloor>- q\<rfloor> else \<lfloor>q\<rfloor>)"

lemma code_digit_char [simp]: "d < 10 \<Longrightarrow> code (digit_char d) = 48 + d"
  by (simp add: code_def digit_char_def of_char_of)

lemma is_digit_digit_char [simp]: "d < 10 \<Longrightarrow> is_digit (digit_char d)"
  by (simp add: is_digit_def)

lemma digit_val_digit_char [simp]: "d < 10 \<Longrightarrow> digit_val (digit_char d) = d"
  by (simp add: digit_val_def)

lemma digits_val_append: "digits_val a (xs @ ys) = digits_val (digits_val a xs) ys"
  by (induction xs arbitrary: a) auto

lemma digits_val_show_nat: "digits_val 0 (show_nat n) = n"
proof (induction n rule: show_nat.induct)
  case (1 n)
  show ?case
  proof (cases "n < 10")
    case True
    then show ?thesis by (simp add: show_nat.simps [of n])
  next
    case False
    with 1 show ?thesis by (simp add: show_nat.simps [of n] digits_val_append)
  qed
qed

lemma show_nat_digits: "list_all is_digit (show_nat n)"
proof (induction n rule: show_nat.induct)
  case (1 n)
  then show ?case by (subst show_nat.simps) simp
qed

lemma show_nat_ne [simp]: "show_nat n \<noteq> []"
  by (subst show_nat.simps) simp

section \<open>Rounding\<close>

text \<open>\<open>round(x, n)\<close> rounds half to even; the value is kept exact.\<close>

definition round_half_even :: "rat \<Rightarrow> int" where
  "round_half_even q = (let f = \<lfloor>q\<rfloor>; d = q - of_int f in
     if d < 1 / 2 then f else if d > 1 / 2 then f + 1 else if even f then f else f + 1)"

definition py_round :: "rat \<Rightarrow> nat \<Rightarrow> rat" where
  "py_round q n = of_int (round_half_even (q * 10 ^ n)) / 10 ^ n"

lemma round_half_even_bounds:
  "q - 1 / 2 \<le> of_int (round_half_even q) \<and> of_int (round_half_even q) \<le> q + 1 / 2"
proof -
  have f: "of_int \<lfloor>q\<rfloor> \<le> q" "q < of_int \<lfloor>q\<rfloor> + 1" by linarith+
  have "round_half_even q = \<lfloor>q\<rfloor> \<and> q - of_int \<lfloor>q\<rfloor> \<le> 1 / 2 \<or>
        round_half_even q = \<lfloor>q\<rfloor> + 1 \<and> q - of_int \<lfloor>q\<rfloor> \<ge> 1 / 2"
    by (auto simp: round_half_even_def Let_def not_less)
  then show ?thesis
  proof (elim disjE conjE)
    assume "round_half_even q = \<lfloor>q\<rfloor>" "q - of_int \<lfloor>q\<rfloor> \<le> 1 / 2"
    with f show ?thesis by linarith
  next
    assume "round_half_even q = \<lfloor>q\<rfloor> + 1" "q - of_int \<lfloor>q\<rfloor> \<ge> 1 / 2"
    with f show ?thesis by linarith
  qed
qed

end
