(* ===== verification/Vocabulary.thy ===== *)
theory Vocabulary
  imports Py_Text
begin

text \<open>
  The closed vocabularies (\<open>agent/app/schemas/enums.py\<close>, \<open>backend/app/schemas/enums.py\<close>) and the
  two error hierarchies (\<open>core/errors.py\<close> of each half) with the HTTP status each error is
  answered with. An enum is a datatype with the source's members; its wire value is \<open>*_value\<close>.
  An error carries its detail text; texts the source interpolates are kept as their fixed part.
\<close>

section \<open>Agent vocabularies\<close>

datatype guest_type = VM | LXC

fun guest_type_value :: "guest_type \<Rightarrow> string" where
  "guest_type_value VM = ''vm''"
| "guest_type_value LXC = ''lxc''"

datatype backup_mode = SNAPSHOT | SUSPEND | STOP

fun backup_mode_value :: "backup_mode \<Rightarrow> string" where
  "backup_mode_value SNAPSHOT = ''snapshot''"
| "backup_mode_value SUSPEND = ''suspend''"
| "backup_mode_value STOP = ''stop''"

datatype compression = ZSTD | GZIP | LZO | NO_COMPRESSION

fun compression_value :: "compression \<Rightarrow> string" where
  "compression_value ZSTD = ''zstd''"
| "compression_value GZIP = ''gzip''"
| "compression_value LZO = ''lzo''"
| "compression_value NO_COMPRESSION = ''none''"

fun vzdump_value :: "compression \<Rightarrow> string" where
  "vzdump_value NO_COMPRESSION = ''0''"
| "vzdump_value ZSTD = ''zstd''"
| "vzdump_value GZIP = ''gzip''"
| "vzdump_value LZO = ''lzo''"

datatype task_kind = BACKUP | RESTORE_VM | RESTORE_LXC | UPLOAD | DOWNLOAD | VERIFY

datatype task_state = T_QUEUED | T_RUNNING | T_SUCCESS | T_FAILED | T_CANCELLED | T_INTERRUPTED

definition task_is_terminal :: "task_state \<Rightarrow> bool" where
  "task_is_terminal s = (s \<in> {T_SUCCESS, T_FAILED, T_CANCELLED, T_INTERRUPTED})"

lemma task_is_terminal_simps [simp]:
  "\<not> task_is_terminal T_QUEUED" "\<not> task_is_terminal T_RUNNING"
  "task_is_terminal T_SUCCESS" "task_is_terminal T_FAILED"
  "task_is_terminal T_CANCELLED" "task_is_terminal T_INTERRUPTED"
  by (simp_all add: task_is_terminal_def)

datatype verify_outcome = MATCH | SIZE_MISMATCH | HASH_MISMATCH | MISSING_REMOTE | HASH_UNAVAILABLE

definition outcome_verified :: "verify_outcome \<Rightarrow> bool" where
  "outcome_verified v = (v = MATCH)"

section \<open>Agent errors\<close>

datatype agent_error =
    ValidationFailed string
  | SchemaValidationFailed string
  | AuthenticationFailed string
  | ClientNotAllowed string
  | NotFound string
  | ConcurrencyConflict string
  | GuestLocked string
  | InsufficientStorage string
  | ExecutionFailed string

fun agent_status_code :: "agent_error \<Rightarrow> nat" where
  "agent_status_code (ValidationFailed _) = 400"
| "agent_status_code (SchemaValidationFailed _) = 422"
| "agent_status_code (AuthenticationFailed _) = 401"
| "agent_status_code (ClientNotAllowed _) = 403"
| "agent_status_code (NotFound _) = 404"
| "agent_status_code (ConcurrencyConflict _) = 409"
| "agent_status_code (GuestLocked _) = 423"
| "agent_status_code (InsufficientStorage _) = 507"
| "agent_status_code (ExecutionFailed _) = 500"

section \<open>Dashboard vocabularies\<close>

datatype user_role = VIEWER | OPERATOR | ADMIN

fun rank :: "user_role \<Rightarrow> nat" where
  "rank VIEWER = 0"
| "rank OPERATOR = 1"
| "rank ADMIN = 2"

lemma rank_inject: "rank a = rank b \<longleftrightarrow> a = b"
  by (cases a; cases b) simp_all

instantiation user_role :: linorder
begin

definition less_eq_user_role :: "user_role \<Rightarrow> user_role \<Rightarrow> bool" where
  "less_eq_user_role a b \<longleftrightarrow> rank a \<le> rank b"

definition less_user_role :: "user_role \<Rightarrow> user_role \<Rightarrow> bool" where
  "less_user_role a b \<longleftrightarrow> rank a < rank b"

instance
  by standard (auto simp: less_eq_user_role_def less_user_role_def rank_inject)

end

definition can_act_as :: "user_role \<Rightarrow> user_role \<Rightarrow> bool" where
  "can_act_as self required = (rank self \<ge> rank required)"

lemma can_act_as_le: "can_act_as self required \<longleftrightarrow> required \<le> self"
  by (simp add: can_act_as_def less_eq_user_role_def)

datatype guest_status = G_RUNNING | G_STOPPED | G_UNKNOWN

datatype trigger_type = SCHEDULE | MANUAL | API

datatype run_status = R_QUEUED | R_RUNNING | R_SUCCESS | R_PARTIAL | R_FAILED | R_CANCELLED
  | R_SKIPPED_AGENT_UNAVAILABLE

definition run_is_terminal :: "run_status \<Rightarrow> bool" where
  "run_is_terminal s = (s \<notin> {R_QUEUED, R_RUNNING})"

datatype backup_status = B_RUNNING | B_SUCCESS | B_FAILED | B_CANCELLED | B_INTERRUPTED | B_DELETED

definition backup_is_terminal :: "backup_status \<Rightarrow> bool" where
  "backup_is_terminal s = (s \<noteq> B_RUNNING)"

datatype upload_status = NOT_REQUIRED | PENDING | UPLOADING | UPLOADED | U_FAILED

fun upload_status_value :: "upload_status \<Rightarrow> string" where
  "upload_status_value NOT_REQUIRED = ''not_required''"
| "upload_status_value PENDING = ''pending''"
| "upload_status_value UPLOADING = ''uploading''"
| "upload_status_value UPLOADED = ''uploaded''"
| "upload_status_value U_FAILED = ''failed''"

datatype restore_source = SRC_LOCAL | SRC_GDRIVE

datatype restore_mode = ORIGINAL_ID | NEW_ID

datatype restore_status = PENDING_CONFIRMATION | CONFIRMED | RS_RUNNING | RS_SUCCESS | RS_FAILED
  | RS_CANCELLED | RS_INTERRUPTED | RS_EXPIRED

definition restore_is_terminal :: "restore_status \<Rightarrow> bool" where
  "restore_is_terminal s = (s \<notin> {PENDING_CONFIRMATION, CONFIRMED, RS_RUNNING})"

definition blocks_retention :: "restore_status \<Rightarrow> bool" where
  "blocks_retention s = (s \<in> {PENDING_CONFIRMATION, CONFIRMED, RS_RUNNING})"

lemma blocks_retention_iff_not_terminal: "blocks_retention s \<longleftrightarrow> \<not> restore_is_terminal s"
  by (simp add: blocks_retention_def restore_is_terminal_def)

datatype retention_action = EVALUATED | KEPT | DELETED_LOCAL | DELETED_REMOTE | SKIPPED | RA_FAILED

datatype notification_event = BACKUP_STARTED | BACKUP_SUCCESS | BACKUP_FAILED | RESTORE_STARTED
  | RESTORE_FINISHED | RESTORE_FAILED | UPLOAD_FAILED | RETENTION_DELETED | STORAGE_THRESHOLD | TEST

datatype notification_status = N_PENDING | N_SENT | N_FAILED | N_SUPPRESSED

definition notification_is_terminal :: "notification_status \<Rightarrow> bool" where
  "notification_is_terminal s = (s \<noteq> N_PENDING)"

section \<open>Dashboard errors\<close>

datatype app_error =
    App_ValidationFailed string
  | App_SchemaValidationFailed string
  | App_AuthenticationFailed string
  | App_PermissionDenied string
  | App_CsrfFailed string
  | App_NotFound string
  | App_Conflict string
  | App_AccountLocked string
  | App_RateLimited string int \<comment> \<open>detail, retry_after\<close>
  | App_ConfigurationError string
  | App_AgentUnavailable string
  | App_AgentError string "nat option" \<comment> \<open>detail, agent_status\<close>
  | App_UpstreamError string
  | App_TelegramError string bool "int option" \<comment> \<open>detail, retryable, retry_after\<close>
  | App_Internal string

fun app_status_code :: "app_error \<Rightarrow> nat" where
  "app_status_code (App_ValidationFailed _) = 400"
| "app_status_code (App_SchemaValidationFailed _) = 422"
| "app_status_code (App_AuthenticationFailed _) = 401"
| "app_status_code (App_PermissionDenied _) = 403"
| "app_status_code (App_CsrfFailed _) = 403"
| "app_status_code (App_NotFound _) = 404"
| "app_status_code (App_Conflict _) = 409"
| "app_status_code (App_AccountLocked _) = 423"
| "app_status_code (App_RateLimited _ _) = 429"
| "app_status_code (App_ConfigurationError _) = 500"
| "app_status_code (App_AgentUnavailable _) = 503"
| "app_status_code (App_AgentError _ _) = 502"
| "app_status_code (App_UpstreamError _) = 502"
| "app_status_code (App_TelegramError _ _ _) = 502"
| "app_status_code (App_Internal _) = 500"

fun app_detail :: "app_error \<Rightarrow> string" where
  "app_detail (App_ValidationFailed d) = d"
| "app_detail (App_SchemaValidationFailed d) = d"
| "app_detail (App_AuthenticationFailed d) = d"
| "app_detail (App_PermissionDenied d) = d"
| "app_detail (App_CsrfFailed d) = d"
| "app_detail (App_NotFound d) = d"
| "app_detail (App_Conflict d) = d"
| "app_detail (App_AccountLocked d) = d"
| "app_detail (App_RateLimited d _) = d"
| "app_detail (App_ConfigurationError d) = d"
| "app_detail (App_AgentUnavailable d) = d"
| "app_detail (App_AgentError d _) = d"
| "app_detail (App_UpstreamError d) = d"
| "app_detail (App_TelegramError d _ _) = d"
| "app_detail (App_Internal d) = d"

end
