(* ===== verification/Agent_Validators.thy ===== *)
theory Agent_Validators
  imports Vocabulary
begin

text \<open>
  \<open>agent/app/validators\<close>: everything that arrives from the network and could reach an argument
  list or the file system. A validator returns the value it accepted (\<open>Inr\<close>) or the error it
  raises (\<open>Inl\<close>). A path is the list of its components below the base; resolving symbolic links is
  the file system's and is the parameter \<open>resolve\<close>.
\<close>

section \<open>Flat file names (\<open>paths.py\<close>)\<close>

definition MAX_NAME_LENGTH :: nat where "MAX_NAME_LENGTH = 255"

definition FORBIDDEN_NAMES :: "string set" where "FORBIDDEN_NAMES = {'''', ''.'', ''..''}"

text \<open>\<open>Path(name).name\<close> for a name without a separator: the dot alone has no name.\<close>

definition path_name :: "string \<Rightarrow> string" where
  "path_name n = (let parts = filter (\<lambda>p. p \<noteq> [] \<and> p \<noteq> ''.'') (split_on (CHR ''/'') n)
     in if parts = [] then [] else last parts)"

definition validate_basename :: "string \<Rightarrow> agent_error + string" where
  "validate_basename n =
     (if n \<in> FORBIDDEN_NAMES \<or> py_strip n = [] then
        Inl (ValidationFailed ''Filename is empty or refers to a directory entry'')
      else if length n > MAX_NAME_LENGTH then Inl (ValidationFailed ''Filename is too long'')
      else if CHR ''/'' \<in> set n \<or> CHR 0x5C \<in> set n then
        Inl (ValidationFailed ''Filename must not contain a path separator'')
      else if NUL \<in> set n then Inl (ValidationFailed ''Filename must not contain a null byte'')
      else if list_ex is_control n then
        Inl (ValidationFailed ''Filename must not contain control characters'')
      else if startswith n ''-'' then Inl (ValidationFailed ''Filename must not start with -'')
      else if n \<noteq> path_name n then Inl (ValidationFailed ''Filename must be a plain basename'')
      else Inr n)"

type_synonym path = "string list"

definition is_relative_to :: "path \<Rightarrow> path \<Rightarrow> bool" where
  "is_relative_to p base = (take (length base) p = base)"

definition resolve_within :: "(path \<Rightarrow> path) \<Rightarrow> path \<Rightarrow> string \<Rightarrow> agent_error + path" where
  "resolve_within resolve base n =
     bindR (validate_basename n) (\<lambda>_.
       let resolved_base = resolve base;
           candidate = resolve (resolved_base @ [n])
       in if candidate = resolved_base \<or> \<not> is_relative_to candidate resolved_base
          then Inl (ValidationFailed ''Resolved path escapes the permitted base'')
          else Inr candidate)"

definition assert_within :: "(path \<Rightarrow> path) \<Rightarrow> path \<Rightarrow> path \<Rightarrow> agent_error + path" where
  "assert_within resolve base candidate =
     (let resolved_base = resolve base; resolved = resolve candidate
      in if \<not> is_relative_to resolved resolved_base
         then Inl (ValidationFailed ''Path escapes the permitted base'')
         else Inr resolved)"

lemma is_relative_to_iff: "is_relative_to p base \<longleftrightarrow> (\<exists>r. p = base @ r)"
  by (auto simp: is_relative_to_def) (metis append_take_drop_id)

lemma validate_basename_ok:
  "validate_basename n = Inr m \<longleftrightarrow>
   m = n \<and> n \<notin> FORBIDDEN_NAMES \<and> py_strip n \<noteq> [] \<and> length n \<le> MAX_NAME_LENGTH \<and>
   CHR ''/'' \<notin> set n \<and> CHR 0x5C \<notin> set n \<and> NUL \<notin> set n \<and> \<not> list_ex is_control n \<and>
   \<not> startswith n ''-'' \<and> n = path_name n"
  by (auto simp: validate_basename_def)

lemma path_name_no_slash:
  "CHR ''/'' \<notin> set n \<Longrightarrow> n \<noteq> [] \<Longrightarrow> n \<noteq> ''.'' \<Longrightarrow> path_name n = n"
  by (simp add: path_name_def split_on_id)

section \<open>Remote names and paths (\<open>remotes.py\<close>)\<close>

definition MAX_REMOTE_PATH_LENGTH :: nat where "MAX_REMOTE_PATH_LENGTH = 1024"

definition GLOB_CHARACTERS :: string where "GLOB_CHARACTERS = ''*?[]{}''"

definition remote_tail_char :: "char \<Rightarrow> bool" where
  "remote_tail_char c = (is_ascii_alnum c \<or> c \<in> set ''._-'')"

text \<open>The pattern \<open>\A[A-Za-z0-9][A-Za-z0-9._-]{0,63}\Z\<close>.\<close>

definition REMOTE_NAME_PATTERN :: "string \<Rightarrow> bool" where
  "REMOTE_NAME_PATTERN s = (case s of [] \<Rightarrow> False
     | c # r \<Rightarrow> is_ascii_alnum c \<and> list_all remote_tail_char r \<and> length r \<le> 63)"

definition validate_remote_name :: "string \<Rightarrow> string list \<Rightarrow> agent_error + string" where
  "validate_remote_name n allowed =
     (let cleaned = rstrip_of (\<lambda>c. c = CHR '':'') (py_strip n) in
      if \<not> REMOTE_NAME_PATTERN cleaned then
        Inl (ValidationFailed ''not a valid rclone remote name'')
      else if allowed \<noteq> [] \<and> cleaned \<notin> set allowed then
        Inl (ValidationFailed ''Remote is not in the allow-list of the agent'')
      else Inr cleaned)"

definition validate_remote_path :: "string \<Rightarrow> agent_error + string" where
  "validate_remote_path p =
     (if length p > MAX_REMOTE_PATH_LENGTH then Inl (ValidationFailed ''Remote path is too long'')
      else if NUL \<in> set p then Inl (ValidationFailed ''Remote path must not contain a null byte'')
      else if list_ex is_control p then
        Inl (ValidationFailed ''Remote path must not contain control characters'')
      else let cleaned = strip_of (\<lambda>c. c = CHR ''/'') (py_strip p) in
        if cleaned = [] then Inr []
        else if startswith cleaned ''-'' then
          Inl (ValidationFailed ''Remote path must not start with -'')
        else if CHR '':'' \<in> set cleaned then
          Inl (ValidationFailed ''Remote path must not contain a colon'')
        else if list_ex (\<lambda>c. c \<in> set cleaned) GLOB_CHARACTERS then
          Inl (ValidationFailed ''Remote path must not contain a filter character'')
        else if list_ex (\<lambda>seg. seg \<in> {'''', ''.'', ''..''}) (split_on (CHR ''/'') cleaned) then
          Inl (ValidationFailed ''Remote path segment is not allowed'')
        else Inr cleaned)"

definition build_remote_spec :: "string \<Rightarrow> string \<Rightarrow> string \<Rightarrow> string" where
  "build_remote_spec remote p filename =
     remote @ '':'' @ join_with ''/'' (filter (\<lambda>part. part \<noteq> []) [p, filename])"

lemma validate_remote_name_ok:
  "validate_remote_name n allowed = Inr r \<Longrightarrow>
   REMOTE_NAME_PATTERN r \<and> (allowed = [] \<or> r \<in> set allowed)"
  by (auto simp: validate_remote_name_def Let_def split: if_splits)

lemma remote_name_no_special:
  "REMOTE_NAME_PATTERN r \<Longrightarrow> CHR '':'' \<notin> set r \<and> CHR ''/'' \<notin> set r \<and> \<not> startswith r ''-'' \<and> NUL \<notin> set r"
proof -
  assume p: "REMOTE_NAME_PATTERN r"
  then obtain c t where r: "r = c # t" and c: "is_ascii_alnum c" and t: "list_all remote_tail_char t"
    by (auto simp: REMOTE_NAME_PATTERN_def split: list.splits)
  have "\<not> is_ascii_alnum (CHR '':'')" "\<not> is_ascii_alnum (CHR ''/'')" "\<not> is_ascii_alnum (CHR ''-'')"
    "\<not> is_ascii_alnum NUL" "\<not> remote_tail_char (CHR '':'')" "\<not> remote_tail_char (CHR ''/'')"
    "\<not> remote_tail_char NUL"
    by (simp_all add: remote_tail_char_def is_ascii_alnum_def is_digit_def is_lower_def is_upper_def
        code_def NUL_def)
  with r c t show ?thesis
    by (auto simp: list_all_iff startswith_iff)
qed

lemma validate_remote_path_ok:
  "validate_remote_path p = Inr r \<Longrightarrow> r \<noteq> [] \<Longrightarrow>
   \<not> startswith r ''-'' \<and> CHR '':'' \<notin> set r \<and> (\<forall>c \<in> set GLOB_CHARACTERS. c \<notin> set r) \<and>
   (\<forall>seg \<in> set (split_on (CHR ''/'') r). seg \<notin> {'''', ''.'', ''..''})"
  by (auto simp: validate_remote_path_def Let_def list_ex_iff split: if_splits)

lemma validate_remote_path_no_nul:
  "validate_remote_path p = Inr r \<Longrightarrow> NUL \<notin> set r \<and> \<not> list_ex is_control r"
proof -
  assume ok: "validate_remote_path p = Inr r"
  then have p: "NUL \<notin> set p" "\<not> list_ex is_control p"
    by (auto simp: validate_remote_path_def split: if_splits)
  from ok have "r = [] \<or> r = strip_of (\<lambda>c. c = CHR ''/'') (py_strip p)"
    by (auto simp: validate_remote_path_def Let_def split: if_splits)
  then have "set r \<subseteq> set p"
    using set_strip_of_subset [of "\<lambda>c. c = CHR ''/''" "py_strip p"]
      set_strip_of_subset [of py_isspace p] by (auto simp: py_strip_def)
  with p show ?thesis by (auto simp: list_ex_iff)
qed

section \<open>vzdump artifact names (\<open>artifacts.py\<close>)\<close>

text \<open>
  The regular expression is matched left to right: every alternative is decided by its first
  characters, so no backtracking is lost. \<open>$\<close> also matches before one trailing newline, as in
  Python.
\<close>

fun match_template :: "string \<Rightarrow> string \<Rightarrow> (string \<times> string) option" where
  "match_template [] s = Some ([], s)"
| "match_template (t # ts) [] = None"
| "match_template (t # ts) (c # cs) =
     (if (if t = CHR ''d'' then is_digit c else t = c)
      then map_option (\<lambda>(m, r). (c # m, r)) (match_template ts cs) else None)"

definition STAMP_TEMPLATE :: string where "STAMP_TEMPLATE = ''dddd_dd_dd-dd_dd_dd''"

definition at_end :: "string \<Rightarrow> bool" where
  "at_end s = (s = [] \<or> s = [NL])"

fun first_prefix :: "string list \<Rightarrow> string \<Rightarrow> (string \<times> string) option" where
  "first_prefix [] s = None"
| "first_prefix (p # ps) s = (case strip_prefix p s of
     Some r \<Rightarrow> Some (p, r) | None \<Rightarrow> first_prefix ps s)"

record artifact_match =
  m_kind :: string
  m_vmid :: string
  m_stamp :: string
  m_container :: string
  m_compression :: "string option"

definition match_suffix :: "string \<Rightarrow> string option option" where
  "match_suffix s = (case first_prefix [''.zst'', ''.gz'', ''.lzo''] s of
     Some (p, r) \<Rightarrow> if at_end r then Some (Some (tl p)) else None
   | None \<Rightarrow> if at_end s then Some None else None)"

definition match_vmid :: "string \<Rightarrow> (string \<times> string) option" where
  "match_vmid s = (let ds = takeWhile is_digit s in
     if 1 \<le> length ds \<and> length ds \<le> 9 then Some (ds, dropWhile is_digit s) else None)"

definition ARTIFACT_PATTERN :: "string \<Rightarrow> artifact_match option" where
  "ARTIFACT_PATTERN s =
     Option.bind (strip_prefix ''vzdump-'' s) (\<lambda>s1.
     Option.bind (first_prefix [''qemu'', ''lxc'', ''openvz''] s1) (\<lambda>(kind, s2).
     Option.bind (strip_prefix ''-'' s2) (\<lambda>s3.
     Option.bind (match_vmid s3) (\<lambda>(vmid, s4).
     Option.bind (strip_prefix ''-'' s4) (\<lambda>s5.
     Option.bind (match_template STAMP_TEMPLATE s5) (\<lambda>(stamp, s6).
     Option.bind (first_prefix [''.vma'', ''.tar''] s6) (\<lambda>(container, s7).
     map_option (\<lambda>comp. \<lparr>m_kind = kind, m_vmid = vmid, m_stamp = stamp,
                          m_container = tl container, m_compression = comp\<rparr>)
       (match_suffix s7))))))))"

type_synonym civil_time = "nat \<times> nat \<times> nat \<times> nat \<times> nat \<times> nat"

definition leap_year :: "nat \<Rightarrow> bool" where
  "leap_year y = (y mod 4 = 0 \<and> (y mod 100 \<noteq> 0 \<or> y mod 400 = 0))"

definition days_in_month :: "nat \<Rightarrow> nat \<Rightarrow> nat" where
  "days_in_month y m = (if m = 2 then (if leap_year y then 29 else 28)
                        else if m \<in> {4, 6, 9, 11} then 30 else 31)"

definition valid_civil :: "civil_time \<Rightarrow> bool" where
  "valid_civil t = (case t of (y, mo, d, h, mi, s) \<Rightarrow>
     1 \<le> y \<and> 1 \<le> mo \<and> mo \<le> 12 \<and> 1 \<le> d \<and> d \<le> days_in_month y mo \<and> h \<le> 23 \<and> mi \<le> 59 \<and> s \<le> 59)"

text \<open>\<open>datetime.strptime(stamp, "%Y_%m_%d-%H_%M_%S")\<close> on a stamp of the template's shape.\<close>

definition parse_stamp :: "string \<Rightarrow> civil_time option" where
  "parse_stamp s = (let num = (\<lambda>i n. digits_val 0 (take n (drop i s)));
       t = (num 0 4, num 5 2, num 8 2, num 11 2, num 14 2, num 17 2)
     in if valid_civil t then Some t else None)"

record artifact_name =
  filename :: string
  art_guest_type :: guest_type
  art_vmid :: nat
  created_at :: civil_time
  container_format :: string
  art_compression :: compression

definition KIND_TO_GUEST_TYPE :: "string \<Rightarrow> guest_type" where
  "KIND_TO_GUEST_TYPE k = (if k = ''qemu'' then VM else LXC)"

definition SUFFIX_TO_COMPRESSION :: "string option \<Rightarrow> compression" where
  "SUFFIX_TO_COMPRESSION s = (case s of None \<Rightarrow> NO_COMPRESSION
     | Some x \<Rightarrow> if x = ''zst'' then ZSTD else if x = ''gz'' then GZIP else LZO)"

definition parse_artifact_name :: "string \<Rightarrow> agent_error + artifact_name" where
  "parse_artifact_name s = (case ARTIFACT_PATTERN s of
     None \<Rightarrow> Inl (ValidationFailed ''not a vzdump artifact name; refusing to operate on it'')
   | Some m \<Rightarrow> (case parse_stamp (m_stamp m) of
       None \<Rightarrow> Inl (ValidationFailed ''carries an invalid timestamp'')
     | Some t \<Rightarrow> Inr \<lparr>filename = s, art_guest_type = KIND_TO_GUEST_TYPE (m_kind m),
         art_vmid = digits_val 0 (m_vmid m), created_at = t,
         container_format = m_container m,
         art_compression = SUFFIX_TO_COMPRESSION (m_compression m)\<rparr>))"

definition is_artifact_name :: "string \<Rightarrow> bool" where
  "is_artifact_name s = (ARTIFACT_PATTERN s \<noteq> None)"

fun before_sub :: "string \<Rightarrow> string \<Rightarrow> string" where
  "before_sub p [] = []"
| "before_sub p (x # xs) = (if startswith (x # xs) p then [] else x # before_sub p xs)"

definition stem :: "artifact_name \<Rightarrow> string" where
  "stem a = before_sub (''.'' @ container_format a) (filename a)"

text \<open>The directory is the predicate of the names that exist in it.\<close>

definition sidecar_paths :: "artifact_name \<Rightarrow> (string \<Rightarrow> bool) \<Rightarrow> string list" where
  "sidecar_paths a exists = filter exists
     [stem a @ ''.log'', filename a @ ''.notes'', filename a @ ''.sha256'',
      filename a @ ''.md5'', filename a @ ''.log'']"

section \<open>Guests and storages (\<open>identifiers.py\<close>)\<close>

definition VMID_MIN :: int where "VMID_MIN = 100"
definition VMID_MAX :: int where "VMID_MAX = 999999999"

record guest_ref =
  ref_vmid :: int
  ref_type :: guest_type

text \<open>\<open>conf_exists t v\<close> is whether \<open>/etc/pve/{qemu-server,lxc}/<v>.conf\<close> is a file.\<close>

record guest_locator =
  conf_exists :: "guest_type \<Rightarrow> int \<Rightarrow> bool"
  allowed_vmids :: "int list"

definition validate_vmid :: "guest_locator \<Rightarrow> int \<Rightarrow> agent_error + int" where
  "validate_vmid g v =
     (if \<not> (VMID_MIN \<le> v \<and> v \<le> VMID_MAX) then Inl (ValidationFailed ''VMID out of range'')
      else if allowed_vmids g \<noteq> [] \<and> v \<notin> set (allowed_vmids g) then
        Inl (ValidationFailed ''VMID is not in the allow-list of this agent'')
      else Inr v)"

definition find_guest :: "guest_locator \<Rightarrow> int \<Rightarrow> guest_ref option" where
  "find_guest g v = map_option (\<lambda>t. \<lparr>ref_vmid = v, ref_type = t\<rparr>)
     (find (\<lambda>t. conf_exists g t v) [VM, LXC])"

definition require_guest :: "guest_locator \<Rightarrow> int \<Rightarrow> guest_type \<Rightarrow> agent_error + guest_ref" where
  "require_guest g v t = bindR (validate_vmid g v) (\<lambda>_.
     case find_guest g v of
       None \<Rightarrow> Inl (NotFound ''No VM or container with this id exists on this host'')
     | Some f \<Rightarrow> if ref_type f \<noteq> t then Inl (ValidationFailed ''Guest is of the other type'')
                 else Inr f)"

definition require_absent :: "guest_locator \<Rightarrow> int \<Rightarrow> agent_error + unit" where
  "require_absent g v = bindR (validate_vmid g v) (\<lambda>_.
     case find_guest g v of None \<Rightarrow> Inr ()
     | Some _ \<Rightarrow> Inl (ValidationFailed ''VMID is already used; set overwrite to replace it''))"

record storage_validator =
  sv_allowed :: "string list"
  sv_ttl :: int
  sv_verify :: bool
  sv_cache :: "string list option"
  sv_cached_at :: clock

text \<open>
  \<open>live\<close> is what \<open>pvesm status\<close> answers if it is asked now. The second component is the
  validator after the call: only a fresh answer changes the cache.
\<close>

definition live_storages ::
  "storage_validator \<Rightarrow> clock \<Rightarrow> agent_error + string list \<Rightarrow>
   (agent_error + string list) \<times> storage_validator" where
  "live_storages v now live = (case sv_cache v of
     Some c \<Rightarrow> if now - sv_cached_at v < of_int (sv_ttl v) then (Inr c, v)
               else (case live of Inl e \<Rightarrow> (Inl e, v)
                     | Inr names \<Rightarrow> (Inr names, v\<lparr>sv_cache := Some names, sv_cached_at := now\<rparr>))
   | None \<Rightarrow> (case live of Inl e \<Rightarrow> (Inl e, v)
              | Inr names \<Rightarrow> (Inr names, v\<lparr>sv_cache := Some names, sv_cached_at := now\<rparr>)))"

definition invalidate :: "storage_validator \<Rightarrow> storage_validator" where
  "invalidate v = v\<lparr>sv_cache := None\<rparr>"

definition require_storage ::
  "storage_validator \<Rightarrow> clock \<Rightarrow> agent_error + string list \<Rightarrow> string \<Rightarrow>
   (agent_error + string) \<times> storage_validator" where
  "require_storage v now live s =
     (if s = [] \<or> py_strip s = [] then
        (Inl (ValidationFailed ''Storage identifier must not be empty''), v)
      else if \<not> list_all (\<lambda>c. py_isalnum c \<or> c \<in> set ''._-'') s then
        (Inl (ValidationFailed ''Storage identifier contains illegal characters''), v)
      else if startswith s ''-'' then
        (Inl (ValidationFailed ''Storage identifier must not start with -''), v)
      else if sv_allowed v \<noteq> [] \<and> s \<notin> set (sv_allowed v) then
        (Inl (ValidationFailed ''Storage is not in the allow-list of this agent''), v)
      else if sv_verify v then
        (case live_storages v now live of
           (Inl e, v') \<Rightarrow> (Inl e, v')
         | (Inr names, v') \<Rightarrow>
             if s \<notin> set names
             then (Inl (ValidationFailed ''Storage is not configured on this host''), v')
             else (Inr s, v'))
      else (Inr s, v))"

section \<open>Facts about the matchers\<close>

lemma match_template_Some:
  "match_template ts s = Some (m, r) \<Longrightarrow>
   s = m @ r \<and> length m = length ts \<and> (\<forall>c \<in> set m. is_digit c \<or> c \<in> set ts)"
proof (induction ts s arbitrary: m r rule: match_template.induct)
  case (3 t ts c cs)
  then obtain m' where "match_template ts cs = Some (m', r)" and m: "m = c # m'"
    and c: "is_digit c \<or> t = c"
    by (auto split: if_splits)
  with 3(1,2) have "cs = m' @ r \<and> length m' = length ts \<and> (\<forall>c \<in> set m'. is_digit c \<or> c \<in> set ts)"
    by (auto split: if_splits)
  with m c show ?case by auto
qed auto

lemma first_prefix_Some: "first_prefix ps s = Some (p, r) \<Longrightarrow> p \<in> set ps \<and> s = p @ r"
  by (induction ps) (auto simp: strip_prefix_Some_iff split: option.splits)

lemma match_vmid_Some:
  "match_vmid s = Some (ds, r) \<Longrightarrow> s = ds @ r \<and> list_all is_digit ds \<and> 1 \<le> length ds \<and> length ds \<le> 9"
  by (auto simp: match_vmid_def Let_def list_all_iff dest: set_takeWhileD split: if_splits)

lemma match_suffix_Some:
  "match_suffix s = Some c \<Longrightarrow>
   \<exists>p e. s = p @ e \<and> at_end e \<and> p \<in> {'''', ''.zst'', ''.gz'', ''.lzo''} \<and>
     c = (if p = [] then None else Some (tl p))"
proof -
  assume c: "match_suffix s = Some c"
  show ?thesis
  proof (cases "first_prefix [''.zst'', ''.gz'', ''.lzo''] s")
    case None
    with c have "at_end s" "c = None" by (auto simp: match_suffix_def split: if_splits)
    then show ?thesis by (intro exI [of _ "[]"] exI [of _ s]) simp
  next
    case (Some pr)
    obtain p r where pr: "pr = (p, r)" by (cases pr)
    from Some pr have "p \<in> set [''.zst'', ''.gz'', ''.lzo'']" and s: "s = p @ r"
      using first_prefix_Some by blast+
    with c Some pr show ?thesis
      by (intro exI [of _ p] exI [of _ r]) (auto simp: match_suffix_def split: if_splits)
  qed
qed

lemma ARTIFACT_PATTERN_Some:
  assumes "ARTIFACT_PATTERN s = Some m"
  obtains kind cont sfx e where
    "s = ''vzdump-'' @ kind @ ''-'' @ m_vmid m @ ''-'' @ m_stamp m @ cont @ sfx @ e"
    "kind \<in> {''qemu'', ''lxc'', ''openvz''}" "m_kind m = kind"
    "cont \<in> {''.vma'', ''.tar''}" "m_container m = tl cont"
    "sfx \<in> {'''', ''.zst'', ''.gz'', ''.lzo''}" "at_end e"
    "list_all is_digit (m_vmid m)" "1 \<le> length (m_vmid m)" "length (m_vmid m) \<le> 9"
    "length (m_stamp m) = 19" "\<forall>c \<in> set (m_stamp m). is_digit c \<or> c \<in> set STAMP_TEMPLATE"
proof -
  from assms obtain s1 kind s2 s3 vmid s4 s5 stamp s6 cont s7 comp where
      "strip_prefix ''vzdump-'' s = Some s1"
      "first_prefix [''qemu'', ''lxc'', ''openvz''] s1 = Some (kind, s2)"
      "strip_prefix ''-'' s2 = Some s3" "match_vmid s3 = Some (vmid, s4)"
      "strip_prefix ''-'' s4 = Some s5" "match_template STAMP_TEMPLATE s5 = Some (stamp, s6)"
      "first_prefix [''.vma'', ''.tar''] s6 = Some (cont, s7)" "match_suffix s7 = Some comp"
      and m: "m = \<lparr>m_kind = kind, m_vmid = vmid, m_stamp = stamp, m_container = tl cont,
                 m_compression = comp\<rparr>"
    unfolding ARTIFACT_PATTERN_def by (auto simp: bind_eq_Some_conv split: prod.splits)
  note p = this [unfolded strip_prefix_Some_iff]
  from match_suffix_Some [OF p(8)] obtain sfx e where
    s7: "s7 = sfx @ e" "at_end e" "sfx \<in> {'''', ''.zst'', ''.gz'', ''.lzo''}" by blast
  from p(1,3,5) first_prefix_Some [OF p(2)] match_vmid_Some [OF p(4)] match_template_Some [OF p(6)]
    first_prefix_Some [OF p(7)] s7 m
  show thesis
    by (intro that [of kind cont sfx e]) (auto simp: STAMP_TEMPLATE_def)
qed

definition artifact_char :: "char \<Rightarrow> bool" where
  "artifact_char c = (is_digit c \<or> is_lower c \<or> c \<in> set ''._-'')"

lemma artifact_char_code:
  "artifact_char c \<longleftrightarrow> (48 \<le> code c \<and> code c \<le> 57) \<or> (97 \<le> code c \<and> code c \<le> 122)
     \<or> c = CHR ''.'' \<or> c = CHR ''_'' \<or> c = CHR ''-''"
  by (auto simp: artifact_char_def is_digit_def is_lower_def)

lemma artifact_pattern_chars:
  assumes "ARTIFACT_PATTERN s = Some m"
  obtains core e where "s = core @ e" "at_end e" "list_all artifact_char core"
    "startswith core ''vzdump-''" "length core \<le> 52"
proof -
  from assms obtain kind cont sfx e where
    s: "s = ''vzdump-'' @ kind @ ''-'' @ m_vmid m @ ''-'' @ m_stamp m @ cont @ sfx @ e"
    and kind: "kind \<in> {''qemu'', ''lxc'', ''openvz''}"
    and cont: "cont \<in> {''.vma'', ''.tar''}"
    and sfx: "sfx \<in> {'''', ''.zst'', ''.gz'', ''.lzo''}"
    and e: "at_end e" and v: "list_all is_digit (m_vmid m)" "length (m_vmid m) \<le> 9"
    and st: "length (m_stamp m) = 19" "\<forall>c \<in> set (m_stamp m). is_digit c \<or> c \<in> set STAMP_TEMPLATE"
    by (rule ARTIFACT_PATTERN_Some)
  have "list_all artifact_char ''vzdump-''" "list_all artifact_char kind"
    "list_all artifact_char cont" "list_all artifact_char sfx" "list_all artifact_char STAMP_TEMPLATE"
    using kind cont sfx by (auto simp: artifact_char_def is_lower_def code_def STAMP_TEMPLATE_def)
  with v st have "list_all artifact_char (''vzdump-'' @ kind @ ''-'' @ m_vmid m @ ''-'' @ m_stamp m @ cont @ sfx)"
    by (auto simp: list_all_iff artifact_char_def)
  moreover have "length kind \<le> 6" "length cont = 4" "length sfx \<le> 4"
    using kind cont sfx by auto
  ultimately show thesis
    using s e v(2) st(1)
    by (intro that [of "''vzdump-'' @ kind @ ''-'' @ m_vmid m @ ''-'' @ m_stamp m @ cont @ sfx" e])
      (auto simp: startswith_def)
qed

lemma control_not_artifact_char: "artifact_char c \<Longrightarrow> \<not> is_control c"
  by (auto simp: artifact_char_code is_control_def code_def)

lemma is_control_NL: "is_control NL"
  by (simp add: is_control_def NL_def code_def)

lemma parse_artifact_name_Inr:
  "parse_artifact_name s = Inr a \<Longrightarrow>
   \<exists>m. ARTIFACT_PATTERN s = Some m \<and> filename a = s \<and> valid_civil (created_at a)"
  by (auto simp: parse_artifact_name_def parse_stamp_def Let_def split: option.splits if_splits)

section \<open>Round trip of artifact names\<close>

text \<open>
  The name vzdump gives an archive, as the comment above the pattern shows it, printed from its
  parts; parsing reads the parts back.
\<close>

definition pad2 :: "nat \<Rightarrow> string" where
  "pad2 n = [digit_char (n div 10 mod 10), digit_char (n mod 10)]"

definition stamp_text :: "civil_time \<Rightarrow> string" where
  "stamp_text t = (case t of (y, mo, d, h, mi, s) \<Rightarrow>
     pad2 (y div 100) @ pad2 (y mod 100) @ ''_'' @ pad2 mo @ ''_'' @ pad2 d @ ''-'' @
     pad2 h @ ''_'' @ pad2 mi @ ''_'' @ pad2 s)"

definition artifact_text :: "guest_type \<Rightarrow> nat \<Rightarrow> civil_time \<Rightarrow> compression \<Rightarrow> string" where
  "artifact_text g v t c =
     ''vzdump-'' @ (case g of VM \<Rightarrow> ''qemu'' | LXC \<Rightarrow> ''lxc'') @ ''-'' @ show_nat v @ ''-'' @
     stamp_text t @ (case g of VM \<Rightarrow> ''.vma'' | LXC \<Rightarrow> ''.tar'') @
     (case c of NO_COMPRESSION \<Rightarrow> '''' | ZSTD \<Rightarrow> ''.zst'' | GZIP \<Rightarrow> ''.gz'' | LZO \<Rightarrow> ''.lzo'')"

lemma digits_val_pad2: "n < 100 \<Longrightarrow> digits_val a (pad2 n) = 100 * a + n"
proof -
  assume n: "n < 100"
  then have "n div 10 mod 10 = n div 10" by simp
  moreover have "10 * (n div 10) + n mod 10 = n" by simp
  ultimately show ?thesis using n by (simp add: pad2_def)
qed

lemma length_show_nat: "n < 10 ^ k \<Longrightarrow> 0 < k \<Longrightarrow> length (show_nat n) \<le> k"
proof (induction n arbitrary: k rule: show_nat.induct)
  case (1 n)
  show ?case
  proof (cases "n < 10")
    case True
    with "1.prems" show ?thesis by (simp add: show_nat.simps [of n])
  next
    case False
    with "1.prems" obtain j where k: "k = Suc j" "0 < j"
      by (cases k; cases "k - 1") auto
    from "1.prems"(1) k have "n < 10 * 10 ^ j" by simp
    then have "n div 10 < 10 ^ j" by (simp add: less_mult_imp_div_less mult.commute)
    from "1.IH" [OF False this k(2)] show ?thesis
      using False k by (simp add: show_nat.simps [of n])
  qed
qed

lemma takeWhile_digits_show_nat:
  "\<not> is_digit c \<Longrightarrow> takeWhile is_digit (show_nat v @ c # r) = show_nat v"
  "\<not> is_digit c \<Longrightarrow> dropWhile is_digit (show_nat v @ c # r) = c # r"
  using show_nat_digits [of v] by (auto simp: list_all_iff takeWhile_append2 dropWhile_append2)

lemma is_digit_mod [simp]: "is_digit (digit_char (n mod 10))"
  by simp

lemma not_digit_dash [simp]: "\<not> is_digit (CHR ''-'')"
  by (simp add: is_digit_def code_def)

lemma match_template_stamp:
  "match_template STAMP_TEMPLATE (stamp_text t @ r) = Some (stamp_text t, r)"
  by (cases t) (simp add: STAMP_TEMPLATE_def stamp_text_def pad2_def del: mod_less)

lemma parse_stamp_text:
  assumes v: "valid_civil t" and y: "fst t \<le> 9999"
  shows "parse_stamp (stamp_text t) = Some t"
proof -
  obtain yy mo d h mi s where t: "t = (yy, mo, d, h, mi, s)" by (cases t) auto
  from v t have b: "mo < 100" "h < 100" "mi < 100" "s < 100"
    by (auto simp: valid_civil_def)
  from v t have d: "d < 100"
    by (auto simp: valid_civil_def days_in_month_def split: if_splits)
  have l: "length (pad2 n) = 2" for n by (simp add: pad2_def)
  from y t have yy: "yy div 100 < 100" by auto
  have "digits_val 0 (take 4 (stamp_text t)) = yy"
    by (simp add: t stamp_text_def l digits_val_append digits_val_pad2 yy)
  moreover have "digits_val 0 (take 2 (drop 5 (stamp_text t))) = mo"
    "digits_val 0 (take 2 (drop 8 (stamp_text t))) = d"
    "digits_val 0 (take 2 (drop 11 (stamp_text t))) = h"
    "digits_val 0 (take 2 (drop 14 (stamp_text t))) = mi"
    "digits_val 0 (take 2 (drop 17 (stamp_text t))) = s"
    by (simp_all add: t stamp_text_def l digits_val_pad2 b d)
  ultimately show ?thesis
    using v by (simp add: parse_stamp_def Let_def t)
qed

lemma match_vmid_show:
  "v < 1000000000 \<Longrightarrow> match_vmid (show_nat v @ CHR ''-'' # r) = Some (show_nat v, CHR ''-'' # r)"
  using length_show_nat [of v 9]
  by (simp add: match_vmid_def takeWhile_digits_show_nat Suc_le_eq)

lemma artifact_pattern_text:
  assumes "v < 1000000000"
  shows "ARTIFACT_PATTERN (artifact_text g v t c) = Some
    \<lparr>m_kind = (case g of VM \<Rightarrow> ''qemu'' | LXC \<Rightarrow> ''lxc''), m_vmid = show_nat v,
     m_stamp = stamp_text t, m_container = (case g of VM \<Rightarrow> ''vma'' | LXC \<Rightarrow> ''tar''),
     m_compression = (case c of NO_COMPRESSION \<Rightarrow> None | ZSTD \<Rightarrow> Some ''zst''
       | GZIP \<Rightarrow> Some ''gz'' | LZO \<Rightarrow> Some ''lzo'')\<rparr>"
  using match_vmid_show [OF assms]
  by (cases g; cases c)
    (simp_all add: ARTIFACT_PATTERN_def artifact_text_def match_template_stamp match_suffix_def at_end_def)

section \<open>Properties\<close>

text \<open>
  Containment: whatever the file system resolves symbolic links to, a name that
  \<open>resolve_within\<close> accepts denotes an entry strictly below the resolved root, and the name itself
  is flat: no separator, no control byte, no leading dash.
\<close>

theorem resolve_within_contained:
  assumes "resolve_within resolve base n = Inr p"
  shows "(\<exists>r. r \<noteq> [] \<and> p = resolve base @ r) \<and> CHR ''/'' \<notin> set n \<and> CHR 0x5C \<notin> set n \<and>
    \<not> list_ex is_control n \<and> \<not> startswith n ''-'' \<and> n \<noteq> ''..''"
proof -
  from assms have v: "validate_basename n = Inr n" and ne: "p \<noteq> resolve base"
    and rel: "is_relative_to p (resolve base)"
    by (auto simp: resolve_within_def Let_def result_simps validate_basename_ok)
  from rel obtain r where "p = resolve base @ r" by (auto simp: is_relative_to_iff)
  with ne v show ?thesis by (auto simp: validate_basename_ok FORBIDDEN_NAMES_def)
qed

theorem resolve_within_contained_witness:
  "resolve_within (\<lambda>p. p) [''mnt'', ''dump''] ''a.vma'' = Inr [''mnt'', ''dump'', ''a.vma''] \<and>
   (\<exists>r. r \<noteq> [] \<and> [''mnt'', ''dump'', ''a.vma''] = [''mnt'', ''dump''] @ r)"
proof -
  have h: "resolve_within (\<lambda>p. p) [''mnt'', ''dump''] ''a.vma'' = Inr [''mnt'', ''dump'', ''a.vma'']"
    by code_simp
  show ?thesis using h resolve_within_contained [OF h] by simp
qed

text \<open>
  Every name vzdump prints for a guest below 10^9, a real date and any compression is parsed
  back to exactly its parts, and its \<open>stem\<close> is the name without container and compression.
\<close>

theorem artifact_name_roundtrip:
  assumes "v < 1000000000" and "valid_civil t" and "fst t \<le> 9999"
  shows "parse_artifact_name (artifact_text g v t c) = Inr
    \<lparr>filename = artifact_text g v t c, art_guest_type = g, art_vmid = v, created_at = t,
     container_format = (case g of VM \<Rightarrow> ''vma'' | LXC \<Rightarrow> ''tar''), art_compression = c\<rparr>"
  using artifact_pattern_text [OF assms(1), of g t c] parse_stamp_text [OF assms(2,3)]
  by (cases g; cases c)
    (simp_all add: parse_artifact_name_def KIND_TO_GUEST_TYPE_def SUFFIX_TO_COMPRESSION_def
      digits_val_show_nat)

theorem artifact_name_roundtrip_witness:
  "artifact_text VM 101 (2026, 7, 19, 1, 0, 4) ZSTD = ''vzdump-qemu-101-2026_07_19-01_00_04.vma.zst'' \<and>
   parse_artifact_name (artifact_text VM 101 (2026, 7, 19, 1, 0, 4) ZSTD) = Inr
    \<lparr>filename = artifact_text VM 101 (2026, 7, 19, 1, 0, 4) ZSTD, art_guest_type = VM,
     art_vmid = 101, created_at = (2026, 7, 19, 1, 0, 4), container_format = ''vma'',
     art_compression = ZSTD\<rparr>"
proof -
  have t: "artifact_text VM 101 (2026, 7, 19, 1, 0, 4) ZSTD = ''vzdump-qemu-101-2026_07_19-01_00_04.vma.zst''"
    by code_simp
  have v: "valid_civil (2026, 7, 19, 1, 0, 4)" by code_simp
  show ?thesis
    using t artifact_name_roundtrip [of 101 "(2026, 7, 19, 1, 0, 4)" VM ZSTD] v by simp
qed

text \<open>
  A remote specification built from validated parts is read by rclone as exactly that remote:
  the part before the first colon is the validated (and, with an allow-list, permitted) remote, and
  no segment of the rest climbs out of the folder or is empty, as long as a file is named.
\<close>

theorem remote_spec_unambiguous:
  assumes "validate_remote_name n allowed = Inr remote" and "validate_remote_path p = Inr path"
    and "validate_basename file = Inr f" and "CHR '':'' \<notin> set f"
  shows "partition_on (CHR '':'') (build_remote_spec remote path f) =
      Some (remote, join_with ''/'' (filter (\<lambda>x. x \<noteq> []) [path, f])) \<and>
    (allowed \<noteq> [] \<longrightarrow> remote \<in> set allowed) \<and>
    (\<forall>seg \<in> set (split_on (CHR ''/'') path). path \<noteq> [] \<longrightarrow> seg \<notin> {'''', ''.'', ''..''})"
proof -
  from validate_remote_name_ok [OF assms(1)] have r: "REMOTE_NAME_PATTERN remote"
    and al: "allowed = [] \<or> remote \<in> set allowed" by auto
  from remote_name_no_special [OF r] have nc: "CHR '':'' \<notin> set remote" by simp
  then have "takeWhile (\<lambda>x. x \<noteq> CHR '':'') (remote @ CHR '':'' # rest) = remote"
    "dropWhile (\<lambda>x. x \<noteq> CHR '':'') (remote @ CHR '':'' # rest) = CHR '':'' # rest" for rest
    by (induction remote) auto
  with al validate_remote_path_ok [OF assms(2)] show ?thesis
    by (auto simp: partition_on_def build_remote_spec_def)
qed

theorem remote_spec_unambiguous_witness:
  "partition_on (CHR '':'') (build_remote_spec ''gdrive'' ''proxsync/dump'' ''a.vma'') =
     Some (''gdrive'', ''proxsync/dump/a.vma'')"
proof -
  have h: "validate_remote_name ''gdrive:'' [''gdrive''] = Inr ''gdrive''"
    "validate_remote_path ''/proxsync/dump/'' = Inr ''proxsync/dump''"
    "validate_basename ''a.vma'' = Inr ''a.vma''" by code_simp+
  show ?thesis using remote_spec_unambiguous [OF h] by simp
qed

end
