(* ===== verification/Agent_Tasks.thy ===== *)
theory Agent_Tasks
  imports Vocabulary "HOL-Library.AList"
begin

text \<open>
  \<open>agent/app/core/concurrency.py\<close> and \<open>agent/app/tasks\<close>: the concurrency slots, the task record
  with its JSON form, and the registry with its on-disk journal. Python dicts are association lists
  in insertion order. A disk write takes the boolean outcome of the write as an argument.
\<close>

section \<open>Concurrency slots\<close>

datatype slot_error = SlotBusyError string nat | SlotKeyError string

record slot_manager =
  sl_capacity :: "(string \<times> nat) list"
  sl_in_use :: "string \<Rightarrow> nat"

record slot_state =
  ss_name :: string
  ss_in_use :: nat
  ss_capacity :: nat

definition slot_available :: "slot_state \<Rightarrow> int" where
  "slot_available s = int (ss_capacity s) - int (ss_in_use s)"

definition new_slots :: "(string \<times> nat) list \<Rightarrow> slot_manager" where
  "new_slots capacities = \<lparr>sl_capacity = capacities, sl_in_use = (\<lambda>_. 0)\<rparr>"

definition try_acquire :: "slot_manager \<Rightarrow> string \<Rightarrow> slot_error + slot_manager" where
  "try_acquire m n = (case map_of (sl_capacity m) n of
     None \<Rightarrow> Inl (SlotKeyError n)
   | Some capacity \<Rightarrow>
       if sl_in_use m n \<ge> capacity then Inl (SlotBusyError n capacity)
       else Inr (m\<lparr>sl_in_use := (sl_in_use m)(n := sl_in_use m n + 1)\<rparr>))"

definition release :: "slot_manager \<Rightarrow> string \<Rightarrow> slot_manager" where
  "release m n = (if sl_in_use m n > 0
     then m\<lparr>sl_in_use := (sl_in_use m)(n := sl_in_use m n - 1)\<rparr> else m)"

text \<open>\<open>with slots.hold(name): body\<close>; the body may raise, and does not touch the slot itself.\<close>

definition hold :: "slot_manager \<Rightarrow> string \<Rightarrow> (slot_manager \<Rightarrow> ('e + 'a) \<times> slot_manager) \<Rightarrow>
    (slot_error + ('e + 'a)) \<times> slot_manager" where
  "hold m n body = (case try_acquire m n of
     Inl e \<Rightarrow> (Inl e, m)
   | Inr m1 \<Rightarrow> (case body m1 of (r, m2) \<Rightarrow> (Inr r, release m2 n)))"

definition slots_state :: "slot_manager \<Rightarrow> slot_state list" where
  "slots_state m = map (\<lambda>(n, cap). \<lparr>ss_name = n, ss_in_use = sl_in_use m n, ss_capacity = cap\<rparr>)
     (sl_capacity m)"

definition slots_wf :: "slot_manager \<Rightarrow> bool" where
  "slots_wf m = list_all (\<lambda>(n, cap). sl_in_use m n \<le> cap) (sl_capacity m)"

lemma slots_wf_new: "slots_wf (new_slots caps)"
  by (auto simp: slots_wf_def new_slots_def list_all_iff)

lemma try_acquire_Inr:
  "try_acquire m n = Inr m' \<longleftrightarrow> (\<exists>cap. map_of (sl_capacity m) n = Some cap \<and> sl_in_use m n < cap \<and>
     m' = m\<lparr>sl_in_use := (sl_in_use m)(n := sl_in_use m n + 1)\<rparr>)"
  by (auto simp: try_acquire_def split: option.splits if_splits)

lemma slots_wf_acquire:
  "slots_wf m \<Longrightarrow> distinct (map fst (sl_capacity m)) \<Longrightarrow> try_acquire m n = Inr m' \<Longrightarrow> slots_wf m'"
proof -
  assume wf: "slots_wf m" and d: "distinct (map fst (sl_capacity m))" and a: "try_acquire m n = Inr m'"
  from a obtain cap where c: "map_of (sl_capacity m) n = Some cap" "sl_in_use m n < cap"
    and m': "m' = m\<lparr>sl_in_use := (sl_in_use m)(n := sl_in_use m n + 1)\<rparr>"
    by (auto simp: try_acquire_Inr)
  have "sl_in_use m' k \<le> cp" if k: "(k, cp) \<in> set (sl_capacity m)" for k cp
  proof (cases "k = n")
    case True
    with k d c(1) have "cp = cap" by (metis map_of_is_SomeI option.inject)
    with c(2) m' True show ?thesis by simp
  next
    case False
    with wf k m' show ?thesis by (auto simp: slots_wf_def list_all_iff)
  qed
  with m' show "slots_wf m'" by (auto simp: slots_wf_def list_all_iff)
qed

lemma slots_wf_release: "slots_wf m \<Longrightarrow> slots_wf (release m n)"
  by (fastforce simp: release_def slots_wf_def list_all_iff)

text \<open>
  What the services use of the slots: a successful acquisition adds one holder below the capacity,
  a release removes one. A service that acquires, works and releases leaves the count as it was.
\<close>

locale slot_provider =
  fixes acquire :: "'s \<Rightarrow> string \<Rightarrow> 'e + 's"
    and give_back :: "'s \<Rightarrow> string \<Rightarrow> 's"
    and holders :: "'s \<Rightarrow> string \<Rightarrow> nat"
    and limit :: "'s \<Rightarrow> string \<Rightarrow> nat"
  assumes acquire_adds: "acquire s n = Inr s' \<Longrightarrow> holders s' n = Suc (holders s n)"
    and acquire_below: "acquire s n = Inr s' \<Longrightarrow> holders s n < limit s n"
    and acquire_others: "acquire s n = Inr s' \<Longrightarrow> m \<noteq> n \<Longrightarrow> holders s' m = holders s m"
    and acquire_limit: "acquire s n = Inr s' \<Longrightarrow> limit s' = limit s"
    and release_removes: "holders (give_back s n) n = holders s n - 1"
    and release_others: "m \<noteq> n \<Longrightarrow> holders (give_back s n) m = holders s m"
    and release_limit: "limit (give_back s n) = limit s"
begin

lemma acquire_release: "acquire s n = Inr s' \<Longrightarrow> holders (give_back s' n) m = holders s m"
  by (cases "m = n") (auto simp: release_removes release_others acquire_adds acquire_others)

lemma full_refuses: "limit s n \<le> holders s n \<Longrightarrow> \<exists>e. acquire s n = Inl e"
  using acquire_below by (cases "acquire s n") fastforce+

fun acquire_times :: "nat \<Rightarrow> 's \<Rightarrow> string \<Rightarrow> 'e + 's" where
  "acquire_times 0 s n = Inr s"
| "acquire_times (Suc k) s n = bindR (acquire s n) (\<lambda>s'. acquire_times k s' n)"

lemma acquire_times_bound:
  "acquire_times k s n = Inr s' \<Longrightarrow> holders s n \<le> limit s n \<Longrightarrow> holders s n + k \<le> limit s n"
proof (induction k arbitrary: s)
  case (Suc k)
  then obtain t where t: "acquire s n = Inr t" and r: "acquire_times k t n = Inr s'"
    by (auto simp: result_simps)
  from Suc.IH [OF r] acquire_adds [OF t] acquire_below [OF t] acquire_limit [OF t]
  show ?case by auto
qed simp

end

definition slot_limit :: "slot_manager \<Rightarrow> string \<Rightarrow> nat" where
  "slot_limit m n = (case map_of (sl_capacity m) n of None \<Rightarrow> 0 | Some c \<Rightarrow> c)"

interpretation slots: slot_provider try_acquire release sl_in_use slot_limit
  by unfold_locales (auto simp: try_acquire_Inr release_def slot_limit_def fun_eq_iff)

section \<open>Task records and their JSON form\<close>

text \<open>
  A JSON value. A time is kept as the moment it denotes: \<open>datetime.isoformat\<close> and
  \<open>datetime.fromisoformat\<close> are inverse in the standard library.
\<close>

datatype jval = JNull | JBool bool | JInt int | JNum rat | JStr string | JTime datetime
  | JList "jval list" | JDict "(string \<times> jval) list"

fun truthy :: "jval \<Rightarrow> bool" where
  "truthy JNull = False"
| "truthy (JBool b) = b"
| "truthy (JInt i) = (i \<noteq> 0)"
| "truthy (JNum q) = (q \<noteq> 0)"
| "truthy (JStr s) = (s \<noteq> [])"
| "truthy (JTime _) = True"
| "truthy (JList xs) = (xs \<noteq> [])"
| "truthy (JDict d) = (d \<noteq> [])"

type_synonym jdict = "(string \<times> jval) list"

definition jget :: "jdict \<Rightarrow> string \<Rightarrow> jval" where
  "jget d k = (case map_of d k of None \<Rightarrow> JNull | Some v \<Rightarrow> v)"

definition jopt :: "('a \<Rightarrow> jval) \<Rightarrow> 'a option \<Rightarrow> jval" where
  "jopt f x = (case x of None \<Rightarrow> JNull | Some v \<Rightarrow> f v)"

fun as_int :: "jval \<Rightarrow> int option" where
  "as_int (JInt i) = Some i"
| "as_int _ = None"

fun as_num :: "jval \<Rightarrow> rat option" where
  "as_num (JNum q) = Some q"
| "as_num (JInt i) = Some (of_int i)"
| "as_num _ = None"

fun as_str :: "jval \<Rightarrow> string option" where
  "as_str (JStr s) = Some s"
| "as_str _ = None"

fun as_dict :: "jval \<Rightarrow> jdict" where
  "as_dict (JDict d) = d"
| "as_dict _ = []"

record task_progress =
  percent :: "rat option"
  bytes_done :: "int option"
  bytes_total :: "int option"
  rate_bps :: "int option"
  eta_seconds :: "int option"
  message :: "string option"

definition no_progress :: task_progress where
  "no_progress = \<lparr>percent = None, bytes_done = None, bytes_total = None, rate_bps = None,
     eta_seconds = None, message = None\<rparr>"

definition progress_as_dict :: "task_progress \<Rightarrow> jdict" where
  "progress_as_dict p = [(''percent'', jopt JNum (percent p)), (''bytes_done'', jopt JInt (bytes_done p)),
     (''bytes_total'', jopt JInt (bytes_total p)), (''rate_bps'', jopt JInt (rate_bps p)),
     (''eta_seconds'', jopt JInt (eta_seconds p)), (''message'', jopt JStr (message p))]"

definition progress_from_dict :: "jdict \<Rightarrow> task_progress" where
  "progress_from_dict d = (if d = [] then no_progress else
     \<lparr>percent = as_num (jget d ''percent''), bytes_done = as_int (jget d ''bytes_done''),
      bytes_total = as_int (jget d ''bytes_total''), rate_bps = as_int (jget d ''rate_bps''),
      eta_seconds = as_int (jget d ''eta_seconds''), message = as_str (jget d ''message'')\<rparr>)"

record task =
  tk_id :: string
  tk_kind :: task_kind
  tk_state :: task_state
  tk_log_path :: string
  tk_created_at :: datetime
  tk_started_at :: "datetime option"
  tk_finished_at :: "datetime option"
  tk_pid :: "int option"
  tk_exit_code :: "int option"
  tk_error :: "string option"
  tk_correlation_id :: "string option"
  tk_progress :: task_progress
  tk_result :: jdict
  tk_meta :: jdict

definition task_duration_seconds :: "datetime \<Rightarrow> task \<Rightarrow> rat option" where
  "task_duration_seconds now t = (case tk_started_at t of None \<Rightarrow> None
     | Some s \<Rightarrow> let e = (case tk_finished_at t of Some f \<Rightarrow> f | None \<Rightarrow> now)
                 in Some (py_round (of_int (e - s) / 1000000) 3))"

fun task_kind_value :: "task_kind \<Rightarrow> string" where
  "task_kind_value BACKUP = ''backup''"
| "task_kind_value RESTORE_VM = ''restore_vm''"
| "task_kind_value RESTORE_LXC = ''restore_lxc''"
| "task_kind_value UPLOAD = ''upload''"
| "task_kind_value DOWNLOAD = ''download''"
| "task_kind_value VERIFY = ''verify''"

fun task_state_value :: "task_state \<Rightarrow> string" where
  "task_state_value T_QUEUED = ''queued''"
| "task_state_value T_RUNNING = ''running''"
| "task_state_value T_SUCCESS = ''success''"
| "task_state_value T_FAILED = ''failed''"
| "task_state_value T_CANCELLED = ''cancelled''"
| "task_state_value T_INTERRUPTED = ''interrupted''"

definition task_kind_of :: "jval \<Rightarrow> task_kind option" where
  "task_kind_of v = find (\<lambda>k. v = JStr (task_kind_value k))
     [BACKUP, RESTORE_VM, RESTORE_LXC, UPLOAD, DOWNLOAD, VERIFY]"

definition task_state_of :: "jval \<Rightarrow> task_state option" where
  "task_state_of v = find (\<lambda>k. v = JStr (task_state_value k))
     [T_QUEUED, T_RUNNING, T_SUCCESS, T_FAILED, T_CANCELLED, T_INTERRUPTED]"

definition task_as_dict :: "datetime \<Rightarrow> task \<Rightarrow> jdict" where
  "task_as_dict now t =
     [(''id'', JStr (tk_id t)), (''kind'', JStr (task_kind_value (tk_kind t))),
      (''state'', JStr (task_state_value (tk_state t))), (''log_path'', JStr (tk_log_path t)),
      (''created_at'', JTime (tk_created_at t)), (''started_at'', jopt JTime (tk_started_at t)),
      (''finished_at'', jopt JTime (tk_finished_at t)),
      (''duration_seconds'', jopt JNum (task_duration_seconds now t)),
      (''pid'', jopt JInt (tk_pid t)), (''exit_code'', jopt JInt (tk_exit_code t)),
      (''error'', jopt JStr (tk_error t)), (''correlation_id'', jopt JStr (tk_correlation_id t)),
      (''progress'', JDict (progress_as_dict (tk_progress t))),
      (''result'', JDict (tk_result t)), (''meta'', JDict (tk_meta t))]"

text \<open>\<open>_parse_dt\<close>: a falsy value is no time; text that is no time raises ValueError (\<open>None\<close>).\<close>

definition parse_dt :: "jval \<Rightarrow> datetime option option" where
  "parse_dt v = (if \<not> truthy v then Some None
     else case v of JTime t \<Rightarrow> Some (Some t) | _ \<Rightarrow> None)"

text \<open>\<open>Task.from_dict\<close>; \<open>None\<close> is the KeyError or ValueError \<open>load\<close> catches.\<close>

definition task_from_dict :: "datetime \<Rightarrow> jdict \<Rightarrow> task option" where
  "task_from_dict now d =
     Option.bind (parse_dt (jget d ''created_at'')) (\<lambda>created.
     Option.bind (map_of d ''id'') (\<lambda>i.
     Option.bind (as_str i) (\<lambda>i.
     Option.bind (Option.bind (map_of d ''kind'') task_kind_of) (\<lambda>k.
     Option.bind (Option.bind (map_of d ''state'') task_state_of) (\<lambda>s.
     Option.bind (Option.bind (map_of d ''log_path'') as_str) (\<lambda>l.
     Option.bind (parse_dt (jget d ''started_at'')) (\<lambda>started.
     Option.bind (parse_dt (jget d ''finished_at'')) (\<lambda>finished.
     Some \<lparr>tk_id = i, tk_kind = k, tk_state = s, tk_log_path = l,
       tk_created_at = (case created of None \<Rightarrow> now | Some c \<Rightarrow> c),
       tk_started_at = started, tk_finished_at = finished, tk_pid = as_int (jget d ''pid''),
       tk_exit_code = as_int (jget d ''exit_code''), tk_error = as_str (jget d ''error''),
       tk_correlation_id = as_str (jget d ''correlation_id''),
       tk_progress = progress_from_dict (as_dict (jget d ''progress'')),
       tk_result = as_dict (jget d ''result''), tk_meta = as_dict (jget d ''meta'')\<rparr>))))))))"

lemma task_kind_of_value [simp]: "task_kind_of (JStr (task_kind_value k)) = Some k"
  by (cases k) (simp_all add: task_kind_of_def)

lemma task_state_of_value [simp]: "task_state_of (JStr (task_state_value s)) = Some s"
  by (cases s) (simp_all add: task_state_of_def)

lemma as_jopt [simp]: "as_int (jopt JInt x) = x" "as_str (jopt JStr y) = y" "as_num (jopt JNum z) = z"
  by (simp_all add: jopt_def split: option.split)

lemma parse_dt_simps [simp]:
  "parse_dt (JTime t) = Some (Some t)" "parse_dt (jopt JTime x) = Some x"
  by (simp_all add: parse_dt_def jopt_def split: option.split)

lemma progress_roundtrip [simp]: "progress_from_dict (progress_as_dict p) = p"
  by (simp add: progress_from_dict_def progress_as_dict_def jget_def)

lemma task_roundtrip: "task_from_dict now' (task_as_dict now t) = Some t"
  by (simp add: task_from_dict_def task_as_dict_def jget_def)

section \<open>The registry\<close>

text \<open>
  \<open>rg_journal\<close> is the journal directory: the JSON of each task file, by task id. A handle is the
  process handle a service attached to a task.
\<close>

record 'h registry =
  rg_tasks :: "(string \<times> task) list"
  rg_handles :: "string \<Rightarrow> 'h option"
  rg_journal :: "string \<Rightarrow> jdict option"
  rg_log_dir :: string
  rg_retention :: int \<comment> \<open>microseconds\<close>

definition empty_registry :: "string \<Rightarrow> int \<Rightarrow> 'h registry" where
  "empty_registry log_dir retention_hours = \<lparr>rg_tasks = [], rg_handles = (\<lambda>_. None),
     rg_journal = (\<lambda>_. None), rg_log_dir = log_dir, rg_retention = seconds (retention_hours * 3600)\<rparr>"

text \<open>The atomic replace: a write that fails leaves the old file (\<open>ok = False\<close>).\<close>

definition persist :: "bool \<Rightarrow> datetime \<Rightarrow> task \<Rightarrow> 'h registry \<Rightarrow> 'h registry" where
  "persist ok now t r = (if ok
     then r\<lparr>rg_journal := (rg_journal r)(tk_id t \<mapsto> task_as_dict now t)\<rparr> else r)"

definition put_task :: "task \<Rightarrow> 'h registry \<Rightarrow> 'h registry" where
  "put_task t r = r\<lparr>rg_tasks := AList.update (tk_id t) t (rg_tasks r)\<rparr>"

definition find_task :: "'h registry \<Rightarrow> string \<Rightarrow> task option" where
  "find_task r i = map_of (rg_tasks r) i"

definition get_task :: "'h registry \<Rightarrow> string \<Rightarrow> agent_error + task" where
  "get_task r i = (case find_task r i of None \<Rightarrow> Inl (NotFound ''No task with this id'') | Some t \<Rightarrow> Inr t)"

definition list_tasks :: "'h registry \<Rightarrow> task_kind option \<Rightarrow> task_state option \<Rightarrow> task list" where
  "list_tasks r kind state = sort_key (\<lambda>t. - tk_created_at t)
     (filter (\<lambda>t. (kind = None \<or> kind = Some (tk_kind t)) \<and> (state = None \<or> state = Some (tk_state t)))
       (map snd (rg_tasks r)))"

definition active_count :: "'h registry \<Rightarrow> task_kind \<Rightarrow> nat" where
  "active_count r kind = length (filter (\<lambda>t. tk_kind t = kind \<and> tk_state t \<in> {T_QUEUED, T_RUNNING})
     (map snd (rg_tasks r)))"

text \<open>\<open>create\<close>: \<open>uuid\<close> is the value \<open>uuid.uuid4\<close> gives.\<close>

definition create_task ::
  "bool \<Rightarrow> datetime \<Rightarrow> string \<Rightarrow> task_kind \<Rightarrow> string option \<Rightarrow> jdict \<Rightarrow> 'h registry \<Rightarrow> task \<times> 'h registry" where
  "create_task ok now uuid kind correlation_id meta r =
     (let t = \<lparr>tk_id = uuid, tk_kind = kind, tk_state = T_QUEUED,
          tk_log_path = rg_log_dir r @ ''/'' @ uuid @ ''.log'', tk_created_at = now,
          tk_started_at = None, tk_finished_at = None, tk_pid = None, tk_exit_code = None,
          tk_error = None, tk_correlation_id = correlation_id, tk_progress = no_progress,
          tk_result = [], tk_meta = meta\<rparr>
      in (t, persist ok now t (put_task t r)))"

definition attach_handle :: "string \<Rightarrow> 'h \<Rightarrow> 'h registry \<Rightarrow> 'h registry" where
  "attach_handle i h r = r\<lparr>rg_handles := (rg_handles r)(i \<mapsto> h)\<rparr>"

definition handle_of :: "'h registry \<Rightarrow> string \<Rightarrow> 'h option" where
  "handle_of r i = rg_handles r i"

definition mark_running :: "bool \<Rightarrow> datetime \<Rightarrow> task \<Rightarrow> int option \<Rightarrow> 'h registry \<Rightarrow> task \<times> 'h registry" where
  "mark_running ok now t pid r =
     (let t' = t\<lparr>tk_state := T_RUNNING,
          tk_started_at := (case tk_started_at t of None \<Rightarrow> Some now | Some s \<Rightarrow> Some s), tk_pid := pid\<rparr>
      in (t', persist ok now t' (put_task t' r)))"

definition update_progress ::
  "bool \<Rightarrow> datetime \<Rightarrow> task \<Rightarrow> task_progress \<Rightarrow> bool \<Rightarrow> 'h registry \<Rightarrow> task \<times> 'h registry" where
  "update_progress ok now t p durable r = (let t' = t\<lparr>tk_progress := p\<rparr>; r' = put_task t' r
     in (t', if durable then persist ok now t' r' else r'))"

definition dict_update :: "jdict \<Rightarrow> jdict \<Rightarrow> jdict" where
  "dict_update d e = foldl (\<lambda>acc (k, v). AList.update k v acc) d e"

definition finish_task ::
  "bool \<Rightarrow> datetime \<Rightarrow> task \<Rightarrow> task_state \<Rightarrow> int option \<Rightarrow> string option \<Rightarrow> jdict \<Rightarrow> 'h registry \<Rightarrow>
   task \<times> 'h registry" where
  "finish_task ok now t state exit_code err result r =
     (let t' = t\<lparr>tk_state := state, tk_exit_code := exit_code, tk_error := err,
          tk_finished_at := Some now, tk_pid := None,
          tk_result := (if result = [] then tk_result t else dict_update (tk_result t) result)\<rparr>;
        r1 = put_task t' r;
        r2 = r1\<lparr>rg_handles := (rg_handles r1)(tk_id t' := None)\<rparr>
      in (t', persist ok now t' r2))"

definition RESTART_MESSAGE :: string where
  "RESTART_MESSAGE = ''The agent restarted while this task was running; its outcome is unknown. '' @
     ''Inspect the task log and the backup storage before retrying.''"

definition interrupt_task :: "datetime \<Rightarrow> task \<Rightarrow> task" where
  "interrupt_task now t = t\<lparr>tk_state := T_INTERRUPTED, tk_finished_at := Some now,
     tk_error := Some RESTART_MESSAGE\<rparr>"

text \<open>
  \<open>load\<close>: \<open>files\<close> are the journal files in name order, \<open>None\<close> for one that cannot be read as
  JSON. Unreadable files are skipped; the count is the number of tasks loaded.
\<close>

fun load_tasks :: "bool \<Rightarrow> datetime \<Rightarrow> jdict option list \<Rightarrow> 'h registry \<Rightarrow> nat \<times> 'h registry" where
  "load_tasks ok now [] r = (0, r)"
| "load_tasks ok now (f # fs) r =
     (case Option.bind f (task_from_dict now) of
        None \<Rightarrow> load_tasks ok now fs r
      | Some t \<Rightarrow>
          let (t', r1) = (if tk_state t \<in> {T_RUNNING, T_QUEUED}
                          then let u = interrupt_task now t in (u, persist ok now u r) else (t, r));
              (n, r2) = load_tasks ok now fs (put_task t' r1)
          in (Suc n, r2))"

definition prunable :: "datetime \<Rightarrow> 'h registry \<Rightarrow> task \<Rightarrow> bool" where
  "prunable now r t = (task_is_terminal (tk_state t) \<and>
     (case tk_finished_at t of Some f \<Rightarrow> f | None \<Rightarrow> tk_created_at t) < now - rg_retention r)"

definition prune :: "datetime \<Rightarrow> 'h registry \<Rightarrow> nat \<times> 'h registry" where
  "prune now r = (let gone = map fst (filter (\<lambda>(i, t). prunable now r t) (rg_tasks r)) in
     (length gone,
      r\<lparr>rg_tasks := filter (\<lambda>(i, t). \<not> prunable now r t) (rg_tasks r),
        rg_handles := (\<lambda>i. if i \<in> set gone then None else rg_handles r i),
        rg_journal := (\<lambda>i. if i \<in> set gone then None else rg_journal r i)\<rparr>))"

section \<open>Registry facts\<close>

definition registry_wf :: "'h registry \<Rightarrow> bool" where
  "registry_wf r = (distinct (map fst (rg_tasks r)) \<and> list_all (\<lambda>(i, t). tk_id t = i) (rg_tasks r))"

text \<open>Every task known to the registry has its current record in the journal.\<close>

definition journal_current :: "'h registry \<Rightarrow> string \<Rightarrow> bool" where
  "journal_current r i = (\<forall>t. find_task r i = Some t \<longrightarrow>
     (\<exists>d. rg_journal r i = Some d \<and> (\<forall>now. task_from_dict now d = Some t)))"

lemma find_put_task [simp]: "find_task (put_task t r) i = (if i = tk_id t then Some t else find_task r i)"
  by (simp add: find_task_def put_task_def update_conv)

lemma find_persist [simp]: "find_task (persist ok now t r) i = find_task r i"
  by (simp add: find_task_def persist_def)

lemma tasks_persist [simp]: "rg_tasks (persist ok now t r) = rg_tasks r"
  by (simp add: persist_def)

lemma update_subset: "set (AList.update k v al) \<subseteq> insert (k, v) (set al)"
  by (induction al) auto

lemma registry_wf_put: "registry_wf r \<Longrightarrow> registry_wf (put_task t r)"
  using update_subset [of "tk_id t" t "rg_tasks r"]
  by (auto simp: registry_wf_def put_task_def distinct_update list_all_iff)

lemma registry_wf_persist [simp]: "registry_wf (persist ok now t r) = registry_wf r"
  by (simp add: registry_wf_def)

lemma find_task_id: "registry_wf r \<Longrightarrow> find_task r i = Some t \<Longrightarrow> tk_id t = i"
  by (auto simp: registry_wf_def find_task_def list_all_iff dest: map_of_SomeD)

lemma journal_persist [simp]:
  "rg_journal (persist ok now t r) = (if ok then (rg_journal r)(tk_id t \<mapsto> task_as_dict now t) else rg_journal r)"
  by (simp add: persist_def)

lemma journal_put [simp]: "rg_journal (put_task t r) = rg_journal r"
  by (simp add: put_task_def)

lemma journal_current_store:
  "tk_id t = i \<Longrightarrow> journal_current (persist True now t (put_task t r)) i"
  by (simp add: journal_current_def task_roundtrip)

lemma journal_current_store_other:
  "tk_id t \<noteq> i \<Longrightarrow> journal_current (persist ok now t (put_task t r)) i = journal_current r i"
  by (simp add: journal_current_def)

lemma handles_irrelevant [simp]:
  "find_task (r\<lparr>rg_handles := h\<rparr>) i = find_task r i"
  "persist ok now t (r\<lparr>rg_handles := h\<rparr>) = (persist ok now t r)\<lparr>rg_handles := h\<rparr>"
  "registry_wf (r\<lparr>rg_handles := h\<rparr>) = registry_wf r"
  "journal_current (r\<lparr>rg_handles := h\<rparr>) i = journal_current r i"
  "rg_tasks (r\<lparr>rg_handles := h\<rparr>) = rg_tasks r"
  "rg_journal (r\<lparr>rg_handles := h\<rparr>) = rg_journal r"
  by (simp_all add: find_task_def persist_def registry_wf_def journal_current_def)

section \<open>Runs of the registry\<close>

text \<open>The transitions the services perform on one task, with durable writes.\<close>

datatype reg_op =
    Create string task_kind "string option" jdict
  | Start string "int option"
  | Finish string task_state "int option" "string option" jdict

definition reg_step :: "datetime \<Rightarrow> reg_op \<Rightarrow> 'h registry \<Rightarrow> 'h registry" where
  "reg_step now op r = (case op of
     Create uuid k c m \<Rightarrow> snd (create_task True now uuid k c m r)
   | Start i pid \<Rightarrow> (case find_task r i of None \<Rightarrow> r | Some t \<Rightarrow> snd (mark_running True now t pid r))
   | Finish i s x e res \<Rightarrow>
       (case find_task r i of None \<Rightarrow> r | Some t \<Rightarrow> snd (finish_task True now t s x e res r)))"

fun reg_run :: "(datetime \<times> reg_op) list \<Rightarrow> 'h registry \<Rightarrow> 'h registry" where
  "reg_run [] r = r"
| "reg_run ((now, op) # ops) r = reg_run ops (reg_step now op r)"

definition durable :: "'h registry \<Rightarrow> bool" where
  "durable r = (registry_wf r \<and> (\<forall>i. journal_current r i))"

lemma durable_store: "durable r \<Longrightarrow> durable (persist True now t (put_task t r))"
  unfolding durable_def
  using journal_current_store journal_current_store_other
  by (metis registry_wf_persist registry_wf_put)

lemma durable_handles [simp]: "durable (r\<lparr>rg_handles := h\<rparr>) = durable r"
  by (simp add: durable_def)

lemma durable_step: "durable r \<Longrightarrow> durable (reg_step now op r)"
  by (cases op)
    (auto simp: reg_step_def create_task_def mark_running_def finish_task_def Let_def durable_store
      split: option.split)

lemma durable_run: "durable r \<Longrightarrow> durable (reg_run ops r)"
  by (induction ops r rule: reg_run.induct) (auto simp: durable_step)

lemma durable_empty: "durable (empty_registry d h)"
  by (simp add: durable_def registry_wf_def journal_current_def empty_registry_def find_task_def)

definition recovered :: "datetime \<Rightarrow> task \<Rightarrow> task" where
  "recovered now t = (if tk_state t \<in> {T_RUNNING, T_QUEUED} then interrupt_task now t else t)"

lemma tk_id_recovered [simp]: "tk_id (recovered now t) = tk_id t"
  by (simp add: recovered_def interrupt_task_def)

lemma recovered_terminal [simp]: "task_is_terminal (tk_state (recovered now t))"
  by (cases "tk_state t") (simp_all add: recovered_def interrupt_task_def)

lemma load_step:
  "task_from_dict now d = Some t \<Longrightarrow> \<exists>r'. load_tasks ok now (Some d # fs) r =
     (Suc (fst (load_tasks ok now fs r')), snd (load_tasks ok now fs r')) \<and>
     rg_tasks r' = AList.update (tk_id t) (recovered now t) (rg_tasks r)"
  by (rule exI [of _ "put_task (recovered now t)
        (if tk_state t \<in> {T_RUNNING, T_QUEUED} then persist ok now (recovered now t) r else r)"])
    (auto simp: recovered_def put_task_def interrupt_task_def persist_def Let_def split: prod.split)

lemma load_find:
  assumes "distinct ids"
    and "\<And>i. i \<in> set ids \<Longrightarrow> \<exists>d t. J i = Some d \<and> task_from_dict now d = Some t \<and> tk_id t = i \<and> T i = Some t"
  shows "fst (load_tasks ok now (map J ids) r) = length ids \<and>
    find_task (snd (load_tasks ok now (map J ids) r)) i =
      (if i \<in> set ids then map_option (recovered now) (T i) else find_task r i)"
  using assms
proof (induction ids arbitrary: r)
  case (Cons j ids)
  from Cons.prems(2) [of j] obtain d t where d: "J j = Some d" "task_from_dict now d = Some t"
    and t: "tk_id t = j" "T j = Some t" by auto
  from load_step [OF d(2), of ok "map J ids" r] obtain r' where
    l: "load_tasks ok now (Some d # map J ids) r =
      (Suc (fst (load_tasks ok now (map J ids) r')), snd (load_tasks ok now (map J ids) r'))"
    and r': "rg_tasks r' = AList.update (tk_id t) (recovered now t) (rg_tasks r)" by blast
  have f: "find_task r' i = (if i = j then Some (recovered now t) else find_task r i)"
    using t(1) by (simp add: find_task_def r' update_conv)
  from Cons.IH [of r'] Cons.prems l d t f show ?case by auto
qed simp


lemma load_all_terminal:
  "\<forall>t \<in> snd ` set (rg_tasks r). task_is_terminal (tk_state t) \<Longrightarrow>
   \<forall>t \<in> snd ` set (rg_tasks (snd (load_tasks ok now fs r))). task_is_terminal (tk_state t)"
proof (induction fs arbitrary: r)
  case (Cons f fs)
  show ?case
  proof (cases "Option.bind f (task_from_dict now)")
    case None
    with Cons show ?thesis by simp
  next
    case (Some t)
    then obtain d where f: "f = Some d" "task_from_dict now d = Some t"
      by (auto simp: bind_eq_Some_conv)
    from load_step [OF f(2), of ok fs r] obtain r' where
      l: "load_tasks ok now (Some d # fs) r =
        (Suc (fst (load_tasks ok now fs r')), snd (load_tasks ok now fs r'))"
      and r': "rg_tasks r' = AList.update (tk_id t) (recovered now t) (rg_tasks r)" by blast
    have "\<forall>u \<in> snd ` set (rg_tasks r'). task_is_terminal (tk_state u)"
      using Cons.prems update_subset [of "tk_id t" "recovered now t" "rg_tasks r"]
      by (fastforce simp: r')
    from Cons.IH [OF this] show ?thesis by (simp only: f l snd_conv)
  qed
qed simp

lemma map_of_filter_val:
  "distinct (map fst al) \<Longrightarrow> map_of (filter (\<lambda>(i, t). \<not> P t) al) i =
     (case map_of al i of None \<Rightarrow> None | Some t \<Rightarrow> if P t then None else Some t)"
proof (induction al)
  case (Cons kv al)
  obtain k v where kv: "kv = (k, v)" by (cases kv)
  from Cons.prems kv have "map_of al k = None" by (simp add: map_of_eq_None_iff)
  with Cons kv show ?case by auto
qed simp

lemma prune_find:
  "registry_wf r \<Longrightarrow> find_task (snd (prune now r)) i =
     (case find_task r i of None \<Rightarrow> None | Some t \<Rightarrow> if prunable now r t then None else Some t)"
  by (simp add: find_task_def prune_def Let_def registry_wf_def map_of_filter_val)

section \<open>Properties\<close>

datatype slot_op = Acquire string | Release string

fun slot_step :: "slot_manager \<Rightarrow> slot_op \<Rightarrow> slot_manager" where
  "slot_step m (Acquire n) = (case try_acquire m n of Inl _ \<Rightarrow> m | Inr m' \<Rightarrow> m')"
| "slot_step m (Release n) = release m n"

lemma slot_step_capacity: "sl_capacity (slot_step m x) = sl_capacity m"
  by (cases x) (auto simp: release_def try_acquire_Inr split: sum.split)

lemma slots_run_wf:
  "slots_wf m \<Longrightarrow> distinct (map fst (sl_capacity m)) \<Longrightarrow>
   slots_wf (foldl slot_step m ops) \<and> sl_capacity (foldl slot_step m ops) = sl_capacity m"
proof (induction ops arbitrary: m)
  case (Cons x xs)
  from Cons.prems have "slots_wf (slot_step m x)"
    by (cases x) (auto simp: slots_wf_release split: sum.split intro: slots_wf_acquire)
  with Cons show ?case by (simp add: slot_step_capacity)
qed simp

text \<open>
  Slots never exceed their capacity: after any sequence of acquisitions and releases on a fresh
  slot manager with distinct names, every slot the state report lists is within its capacity, and
  \<open>k\<close> further acquisitions in a row succeed only if the slot has room for them.
\<close>

theorem slots_never_over_capacity:
  fixes ops :: "slot_op list" and caps :: "(string \<times> nat) list"
  assumes "distinct (map fst caps)"
  defines "m \<equiv> foldl slot_step (new_slots caps) ops"
  shows "(\<forall>s \<in> set (slots_state m). 0 \<le> slot_available s) \<and>
    (\<forall>n k m'. slots.acquire_times k m n = Inr m' \<longrightarrow> n \<in> fst ` set caps \<longrightarrow>
       sl_in_use m n + k \<le> slot_limit m n)"
proof -
  have r: "slots_wf m" "sl_capacity m = caps"
    unfolding m_def using slots_run_wf [OF slots_wf_new, of caps ops] assms(1)
    by (auto simp: new_slots_def)
  have lim: "sl_in_use m n \<le> slot_limit m n" if "n \<in> fst ` set caps" for n
  proof -
    from that obtain c where c: "map_of caps n = Some c"
      by (metis map_of_eq_None_iff not_None_eq)
    with r show ?thesis by (auto simp: slots_wf_def list_all_iff slot_limit_def dest: map_of_SomeD)
  qed
  from r have "\<forall>s \<in> set (slots_state m). 0 \<le> slot_available s"
    by (auto simp: slots_state_def slot_available_def slots_wf_def list_all_iff)
  with lim show ?thesis by (auto intro: slots.acquire_times_bound)
qed

theorem slots_never_over_capacity_witness:
  "list_all (\<lambda>s. 0 \<le> slot_available s) (slots_state (foldl slot_step (new_slots [(''backup'', 1)])
     [Acquire ''backup'', Acquire ''backup'', Release ''backup'', Acquire ''backup'']))"
  using slots_never_over_capacity [of "[(''backup'', 1)]"
    "[Acquire ''backup'', Acquire ''backup'', Release ''backup'', Acquire ''backup'']"] by (simp add: list_all_iff)

text \<open>
  C38. Restart recovery: run the registry through any sequence of create, start and finish with
  durable journal writes, stop the agent, and load the journal. Every task is back; one that had
  reached a terminal state is exactly as it was, and one that was queued or running is now
  \<open>interrupted\<close> with the restart message. Nothing loaded is left active.
\<close>

theorem restart_recovers_journal:
  fixes ops :: "(datetime \<times> reg_op) list" and d :: string and h now :: int and ok :: bool
  defines "r \<equiv> reg_run ops (empty_registry d h :: 'h registry)"
  defines "r' \<equiv> snd (load_tasks ok now (map (rg_journal r) (map fst (rg_tasks r)))
                    (empty_registry d h :: 'h registry))"
  shows "find_task r' i = map_option (recovered now) (find_task r i) \<and>
    (\<forall>t \<in> snd ` set (rg_tasks r'). task_is_terminal (tk_state t))"
proof -
  have dur: "durable r" unfolding r_def by (rule durable_run [OF durable_empty])
  then have wf: "registry_wf r" by (simp add: durable_def)
  then have dist: "distinct (map fst (rg_tasks r))" by (simp add: registry_wf_def)
  have e: "find_task (empty_registry d h) i = None" "rg_tasks (empty_registry d h) = []"
    by (simp_all add: empty_registry_def find_task_def)
  have known: "\<exists>x t. rg_journal r j = Some x \<and> task_from_dict now x = Some t \<and> tk_id t = j \<and>
      find_task r j = Some t" if j: "j \<in> set (map fst (rg_tasks r))" for j
  proof -
    from j obtain t where t: "find_task r j = Some t"
      unfolding find_task_def by (metis list.set_map map_of_eq_None_iff not_None_eq)
    from dur t obtain x where "rg_journal r j = Some x" "\<forall>now. task_from_dict now x = Some t"
      unfolding durable_def journal_current_def by blast
    with t find_task_id [OF wf t] show ?thesis by blast
  qed
  have absent: "i \<notin> set (map fst (rg_tasks r)) \<Longrightarrow> find_task r i = None"
    by (simp add: find_task_def map_of_eq_None_iff)
  from load_find [OF dist known, of ok "empty_registry d h" i] e(1) absent
  have "find_task r' i = map_option (recovered now) (find_task r i)"
    unfolding r'_def by (auto split: if_splits)
  moreover have "\<forall>t \<in> snd ` set (rg_tasks r'). task_is_terminal (tk_state t)"
    unfolding r'_def by (rule load_all_terminal) (simp add: e)
  ultimately show ?thesis by simp
qed

definition demo_registry :: "unit registry" where
  "demo_registry = reg_run [(0, Create ''a'' BACKUP None []), (0, Start ''a'' None)] (empty_registry ''/log'' 1)"

lemma demo_registry_task: "\<exists>t. find_task demo_registry ''a'' = Some t \<and> tk_state t = T_RUNNING"
  by (simp add: demo_registry_def reg_step_def create_task_def mark_running_def Let_def empty_registry_def
      find_task_def put_task_def persist_def)

theorem restart_recovers_journal_witness:
  "map_option tk_state (find_task (snd (load_tasks True 9
      (map (rg_journal demo_registry) (map fst (rg_tasks demo_registry)))
      (empty_registry ''/log'' 1 :: unit registry))) ''a'') = Some T_INTERRUPTED"
proof -
  obtain t where t: "find_task demo_registry ''a'' = Some t" "tk_state t = T_RUNNING"
    using demo_registry_task by blast
  have "find_task (snd (load_tasks True 9
      (map (rg_journal demo_registry) (map fst (rg_tasks demo_registry)))
      (empty_registry ''/log'' 1 :: unit registry))) ''a'' = map_option (recovered 9) (find_task demo_registry ''a'')"
    unfolding demo_registry_def by (rule restart_recovers_journal [THEN conjunct1])
  then show ?thesis by (simp only: t) (simp add: recovered_def interrupt_task_def t)
qed

text \<open>
  Pruning drops exactly the terminal tasks older than the retention window: a task that is
  queued or running is kept whatever its age, and so is its journal file and its handle.
\<close>

theorem prune_keeps_active_and_recent:
  assumes "registry_wf r" and "find_task r i = Some t"
  shows "(find_task (snd (prune now r)) i = None \<longleftrightarrow>
      task_is_terminal (tk_state t) \<and>
      (case tk_finished_at t of Some f \<Rightarrow> f | None \<Rightarrow> tk_created_at t) < now - rg_retention r) \<and>
    (\<not> task_is_terminal (tk_state t) \<longrightarrow>
      find_task (snd (prune now r)) i = Some t \<and> rg_journal (snd (prune now r)) i = rg_journal r i \<and>
      handle_of (snd (prune now r)) i = handle_of r i)"
proof -
  have "\<not> task_is_terminal (tk_state t) \<Longrightarrow> i \<notin> fst ` set (filter (\<lambda>(i, t). prunable now r t) (rg_tasks r))"
  proof
    assume act: "\<not> task_is_terminal (tk_state t)"
      and "i \<in> fst ` set (filter (\<lambda>(i, t). prunable now r t) (rg_tasks r))"
    then obtain u where u: "(i, u) \<in> set (rg_tasks r)" "prunable now r u" by auto
    with assms have "u = t" by (simp add: registry_wf_def find_task_def)
    with u act show False by (simp add: prunable_def)
  qed
  then show ?thesis
    using prune_find [OF assms(1), of now i] assms(2)
    by (auto simp: prunable_def prune_def Let_def handle_of_def)
qed

theorem prune_keeps_active_and_recent_witness:
  "find_task (snd (prune (seconds 999999) demo_registry)) ''a'' \<noteq> None"
proof -
  have wf: "registry_wf demo_registry" by code_simp
  obtain t where t: "find_task demo_registry ''a'' = Some t" "tk_state t = T_RUNNING"
    using demo_registry_task by blast
  show ?thesis
    using prune_keeps_active_and_recent [OF wf t(1), of "seconds 999999"] t(2) by auto
qed

end
