(* ===== verification/Agent_Commands.thy ===== *)
theory Agent_Commands
  imports Agent_Validators Agent_Tasks
begin

text \<open>
  \<open>agent/app/executors\<close>: the argument lists the agent runs, the parsers of what the commands print,
  the check every argument list passes before a process is created, and the digest cache. Parsed
  JSON text is the parameter's \<open>jval\<close>; \<open>None\<close> is text that is not JSON. Floats are exact
  rationals: the rounding of doubles is not modelled.
\<close>

definition path_str :: "path \<Rightarrow> string" where
  "path_str p = (if p = [] then ''/'' else concat (map (\<lambda>c. CHR ''/'' # c) p))"

section \<open>Process execution (\<open>base.py\<close>)\<close>

definition validate_argv :: "string list \<Rightarrow> agent_error + string list" where
  "validate_argv argv =
     (if argv = [] then Inl (ValidationFailed ''Empty command'')
      else if list_ex (\<lambda>item. NUL \<in> set item) argv then
        Inl (ValidationFailed ''Command argument contains a null byte'')
      else if \<not> startswith (hd argv) ''/'' then
        Inl (ValidationFailed ''Executable must be an absolute path'')
      else Inr argv)"

record process_result =
  exit_code :: int
  duration :: rat
  timed_out :: bool
  cancelled :: bool
  last_lines :: "string list"

definition result_ok :: "process_result \<Rightarrow> bool" where
  "result_ok r = (exit_code r = 0 \<and> \<not> timed_out r \<and> \<not> cancelled r)"

text \<open>The tail buffer of \<open>_pump_stdout\<close>: append, and drop the first once it is too long.\<close>

definition push_tail :: "nat \<Rightarrow> string list \<Rightarrow> string \<Rightarrow> string list" where
  "push_tail tail_lines buf line = (let b = buf @ [line] in if length b > tail_lines then tl b else b)"

definition pump_tail :: "nat \<Rightarrow> string list \<Rightarrow> string list" where
  "pump_tail tail_lines lines = foldl (push_tail tail_lines) [] lines"

lemma pump_tail_eq: "0 < n \<Longrightarrow> pump_tail n lines = drop (length lines - n) lines"
proof (induction lines rule: rev_induct)
  case Nil
  then show ?case by (simp add: pump_tail_def)
next
  case (snoc x xs)
  show ?case
  proof (cases "length xs < n")
    case True
    with snoc show ?thesis by (simp add: pump_tail_def push_tail_def Let_def)
  next
    case False
    with snoc have "foldl (push_tail n) [] xs = drop (length xs - n) xs" by (simp add: pump_tail_def)
    moreover have "drop (length xs - n) xs \<noteq> []" using False snoc.prems by simp
    then have "tl (drop (length xs - n) xs @ [x]) = drop (Suc (length xs - n)) xs @ [x]"
      by (simp add: tl_append2 tl_drop drop_Suc)
    ultimately show ?thesis using False snoc.prems
      by (simp add: pump_tail_def push_tail_def Let_def Suc_diff_le)
  qed
qed

text \<open>
  What a child process does: whether it can be created, the lines it prints, how it ends (\<open>None\<close>
  for an exit code that is still unknown) and whether the handle was cancelled meanwhile. The
  shutdown of the agent itself, which cancels the coroutine, is not modelled: the registry's
  \<open>load_tasks\<close> recovers from it.
\<close>

record child_run =
  ch_spawns :: bool
  ch_lines :: "string list"
  ch_timed_out :: bool
  ch_returncode :: "int option"
  ch_cancelled :: bool
  ch_duration :: rat

definition run_logged :: "nat \<Rightarrow> string list \<Rightarrow> child_run \<Rightarrow> agent_error + process_result" where
  "run_logged tail_lines argv ch = bindR (validate_argv argv) (\<lambda>command.
     if \<not> ch_spawns ch then Inl (ExecutionFailed ''An unexpected error occurred'')
     else Inr \<lparr>exit_code = (case ch_returncode ch of Some c \<Rightarrow> c | None \<Rightarrow> -1),
       duration = ch_duration ch, timed_out = ch_timed_out ch, cancelled = ch_cancelled ch,
       last_lines = pump_tail tail_lines (ch_lines ch)\<rparr>)"

definition run_capture :: "string list \<Rightarrow> child_run \<Rightarrow> agent_error + (int \<times> string)" where
  "run_capture argv ch = bindR (validate_argv argv) (\<lambda>command.
     if \<not> ch_spawns ch then Inl (ExecutionFailed ''An unexpected error occurred'')
     else if ch_timed_out ch then Inl (ExecutionFailed ''timed out'')
     else Inr (case ch_returncode ch of Some c \<Rightarrow> c | None \<Rightarrow> 0, join_with [NL] (ch_lines ch)))"

section \<open>vzdump (\<open>vzdump.py\<close>)\<close>

record vzdump_command =
  vz_vmid :: int
  vz_mode :: backup_mode
  vz_compression :: compression
  vz_storage :: string
  vz_zstd_threads :: "int option"
  vz_bwlimit_kbps :: "int option"
  vz_tmpdir :: "string option"

definition bwlimit_args :: "int option \<Rightarrow> string list" where
  "bwlimit_args b = (case b of Some v \<Rightarrow> if v \<noteq> 0 then [''--bwlimit'', show_int v] else [] | None \<Rightarrow> [])"

definition build_vzdump :: "vzdump_command \<Rightarrow> string \<Rightarrow> string list" where
  "build_vzdump c vzdump_bin =
     [vzdump_bin, show_int (vz_vmid c), ''--mode'', backup_mode_value (vz_mode c),
      ''--compress'', vzdump_value (vz_compression c), ''--storage'', vz_storage c] @
     (case vz_zstd_threads c of
        Some n \<Rightarrow> if vz_compression c = ZSTD then [''--zstd'', show_int n] else [] | None \<Rightarrow> []) @
     bwlimit_args (vz_bwlimit_kbps c) @
     (case vz_tmpdir c of Some t \<Rightarrow> [''--tmpdir'', t] | None \<Rightarrow> [])"

section \<open>Restore (\<open>restore.py\<close>)\<close>

record restore_command =
  rc_archive_path :: string
  rc_target_vmid :: int
  rc_storage :: string
  rc_overwrite :: bool
  rc_bwlimit_kbps :: "int option"
  rc_unprivileged :: "bool option"

definition build_vm :: "restore_command \<Rightarrow> string \<Rightarrow> string list" where
  "build_vm c qmrestore_bin =
     [qmrestore_bin, rc_archive_path c, show_int (rc_target_vmid c), ''--storage'', rc_storage c] @
     (if rc_overwrite c then [''--force'', ''1''] else []) @ bwlimit_args (rc_bwlimit_kbps c)"

definition build_lxc :: "restore_command \<Rightarrow> string \<Rightarrow> string list" where
  "build_lxc c pct_bin =
     [pct_bin, ''restore'', show_int (rc_target_vmid c), rc_archive_path c, ''--storage'', rc_storage c] @
     (if rc_overwrite c then [''--force'', ''1''] else []) @ bwlimit_args (rc_bwlimit_kbps c) @
     (case rc_unprivileged c of
        Some u \<Rightarrow> [''--unprivileged'', if u then ''1'' else ''0''] | None \<Rightarrow> [])"

definition build_status_argv :: "string \<Rightarrow> int \<Rightarrow> string list" where
  "build_status_argv binary vmid = [binary, ''status'', show_int vmid]"

definition build_stop_argv :: "string \<Rightarrow> int \<Rightarrow> string list" where
  "build_stop_argv binary vmid = [binary, ''stop'', show_int vmid]"

definition build_start_argv :: "string \<Rightarrow> int \<Rightarrow> string list" where
  "build_start_argv binary vmid = [binary, ''start'', show_int vmid]"

fun first_status :: "string list \<Rightarrow> string" where
  "first_status [] = ''unknown''"
| "first_status (line # lines) = (let stripped = py_strip line in
     case strip_prefix ''status:'' stripped of
       Some rest \<Rightarrow> py_strip rest
     | None \<Rightarrow> first_status lines)"

definition parse_status_output :: "string \<Rightarrow> string" where
  "parse_status_output output = first_status (py_splitlines output)"

section \<open>rclone (\<open>rclone.py\<close>)\<close>

record rclone_options =
  ro_bin :: string
  ro_config :: "string option"
  ro_transfers :: int
  ro_checkers :: int
  ro_bwlimit_kbps :: int
  ro_low_level_retries :: int
  ro_stats_interval :: int
  ro_extra :: "string list"

definition base_argv :: "rclone_options \<Rightarrow> string list" where
  "base_argv opts = [ro_bin opts] @ (case ro_config opts of Some c \<Rightarrow> [''--config'', c] | None \<Rightarrow> []) @
     [''--retries'', ''1'', ''--low-level-retries'', show_int (ro_low_level_retries opts)] @
     (if ro_bwlimit_kbps opts \<noteq> 0 then [''--bwlimit'', show_int (ro_bwlimit_kbps opts) @ ''k''] else []) @
     ro_extra opts"

definition transfer_argv :: "rclone_options \<Rightarrow> string list" where
  "transfer_argv opts = base_argv opts @
     [''--transfers'', show_int (ro_transfers opts), ''--checkers'', show_int (ro_checkers opts),
      ''--stats'', show_int (ro_stats_interval opts) @ ''s'', ''--stats-one-line-date'',
      ''--stats-log-level'', ''NOTICE'']"

definition build_copy_argv :: "rclone_options \<Rightarrow> string \<Rightarrow> string \<Rightarrow> string list" where
  "build_copy_argv opts source destination = transfer_argv opts @ [''copyto'', source, destination]"

definition build_lsjson_argv :: "rclone_options \<Rightarrow> string \<Rightarrow> bool \<Rightarrow> string list" where
  "build_lsjson_argv opts target with_hashes =
     base_argv opts @ [''lsjson''] @ (if with_hashes then [''--hash''] else []) @ [target]"

definition build_about_argv :: "rclone_options \<Rightarrow> string \<Rightarrow> string list" where
  "build_about_argv opts remote_spec = base_argv opts @ [''about'', ''--json'', remote_spec]"

definition build_delete_argv :: "rclone_options \<Rightarrow> string \<Rightarrow> string list" where
  "build_delete_argv opts target = base_argv opts @ [''deletefile'', target]"

definition build_mkdir_argv :: "rclone_options \<Rightarrow> string \<Rightarrow> string list" where
  "build_mkdir_argv opts target = base_argv opts @ [''mkdir'', target]"

record remote_entry =
  re_name :: string
  re_path :: string
  re_size_bytes :: int
  re_is_dir :: bool
  re_modified_at :: "datetime option"
  re_hashes :: "(string \<times> string) list"

definition nonempty_text :: "string option \<Rightarrow> string option" where
  "nonempty_text s = (if s = Some [] then None else s)"

definition entry_md5 :: "remote_entry \<Rightarrow> string option" where
  "entry_md5 e = (case nonempty_text (map_of (re_hashes e) ''md5'') of
     Some h \<Rightarrow> Some h | None \<Rightarrow> map_of (re_hashes e) ''MD5'')"

text \<open>
  \<open>str(x)\<close> of the JSON values rclone prints for names and hashes; the texts Python gives fractions,
  times and containers, which it never prints there, are not modelled.
\<close>

fun jstr :: "jval \<Rightarrow> string" where
  "jstr (JStr s) = s"
| "jstr (JInt i) = show_int i"
| "jstr (JBool b) = (if b then ''True'' else ''False'')"
| "jstr JNull = ''None''"
| "jstr _ = ''''"

text \<open>\<open>int(item.get("Size") or 0)\<close> on the numbers, and text, JSON can hold.\<close>

definition size_of :: "jval \<Rightarrow> int option" where
  "size_of v = (if \<not> truthy v then Some 0 else case v of
     JInt i \<Rightarrow> Some i | JNum q \<Rightarrow> Some (trunc_rat q) | JBool b \<Rightarrow> Some 1 | JStr s \<Rightarrow> py_int s
   | _ \<Rightarrow> None)"

definition parse_time :: "jval \<Rightarrow> datetime option" where
  "parse_time v = (case v of JTime t \<Rightarrow> Some t | _ \<Rightarrow> None)"

fun is_jdict :: "jval \<Rightarrow> bool" where
  "is_jdict (JDict _) = True"
| "is_jdict _ = False"

text \<open>One item; \<open>None\<close> is an exception that no caller turns into an agent error.\<close>

definition parse_entry :: "jdict \<Rightarrow> remote_entry option" where
  "parse_entry item = (let get = (\<lambda>k d. case map_of item k of None \<Rightarrow> d | Some v \<Rightarrow> v) in
     if truthy (get ''Hashes'' JNull) \<and> \<not> is_jdict (get ''Hashes'' JNull) then None else
     map_option (\<lambda>size. \<lparr>re_name = jstr (get ''Name'' (JStr [])), re_path = jstr (get ''Path'' (JStr [])),
       re_size_bytes = size, re_is_dir = truthy (get ''IsDir'' (JBool False)),
       re_modified_at = parse_time (get ''ModTime'' JNull),
       re_hashes = map (\<lambda>(k, v). (k, jstr v)) (filter (\<lambda>(k, v). truthy v) (as_dict (get ''Hashes'' JNull)))\<rparr>)
       (size_of (get ''Size'' JNull)))"

fun parse_entries :: "jval list \<Rightarrow> agent_error + remote_entry list" where
  "parse_entries [] = Inr []"
| "parse_entries (JDict item # items) = (case parse_entry item of
     None \<Rightarrow> Inl (ExecutionFailed ''An unexpected error occurred'')
   | Some e \<Rightarrow> bindR (parse_entries items) (\<lambda>es. Inr (e # es)))"
| "parse_entries (_ # items) = parse_entries items"

definition parse_lsjson :: "jval option \<Rightarrow> agent_error + remote_entry list" where
  "parse_lsjson payload = (case payload of
     None \<Rightarrow> Inl (ExecutionFailed ''rclone lsjson returned invalid JSON'')
   | Some (JList items) \<Rightarrow> parse_entries items
   | Some _ \<Rightarrow> Inl (ExecutionFailed ''rclone lsjson did not return a list''))"

record remote_quota =
  total_bytes :: "int option"
  used_bytes :: "int option"
  free_bytes :: "int option"
  trashed_bytes :: "int option"

definition quota_used_percent :: "remote_quota \<Rightarrow> rat option" where
  "quota_used_percent q = (case (total_bytes q, used_bytes q) of
     (Some t, Some u) \<Rightarrow> if t = 0 then None else Some (py_round (of_int u / of_int t * 100) 2)
   | _ \<Rightarrow> None)"

definition optional_int :: "jval \<Rightarrow> int option" where
  "optional_int v = (case v of
     JInt i \<Rightarrow> Some i | JNum q \<Rightarrow> Some (trunc_rat q) | JBool b \<Rightarrow> Some (if b then 1 else 0)
   | JStr s \<Rightarrow> py_int s | _ \<Rightarrow> None)"

definition parse_about :: "jval option \<Rightarrow> agent_error + remote_quota" where
  "parse_about payload = (case payload of
     None \<Rightarrow> Inl (ExecutionFailed ''rclone about returned invalid JSON'')
   | Some (JDict d) \<Rightarrow> Inr \<lparr>total_bytes = optional_int (jget d ''total''),
       used_bytes = optional_int (jget d ''used''), free_bytes = optional_int (jget d ''free''),
       trashed_bytes = optional_int (jget d ''trashed'')\<rparr>
   | Some _ \<Rightarrow> Inl (ExecutionFailed ''rclone about did not return an object''))"

definition UNIT_FACTORS :: "(string \<times> int) list" where
  "UNIT_FACTORS = [(''b'', 1), (''byte'', 1), (''bytes'', 1),
     (''k'', 1024), (''ki'', 1024), (''kib'', 1024), (''kbytes'', 1000), (''kb'', 1000),
     (''m'', 1024 ^ 2), (''mi'', 1024 ^ 2), (''mib'', 1024 ^ 2), (''mbytes'', 1000 ^ 2), (''mb'', 1000 ^ 2),
     (''g'', 1024 ^ 3), (''gi'', 1024 ^ 3), (''gib'', 1024 ^ 3), (''gbytes'', 1000 ^ 3), (''gb'', 1000 ^ 3),
     (''t'', 1024 ^ 4), (''ti'', 1024 ^ 4), (''tib'', 1024 ^ 4), (''tbytes'', 1000 ^ 4), (''tb'', 1000 ^ 4)]"

text \<open>\<open>None\<close> is the ValueError of \<open>float\<close> (a value such as \<open>1.2.3\<close>), which the pump logs and drops.\<close>

definition to_bytes :: "string \<Rightarrow> string \<Rightarrow> int option" where
  "to_bytes value u = (let normalised = removesuffix (py_lower (py_strip u)) ''/s'';
       factor = (case map_of UNIT_FACTORS normalised of None \<Rightarrow> 1 | Some f \<Rightarrow> f)
     in case py_float_of value of Some (Fin v) \<Rightarrow> Some (trunc_rat (v * of_int factor)) | _ \<Rightarrow> None)"

text \<open>\<open>(?:(\d+)h)?(?:(\d+)m)?(?:(\d+)s)?\<close>, each group optional, over the whole text.\<close>

definition eta_group :: "char \<Rightarrow> string \<Rightarrow> nat option \<times> string" where
  "eta_group u s = (let ds = takeWhile is_digit s; r = dropWhile is_digit s in
     if ds \<noteq> [] \<and> r \<noteq> [] \<and> hd r = u then (Some (digits_val 0 ds), tl r) else (None, s))"

definition opt_nat :: "nat option \<Rightarrow> nat" where
  "opt_nat x = (case x of None \<Rightarrow> 0 | Some n \<Rightarrow> n)"

definition parse_eta :: "string \<Rightarrow> int option" where
  "parse_eta value = (if value = [] \<or> value = ''-'' then None else
     case eta_group (CHR ''h'') (py_strip value) of (hours, s1) \<Rightarrow>
     case eta_group (CHR ''m'') s1 of (minutes, s2) \<Rightarrow>
     case eta_group (CHR ''s'') s2 of (secs, s3) \<Rightarrow>
       if s3 \<noteq> [] \<or> (hours = None \<and> minutes = None \<and> secs = None) then None
       else Some (int (opt_nat hours * 3600 + opt_nat minutes * 60 + opt_nat secs)))"

text \<open>\<open>progress.py\<close>: the estimate from the rate and the bytes left.\<close>

definition estimate_eta :: "task_progress \<Rightarrow> int option" where
  "estimate_eta p = (case (rate_bps p, bytes_total p, bytes_done p) of
     (Some rate, Some tot, Some d) \<Rightarrow>
       if rate = 0 \<or> tot = 0 then None
       else if tot - d \<le> 0 then Some 0
       else Some (trunc_rat (of_int (tot - d) / of_int rate))
   | _ \<Rightarrow> None)"

section \<open>pvesm (\<open>pvesm.py\<close>)\<close>

record storage_status =
  st_name :: string
  st_type :: string
  st_active :: bool
  st_total_bytes :: int
  st_used_bytes :: int
  st_available_bytes :: int

definition storage_used_percent :: "storage_status \<Rightarrow> rat" where
  "storage_used_percent s = (if st_total_bytes s \<noteq> 0
     then py_round (of_int (st_used_bytes s) / of_int (st_total_bytes s) * 100) 2 else 0)"

definition KIB :: int where "KIB = 1024"

definition parse_status_line :: "string \<Rightarrow> storage_status option" where
  "parse_status_line raw = (let line = py_strip raw in
     if line = [] \<or> startswith line ''Name'' then None
     else case py_split line of
       name # storage_type # status # total_t # used_t # available_t # _ \<Rightarrow>
         (case (py_int total_t, py_int used_t, py_int available_t) of
            (Some tb, Some ub, Some ab) \<Rightarrow> Some \<lparr>st_name = name, st_type = storage_type,
              st_active = (status = ''active''), st_total_bytes = tb * KIB, st_used_bytes = ub * KIB,
              st_available_bytes = ab * KIB\<rparr>
          | _ \<Rightarrow> None)
     | _ \<Rightarrow> None)"

definition parse_status :: "string \<Rightarrow> storage_status list" where
  "parse_status output = List.map_filter parse_status_line (py_splitlines output)"

text \<open>\<open>PvesmClient.status\<close> of what the command returned.\<close>

definition pvesm_status :: "agent_error + (int \<times> string) \<Rightarrow> agent_error + storage_status list" where
  "pvesm_status captured = bindR captured (\<lambda>(code, output).
     if code \<noteq> 0 then Inl (ExecutionFailed ''pvesm status failed'') else Inr (parse_status output))"

definition storage_names :: "agent_error + (int \<times> string) \<Rightarrow> agent_error + string list" where
  "storage_names captured = bindR (pvesm_status captured) (\<lambda>es. Inr (map st_name es))"

section \<open>Digests (\<open>checksum.py\<close>)\<close>

datatype digest_algorithm = SHA256 | MD5

fun sidecar_suffix :: "digest_algorithm \<Rightarrow> string" where
  "sidecar_suffix SHA256 = ''.sha256''"
| "sidecar_suffix MD5 = ''.md5''"

fun digest_length :: "digest_algorithm \<Rightarrow> nat" where
  "digest_length SHA256 = 64"
| "digest_length MD5 = 32"

text \<open>A file is its modification time and its text; \<open>None\<close> is a missing or unreadable file.\<close>

type_synonym stat_file = "int \<times> string"

definition read_cached :: "digest_algorithm \<Rightarrow> stat_file option \<Rightarrow> int option \<Rightarrow> string option" where
  "read_cached algorithm sidecar artifact_mtime = (case (sidecar, artifact_mtime) of
     (Some (mtime, text), Some am) \<Rightarrow>
       if mtime < am then None
       else let content = py_strip text;
                digest = (if content \<noteq> [] then hd (py_split content) else [])
            in if length digest \<noteq> digest_length algorithm \<or>
                  \<not> set (py_lower digest) \<subseteq> set ''0123456789abcdef'' then None
               else Some (py_lower digest)
   | _ \<Rightarrow> None)"

record checksum_result =
  hex_digest :: string
  from_cache :: bool
  cs_algorithm :: digest_algorithm

text \<open>\<open>hashed\<close> is the digest of the file's content now (\<open>None\<close>: it cannot be read, an OSError).\<close>

definition compute_digest ::
  "digest_algorithm \<Rightarrow> bool \<Rightarrow> stat_file option \<Rightarrow> int option \<Rightarrow> string option \<Rightarrow> checksum_result option" where
  "compute_digest algorithm use_cache sidecar artifact_mtime hashed =
     (case (if use_cache then read_cached algorithm sidecar artifact_mtime else None) of
        Some c \<Rightarrow> Some \<lparr>hex_digest = c, from_cache = True, cs_algorithm = algorithm\<rparr>
      | None \<Rightarrow> map_option (\<lambda>d. \<lparr>hex_digest = d, from_cache = False, cs_algorithm = algorithm\<rparr>) hashed)"

definition cache_line :: "string \<Rightarrow> string \<Rightarrow> string" where
  "cache_line digest name = digest @ ''  '' @ name @ [NL]"

section \<open>Argument lists cannot be steered by a request\<close>

text \<open>
  What the runner relies on: the first argument is an absolute path, no argument holds a null byte,
  and an argument that starts with a dash is one of the flags the builder writes itself, or one of
  the two values the operator configures (the rclone configuration path and the temporary directory
  are absolute, so they never do).
\<close>

locale command_line =
  fixes build :: "'c \<Rightarrow> string list"
    and well_formed :: "'c \<Rightarrow> bool"
    and flags :: "string set"
  assumes executable: "well_formed c \<Longrightarrow> build c \<noteq> [] \<and> startswith (hd (build c)) ''/''"
    and no_nul: "well_formed c \<Longrightarrow> x \<in> set (build c) \<Longrightarrow> NUL \<notin> set x"
    and only_flags: "well_formed c \<Longrightarrow> x \<in> set (build c) \<Longrightarrow> startswith x ''-'' \<Longrightarrow> x \<in> flags"
begin

lemma accepted: "well_formed c \<Longrightarrow> validate_argv (build c) = Inr (build c)"
  using executable [of c] no_nul [of c] by (auto simp: validate_argv_def list_ex_iff)

lemma runs: "well_formed c \<Longrightarrow> ch_spawns ch \<Longrightarrow> \<exists>r. run_logged n (build c) ch = Inr r \<and> last_lines r = pump_tail n (ch_lines ch)"
  by (simp add: run_logged_def accepted)

lemma value_not_flag:
  "well_formed c \<Longrightarrow> x \<in> set (build c) \<Longrightarrow> x \<notin> flags \<Longrightarrow> \<not> startswith x ''-''"
  using only_flags [of c x] by blast

end

definition plain_arg :: "string \<Rightarrow> bool" where
  "plain_arg s = (NUL \<notin> set s \<and> \<not> startswith s ''-'')"

definition absolute_arg :: "string \<Rightarrow> bool" where
  "absolute_arg s = (NUL \<notin> set s \<and> startswith s ''/'')"

lemma absolute_plain: "absolute_arg s \<Longrightarrow> plain_arg s"
  by (auto simp: absolute_arg_def plain_arg_def startswith_iff)

lemma NUL_notin_digits: "list_all is_digit s \<Longrightarrow> NUL \<notin> set s"
  by (auto simp: list_all_iff is_digit_def code_def NUL_def)

lemma plain_show_nat: "plain_arg (show_nat n)"
proof -
  have d: "list_all is_digit (show_nat n)" by (rule show_nat_digits)
  then have "\<not> startswith (show_nat n) ''-''"
    by (cases "show_nat n") (auto simp: startswith_iff is_digit_def code_def)
  with NUL_notin_digits [OF d] show ?thesis by (simp add: plain_arg_def)
qed

lemma plain_show_int: "0 \<le> i \<Longrightarrow> plain_arg (show_int i)"
  by (simp add: show_int_def plain_show_nat)

lemma plain_show_int_suffix: "0 \<le> i \<Longrightarrow> NUL \<noteq> c \<Longrightarrow> plain_arg (show_int i @ [c])"
  using plain_show_int [of i] by (auto simp: plain_arg_def startswith_iff show_int_def append_eq_Cons_conv)

lemma flag_values [simp]:
  "plain_arg (backup_mode_value m)" "plain_arg (vzdump_value z)"
  by (cases m; simp add: plain_arg_def startswith_iff NUL_def)
     (cases z; simp add: plain_arg_def startswith_iff NUL_def)

definition FLAGS :: "string set" where
  "FLAGS = {''--mode'', ''--compress'', ''--storage'', ''--zstd'', ''--bwlimit'', ''--tmpdir'', ''--force'',
     ''--unprivileged'', ''--config'', ''--retries'', ''--low-level-retries'', ''--transfers'', ''--checkers'',
     ''--stats'', ''--stats-one-line-date'', ''--stats-log-level'', ''--hash'', ''--json''}"

definition argument_ok :: "string \<Rightarrow> bool" where
  "argument_ok s = (plain_arg s \<or> s \<in> FLAGS)"

lemma argument_ok_flags [simp]:
  "argument_ok ''--mode''" "argument_ok ''--compress''" "argument_ok ''--storage''" "argument_ok ''--zstd''"
  "argument_ok ''--bwlimit''" "argument_ok ''--tmpdir''" "argument_ok ''--force''" "argument_ok ''--unprivileged''"
  "argument_ok ''--config''" "argument_ok ''--retries''" "argument_ok ''--low-level-retries''"
  "argument_ok ''--transfers''" "argument_ok ''--checkers''" "argument_ok ''--stats''"
  "argument_ok ''--stats-one-line-date''" "argument_ok ''--stats-log-level''" "argument_ok ''--hash''"
  "argument_ok ''--json''"
  by (simp_all add: argument_ok_def FLAGS_def)

lemma FLAGS_no_nul: "s \<in> FLAGS \<Longrightarrow> NUL \<notin> set s"
  by (auto simp: FLAGS_def NUL_def)

lemma argument_okD: "argument_ok s \<Longrightarrow> NUL \<notin> set s \<and> (startswith s ''-'' \<longrightarrow> s \<in> FLAGS)"
  by (auto simp: argument_ok_def plain_arg_def FLAGS_no_nul)

lemma argument_ok_plain: "plain_arg s \<Longrightarrow> argument_ok s"
  by (simp add: argument_ok_def)

lemma argument_ok_words [simp]:
  "argument_ok ''1''" "argument_ok ''0''" "argument_ok ''restore''" "argument_ok ''NOTICE''" "argument_ok ''copyto''"
  "argument_ok ''lsjson''" "argument_ok ''about''" "argument_ok ''deletefile''"
  by (simp_all add: argument_ok_def plain_arg_def startswith_iff NUL_def)

lemma argument_ok_bwlimit [simp]: "pred_option ((\<le>) 0) b \<Longrightarrow> list_all argument_ok (bwlimit_args b)"
  by (cases b) (auto simp: bwlimit_args_def intro: argument_ok_plain plain_show_int)

lemma argument_ok_ints [simp]:
  "0 \<le> i \<Longrightarrow> argument_ok (show_int i)"
  "0 \<le> i \<Longrightarrow> argument_ok (show_int i @ ''k'')" "0 \<le> i \<Longrightarrow> argument_ok (show_int i @ ''s'')"
  by (rule argument_ok_plain, erule plain_show_int)
    (rule argument_ok_plain, erule plain_show_int_suffix, simp add: NUL_def)+

lemma argument_ok_absolute [simp]: "absolute_arg s \<Longrightarrow> argument_ok s"
  by (intro argument_ok_plain absolute_plain)

lemma argument_ok_values [simp]:
  "argument_ok (backup_mode_value m)" "argument_ok (vzdump_value z)"
  by (auto intro: argument_ok_plain)

definition vzdump_wf :: "vzdump_command \<times> string \<Rightarrow> bool" where
  "vzdump_wf = (\<lambda>(c, bin). absolute_arg bin \<and> 0 \<le> vz_vmid c \<and> plain_arg (vz_storage c) \<and>
     pred_option ((\<le>) 0) (vz_zstd_threads c) \<and> pred_option ((\<le>) 0) (vz_bwlimit_kbps c) \<and>
     pred_option absolute_arg (vz_tmpdir c))"

definition restore_wf :: "restore_command \<times> string \<Rightarrow> bool" where
  "restore_wf = (\<lambda>(c, bin). absolute_arg bin \<and> absolute_arg (rc_archive_path c) \<and> 0 \<le> rc_target_vmid c \<and>
     plain_arg (rc_storage c) \<and> pred_option ((\<le>) 0) (rc_bwlimit_kbps c))"

definition rclone_wf :: "rclone_options \<Rightarrow> bool" where
  "rclone_wf opts = (absolute_arg (ro_bin opts) \<and> pred_option absolute_arg (ro_config opts) \<and>
     0 \<le> ro_transfers opts \<and> 0 \<le> ro_checkers opts \<and> 0 \<le> ro_bwlimit_kbps opts \<and>
     0 \<le> ro_low_level_retries opts \<and> 0 \<le> ro_stats_interval opts \<and> ro_extra opts = [])"

lemma vzdump_arguments:
  "vzdump_wf (c, bin) \<Longrightarrow> list_all argument_ok (build_vzdump c bin)"
  by (cases c) (auto simp: vzdump_wf_def build_vzdump_def argument_ok_plain split: option.split)

lemma restore_arguments:
  "restore_wf (c, bin) \<Longrightarrow> list_all argument_ok (build_vm c bin) \<and> list_all argument_ok (build_lxc c bin)"
  by (cases c) (auto simp: restore_wf_def build_vm_def build_lxc_def argument_ok_plain split: option.split)

lemma base_arguments: "rclone_wf opts \<Longrightarrow> list_all argument_ok (base_argv opts)"
  by (cases opts) (auto simp: rclone_wf_def base_argv_def split: option.split)

lemma transfer_arguments: "rclone_wf opts \<Longrightarrow> list_all argument_ok (transfer_argv opts)"
  using base_arguments [of opts] by (simp add: transfer_argv_def rclone_wf_def)

lemma hd_base_argv [simp]: "base_argv opts \<noteq> []" "hd (base_argv opts) = ro_bin opts"
  by (simp_all add: base_argv_def)

lemma argv_contract:
  assumes "list_all argument_ok argv" and "argv = b # rest" and "absolute_arg b"
  shows "argv \<noteq> [] \<and> startswith (hd argv) ''/''"
    and "x \<in> set argv \<Longrightarrow> NUL \<notin> set x"
    and "x \<in> set argv \<Longrightarrow> startswith x ''-'' \<Longrightarrow> x \<in> FLAGS"
  using assms argument_okD by (auto simp: absolute_arg_def list_all_iff)

interpretation vzdump: command_line "\<lambda>(c, bin). build_vzdump c bin" vzdump_wf FLAGS
proof
  fix k :: "vzdump_command \<times> string" and x :: string
  obtain c bin where k: "k = (c, bin)" by (cases k)
  assume "vzdump_wf k"
  with k have wf: "list_all argument_ok (build_vzdump c bin)" "absolute_arg bin"
    by (auto simp: vzdump_arguments vzdump_wf_def)
  note c = argv_contract [OF wf(1) _ wf(2), of "tl (build_vzdump c bin)"]
  show "(case k of (c, bin) \<Rightarrow> build_vzdump c bin) \<noteq> [] \<and>
      startswith (hd (case k of (c, bin) \<Rightarrow> build_vzdump c bin)) ''/''"
    using c(1) by (simp add: k build_vzdump_def)
  show "x \<in> set (case k of (c, bin) \<Rightarrow> build_vzdump c bin) \<Longrightarrow> NUL \<notin> set x"
    using c(2) by (simp add: k build_vzdump_def)
  show "x \<in> set (case k of (c, bin) \<Rightarrow> build_vzdump c bin) \<Longrightarrow> startswith x ''-'' \<Longrightarrow> x \<in> FLAGS"
    using c(3) by (simp add: k build_vzdump_def)
qed

definition build_restore :: "guest_type \<Rightarrow> restore_command \<Rightarrow> string \<Rightarrow> string list" where
  "build_restore t c bin = (case t of VM \<Rightarrow> build_vm c bin | LXC \<Rightarrow> build_lxc c bin)"

lemma build_restore_shape: "\<exists>rest. build_restore t c bin = bin # rest"
  by (cases t) (simp_all add: build_restore_def build_vm_def build_lxc_def)

interpretation restore: command_line "\<lambda>(c, bin). build_restore t c bin" restore_wf FLAGS for t
proof
  fix k :: "restore_command \<times> string" and x :: string
  obtain c bin where k: "k = (c, bin)" by (cases k)
  obtain rest where sh: "build_restore t c bin = bin # rest" using build_restore_shape by blast
  assume "restore_wf k"
  with k have wf: "list_all argument_ok (build_restore t c bin)" "absolute_arg bin"
    using restore_arguments [of c bin] by (auto simp: build_restore_def restore_wf_def split: guest_type.split)
  note c = argv_contract [OF wf(1) sh wf(2)]
  show "(case k of (c, bin) \<Rightarrow> build_restore t c bin) \<noteq> [] \<and>
      startswith (hd (case k of (c, bin) \<Rightarrow> build_restore t c bin)) ''/''"
    using c(1) by (simp add: k)
  show "x \<in> set (case k of (c, bin) \<Rightarrow> build_restore t c bin) \<Longrightarrow> NUL \<notin> set x" using c(2) by (simp add: k)
  show "x \<in> set (case k of (c, bin) \<Rightarrow> build_restore t c bin) \<Longrightarrow> startswith x ''-'' \<Longrightarrow> x \<in> FLAGS"
    using c(3) by (simp add: k)
qed

text \<open>The rclone sub-commands a request can reach, as one type.\<close>

datatype rclone_job = RCopy string string | RList string bool | RAbout string | RDelete string

fun rclone_argv :: "rclone_options \<times> rclone_job \<Rightarrow> string list" where
  "rclone_argv (opts, RCopy s d) = build_copy_argv opts s d"
| "rclone_argv (opts, RList t h) = build_lsjson_argv opts t h"
| "rclone_argv (opts, RAbout s) = build_about_argv opts s"
| "rclone_argv (opts, RDelete t) = build_delete_argv opts t"

fun rclone_job_wf :: "rclone_options \<times> rclone_job \<Rightarrow> bool" where
  "rclone_job_wf (opts, RCopy s d) = (rclone_wf opts \<and> plain_arg s \<and> plain_arg d)"
| "rclone_job_wf (opts, RList t h) = (rclone_wf opts \<and> plain_arg t)"
| "rclone_job_wf (opts, RAbout s) = (rclone_wf opts \<and> plain_arg s)"
| "rclone_job_wf (opts, RDelete t) = (rclone_wf opts \<and> plain_arg t)"

lemma rclone_arguments:
  "rclone_job_wf k \<Longrightarrow> list_all argument_ok (rclone_argv k) \<and> rclone_argv k \<noteq> [] \<and> absolute_arg (hd (rclone_argv k))"
  by (cases k rule: rclone_argv.cases)
    (auto simp: base_arguments transfer_arguments argument_ok_plain rclone_wf_def build_copy_argv_def
      build_lsjson_argv_def build_about_argv_def build_delete_argv_def transfer_argv_def)

interpretation rclone: command_line rclone_argv rclone_job_wf FLAGS
proof
  fix k :: "rclone_options \<times> rclone_job" and x :: string
  assume "rclone_job_wf k"
  then obtain b rest where a: "list_all argument_ok (rclone_argv k)" "rclone_argv k = b # rest" "absolute_arg b"
    using rclone_arguments [of k] by (cases "rclone_argv k") auto
  note c = argv_contract [OF a]
  show "rclone_argv k \<noteq> [] \<and> startswith (hd (rclone_argv k)) ''/''" by (rule c(1))
  show "x \<in> set (rclone_argv k) \<Longrightarrow> NUL \<notin> set x" by (rule c(2))
  show "x \<in> set (rclone_argv k) \<Longrightarrow> startswith x ''-'' \<Longrightarrow> x \<in> FLAGS" by (rule c(3))
qed

end
