(* ===== verification/Agent_Progress.thy ===== *)
theory Agent_Progress
  imports Agent_Commands
begin

text \<open>
  \<open>agent/app/tasks/progress.py\<close> and \<open>RcloneProgressParser\<close>: the patterns that read command output.
  A pattern is a function from the text to every way it can match a prefix of it, in the order a
  backtracking matcher tries them, with the named groups bound so far; \<open>rx_search\<close> takes the first
  match at the first position that has one, as Python's \<open>search\<close> does.
\<close>

section \<open>Patterns\<close>

type_synonym groups = "(string \<times> string) list"
type_synonym rx = "string \<Rightarrow> (groups \<times> string) list"

definition rx_seq :: "rx \<Rightarrow> rx \<Rightarrow> rx" where
  "rx_seq a b s = concat (map (\<lambda>(g, r). map (\<lambda>(h, q). (g @ h, q)) (b r)) (a s))"

fun rx_all :: "rx list \<Rightarrow> rx" where
  "rx_all [] s = [([], s)]"
| "rx_all (a # as) s = rx_seq a (rx_all as) s"

definition rx_opt :: "rx \<Rightarrow> rx" where
  "rx_opt a s = a s @ [([], s)]"

definition rx_or :: "rx \<Rightarrow> rx \<Rightarrow> rx" where
  "rx_or a b s = a s @ b s"

definition rx_lit :: "string \<Rightarrow> rx" where
  "rx_lit t s = (case strip_prefix t s of Some r \<Rightarrow> [([], r)] | None \<Rightarrow> [])"

text \<open>A literal under IGNORECASE; \<open>t\<close> is in lower case.\<close>

definition rx_lit_ci :: "string \<Rightarrow> rx" where
  "rx_lit_ci t s = (if py_lower (take (length t) s) = t then [([], drop (length t) s)] else [])"

text \<open>A class repeated between \<open>lo\<close> and \<open>hi\<close> times (\<open>None\<close>: no upper bound), longest first.\<close>

definition rx_rep :: "(char \<Rightarrow> bool) \<Rightarrow> nat \<Rightarrow> nat option \<Rightarrow> rx" where
  "rx_rep P lo hi s = (let n = length (takeWhile P s);
       m = (case hi of None \<Rightarrow> n | Some h \<Rightarrow> min h n)
     in map (\<lambda>k. ([], drop k s)) (rev [lo..<Suc m]))"

definition rx_lazy_any :: rx where
  "rx_lazy_any s = map (\<lambda>k. ([], drop k s)) [0..<Suc (length (takeWhile (\<lambda>c. c \<noteq> NL) s))]"

definition rx_end :: rx where
  "rx_end s = (if at_end s then [([], s)] else [])"

definition rx_group :: "string \<Rightarrow> rx \<Rightarrow> rx" where
  "rx_group name a s = map (\<lambda>(g, r). ((name, take (length s - length r) s) # g, r)) (a s)"

definition rx_match :: "rx \<Rightarrow> string \<Rightarrow> groups option" where
  "rx_match a s = (case a s of [] \<Rightarrow> None | (g, r) # _ \<Rightarrow> Some g)"

fun rx_search :: "rx \<Rightarrow> string \<Rightarrow> groups option" where
  "rx_search a [] = rx_match a []"
| "rx_search a (c # cs) = (case rx_match a (c # cs) of Some g \<Rightarrow> Some g | None \<Rightarrow> rx_search a cs)"

definition digits1 :: rx where "digits1 = rx_rep is_digit 1 None"
definition spaces0 :: rx where "spaces0 = rx_rep py_isspace 0 None"
definition spaces1 :: rx where "spaces1 = rx_rep py_isspace 1 None"
definition decimal :: rx where "decimal = rx_rep (\<lambda>c. is_digit c \<or> c = CHR ''.'') 1 None"

text \<open>\<open>[KMGT]\<close>, one character, in either case.\<close>

definition one_of_ci :: "string \<Rightarrow> rx" where
  "one_of_ci cs = rx_rep (\<lambda>c. lower_char c \<in> set cs) 1 (Some 1)"

definition human_unit :: rx where
  "human_unit = rx_all [one_of_ci ''kmgt'', rx_opt (rx_lit_ci ''i''), rx_lit_ci ''b'']"

section \<open>Patterns of \<open>progress.py\<close>\<close>

definition QEMU_STATUS :: rx where
  "QEMU_STATUS = rx_all [rx_lit_ci ''status:'', spaces0, rx_group ''percent'' digits1, rx_lit ''%'', spaces0,
     rx_lit ''('', rx_group ''done'' digits1, rx_lit ''/'', rx_group ''total'' digits1, rx_lit '')'',
     rx_opt (rx_all [rx_lazy_any, rx_lit_ci ''duration'', spaces1, rx_group ''duration'' digits1]),
     rx_opt (rx_all [rx_lazy_any, rx_lit_ci ''read/write'', spaces1, rx_group ''read'' digits1, rx_lit ''/'',
       rx_group ''write'' digits1, spaces0, rx_group ''rate_unit'' (rx_all [one_of_ci ''kmg'', rx_lit_ci ''b'']),
       rx_lit_ci ''/s''])]"

definition HUMAN_STATUS :: rx where
  "HUMAN_STATUS = rx_all [rx_group ''percent'' (rx_rep is_digit 1 (Some 3)), rx_lit ''%'', spaces0, rx_lit ''('',
     rx_group ''done'' decimal, spaces0, rx_group ''done_unit'' human_unit, spaces1, rx_lit_ci ''of'', spaces1,
     rx_group ''total'' decimal, spaces0, rx_group ''total_unit'' human_unit, rx_lit '')'']"

definition ARCHIVE_PATH :: rx where
  "ARCHIVE_PATH = rx_all [rx_lit_ci ''creating '', rx_opt (rx_lit_ci ''vzdump ''), rx_lit_ci ''archive '',
     rx_lit [CHR 0x27], rx_group ''path'' (rx_rep (\<lambda>c. c \<noteq> CHR 0x27) 1 None), rx_lit [CHR 0x27]]"

definition TOTAL_WRITTEN :: rx where
  "TOTAL_WRITTEN = rx_all [rx_lit_ci ''total bytes written:'', spaces0, rx_group ''bytes'' digits1]"

definition ARCHIVE_SIZE :: rx where
  "ARCHIVE_SIZE = rx_all [rx_lit_ci ''archive file size:'', spaces0, rx_group ''size'' decimal, spaces0,
     rx_group ''unit'' human_unit]"

definition FAILED_LINE :: rx where
  "FAILED_LINE = rx_all [rx_lit ''ERROR:'', spaces0, rx_group ''message'' (rx_rep (\<lambda>c. c \<noteq> NL) 1 None), rx_end]"

definition QMRESTORE_PROGRESS :: rx where
  "QMRESTORE_PROGRESS = rx_all [rx_lit_ci ''progress'', spaces1, rx_group ''percent'' (rx_rep is_digit 1 (Some 3)),
     rx_lit ''%'', spaces0, rx_lit ''('', rx_lit_ci ''read'', spaces1, rx_group ''done'' digits1, spaces1,
     rx_lit_ci ''bytes,'', spaces1, rx_lit_ci ''duration'', spaces1, rx_group ''duration'' digits1, spaces1,
     rx_lit_ci ''sec'', rx_lit '')'']"

section \<open>Patterns of \<open>rclone.py\<close>\<close>

definition rclone_unit :: rx where
  "rclone_unit = rx_all [rx_opt (one_of_ci ''kmgt''), rx_opt (rx_lit_ci ''i''), rx_lit_ci ''b'',
     rx_opt (rx_lit_ci ''ytes'')]"

definition STATS_LINE :: rx where
  "STATS_LINE = rx_all [rx_lit_ci ''transferred:'', spaces0, rx_group ''done'' decimal, spaces0,
     rx_group ''done_unit'' rclone_unit, spaces0, rx_lit ''/'', spaces0, rx_group ''total'' decimal, spaces0,
     rx_group ''total_unit'' rclone_unit, spaces0, rx_lit '','', spaces0, rx_group ''percent'' digits1, spaces0,
     rx_lit ''%'',
     rx_opt (rx_all [spaces0, rx_lit '','', spaces0, rx_group ''rate'' decimal, spaces0,
       rx_group ''rate_unit'' rclone_unit, rx_lit_ci ''/s'']),
     rx_opt (rx_all [spaces0, rx_lit '','', spaces0, rx_lit_ci ''eta'', spaces1,
       rx_group ''eta'' (rx_rep (\<lambda>c. is_digit c \<or> lower_char c \<in> set ''hms.-'') 1 None)])]"

definition STATS_BYTES_ONLY :: rx where
  "STATS_BYTES_ONLY = rx_all [rx_lit_ci ''transferred:'', spaces0, rx_group ''done'' decimal, spaces0,
     rx_group ''done_unit'' rclone_unit, spaces0, rx_lit ''('', spaces0, rx_group ''rate'' decimal, spaces0,
     rx_group ''rate_unit'' rclone_unit, rx_lit_ci ''/s'', spaces0, rx_lit '')'']"

definition ERROR_LINE :: rx where
  "ERROR_LINE = rx_all [rx_or (rx_lit ''ERROR'') (rx_lit ''CRITICAL''), spaces0, rx_lit '':'', spaces0,
     rx_group ''message'' (rx_rep (\<lambda>c. c \<noteq> NL) 1 None), rx_end]"

section \<open>The parsers\<close>

text \<open>
  A parser's fields with the progress it updates in place. \<open>feed\<close> tells whether something changed;
  \<open>None\<close> is the ValueError of \<open>float\<close>, which leaves the assignments made so far and which the
  pump logs and drops.
\<close>

record line_parser =
  archive_path :: "string option"
  archive_size_bytes :: "int option"
  error_message :: "string option"
  lp_progress :: task_progress

definition new_parser :: "task_progress \<Rightarrow> line_parser" where
  "new_parser p = \<lparr>archive_path = None, archive_size_bytes = None, error_message = None, lp_progress = p\<rparr>"

definition UNIT_FACTORS_VZDUMP :: "(string \<times> int) list" where
  "UNIT_FACTORS_VZDUMP = [(''b'', 1), (''k'', 1000), (''kb'', 1000), (''kib'', 1024),
     (''m'', 1000 ^ 2), (''mb'', 1000 ^ 2), (''mib'', 1024 ^ 2), (''g'', 1000 ^ 3), (''gb'', 1000 ^ 3),
     (''gib'', 1024 ^ 3), (''t'', 1000 ^ 4), (''tb'', 1000 ^ 4), (''tib'', 1024 ^ 4)]"

definition to_bytes_vzdump :: "string \<Rightarrow> string \<Rightarrow> int option" where
  "to_bytes_vzdump value u = (let normalised = removesuffix (py_lower (py_strip u)) ''/s'';
       factor = (case map_of UNIT_FACTORS_VZDUMP normalised of None \<Rightarrow> 1 | Some f \<Rightarrow> f)
     in case py_float_of value of Some (Fin v) \<Rightarrow> Some (trunc_rat (v * of_int factor)) | _ \<Rightarrow> None)"

definition grp :: "groups \<Rightarrow> string \<Rightarrow> string" where
  "grp g n = (case map_of g n of None \<Rightarrow> [] | Some v \<Rightarrow> v)"

definition grp_int :: "groups \<Rightarrow> string \<Rightarrow> int" where
  "grp_int g n = int (digits_val 0 (grp g n))"

text \<open>The three transfer figures of one line: \<open>None\<close> as soon as a number does not read.\<close>

definition set_done :: "int option \<Rightarrow> task_progress \<Rightarrow> task_progress option" where
  "set_done v p = map_option (\<lambda>b. p\<lparr>bytes_done := Some b\<rparr>) v"

definition set_total :: "int option \<Rightarrow> task_progress \<Rightarrow> task_progress option" where
  "set_total v p = map_option (\<lambda>b. p\<lparr>bytes_total := Some b\<rparr>) v"

definition set_rate :: "int option \<Rightarrow> task_progress \<Rightarrow> task_progress option" where
  "set_rate v p = map_option (\<lambda>b. p\<lparr>rate_bps := Some b\<rparr>) v"

text \<open>Assignments in order; the progress reached, and whether all of them went through.\<close>

fun assigns :: "(task_progress \<Rightarrow> task_progress option) list \<Rightarrow> task_progress \<Rightarrow> task_progress \<times> bool" where
  "assigns [] p = (p, True)"
| "assigns (f # fs) p = (case f p of None \<Rightarrow> (p, False) | Some q \<Rightarrow> assigns fs q)"

definition feed_assigns ::
  "(task_progress \<Rightarrow> task_progress option) list \<Rightarrow> line_parser \<Rightarrow> line_parser \<times> bool option" where
  "feed_assigns fs s = (case assigns fs (lp_progress s) of (p, fine) \<Rightarrow>
     (s\<lparr>lp_progress := p\<rparr>, if fine then Some True else None))"

definition feed_error :: "rx \<Rightarrow> (rx \<Rightarrow> string \<Rightarrow> groups option) \<Rightarrow> string \<Rightarrow> line_parser \<Rightarrow>
    line_parser \<times> bool option" where
  "feed_error pattern how line s = (case how pattern line of
     Some g \<Rightarrow> (s\<lparr>error_message := Some (py_strip (grp g ''message''))\<rparr>, Some True)
   | None \<Rightarrow> (s, Some False))"

definition vzdump_feed :: "string \<Rightarrow> line_parser \<Rightarrow> line_parser \<times> bool option" where
  "vzdump_feed line s = (case rx_search ARCHIVE_PATH line of
     Some g \<Rightarrow> feed_assigns [\<lambda>p. Some (p\<lparr>message := Some ''writing archive''\<rparr>)]
       (s\<lparr>archive_path := Some (grp g ''path'')\<rparr>)
   | None \<Rightarrow> (case rx_search QEMU_STATUS line of
     Some g \<Rightarrow> feed_assigns [\<lambda>p. Some (p\<lparr>percent := Some (of_int (grp_int g ''percent''))\<rparr>),
         set_done (Some (grp_int g ''done'')), set_total (Some (grp_int g ''total'')),
         (if grp g ''write'' \<noteq> [] \<and> grp g ''rate_unit'' \<noteq> []
          then set_rate (to_bytes_vzdump (grp g ''write'') (grp g ''rate_unit'')) else Some),
         \<lambda>p. Some (p\<lparr>eta_seconds := estimate_eta p\<rparr>)] s
   | None \<Rightarrow> (case rx_search HUMAN_STATUS line of
     Some g \<Rightarrow> feed_assigns [\<lambda>p. Some (p\<lparr>percent := Some (of_int (grp_int g ''percent''))\<rparr>),
         set_done (to_bytes_vzdump (grp g ''done'') (grp g ''done_unit'')),
         set_total (to_bytes_vzdump (grp g ''total'') (grp g ''total_unit'')),
         \<lambda>p. Some (p\<lparr>eta_seconds := estimate_eta p\<rparr>)] s
   | None \<Rightarrow> (case rx_search TOTAL_WRITTEN line of
     Some g \<Rightarrow> feed_assigns [set_done (Some (grp_int g ''bytes'')),
         \<lambda>p. Some (p\<lparr>message := Some ''archive written''\<rparr>)] s
   | None \<Rightarrow> (case rx_search ARCHIVE_SIZE line of
     Some g \<Rightarrow> (case to_bytes_vzdump (grp g ''size'') (grp g ''unit'') of
         Some b \<Rightarrow> (s\<lparr>archive_size_bytes := Some b\<rparr>, Some True) | None \<Rightarrow> (s, None))
   | None \<Rightarrow> feed_error FAILED_LINE rx_match (py_strip line) s)))))"

definition restore_feed :: "string \<Rightarrow> line_parser \<Rightarrow> line_parser \<times> bool option" where
  "restore_feed line s = (case rx_search QMRESTORE_PROGRESS line of
     Some g \<Rightarrow> feed_assigns [\<lambda>p. Some (p\<lparr>percent := Some (of_int (grp_int g ''percent''))\<rparr>),
         set_done (Some (grp_int g ''done'')),
         (if grp_int g ''percent'' \<noteq> 0 then set_total (Some (trunc_rat
            (of_int (grp_int g ''done'') / (of_int (grp_int g ''percent'') / 100)))) else Some),
         \<lambda>p. Some (p\<lparr>eta_seconds := estimate_eta p\<rparr>)] s
   | None \<Rightarrow> feed_error FAILED_LINE rx_match (py_strip line) s)"

definition rclone_feed :: "string \<Rightarrow> line_parser \<Rightarrow> line_parser \<times> bool option" where
  "rclone_feed line s = (case rx_search STATS_LINE line of
     Some g \<Rightarrow> feed_assigns [\<lambda>p. Some (p\<lparr>percent := Some (of_int (grp_int g ''percent''))\<rparr>),
         set_done (to_bytes (grp g ''done'') (grp g ''done_unit'')),
         set_total (to_bytes (grp g ''total'') (grp g ''total_unit'')),
         (if grp g ''rate'' \<noteq> [] then set_rate (to_bytes (grp g ''rate'') (grp g ''rate_unit'')) else Some),
         \<lambda>p. Some (p\<lparr>eta_seconds := parse_eta (grp g ''eta''), message := Some ''transferring''\<rparr>)] s
   | None \<Rightarrow> (case rx_search STATS_BYTES_ONLY line of
     Some g \<Rightarrow> feed_assigns [set_done (to_bytes (grp g ''done'') (grp g ''done_unit'')),
         set_rate (to_bytes (grp g ''rate'') (grp g ''rate_unit'')),
         \<lambda>p. Some (p\<lparr>message := Some ''transferring''\<rparr>)] s
   | None \<Rightarrow> feed_error ERROR_LINE rx_search line s))"

text \<open>The lines of a run through a parser, as \<open>_pump_stdout\<close> hands them to \<open>on_line\<close>.\<close>

definition feed_all ::
  "(string \<Rightarrow> line_parser \<Rightarrow> line_parser \<times> bool option) \<Rightarrow> string list \<Rightarrow> line_parser \<Rightarrow> line_parser" where
  "feed_all feed lines s = foldl (\<lambda>s line. fst (feed line s)) s lines"

end
