(* ===== verification/Agent_Artifacts.thy ===== *)
theory Agent_Artifacts
  imports Agent_Progress
begin

text \<open>
  \<open>agent/app/services/artifact_service.py\<close> and \<open>storage_service.py\<close>: what the agent does with the
  files of the dump root. The host's files are a map from paths; following symbolic links is the
  parameter \<open>fs_resolve\<close> and the digest of a content the parameter \<open>fs_hash\<close> (\<open>hashlib\<close>). Each
  operation sees one snapshot of the directory; a file that disappears between two system calls of
  the same operation is not modelled.
\<close>

section \<open>The host\<close>

record hfile =
  hf_content :: string
  hf_size :: nat
  hf_mtime :: int
  hf_readable :: bool

record host_fs =
  fs_files :: "path \<Rightarrow> hfile option"
  fs_listing :: "string list option" \<comment> \<open>the names \<open>iterdir\<close> gives in the dump root, if it is a directory\<close>
  fs_resolve :: "path \<Rightarrow> path"
  fs_hash :: "digest_algorithm \<Rightarrow> string \<Rightarrow> string"

record agent_settings =
  dump_root :: path
  temp_dir :: "path option"
  vzdump_bin :: string
  qmrestore_bin :: string
  qm_bin :: string
  pct_bin :: string
  rclone_bin :: string
  rclone_config :: "string option"
  allowed_remotes :: "string list"
  sync_enabled :: bool
  rclone_transfers :: int
  rclone_checkers :: int
  rclone_low_level_retries :: int
  rclone_stats_interval :: int
  backup_timeout :: int
  restore_timeout :: int
  sync_timeout :: int
  checksum_after_backup :: bool
  tail_lines :: nat

definition is_file :: "host_fs \<Rightarrow> path \<Rightarrow> bool" where
  "is_file fs p = (fs_files fs p \<noteq> None)"

definition with_name :: "path \<Rightarrow> string \<Rightarrow> path" where
  "with_name p n = butlast p @ [n]"

definition as_stat :: "hfile option \<Rightarrow> stat_file option" where
  "as_stat f = Option.bind f (\<lambda>h. if hf_readable h then Some (hf_mtime h, hf_content h) else None)"

definition sidecar_of :: "digest_algorithm \<Rightarrow> host_fs \<Rightarrow> path \<Rightarrow> stat_file option" where
  "sidecar_of alg fs p = as_stat (fs_files fs (with_name p (last p @ sidecar_suffix alg)))"

definition read_cached_at :: "digest_algorithm \<Rightarrow> host_fs \<Rightarrow> path \<Rightarrow> string option" where
  "read_cached_at alg fs p = read_cached alg (sidecar_of alg fs p) (map_option hf_mtime (fs_files fs p))"

text \<open>\<open>compute_sha256\<close> and \<open>compute_md5\<close> of a path; \<open>None\<close> is an OSError.\<close>

definition digest_at :: "digest_algorithm \<Rightarrow> bool \<Rightarrow> host_fs \<Rightarrow> path \<Rightarrow> checksum_result option" where
  "digest_at alg use_cache fs p = compute_digest alg use_cache (sidecar_of alg fs p)
     (map_option hf_mtime (fs_files fs p))
     (Option.bind (fs_files fs p) (\<lambda>h. if hf_readable h then Some (fs_hash fs alg (hf_content h)) else None))"

text \<open>
  The files after \<open>compute_digest\<close>: a digest that was not cached is written to its side file, when
  that can be written (\<open>_write_cache\<close> ignores an OSError).
\<close>

definition digest_fs :: "digest_algorithm \<Rightarrow> bool \<Rightarrow> bool \<Rightarrow> int \<Rightarrow> host_fs \<Rightarrow> path \<Rightarrow> host_fs" where
  "digest_fs alg use_cache can_write now fs p = (case digest_at alg use_cache fs p of
     None \<Rightarrow> fs
   | Some c \<Rightarrow>
       if from_cache c \<or> \<not> can_write then fs
       else let line = cache_line (hex_digest c) (last p)
            in fs\<lparr>fs_files := (fs_files fs)(with_name p (last p @ sidecar_suffix alg) \<mapsto>
                 \<lparr>hf_content = line, hf_size = length line, hf_mtime = now, hf_readable = True\<rparr>)\<rparr>)"

lemma digest_fs_frame:
  "q \<noteq> with_name p (last p @ sidecar_suffix alg) \<Longrightarrow>
   fs_files (digest_fs alg use_cache can_write now fs p) q = fs_files fs q"
  by (simp add: digest_fs_def Let_def split: option.split)

section \<open>Artifacts\<close>

definition resolve_artifact ::
  "agent_settings \<Rightarrow> host_fs \<Rightarrow> string \<Rightarrow> agent_error + (artifact_name \<times> path)" where
  "resolve_artifact st fs fname =
     bindR (parse_artifact_name fname) (\<lambda>artifact.
     bindR (resolve_within (fs_resolve fs) (dump_root st) fname) (\<lambda>p.
     if \<not> is_file fs p then Inl (NotFound ''Backup does not exist on this host'')
     else Inr (artifact, p)))"

definition MAX_NOTES :: nat where "MAX_NOTES = 4096"

definition read_notes :: "host_fs \<Rightarrow> path \<Rightarrow> string option" where
  "read_notes fs p = (case fs_files fs (with_name p (last p @ ''.notes'')) of
     Some h \<Rightarrow> if hf_readable h then Some (py_strip (take MAX_NOTES (hf_content h))) else None
   | None \<Rightarrow> None)"

record artifact_response =
  ar_filename :: string
  ar_path :: string
  ar_vmid :: nat
  ar_guest_type :: guest_type
  ar_size_bytes :: nat
  ar_created_at :: datetime
  ar_modified_at :: int
  ar_compression :: compression
  ar_checksum :: "string option"
  ar_notes :: "string option"

text \<open>\<open>local_time\<close> is the moment a civil time of the host's zone denotes (\<open>astimezone\<close>).\<close>

definition artifact_entry ::
  "(civil_time \<Rightarrow> datetime) \<Rightarrow> agent_settings \<Rightarrow> host_fs \<Rightarrow> nat option \<Rightarrow> guest_type option \<Rightarrow> string \<Rightarrow>
   artifact_response option" where
  "artifact_entry local_time st fs vmid gtype n = (let p = dump_root st @ [n] in
     case fs_files fs p of None \<Rightarrow> None
     | Some h \<Rightarrow>
       if \<not> is_artifact_name n then None
       else (case parse_artifact_name n of Inl _ \<Rightarrow> None
         | Inr a \<Rightarrow>
           if vmid \<noteq> None \<and> vmid \<noteq> Some (art_vmid a) then None
           else if gtype \<noteq> None \<and> gtype \<noteq> Some (art_guest_type a) then None
           else Some \<lparr>ar_filename = n, ar_path = path_str p, ar_vmid = art_vmid a,
             ar_guest_type = art_guest_type a, ar_size_bytes = hf_size h,
             ar_created_at = local_time (created_at a), ar_modified_at = hf_mtime h,
             ar_compression = art_compression a, ar_checksum = read_cached_at SHA256 fs p,
             ar_notes = read_notes fs p\<rparr>))"

text \<open>
  \<open>parse_artifact_name\<close> raises on a name of the right shape with an impossible date, and the
  listing as a whole then fails.
\<close>

definition unparsable :: "agent_settings \<Rightarrow> host_fs \<Rightarrow> string \<Rightarrow> bool" where
  "unparsable st fs n = (is_file fs (dump_root st @ [n]) \<and> is_artifact_name n \<and> \<not> is_ok (parse_artifact_name n))"

definition list_artifacts ::
  "(civil_time \<Rightarrow> datetime) \<Rightarrow> agent_settings \<Rightarrow> host_fs \<Rightarrow> nat option \<Rightarrow> guest_type option \<Rightarrow>
   agent_error + artifact_response list" where
  "list_artifacts local_time st fs vmid gtype = (case fs_listing fs of
     None \<Rightarrow> Inl (NotFound ''Backup directory does not exist'')
   | Some names \<Rightarrow>
       if list_ex (unparsable st fs) names then Inl (ValidationFailed ''carries an invalid timestamp'')
       else Inr (rev (sort_key ar_created_at (rev
         (List.map_filter (artifact_entry local_time st fs vmid gtype) names)))))"

text \<open>
  The loop of \<open>delete\<close>: a target that is gone is skipped, one that cannot be unlinked raises and
  leaves what was already deleted deleted.
\<close>

fun unlink_all ::
  "(path \<Rightarrow> bool) \<Rightarrow> path list \<Rightarrow> nat \<times> string list \<Rightarrow> host_fs \<Rightarrow> (agent_error + (nat \<times> string list)) \<times> host_fs" where
  "unlink_all can_unlink [] acc fs = (Inr acc, fs)"
| "unlink_all can_unlink (t # ts) acc fs = (case fs_files fs t of
     None \<Rightarrow> unlink_all can_unlink ts acc fs
   | Some h \<Rightarrow>
       if \<not> can_unlink t then (Inl (ExecutionFailed ''An unexpected error occurred''), fs)
       else unlink_all can_unlink ts (fst acc + hf_size h, snd acc @ [last t])
              (fs\<lparr>fs_files := (fs_files fs)(t := None)\<rparr>))"

definition delete_targets :: "host_fs \<Rightarrow> artifact_name \<Rightarrow> path \<Rightarrow> path list" where
  "delete_targets fs a p = p # map (with_name p) (sidecar_paths a (\<lambda>n. is_file fs (with_name p n)))"

definition delete_artifact ::
  "agent_settings \<Rightarrow> (path \<Rightarrow> bool) \<Rightarrow> string \<Rightarrow> host_fs \<Rightarrow> (agent_error + (nat \<times> string list)) \<times> host_fs" where
  "delete_artifact st can_unlink fname fs = (case resolve_artifact st fs fname of
     Inl e \<Rightarrow> (Inl e, fs)
   | Inr (a, p) \<Rightarrow> unlink_all can_unlink (delete_targets fs a p) (0, []) fs)"

definition artifact_usage :: "agent_settings \<Rightarrow> host_fs \<Rightarrow> nat \<times> nat" where
  "artifact_usage st fs = (case fs_listing fs of None \<Rightarrow> (0, 0)
   | Some names \<Rightarrow>
       let counted = List.map_filter (\<lambda>n. if is_artifact_name n then fs_files fs (dump_root st @ [n]) else None) names
       in (length counted, sum_list (map hf_size counted)))"

section \<open>Storage report\<close>

record statvfs =
  f_blocks :: nat
  f_frsize :: nat
  f_bavail :: nat
  f_bfree :: nat

record fs_usage =
  fu_total :: int
  fu_used :: int
  fu_free :: int
  fu_percent :: rat

definition statvfs_usage :: "statvfs \<Rightarrow> fs_usage" where
  "statvfs_usage s = (let total_b = int (f_blocks s * f_frsize s); free_b = int (f_bavail s * f_frsize s);
       used_b = total_b - int (f_bfree s * f_frsize s)
     in \<lparr>fu_total = total_b, fu_used = used_b, fu_free = free_b,
        fu_percent = (if total_b \<noteq> 0 then py_round (of_int used_b / of_int total_b * 100) 2 else 0)\<rparr>)"

record storage_report =
  sr_dump_root :: fs_usage
  sr_storages :: "(storage_status \<times> rat) list"
  sr_artifact_count :: nat
  sr_artifact_bytes :: nat

definition storage_report_status ::
  "agent_settings \<Rightarrow> host_fs \<Rightarrow> statvfs \<Rightarrow> agent_error + storage_status list \<Rightarrow> agent_error + storage_report" where
  "storage_report_status st fs vfs pvesm = (if fs_listing fs = None
     then Inl (NotFound ''Backup directory does not exist'')
     else Inr \<lparr>sr_dump_root = statvfs_usage vfs,
       sr_storages = (case pvesm of Inl _ \<Rightarrow> [] | Inr es \<Rightarrow> map (\<lambda>e. (e, storage_used_percent e)) es),
       sr_artifact_count = fst (artifact_usage st fs), sr_artifact_bytes = snd (artifact_usage st fs)\<rparr>)"

definition free_bytes_of :: "statvfs \<Rightarrow> int" where
  "free_bytes_of vfs = fu_free (statvfs_usage vfs)"

section \<open>Facts\<close>

lemma unlink_all_frame:
  "snd (unlink_all can ts acc fs) = fs' \<Longrightarrow>
   (\<forall>q. q \<notin> set ts \<longrightarrow> fs_files fs' q = fs_files fs q) \<and>
   (\<forall>q. fs_files fs' q \<in> {None, fs_files fs q}) \<and>
   fs_resolve fs' = fs_resolve fs \<and> fs_listing fs' = fs_listing fs \<and> fs_hash fs' = fs_hash fs"
proof (induction can ts acc fs arbitrary: fs' rule: unlink_all.induct)
  case (2 can t ts acc fs)
  show ?case
  proof (cases "fs_files fs t")
    case None
    with 2 show ?thesis by auto
  next
    case (Some h)
    show ?thesis
    proof (cases "can t")
      case False
      with 2 Some show ?thesis by auto
    next
      case True
      from 2(2) [OF Some] True 2(3) Some show ?thesis by (auto split: if_splits)
    qed
  qed
qed simp

lemma unlink_all_gone:
  "fst (unlink_all can ts acc fs) = Inr r \<Longrightarrow> t \<in> set ts \<Longrightarrow> fs_files (snd (unlink_all can ts acc fs)) t = None"
proof (induction can ts acc fs rule: unlink_all.induct)
  case (2 can u ts acc fs)
  show ?case
  proof (cases "fs_files fs u")
    case None
    have "\<forall>q. fs_files (snd (unlink_all can ts acc fs)) q \<in> {None, fs_files fs q}"
      using unlink_all_frame [OF refl] by blast
    with None 2 show ?thesis by (cases "t = u") (simp, metis insertE singletonD, simp)
  next
    case (Some h)
    show ?thesis
    proof (cases "can u")
      case False
      with 2 Some show ?thesis by simp
    next
      case True
      let ?fs = "fs\<lparr>fs_files := (fs_files fs)(u := None)\<rparr>" and ?acc = "(fst acc + hf_size h, snd acc @ [last u])"
      have "\<forall>q. fs_files (snd (unlink_all can ts ?acc ?fs)) q \<in> {None, fs_files ?fs q}"
        using unlink_all_frame [OF refl] by blast
      from spec [OF this, of u] have "fs_files (snd (unlink_all can ts ?acc ?fs)) u = None" by simp
      with True Some 2 show ?thesis by (cases "t = u") auto
    qed
  qed
qed simp

definition size_at :: "host_fs \<Rightarrow> path \<Rightarrow> nat" where
  "size_at fs t = (case fs_files fs t of None \<Rightarrow> 0 | Some h \<Rightarrow> hf_size h)"

lemma size_at_removed:
  "(\<Sum>t\<in>A. size_at (fs\<lparr>fs_files := (fs_files fs)(u := None)\<rparr>) t) = (\<Sum>t\<in>A - {u}. size_at fs t)" if "finite A"
  using that by (intro sum.mono_neutral_cong_right) (auto simp: size_at_def)

lemma unlink_all_freed:
  "fst (unlink_all can ts acc fs) = Inr (freed, names) \<Longrightarrow>
   freed = fst acc + (\<Sum>t\<in>set ts. size_at fs t)"
proof (induction can ts acc fs rule: unlink_all.induct)
  case (2 can u ts acc fs)
  show ?case
  proof (cases "fs_files fs u")
    case None
    then have "size_at fs u = 0" by (simp add: size_at_def)
    with None 2 show ?thesis by (simp add: sum.insert_if)
  next
    case (Some h)
    then have "size_at fs u = hf_size h" by (simp add: size_at_def)
    with 2(2) [OF Some] 2(3) Some show ?thesis
      by (auto simp: size_at_removed sum.insert_remove split: if_splits)
  qed
qed simp

lemma resolve_artifact_Inr:
  "resolve_artifact st fs n = Inr (a, p) \<Longrightarrow>
   parse_artifact_name n = Inr a \<and> filename a = n \<and> validate_basename n = Inr n \<and> is_file fs p \<and>
   (\<exists>r. r \<noteq> [] \<and> p = fs_resolve fs (dump_root st) @ r) \<and>
   p = fs_resolve fs (fs_resolve fs (dump_root st) @ [n])"
  using parse_artifact_name_Inr [of n a]
  by (auto simp: resolve_artifact_def resolve_within_def result_simps Let_def is_relative_to_iff
      validate_basename_ok split: if_splits)

lemma resolve_artifact_chars:
  assumes "resolve_artifact st fs n = Inr (a, p)"
  shows "list_all artifact_char n \<and> startswith n ''vzdump-''"
proof -
  from resolve_artifact_Inr [OF assms] obtain m
    where m: "ARTIFACT_PATTERN n = Some m" and v: "\<not> list_ex is_control n"
    using parse_artifact_name_Inr [of n a] by (auto simp: validate_basename_ok)
  from m obtain core e where n: "n = core @ e" "at_end e" "list_all artifact_char core"
    "startswith core ''vzdump-''" by (rule artifact_pattern_chars)
  with v have "e = []" by (auto simp: at_end_def is_control_NL)
  with n show ?thesis by simp
qed

section \<open>Properties\<close>

text \<open>
  Only a well-formed artifact is reachable: a file name the service resolves is made of lower
  case letters, digits, dots, dashes and underscores and starts with \<open>vzdump-\<close>, and the path it
  resolves to is a file strictly inside the resolved dump root, whatever the symbolic links do.
\<close>

theorem resolve_reaches_only_artifacts:
  assumes "resolve_artifact st fs n = Inr (a, p)"
  shows "list_all (\<lambda>c. is_digit c \<or> is_lower c \<or> c \<in> set ''._-'') n \<and> startswith n ''vzdump-'' \<and>
    (\<exists>r. r \<noteq> [] \<and> p = fs_resolve fs (dump_root st) @ r) \<and> fs_files fs p \<noteq> None"
  using resolve_artifact_chars [OF assms] resolve_artifact_Inr [OF assms]
  by (auto simp: artifact_char_def is_file_def list_all_iff)

definition demo_settings :: agent_settings where
  "demo_settings = \<lparr>dump_root = [''mnt'', ''dump''], temp_dir = None, vzdump_bin = ''/usr/bin/vzdump'',
     qmrestore_bin = ''/usr/sbin/qmrestore'', qm_bin = ''/usr/sbin/qm'', pct_bin = ''/usr/sbin/pct'',
     rclone_bin = ''/usr/bin/rclone'', rclone_config = None, allowed_remotes = [], sync_enabled = True,
     rclone_transfers = 4, rclone_checkers = 8, rclone_low_level_retries = 3, rclone_stats_interval = 5,
     backup_timeout = 43200, restore_timeout = 43200, sync_timeout = 43200, checksum_after_backup = True,
     tail_lines = 40\<rparr>"

definition DEMO :: string where "DEMO = ''vzdump-qemu-101-2026_07_19-01_00_04.vma.zst''"

definition demo_fs :: host_fs where
  "demo_fs = \<lparr>fs_files = (\<lambda>p. if p = [''mnt'', ''dump'', DEMO]
       then Some \<lparr>hf_content = ''abc'', hf_size = 3, hf_mtime = 7, hf_readable = True\<rparr>
       else if p = [''mnt'', ''dump'', DEMO @ ''.md5'']
       then Some \<lparr>hf_content = ''x'', hf_size = 1, hf_mtime = 7, hf_readable = True\<rparr> else None),
     fs_listing = Some [DEMO, DEMO @ ''.md5''], fs_resolve = (\<lambda>p. p), fs_hash = (\<lambda>a s. s)\<rparr>"

lemma demo_parse: "parse_artifact_name DEMO = Inr \<lparr>filename = DEMO, art_guest_type = VM, art_vmid = 101,
    created_at = (2026, 7, 19, 1, 0, 4), container_format = ''vma'', art_compression = ZSTD\<rparr>"
  unfolding DEMO_def by code_simp

lemma demo_basename: "validate_basename DEMO = Inr DEMO"
  unfolding DEMO_def by code_simp

lemma demo_resolve: "resolve_artifact demo_settings demo_fs DEMO = Inr (\<lparr>filename = DEMO, art_guest_type = VM,
    art_vmid = 101, created_at = (2026, 7, 19, 1, 0, 4), container_format = ''vma'', art_compression = ZSTD\<rparr>,
    [''mnt'', ''dump'', DEMO])"
  by (simp add: resolve_artifact_def demo_parse resolve_within_def demo_basename demo_fs_def demo_settings_def
      is_relative_to_def is_file_def Let_def)

theorem resolve_reaches_only_artifacts_witness:
  "fs_files demo_fs [''mnt'', ''dump'', DEMO] \<noteq> None \<and> startswith DEMO ''vzdump-''"
  using resolve_reaches_only_artifacts [OF demo_resolve] by simp

text \<open>
  C37. Deleting an artifact touches nothing else: whatever the outcome, the only paths whose file
  changed are the artifact itself and its five side files in the same directory, and they can only
  have disappeared. When it succeeds the artifact is gone and the freed bytes are the sizes of the
  files removed.
\<close>

theorem delete_artifact_confined:
  assumes "resolve_artifact st fs n = Inr (a, p)"
    and "delete_artifact st can_unlink n fs = (res, fs')"
  shows "(\<forall>q. fs_files fs' q \<noteq> fs_files fs q \<longrightarrow> fs_files fs' q = None \<and>
      (q = p \<or> q \<in> with_name p ` {stem a @ ''.log'', n @ ''.notes'', n @ ''.sha256'', n @ ''.md5'', n @ ''.log''})) \<and>
    (\<forall>freed names. res = Inr (freed, names) \<longrightarrow> fs_files fs' p = None \<and>
      freed = (\<Sum>q\<in>set (delete_targets fs a p). size_at fs q))"
proof -
  have fn: "filename a = n" using resolve_artifact_Inr [OF assms(1)] by simp
  have r: "unlink_all can_unlink (delete_targets fs a p) (0, []) fs = (res, fs')"
    using assms by (simp add: delete_artifact_def)
  have t: "set (delete_targets fs a p) \<subseteq>
    insert p (with_name p ` {stem a @ ''.log'', n @ ''.notes'', n @ ''.sha256'', n @ ''.md5'', n @ ''.log''})"
    by (auto simp: delete_targets_def sidecar_paths_def fn)
  have "fs_files fs' q \<noteq> fs_files fs q \<Longrightarrow> fs_files fs' q = None \<and> q \<in> set (delete_targets fs a p)" for q
    using unlink_all_frame [of can_unlink "delete_targets fs a p" "(0, [])" fs fs'] r by auto
  with t have "\<forall>q. fs_files fs' q \<noteq> fs_files fs q \<longrightarrow> fs_files fs' q = None \<and>
      (q = p \<or> q \<in> with_name p ` {stem a @ ''.log'', n @ ''.notes'', n @ ''.sha256'', n @ ''.md5'', n @ ''.log''})"
    by blast
  moreover have "\<forall>freed names. res = Inr (freed, names) \<longrightarrow> fs_files fs' p = None \<and>
      freed = (\<Sum>q\<in>set (delete_targets fs a p). size_at fs q)"
    using unlink_all_gone [of can_unlink "delete_targets fs a p" "(0, [])" fs _ p]
      unlink_all_freed [of can_unlink "delete_targets fs a p" "(0, [])" fs] r
    by (auto simp: delete_targets_def)
  ultimately show ?thesis by blast
qed

lemma unlink_all_ok: "is_ok (fst (unlink_all (\<lambda>_. True) ts acc fs))"
  by (induction "\<lambda>_ :: path. True" ts acc fs rule: unlink_all.induct) (auto split: option.split)

theorem delete_artifact_confined_witness:
  "fs_files (snd (delete_artifact demo_settings (\<lambda>_. True) DEMO demo_fs)) [''mnt'', ''dump'', DEMO] = None \<and>
   fs_files demo_fs [''mnt'', ''dump'', DEMO] \<noteq> None"
proof -
  let ?r = "delete_artifact demo_settings (\<lambda>_. True) DEMO demo_fs"
  have "is_ok (fst ?r)" by (simp add: delete_artifact_def demo_resolve unlink_all_ok)
  then obtain fr ns where "?r = (Inr (fr, ns), snd ?r)" by (cases "fst ?r") (auto simp: prod_eq_iff)
  from delete_artifact_confined [OF demo_resolve this] show ?thesis
    by (simp add: demo_fs_def)
qed

end
