(* ===== verification/Agent_Services.thy ===== *)
theory Agent_Services
  imports Agent_Artifacts
begin

text \<open>
  \<open>agent/app/services\<close>: the backup, restore and sync orchestration. A request is validated in
  \<open>start_*\<close>, which takes a slot and creates the task; \<open>execute_*\<close> is the background coroutine. The
  world is the registry, the slots, the two storage validators and the files. What the child
  processes do is an argument (\<open>child_run\<close>); \<open>disk\<close> tells whether journal writes succeed.
\<close>

record 'h agent_world =
  aw_registry :: "'h registry"
  aw_slots :: slot_manager
  aw_backup_storages :: storage_validator
  aw_restore_storages :: storage_validator
  aw_fs :: host_fs

text \<open>
  The moments of one call, the new task id, whether the journal (\<open>ce_disk\<close>) and the side files
  (\<open>ce_files\<close>) can be written, and what \<open>pvesm\<close> answers.
\<close>

record call_env =
  ce_now :: datetime
  ce_end :: datetime
  ce_mono :: clock
  ce_uuid :: string
  ce_disk :: bool
  ce_files :: bool
  ce_live :: "agent_error + string list"

fun agent_detail :: "agent_error \<Rightarrow> string" where
  "agent_detail (ValidationFailed s) = s"
| "agent_detail (SchemaValidationFailed s) = s"
| "agent_detail (AuthenticationFailed s) = s"
| "agent_detail (ClientNotAllowed s) = s"
| "agent_detail (NotFound s) = s"
| "agent_detail (ConcurrencyConflict s) = s"
| "agent_detail (GuestLocked s) = s"
| "agent_detail (InsufficientStorage s) = s"
| "agent_detail (ExecutionFailed s) = s"

definition BACKUP_SLOT :: string where "BACKUP_SLOT = ''backup''"
definition RESTORE_SLOT :: string where "RESTORE_SLOT = ''restore''"
definition SYNC_SLOT :: string where "SYNC_SLOT = ''sync''"

text \<open>A busy slot is the conflict the caller sees; an unknown slot name is an unhandled KeyError.\<close>

definition acquire_or_conflict :: "string \<Rightarrow> slot_manager \<Rightarrow> agent_error + slot_manager" where
  "acquire_or_conflict n m = (case try_acquire m n of
     Inr m' \<Rightarrow> Inr m'
   | Inl (SlotBusyError _ _) \<Rightarrow> Inl (ConcurrencyConflict ''already running'')
   | Inl (SlotKeyError _) \<Rightarrow> Inl (ExecutionFailed ''An unexpected error occurred''))"

text \<open>\<open>x or None\<close> of a number, \<open>x or default\<close>.\<close>

definition or_none :: "int \<Rightarrow> int option" where
  "or_none x = (if x = 0 then None else Some x)"

definition opt_or :: "int option \<Rightarrow> int \<Rightarrow> int" where
  "opt_or x d = (case x of Some v \<Rightarrow> if v \<noteq> 0 then v else d | None \<Rightarrow> d)"

definition meaningful :: "string list \<Rightarrow> string list" where
  "meaningful lines = filter (\<lambda>l. py_strip l \<noteq> []) lines"

definition tail_summary :: "string list \<Rightarrow> string" where
  "tail_summary lines = (let m = meaningful lines; lastn = drop (length m - 3) m
     in if lastn \<noteq> [] then join_with '' | '' lastn else ''Command failed without output'')"

definition tail_summary_sync :: "string list \<Rightarrow> string" where
  "tail_summary_sync lines = (let t = join_with '' | '' (map py_strip (meaningful (drop (length lines - 5) lines)));
       cut = take 500 t in if cut \<noteq> [] then cut else ''rclone failed without producing output'')"

definition error_text :: "string option \<Rightarrow> string \<Rightarrow> string" where
  "error_text e d = (case e of Some (c # cs) \<Rightarrow> c # cs | _ \<Rightarrow> d)"

section \<open>Backup (\<open>backup_service.py\<close>)\<close>

record backup_request =
  br_vmid :: int
  br_guest_type :: guest_type
  br_mode :: backup_mode
  br_compression :: compression
  br_zstd_threads :: "int option"
  br_storage :: string
  br_bwlimit :: int
  br_notes :: "string option"
  br_correlation :: "string option"

record backup_job =
  bj_task :: task
  bj_argv :: "string list"
  bj_notes :: "string option"

definition backup_command :: "agent_settings \<Rightarrow> backup_request \<Rightarrow> int \<Rightarrow> string \<Rightarrow> vzdump_command" where
  "backup_command st req vmid storage = \<lparr>vz_vmid = vmid, vz_mode = br_mode req,
     vz_compression = br_compression req, vz_storage = storage, vz_zstd_threads = br_zstd_threads req,
     vz_bwlimit_kbps = or_none (br_bwlimit req), vz_tmpdir = map_option path_str (temp_dir st)\<rparr>"

definition start_backup ::
  "agent_settings \<Rightarrow> guest_locator \<Rightarrow> call_env \<Rightarrow> backup_request \<Rightarrow> 'h agent_world \<Rightarrow>
   (agent_error + backup_job) \<times> 'h agent_world" where
  "start_backup st guests env req w = (case require_guest guests (br_vmid req) (br_guest_type req) of
     Inl e \<Rightarrow> (Inl e, w)
   | Inr guest \<Rightarrow>
     (case require_storage (aw_backup_storages w) (ce_mono env) (ce_live env) (br_storage req) of
       (Inl e, v) \<Rightarrow> (Inl e, w\<lparr>aw_backup_storages := v\<rparr>)
     | (Inr storage, v) \<Rightarrow>
       (case acquire_or_conflict BACKUP_SLOT (aw_slots w) of
         Inl e \<Rightarrow> (Inl e, w\<lparr>aw_backup_storages := v\<rparr>)
       | Inr m \<Rightarrow>
         (case create_task (ce_disk env) (ce_now env) (ce_uuid env) BACKUP (br_correlation req)
             [(''vmid'', JInt (ref_vmid guest)), (''guest_type'', JStr (guest_type_value (ref_type guest))),
              (''mode'', JStr (backup_mode_value (br_mode req))),
              (''compression'', JStr (compression_value (br_compression req))), (''storage'', JStr storage)]
             (aw_registry w) of
           (t, r) \<Rightarrow>
             (Inr \<lparr>bj_task = t,
                bj_argv = build_vzdump (backup_command st req (ref_vmid guest) storage) (vzdump_bin st),
                bj_notes = br_notes req\<rparr>,
              w\<lparr>aw_backup_storages := v, aw_slots := m, aw_registry := r\<rparr>)))))"

text \<open>\<open>Path(text)\<close>: the components, and whether the text is absolute.\<close>

definition path_parts :: "string \<Rightarrow> path" where
  "path_parts s = filter (\<lambda>c. c \<noteq> [] \<and> c \<noteq> ''.'') (split_on (CHR ''/'') s)"

definition path_text :: "string \<Rightarrow> string" where
  "path_text s = (if startswith s ''/'' then path_str (path_parts s)
     else if path_parts s = [] then ''.'' else join_with ''/'' (path_parts s))"

definition last_part :: "path \<Rightarrow> string" where
  "last_part p = (if p = [] then [] else last p)"

text \<open>
  \<open>_write_notes\<close>: the side file, or a warning. A path that is not absolute is resolved against the
  working directory by \<open>fs_resolve\<close>.
\<close>

definition write_notes :: "bool \<Rightarrow> datetime \<Rightarrow> path \<Rightarrow> string \<Rightarrow> host_fs \<Rightarrow> string list \<times> host_fs" where
  "write_notes can_write now p notes fs = (if can_write
     then ([], fs\<lparr>fs_files := (fs_files fs)(with_name p (last_part p @ ''.notes'') \<mapsto>
       \<lparr>hf_content = notes @ [NL], hf_size = length notes + 1, hf_mtime = now, hf_readable = True\<rparr>)\<rparr>)
     else ([''Notes sidecar could not be written''], fs))"

definition warnings_entry :: "string list \<Rightarrow> jdict" where
  "warnings_entry ws = (if ws = [] then [] else [(''warnings'', JList (map JStr ws))])"

definition collect_artifact ::
  "agent_settings \<Rightarrow> bool \<Rightarrow> datetime \<Rightarrow> line_parser \<Rightarrow> string option \<Rightarrow> host_fs \<Rightarrow> jdict \<times> host_fs" where
  "collect_artifact st can_write now s notes fs = (case archive_path s of
     None \<Rightarrow> (warnings_entry [''vzdump reported success but no archive path was found in its output''], fs)
   | Some a \<Rightarrow>
       let archive = path_parts a; nm = last_part archive;
           base = [(''filename'', JStr nm), (''path'', JStr (path_text a))];
           w1 = (if is_artifact_name nm then [] else [''does not match the expected vzdump naming pattern''])
       in (case assert_within (fs_resolve fs) (dump_root st) archive of
         Inl _ \<Rightarrow> (base @ warnings_entry (w1 @ [''Archive was written outside the dump root'']), fs)
       | Inr inside \<Rightarrow>
           let (size_e, w2) = (case fs_files fs inside of
                 Some h \<Rightarrow> ([(''size_bytes'', JInt (int (hf_size h)))], [])
               | None \<Rightarrow> ([], [''Archive disappeared before its size could be read'']));
               (w3, fs1) = (case notes of Some (c # cs) \<Rightarrow> write_notes can_write now inside (c # cs) fs
                            | _ \<Rightarrow> ([], fs));
               (sum_e, w4) = (if \<not> checksum_after_backup st then ([], []) else
                 case digest_at SHA256 False fs1 inside of
                   Some c \<Rightarrow> ([(''checksum_sha256'', JStr (hex_digest c))], [])
                 | None \<Rightarrow> ([], [''Checksum could not be computed'']));
               rep = (case archive_size_bytes s of Some b \<Rightarrow> [(''reported_size_bytes'', JInt b)] | None \<Rightarrow> [])
           in (base @ size_e @ sum_e @ rep @ warnings_entry (w1 @ w2 @ w3 @ w4),
               if checksum_after_backup st then digest_fs SHA256 False can_write now fs1 inside else fs1)))"

text \<open>
  What every service does with a process that did not succeed: cancelled, timed out or failed, in
  that order.
\<close>

definition run_failure ::
  "string option \<Rightarrow> string \<Rightarrow> string \<Rightarrow> process_result \<Rightarrow> (task_state \<times> string option) option" where
  "run_failure cancel_text timeout_text failure_text res =
     (if cancelled res then Some (T_CANCELLED, cancel_text)
      else if timed_out res then Some (T_FAILED, Some timeout_text)
      else if \<not> result_ok res then Some (T_FAILED, Some failure_text)
      else None)"

text \<open>
  The prologue of every \<open>_execute\<close>: attach the handle, mark the task running, run the command and
  feed its lines to the parser, which updates the task's progress. (\<open>task.pid\<close>, set while the
  process runs, is reset by \<open>finish\<close>.)
\<close>

definition run_tracked ::
  "agent_settings \<Rightarrow> call_env \<Rightarrow> (string \<Rightarrow> line_parser \<Rightarrow> line_parser \<times> bool option) \<Rightarrow> string list \<Rightarrow> child_run \<Rightarrow>
   task \<Rightarrow> 'h registry \<Rightarrow> (agent_error + process_result) \<times> line_parser \<times> task \<times> 'h registry" where
  "run_tracked st env feed argv ch t r =
     (let outcome = run_logged (tail_lines st) argv ch;
          s = feed_all feed (if is_ok outcome then ch_lines ch else []) (new_parser (tk_progress t));
          (t', r') = update_progress (ce_disk env) (ce_now env) t (lp_progress s) False r
      in (outcome, s, t', r'))"

definition finish_with ::
  "call_env \<Rightarrow> task \<Rightarrow> task_state \<Rightarrow> int option \<Rightarrow> string option \<Rightarrow> jdict \<Rightarrow> 'h registry \<Rightarrow> 'h registry" where
  "finish_with env t state exit_c err result r =
     snd (finish_task (ce_disk env) (ce_end env) t state exit_c err result r)"

definition execute_backup ::
  "agent_settings \<Rightarrow> call_env \<Rightarrow> 'h \<Rightarrow> bool \<Rightarrow> child_run \<Rightarrow> backup_job \<Rightarrow> 'h agent_world \<Rightarrow> 'h agent_world" where
  "execute_backup st env handle can_write ch job w =
     (let r0 = attach_handle (tk_id (bj_task job)) handle (aw_registry w);
          (t1, r1) = mark_running (ce_disk env) (ce_now env) (bj_task job) None r0;
          (outcome, s, t2, r2) = run_tracked st env vzdump_feed (bj_argv job) ch t1 r1;
          (r3, fs') = (case outcome of
             Inl e \<Rightarrow> (finish_with env t2 T_FAILED None
                        (Some (''Agent error while running backup: '' @ agent_detail e)) [] r2, aw_fs w)
           | Inr res \<Rightarrow>
             (case run_failure (Some ''Cancelled by request'')
                 (''vzdump exceeded the '' @ show_int (backup_timeout st) @ ''s timeout'')
                 (error_text (error_message s) (tail_summary (last_lines res))) res of
               Some (state, err) \<Rightarrow> (finish_with env t2 state (Some (exit_code res)) err [] r2, aw_fs w)
             | None \<Rightarrow>
                 (case collect_artifact st can_write (ce_end env) s (bj_notes job) (aw_fs w) of
                   (found, fs1) \<Rightarrow> (finish_with env t2 T_SUCCESS (Some 0) None
                     (found @ [(''duration_seconds'', JNum (py_round (duration res) 2))]) r2, fs1))))
      in w\<lparr>aw_registry := r3, aw_slots := release (aw_slots w) BACKUP_SLOT, aw_fs := fs'\<rparr>)"

section \<open>Restore (\<open>restore_service.py\<close>)\<close>

record restore_request =
  rr_archive :: string
  rr_target_vmid :: int
  rr_storage :: string
  rr_overwrite :: bool
  rr_force_stop :: bool
  rr_start_after :: bool
  rr_bwlimit :: int
  rr_expected_sha256 :: "string option"
  rr_unprivileged :: "bool option"
  rr_correlation :: "string option"

record restore_job =
  rj_task :: task
  rj_argv :: "string list"
  rj_guest_type :: guest_type
  rj_target :: int
  rj_stop_first :: bool
  rj_start_after :: bool

definition guest_binary :: "agent_settings \<Rightarrow> guest_type \<Rightarrow> string" where
  "guest_binary st t = (case t of VM \<Rightarrow> qm_bin st | LXC \<Rightarrow> pct_bin st)"

text \<open>\<open>_guest_status\<close>; \<open>ch\<close> is the run of the status command.\<close>

definition guest_status_of :: "agent_settings \<Rightarrow> guest_type \<Rightarrow> int \<Rightarrow> child_run \<Rightarrow> agent_error + string" where
  "guest_status_of st t vmid ch =
     bindR (run_capture (build_status_argv (guest_binary st t) vmid) ch) (\<lambda>(code, out).
       Inr (if code \<noteq> 0 then ''unknown'' else parse_status_output out))"

definition assert_stoppable ::
  "agent_settings \<Rightarrow> restore_request \<Rightarrow> guest_type \<Rightarrow> child_run \<Rightarrow> agent_error + unit" where
  "assert_stoppable st req t ch =
     bindR (guest_status_of st t (rr_target_vmid req) ch) (\<lambda>status.
       if status = ''running'' \<and> \<not> rr_force_stop req
       then Inl (GuestLocked ''Guest is running. Set force_stop to shut it down before restoring.'')
       else Inr ())"

definition verify_digest :: "host_fs \<Rightarrow> path \<Rightarrow> string \<Rightarrow> agent_error + unit" where
  "verify_digest fs p expected = (case digest_at SHA256 True fs p of
     None \<Rightarrow> Inl (ExecutionFailed ''An unexpected error occurred'')
   | Some c \<Rightarrow> if py_lower (hex_digest c) \<noteq> py_lower expected
       then Inl (ValidationFailed ''Archive digest does not match the expected value; refusing to restore.'')
       else Inr ())"

text \<open>The digest check of \<open>_restore\<close>, with the files after it.\<close>

definition check_digest ::
  "call_env \<Rightarrow> restore_request \<Rightarrow> path \<Rightarrow> host_fs \<Rightarrow> (agent_error + unit) \<times> host_fs" where
  "check_digest env req p fs = (case rr_expected_sha256 req of
     Some (c # cs) \<Rightarrow> (verify_digest fs p (c # cs), digest_fs SHA256 True (ce_files env) (ce_now env) fs p)
   | _ \<Rightarrow> (Inr (), fs))"

definition check_target ::
  "agent_settings \<Rightarrow> guest_locator \<Rightarrow> restore_request \<Rightarrow> guest_type \<Rightarrow> child_run \<Rightarrow> agent_error + guest_ref option" where
  "check_target st guests req t status_run =
     bindR (validate_vmid guests (rr_target_vmid req)) (\<lambda>_.
     case find_guest guests (rr_target_vmid req) of
       None \<Rightarrow> Inr None
     | Some g \<Rightarrow>
         if \<not> rr_overwrite req then Inl (ValidationFailed ''VMID already exists. Set overwrite to replace it.'')
         else if ref_type g \<noteq> t then Inl (ValidationFailed ''it cannot be replaced by a restore of the other type'')
         else bindR (assert_stoppable st req t status_run) (\<lambda>_. Inr (Some g)))"

definition restore_command_of ::
  "restore_request \<Rightarrow> guest_type \<Rightarrow> path \<Rightarrow> string \<Rightarrow> restore_command" where
  "restore_command_of req t p storage = \<lparr>rc_archive_path = path_str p, rc_target_vmid = rr_target_vmid req,
     rc_storage = storage, rc_overwrite = rr_overwrite req, rc_bwlimit_kbps = or_none (rr_bwlimit req),
     rc_unprivileged = (case t of VM \<Rightarrow> None | LXC \<Rightarrow> rr_unprivileged req)\<rparr>"

definition restore_binary :: "agent_settings \<Rightarrow> guest_type \<Rightarrow> string" where
  "restore_binary st t = (case t of VM \<Rightarrow> qmrestore_bin st | LXC \<Rightarrow> pct_bin st)"

definition start_restore ::
  "agent_settings \<Rightarrow> guest_locator \<Rightarrow> call_env \<Rightarrow> child_run \<Rightarrow> guest_type \<Rightarrow> restore_request \<Rightarrow> 'h agent_world \<Rightarrow>
   (agent_error + restore_job) \<times> 'h agent_world" where
  "start_restore st guests env status_run t req w = (case resolve_artifact st (aw_fs w) (rr_archive req) of
     Inl e \<Rightarrow> (Inl e, w)
   | Inr (artifact, archive_p) \<Rightarrow>
     if art_guest_type artifact \<noteq> t
     then (Inl (ValidationFailed ''is a backup of the other type; use its restore endpoint''), w)
     else (case require_storage (aw_restore_storages w) (ce_mono env) (ce_live env) (rr_storage req) of
       (Inl e, v) \<Rightarrow> (Inl e, w\<lparr>aw_restore_storages := v\<rparr>)
     | (Inr storage, v) \<Rightarrow>
       (case check_target st guests req t status_run of
         Inl e \<Rightarrow> (Inl e, w\<lparr>aw_restore_storages := v\<rparr>)
       | Inr existing \<Rightarrow>
       (case check_digest env req archive_p (aw_fs w) of
         (Inl e, fs') \<Rightarrow> (Inl e, w\<lparr>aw_restore_storages := v, aw_fs := fs'\<rparr>)
       | (Inr _, fs') \<Rightarrow>
       (case acquire_or_conflict RESTORE_SLOT (aw_slots w) of
         Inl e \<Rightarrow> (Inl e, w\<lparr>aw_restore_storages := v, aw_fs := fs'\<rparr>)
       | Inr m \<Rightarrow>
         (case create_task (ce_disk env) (ce_now env) (ce_uuid env)
             (case t of VM \<Rightarrow> RESTORE_VM | LXC \<Rightarrow> RESTORE_LXC) (rr_correlation req)
             [(''archive'', JStr (filename artifact)), (''source_vmid'', JInt (int (art_vmid artifact))),
              (''target_vmid'', JInt (rr_target_vmid req)), (''guest_type'', JStr (guest_type_value t)),
              (''storage'', JStr storage), (''overwrite'', JBool (rr_overwrite req))] (aw_registry w) of
           (tk, r) \<Rightarrow>
             (Inr \<lparr>rj_task = tk,
                rj_argv = build_restore t (restore_command_of req t archive_p storage) (restore_binary st t),
                rj_guest_type = t, rj_target = rr_target_vmid req,
                rj_stop_first = (existing \<noteq> None \<and> rr_force_stop req),
                rj_start_after = rr_start_after req\<rparr>,
              w\<lparr>aw_restore_storages := v, aw_slots := m, aw_registry := r, aw_fs := fs'\<rparr>)))))))"

definition set_message :: "call_env \<Rightarrow> string \<Rightarrow> task \<Rightarrow> 'h registry \<Rightarrow> task \<times> 'h registry" where
  "set_message env m t r =
     update_progress (ce_disk env) (ce_now env) t (tk_progress t\<lparr>message := Some m\<rparr>) True r"

text \<open>
  The body after \<open>mark_running\<close>: the result the task is finished with. \<open>stop_run\<close>, \<open>ch\<close> and
  \<open>start_run\<close> are the three commands; an error of any of them reaches the handler at the bottom.
\<close>

definition restore_outcome ::
  "agent_settings \<Rightarrow> restore_job \<Rightarrow> child_run \<Rightarrow> agent_error + process_result \<Rightarrow> line_parser \<Rightarrow>
   agent_error + (task_state \<times> int option \<times> string option \<times> jdict)" where
  "restore_outcome st job start_run outcome s = bindR outcome (\<lambda>res.
     case run_failure (Some ''Cancelled by request. The target guest may be in a partial state.'')
         (''Restore exceeded the '' @ show_int (restore_timeout st) @ ''s timeout'')
         (error_text (error_message s) (tail_summary (last_lines res))) res of
       Some (state, err) \<Rightarrow> Inr (state, Some (exit_code res), err, [])
     | None \<Rightarrow>
         let base = [(''target_vmid'', JInt (rj_target job)),
               (''guest_type'', JStr (guest_type_value (rj_guest_type job))),
               (''duration_seconds'', JNum (py_round (duration res) 2))]
         in if \<not> rj_start_after job then Inr (T_SUCCESS, Some 0, None, base @ [(''started'', JBool False)])
            else bindR (run_logged (tail_lines st)
                (build_start_argv (guest_binary st (rj_guest_type job)) (rj_target job)) start_run) (\<lambda>sres.
              Inr (T_SUCCESS, Some 0, None, base @ [(''started'', JBool (result_ok sres))] @
                warnings_entry (if result_ok sres then [] else [''Restore completed but guest failed to start'']))))"

definition settle_restore ::
  "call_env \<Rightarrow> task \<Rightarrow> agent_error + (task_state \<times> int option \<times> string option \<times> jdict) \<Rightarrow> 'h registry \<Rightarrow> 'h registry" where
  "settle_restore env t res r = (case res of
     Inl e \<Rightarrow> finish_with env t T_FAILED None (Some (''Agent error while restoring: '' @ agent_detail e)) [] r
   | Inr (state, exit_c, err, result) \<Rightarrow> finish_with env t state exit_c err result r)"

definition stop_target :: "agent_settings \<Rightarrow> restore_job \<Rightarrow> child_run \<Rightarrow> (agent_error + process_result) option" where
  "stop_target st job stop_run = (if rj_stop_first job
     then Some (run_logged (tail_lines st)
       (build_stop_argv (guest_binary st (rj_guest_type job)) (rj_target job)) stop_run)
     else None)"

definition execute_restore ::
  "agent_settings \<Rightarrow> call_env \<Rightarrow> 'h \<Rightarrow> child_run \<Rightarrow> child_run \<Rightarrow> child_run \<Rightarrow> restore_job \<Rightarrow> 'h agent_world \<Rightarrow> 'h agent_world" where
  "execute_restore st env handle stop_run ch start_run job w =
     (let r0 = attach_handle (tk_id (rj_task job)) handle (aw_registry w);
          (t1, r1) = mark_running (ce_disk env) (ce_now env) (rj_task job) None r0;
          (t2, r2) = (if rj_stop_first job then set_message env ''stopping target guest'' t1 r1 else (t1, r1));
          r5 = (case stop_target st job stop_run of
             Some (Inl e) \<Rightarrow> settle_restore env t2 (Inl e) r2
           | Some (Inr sres) \<Rightarrow>
               if \<not> result_ok sres
               then finish_with env t2 T_FAILED (Some (exit_code sres))
                 (Some (''Could not stop guest '' @ show_int (rj_target job) @ '' before restoring'')) [] r2
               else (let (t3, r3) = set_message env ''restoring'' t2 r2;
                         (outcome, s, t4, r4) = run_tracked st env restore_feed (rj_argv job) ch t3 r3
                     in settle_restore env t4 (restore_outcome st job start_run outcome s) r4)
           | None \<Rightarrow> (let (t3, r3) = set_message env ''restoring'' t2 r2;
                         (outcome, s, t4, r4) = run_tracked st env restore_feed (rj_argv job) ch t3 r3
                     in settle_restore env t4 (restore_outcome st job start_run outcome s) r4))
      in w\<lparr>aw_registry := r5, aw_slots := release (aw_slots w) RESTORE_SLOT\<rparr>)"

section \<open>Sync (\<open>sync_service.py\<close>)\<close>

record sync_request =
  sq_filename :: string
  sq_remote :: string
  sq_remote_path :: string
  sq_bwlimit :: int
  sq_transfers :: "int option"
  sq_verify_after :: bool
  sq_overwrite :: bool
  sq_correlation :: "string option"

definition require_enabled :: "agent_settings \<Rightarrow> agent_error + unit" where
  "require_enabled st = (if \<not> sync_enabled st
     then Inl (ValidationFailed ''Sync is disabled on this agent (PROXSYNC_AGENT_SYNC_ENABLED=false)'') else Inr ())"

definition rclone_options_of :: "agent_settings \<Rightarrow> int \<Rightarrow> int option \<Rightarrow> rclone_options" where
  "rclone_options_of st bwlimit transfers = \<lparr>ro_bin = rclone_bin st, ro_config = rclone_config st,
     ro_transfers = opt_or transfers (rclone_transfers st), ro_checkers = rclone_checkers st,
     ro_bwlimit_kbps = bwlimit, ro_low_level_retries = rclone_low_level_retries st,
     ro_stats_interval = rclone_stats_interval st, ro_extra = []\<rparr>"

definition validated_remote :: "agent_settings \<Rightarrow> string \<Rightarrow> string \<Rightarrow> agent_error + (string \<times> string)" where
  "validated_remote st remote remote_path =
     bindR (validate_remote_name remote (allowed_remotes st)) (\<lambda>n.
     bindR (validate_remote_path remote_path) (\<lambda>p. Inr (n, p)))"

definition local_artifact :: "agent_settings \<Rightarrow> host_fs \<Rightarrow> string \<Rightarrow> agent_error + path" where
  "local_artifact st fs fname = bindR (parse_artifact_name fname) (\<lambda>_.
     resolve_within (fs_resolve fs) (dump_root st) fname)"

record sync_job =
  sj_task :: task
  sj_argv :: "string list"
  sj_verify :: "sync_request option"

text \<open>\<open>_schedule\<close>: take the slot, create the task.\<close>

definition schedule_sync ::
  "call_env \<Rightarrow> task_kind \<Rightarrow> string list \<Rightarrow> string option \<Rightarrow> jdict \<Rightarrow> sync_request option \<Rightarrow> 'h agent_world \<Rightarrow>
   (agent_error + sync_job) \<times> 'h agent_world" where
  "schedule_sync env kind argv correlation meta verify w = (case acquire_or_conflict SYNC_SLOT (aw_slots w) of
     Inl e \<Rightarrow> (Inl e, w)
   | Inr m \<Rightarrow> (case create_task (ce_disk env) (ce_now env) (ce_uuid env) kind correlation meta (aw_registry w) of
       (t, r) \<Rightarrow> (Inr \<lparr>sj_task = t, sj_argv = argv, sj_verify = verify\<rparr>,
                  w\<lparr>aw_slots := m, aw_registry := r\<rparr>)))"

definition upload_plan ::
  "agent_settings \<Rightarrow> host_fs \<Rightarrow> sync_request \<Rightarrow> agent_error + (string list \<times> jdict \<times> sync_request option)" where
  "upload_plan st fs req =
     bindR (require_enabled st) (\<lambda>_.
     bindR (validated_remote st (sq_remote req) (sq_remote_path req)) (\<lambda>(remote, rpath).
     bindR (local_artifact st fs (sq_filename req)) (\<lambda>source.
     case fs_files fs source of
       None \<Rightarrow> Inl (NotFound ''Backup does not exist on this host'')
     | Some h \<Rightarrow> Inr
        (build_copy_argv (rclone_options_of st (sq_bwlimit req) (sq_transfers req)) (path_str source)
           (build_remote_spec remote rpath (sq_filename req)),
         [(''filename'', JStr (sq_filename req)), (''remote'', JStr remote), (''remote_path'', JStr rpath),
          (''size_bytes'', JInt (int (hf_size h)))],
         if sq_verify_after req then Some (req\<lparr>sq_remote := remote, sq_remote_path := rpath\<rparr>) else None))))"

definition download_plan ::
  "agent_settings \<Rightarrow> host_fs \<Rightarrow> sync_request \<Rightarrow> agent_error + (string list \<times> jdict \<times> sync_request option)" where
  "download_plan st fs req =
     bindR (require_enabled st) (\<lambda>_.
     bindR (validated_remote st (sq_remote req) (sq_remote_path req)) (\<lambda>(remote, rpath).
     bindR (local_artifact st fs (sq_filename req)) (\<lambda>destination.
     if fs_files fs destination \<noteq> None \<and> \<not> sq_overwrite req
     then Inl (ValidationFailed ''already exists locally'')
     else Inr
       (build_copy_argv (rclone_options_of st (sq_bwlimit req) (sq_transfers req))
          (build_remote_spec remote rpath (sq_filename req)) (path_str destination),
        [(''filename'', JStr (sq_filename req)), (''remote'', JStr remote), (''remote_path'', JStr rpath)], None))))"

definition start_upload ::
  "agent_settings \<Rightarrow> call_env \<Rightarrow> sync_request \<Rightarrow> 'h agent_world \<Rightarrow> (agent_error + sync_job) \<times> 'h agent_world" where
  "start_upload st env req w = (case upload_plan st (aw_fs w) req of
     Inl e \<Rightarrow> (Inl e, w)
   | Inr (argv, meta, verify) \<Rightarrow> schedule_sync env UPLOAD argv (sq_correlation req) meta verify w)"

definition start_download ::
  "agent_settings \<Rightarrow> call_env \<Rightarrow> sync_request \<Rightarrow> 'h agent_world \<Rightarrow> (agent_error + sync_job) \<times> 'h agent_world" where
  "start_download st env req w = (case download_plan st (aw_fs w) req of
     Inl e \<Rightarrow> (Inl e, w)
   | Inr (argv, meta, verify) \<Rightarrow> schedule_sync env DOWNLOAD argv (sq_correlation req) meta verify w)"

text \<open>\<open>loads\<close> is \<open>json.loads\<close>: \<open>None\<close> for text that is not JSON.\<close>

definition list_remote ::
  "agent_settings \<Rightarrow> (string \<Rightarrow> jval option) \<Rightarrow> string \<Rightarrow> string \<Rightarrow> child_run \<Rightarrow> agent_error + remote_entry list" where
  "list_remote st loads remote remote_path ch =
     bindR (require_enabled st) (\<lambda>_.
     bindR (validated_remote st remote remote_path) (\<lambda>(n, p).
     bindR (run_capture (build_lsjson_argv (rclone_options_of st 0 None) (build_remote_spec n p []) True) ch)
       (\<lambda>(exit_c, out).
       if exit_c \<noteq> 0 then
         (if contains_sub ''directory not found'' (py_lower out) then Inr []
          else Inl (ExecutionFailed ''rclone lsjson exited''))
       else parse_lsjson (loads (if out = [] then ''[]'' else out)))))"

definition quota ::
  "agent_settings \<Rightarrow> (string \<Rightarrow> jval option) \<Rightarrow> string \<Rightarrow> child_run \<Rightarrow> agent_error + remote_quota" where
  "quota st loads remote ch =
     bindR (require_enabled st) (\<lambda>_.
     bindR (validate_remote_name remote (allowed_remotes st)) (\<lambda>n.
     bindR (run_capture (build_about_argv (rclone_options_of st 0 None) (n @ '':'')) ch) (\<lambda>(exit_c, out).
       if exit_c \<noteq> 0 then Inl (ExecutionFailed ''rclone about exited'')
       else parse_about (loads (if out = [] then ''{}'' else out)))))"

record verify_result =
  vr_outcome :: verify_outcome
  vr_verified :: bool
  vr_local_size :: int
  vr_remote_size :: "int option"
  vr_local_md5 :: "string option"
  vr_remote_md5 :: "string option"

definition compare_copies ::
  "host_fs \<Rightarrow> path \<Rightarrow> hfile \<Rightarrow> remote_entry option \<Rightarrow> agent_error + verify_result" where
  "compare_copies fs source h found = (case found of
     None \<Rightarrow> Inr \<lparr>vr_outcome = MISSING_REMOTE, vr_verified = False, vr_local_size = int (hf_size h),
       vr_remote_size = None, vr_local_md5 = None, vr_remote_md5 = None\<rparr>
   | Some e \<Rightarrow>
     if re_size_bytes e \<noteq> int (hf_size h) then
       Inr \<lparr>vr_outcome = SIZE_MISMATCH, vr_verified = False, vr_local_size = int (hf_size h),
         vr_remote_size = Some (re_size_bytes e), vr_local_md5 = None, vr_remote_md5 = None\<rparr>
     else (case entry_md5 e of
       None \<Rightarrow> Inr \<lparr>vr_outcome = HASH_UNAVAILABLE, vr_verified = False, vr_local_size = int (hf_size h),
         vr_remote_size = Some (re_size_bytes e), vr_local_md5 = None, vr_remote_md5 = None\<rparr>
     | Some remote_md5 \<Rightarrow> (case digest_at MD5 True fs source of
         None \<Rightarrow> Inl (ExecutionFailed ''An unexpected error occurred'')
       | Some c \<Rightarrow>
           let agree = (py_lower (hex_digest c) = py_lower remote_md5)
           in Inr \<lparr>vr_outcome = (if agree then MATCH else HASH_MISMATCH), vr_verified = agree,
             vr_local_size = int (hf_size h), vr_remote_size = Some (re_size_bytes e),
             vr_local_md5 = Some (hex_digest c), vr_remote_md5 = Some remote_md5\<rparr>)))"

text \<open>The files after the comparison: the local MD5 is cached once it had to be computed.\<close>

definition compared_fs :: "call_env \<Rightarrow> host_fs \<Rightarrow> path \<Rightarrow> hfile \<Rightarrow> remote_entry option \<Rightarrow> host_fs" where
  "compared_fs env fs source h found = (case found of
     Some e \<Rightarrow> if re_size_bytes e = int (hf_size h) \<and> entry_md5 e \<noteq> None
       then digest_fs MD5 True (ce_files env) (ce_end env) fs source else fs
   | None \<Rightarrow> fs)"

text \<open>What \<open>verify\<close> compares: the local file and the first remote entry of its name.\<close>

definition verify_inputs ::
  "agent_settings \<Rightarrow> (string \<Rightarrow> jval option) \<Rightarrow> host_fs \<Rightarrow> sync_request \<Rightarrow> child_run \<Rightarrow>
   agent_error + (path \<times> hfile \<times> remote_entry option)" where
  "verify_inputs st loads fs req ch =
     bindR (require_enabled st) (\<lambda>_.
     bindR (validated_remote st (sq_remote req) (sq_remote_path req)) (\<lambda>(remote, rpath).
     bindR (local_artifact st fs (sq_filename req)) (\<lambda>source.
     case fs_files fs source of
       None \<Rightarrow> Inl (NotFound ''Backup does not exist on this host'')
     | Some h \<Rightarrow> bindR (list_remote st loads remote rpath ch) (\<lambda>entries.
         Inr (source, h, find (\<lambda>e. re_name e = sq_filename req \<and> \<not> re_is_dir e) entries)))))"

definition verify_copy ::
  "agent_settings \<Rightarrow> call_env \<Rightarrow> (string \<Rightarrow> jval option) \<Rightarrow> host_fs \<Rightarrow> sync_request \<Rightarrow> child_run \<Rightarrow>
   (agent_error + verify_result) \<times> host_fs" where
  "verify_copy st env loads fs req ch = (case verify_inputs st loads fs req ch of
     Inl e \<Rightarrow> (Inl e, fs)
   | Inr (source, h, found) \<Rightarrow> (compare_copies fs source h found, compared_fs env fs source h found))"

definition delete_remote ::
  "agent_settings \<Rightarrow> sync_request \<Rightarrow> child_run \<Rightarrow> agent_error + string" where
  "delete_remote st req ch =
     bindR (require_enabled st) (\<lambda>_.
     bindR (validated_remote st (sq_remote req) (sq_remote_path req)) (\<lambda>(remote, rpath).
     bindR (validate_basename (sq_filename req)) (\<lambda>_.
     bindR (parse_artifact_name (sq_filename req)) (\<lambda>_.
     let target = build_remote_spec remote rpath (sq_filename req) in
     bindR (run_capture (build_delete_argv (rclone_options_of st 0 None) target) ch) (\<lambda>(exit_c, out).
       if exit_c \<noteq> 0 then
         (if contains_sub ''object not found'' (py_lower out) \<or> contains_sub ''not found'' (py_lower out)
          then Inl (NotFound ''is not present at the remote'')
          else Inl (ExecutionFailed ''rclone deletefile exited''))
       else Inr target)))))"

fun verify_outcome_value :: "verify_outcome \<Rightarrow> string" where
  "verify_outcome_value MATCH = ''match''"
| "verify_outcome_value SIZE_MISMATCH = ''size_mismatch''"
| "verify_outcome_value HASH_MISMATCH = ''hash_mismatch''"
| "verify_outcome_value MISSING_REMOTE = ''missing_remote''"
| "verify_outcome_value HASH_UNAVAILABLE = ''hash_unavailable''"

text \<open>The fields of the verification that \<open>model_dump\<close> puts into the task's result.\<close>

definition verification_dump :: "sync_request \<Rightarrow> verify_result \<Rightarrow> jdict" where
  "verification_dump req v = [(''filename'', JStr (sq_filename req)), (''remote'', JStr (sq_remote req)),
     (''remote_path'', JStr (sq_remote_path req)), (''outcome'', JStr (verify_outcome_value (vr_outcome v))),
     (''verified'', JBool (vr_verified v)), (''local_size_bytes'', JInt (vr_local_size v)),
     (''remote_size_bytes'', jopt JInt (vr_remote_size v)), (''local_md5'', jopt JStr (vr_local_md5 v)),
     (''remote_md5'', jopt JStr (vr_remote_md5 v))]"

definition sync_outcome ::
  "agent_settings \<Rightarrow> call_env \<Rightarrow> (string \<Rightarrow> jval option) \<Rightarrow> host_fs \<Rightarrow> sync_job \<Rightarrow> child_run \<Rightarrow> agent_error + process_result \<Rightarrow>
   line_parser \<Rightarrow> agent_error + (task_state \<times> int option \<times> string option \<times> jdict)" where
  "sync_outcome st env loads fs job list_run outcome s = bindR outcome (\<lambda>res.
     case run_failure None (''Transfer timed out after '' @ show_int (sync_timeout st) @ ''s'')
         (error_text (error_message s) (tail_summary_sync (last_lines res))) res of
       Some (state, err) \<Rightarrow> Inr (state, Some (exit_code res), err, [])
     | None \<Rightarrow>
         let base = [(''duration_seconds'', JNum (py_round (duration res) 2)),
               (''bytes_transferred'', jopt JInt (bytes_done (lp_progress s)))]
         in (case sj_verify job of
              None \<Rightarrow> Inr (T_SUCCESS, Some 0, None, base)
            | Some req \<Rightarrow> bindR (fst (verify_copy st env loads fs req list_run)) (\<lambda>v.
                let result = base @ [(''verification'', JDict (verification_dump req v))]
                in if \<not> vr_verified v
                   then Inr (T_FAILED, Some 0, Some (''Upload completed but verification reported ''
                     @ verify_outcome_value (vr_outcome v)), result)
                   else Inr (T_SUCCESS, Some 0, None, result))))"

definition settle_sync ::
  "call_env \<Rightarrow> task \<Rightarrow> agent_error + (task_state \<times> int option \<times> string option \<times> jdict) \<Rightarrow> 'h registry \<Rightarrow> 'h registry" where
  "settle_sync env t res r = (case res of
     Inl e \<Rightarrow> finish_with env t T_FAILED None (Some (''Agent error during transfer: '' @ agent_detail e)) [] r
   | Inr (state, exit_c, err, result) \<Rightarrow> finish_with env t state exit_c err result r)"

text \<open>
  A download that succeeds also leaves its file in the dump root: \<open>fs'\<close> is the file system after the
  copy. The verification of an upload may then write the digest's side file.
\<close>

definition verified_fs ::
  "agent_settings \<Rightarrow> call_env \<Rightarrow> (string \<Rightarrow> jval option) \<Rightarrow> host_fs \<Rightarrow> sync_job \<Rightarrow> child_run \<Rightarrow>
   agent_error + process_result \<Rightarrow> host_fs" where
  "verified_fs st env loads fs job list_run outcome = (case (outcome, sj_verify job) of
     (Inr res, Some req) \<Rightarrow> if result_ok res then snd (verify_copy st env loads fs req list_run) else fs
   | _ \<Rightarrow> fs)"

definition execute_sync ::
  "agent_settings \<Rightarrow> call_env \<Rightarrow> (string \<Rightarrow> jval option) \<Rightarrow> 'h \<Rightarrow> child_run \<Rightarrow> child_run \<Rightarrow> host_fs \<Rightarrow> sync_job \<Rightarrow>
   'h agent_world \<Rightarrow> 'h agent_world" where
  "execute_sync st env loads handle ch list_run fs' job w =
     (let r0 = attach_handle (tk_id (sj_task job)) handle (aw_registry w);
          (t1, r1) = mark_running (ce_disk env) (ce_now env) (sj_task job) None r0;
          (outcome, s, t2, r2) = run_tracked st env rclone_feed (sj_argv job) ch t1 r1
      in w\<lparr>aw_registry := settle_sync env t2 (sync_outcome st env loads fs' job list_run outcome s) r2,
           aw_slots := release (aw_slots w) SYNC_SLOT,
           aw_fs := verified_fs st env loads fs' job list_run outcome\<rparr>)"

text \<open>\<open>cancel\<close>: False when no process handle is attached.\<close>

definition cancel_task :: "('h \<Rightarrow> bool) \<Rightarrow> string \<Rightarrow> 'h registry \<Rightarrow> bool" where
  "cancel_task cancel_handle i r = (case handle_of r i of None \<Rightarrow> False | Some h \<Rightarrow> cancel_handle h)"

section \<open>What an execution leaves\<close>

definition elsewhere :: "string \<Rightarrow> 'h registry \<Rightarrow> 'h registry \<Rightarrow> bool" where
  "elsewhere i r r' = (\<forall>j. j \<noteq> i \<longrightarrow> find_task r' j = find_task r j \<and> handle_of r' j = handle_of r j)"

lemma elsewhere_trans: "elsewhere i r r' \<Longrightarrow> elsewhere i r' r'' \<Longrightarrow> elsewhere i r r''"
  by (simp add: elsewhere_def)

lemma elsewhere_attach: "elsewhere i r (attach_handle i h r)"
  by (simp add: elsewhere_def attach_handle_def handle_of_def)

lemma handle_of_simps [simp]:
  "handle_of (put_task t r) i = handle_of r i" "handle_of (persist ok now t r) i = handle_of r i"
  by (simp_all add: handle_of_def put_task_def persist_def)

lemma mark_running_elsewhere:
  "mark_running ok now t p r = (t', r') \<Longrightarrow> tk_id t' = tk_id t \<and> elsewhere (tk_id t) r r'"
  by (auto simp: mark_running_def elsewhere_def Let_def)

lemma update_progress_elsewhere:
  "update_progress ok now t p d r = (t', r') \<Longrightarrow> tk_id t' = tk_id t \<and> elsewhere (tk_id t) r r'"
  by (auto simp: update_progress_def elsewhere_def Let_def)

lemma set_message_elsewhere:
  "set_message env m t r = (t', r') \<Longrightarrow> tk_id t' = tk_id t \<and> elsewhere (tk_id t) r r'"
  unfolding set_message_def by (rule update_progress_elsewhere)

lemma run_tracked_elsewhere:
  "run_tracked st env feed argv ch t r = (x, s, t', r') \<Longrightarrow> tk_id t' = tk_id t \<and> elsewhere (tk_id t) r r'"
  by (auto simp: run_tracked_def Let_def dest: update_progress_elsewhere split: prod.splits)

text \<open>The task has reached \<open>state\<close> with this exit code and this error, and its handle is gone.\<close>

definition settled_as :: "string \<Rightarrow> task_state \<Rightarrow> int option \<Rightarrow> string option \<Rightarrow> 'h registry \<Rightarrow> bool" where
  "settled_as i state exit_c err r = (handle_of r i = None \<and>
     (\<exists>t. find_task r i = Some t \<and> tk_id t = i \<and> tk_state t = state \<and> tk_exit_code t = exit_c \<and> tk_error t = err))"

definition settled :: "string \<Rightarrow> 'h registry \<Rightarrow> bool" where
  "settled i r = (\<exists>state exit_c err. task_is_terminal state \<and> settled_as i state exit_c err r)"

lemma settled_asI: "task_is_terminal state \<Longrightarrow> settled_as i state exit_c err r \<Longrightarrow> settled i r"
  by (auto simp: settled_def)

lemma finish_with_facts:
  "settled_as (tk_id t) state exit_c err (finish_with env t state exit_c err result r)"
  "elsewhere (tk_id t) r (finish_with env t state exit_c err result r)"
  by (auto simp: finish_with_def finish_task_def Let_def settled_as_def elsewhere_def handle_of_def
      put_task_def persist_def find_task_def update_conv)

lemma finish_with_settles:
  "task_is_terminal state \<Longrightarrow> settled (tk_id t) (finish_with env t state exit_c err result r) \<and>
   elsewhere (tk_id t) r (finish_with env t state exit_c err result r)"
  using finish_with_facts by (blast intro: settled_asI)

lemmas finish_with_simps [simp] = finish_with_facts(2) finish_with_settles [THEN conjunct1]

lemma run_failure_terminal:
  "run_failure c t f res = Some (state, err) \<Longrightarrow> task_is_terminal state \<and> state \<noteq> T_SUCCESS"
  by (auto simp: run_failure_def split: if_splits)

lemma run_failure_None: "run_failure c t f res = None \<longleftrightarrow> result_ok res"
  by (auto simp: run_failure_def result_ok_def)

lemma backup_execution:
  fixes w :: "'h agent_world"
  defines "i \<equiv> \<lambda>job. tk_id (bj_task job)"
  shows "settled (i job) (aw_registry (execute_backup st env h can_write ch job w)) \<and>
    elsewhere (i job) (aw_registry w) (aw_registry (execute_backup st env h can_write ch job w)) \<and>
    aw_slots (execute_backup st env h can_write ch job w) = release (aw_slots w) BACKUP_SLOT"
proof -
  obtain t1 r1 where m: "mark_running (ce_disk env) (ce_now env) (bj_task job) None
      (attach_handle (tk_id (bj_task job)) h (aw_registry w)) = (t1, r1)" by fastforce
  obtain outcome s t2 r2 where t: "run_tracked st env vzdump_feed (bj_argv job) ch t1 r1 = (outcome, s, t2, r2)"
    by (metis surj_pair)
  have i: "tk_id t2 = i job" and e: "elsewhere (i job) (aw_registry w) r2"
    using mark_running_elsewhere [OF m] run_tracked_elsewhere [OF t]
      elsewhere_attach [of "tk_id (bj_task job)" "aw_registry w" h]
    by (auto simp: i_def intro: elsewhere_trans)
  have f: "settled (i job) (finish_with env t2 state x err res r2) \<and>
      elsewhere (i job) (aw_registry w) (finish_with env t2 state x err res r2)" if "task_is_terminal state" for state x err res
    using finish_with_settles [of state t2 env x err res r2] that i e by (auto intro: elsewhere_trans)
  show ?thesis
  proof (cases outcome)
    case (Inl err)
    with m t f show ?thesis by (simp add: execute_backup_def)
  next
    case (Inr res)
    show ?thesis
      using m t f Inr run_failure_terminal
      by (fastforce simp: execute_backup_def split: option.splits prod.splits)
  qed
qed

lemma settle_settles:
  assumes "\<And>state x err result. res = Inr (state, x, err, result) \<Longrightarrow> task_is_terminal state"
  shows "settled (tk_id t) (settle_restore env t res r) \<and> elsewhere (tk_id t) r (settle_restore env t res r)"
    and "settled (tk_id t) (settle_sync env t res r) \<and> elsewhere (tk_id t) r (settle_sync env t res r)"
  using assms by (auto simp: settle_restore_def settle_sync_def split: sum.split prod.split)

lemma failure_case:
  "(case run_failure c t f res of None \<Rightarrow> G | Some (state, err) \<Rightarrow> F state err) = v \<Longrightarrow>
   (result_ok res \<and> G = v) \<or>
   (\<not> result_ok res \<and> (\<exists>state err. task_is_terminal state \<and> state \<noteq> T_SUCCESS \<and> F state err = v))"
  using run_failure_terminal [of c t f res] run_failure_None [of c t f res]
  by (cases "run_failure c t f res") auto

lemma restore_outcome_terminal:
  "restore_outcome st job ch outcome s = Inr (state, x, err, result) \<Longrightarrow>
   task_is_terminal state \<and> (state = T_SUCCESS \<longrightarrow> (\<exists>res. outcome = Inr res \<and> result_ok res))"
  by (auto simp: restore_outcome_def bindR_Inr_iff Let_def dest!: failure_case split: if_splits)

lemma sync_outcome_terminal:
  "sync_outcome st env loads fs job ch outcome s = Inr (state, x, err, result) \<Longrightarrow>
   task_is_terminal state \<and> (state = T_SUCCESS \<longrightarrow> (\<exists>res. outcome = Inr res \<and> result_ok res) \<and>
     (\<forall>req. sj_verify job = Some req \<longrightarrow> (\<exists>v. fst (verify_copy st env loads fs req ch) = Inr v \<and> vr_verified v)))"
  by (auto simp: sync_outcome_def bindR_Inr_iff Let_def dest!: failure_case)
    (auto simp: bindR_Inr_iff Let_def split: option.splits if_splits)

lemma restore_execution:
  "settled (tk_id (rj_task job)) (aw_registry (execute_restore st env h sr ch tr job w)) \<and>
   elsewhere (tk_id (rj_task job)) (aw_registry w) (aw_registry (execute_restore st env h sr ch tr job w)) \<and>
   aw_slots (execute_restore st env h sr ch tr job w) = release (aw_slots w) RESTORE_SLOT"
proof -
  define i where "i = tk_id (rj_task job)"
  define r0 where "r0 = attach_handle i h (aw_registry w)"
  obtain t1 r1 where m: "mark_running (ce_disk env) (ce_now env) (rj_task job) None r0 = (t1, r1)" by fastforce
  obtain t2 r2 where m2: "(if rj_stop_first job then set_message env ''stopping target guest'' t1 r1 else (t1, r1)) = (t2, r2)"
    by fastforce
  obtain t3 r3 where m3: "set_message env ''restoring'' t2 r2 = (t3, r3)" by fastforce
  obtain outcome s t4 r4 where t: "run_tracked st env restore_feed (rj_argv job) ch t3 r3 = (outcome, s, t4, r4)"
    by (metis surj_pair)
  have i1: "tk_id t1 = i" and e1: "elsewhere i (aw_registry w) r1"
    using mark_running_elsewhere [OF m] elsewhere_attach [of i "aw_registry w" h]
    by (auto simp: i_def r0_def intro: elsewhere_trans)
  have "tk_id t2 = i \<and> elsewhere i r1 r2"
    using m2 i1 set_message_elsewhere [of env "''stopping target guest''" t1 r1 t2 r2]
    by (auto simp: elsewhere_def split: if_splits)
  with e1 have i2: "tk_id t2 = i" and e2: "elsewhere i (aw_registry w) r2" by (auto intro: elsewhere_trans)
  have i4: "tk_id t4 = i" and e4: "elsewhere i (aw_registry w) r4"
    using set_message_elsewhere [OF m3] run_tracked_elsewhere [OF t] i2 e2 by (auto intro: elsewhere_trans)
  let ?ok = "\<lambda>r. settled i r \<and> elsewhere i (aw_registry w) r"
  have failed: "?ok (settle_restore env t2 (Inl e) r2)" for e
    using settle_settles(1) [of "Inl e" t2 env r2] i2 e2 by (auto intro: elsewhere_trans)
  have stuck: "?ok (finish_with env t2 T_FAILED x err [] r2)" for x err
    using finish_with_settles [of T_FAILED t2 env x err "[]" r2] i2 e2 by (auto intro: elsewhere_trans)
  have main: "?ok (settle_restore env t4 (restore_outcome st job tr outcome s) r4)"
    using settle_settles(1) [of "restore_outcome st job tr outcome s" t4 env r4] restore_outcome_terminal i4 e4
    by (fastforce intro: elsewhere_trans)
  have "?ok (aw_registry (execute_restore st env h sr ch tr job w))"
    unfolding execute_restore_def Let_def i_def [symmetric] r0_def [symmetric] m
    using m2 m3 t failed stuck main
    by (cases "stop_target st job sr"; cases "the (stop_target st job sr)") auto
  then show ?thesis by (simp add: i_def execute_restore_def Let_def split: prod.split)
qed

lemma sync_execution:
  "settled (tk_id (sj_task job)) (aw_registry (execute_sync st env loads h ch lr fs' job w)) \<and>
   elsewhere (tk_id (sj_task job)) (aw_registry w) (aw_registry (execute_sync st env loads h ch lr fs' job w)) \<and>
   aw_slots (execute_sync st env loads h ch lr fs' job w) = release (aw_slots w) SYNC_SLOT"
proof -
  let ?i = "tk_id (sj_task job)"
  obtain t1 r1 where m: "mark_running (ce_disk env) (ce_now env) (sj_task job) None
      (attach_handle ?i h (aw_registry w)) = (t1, r1)" by fastforce
  obtain outcome s t2 r2 where t: "run_tracked st env rclone_feed (sj_argv job) ch t1 r1 = (outcome, s, t2, r2)"
    by (metis surj_pair)
  have i: "tk_id t2 = ?i" and e: "elsewhere ?i (aw_registry w) r2"
    using mark_running_elsewhere [OF m] run_tracked_elsewhere [OF t]
      elsewhere_attach [of ?i "aw_registry w" h] by (auto intro: elsewhere_trans)
  show ?thesis
    using m t i e settle_settles(2) [of "sync_outcome st env loads fs' job lr outcome s" t2 env r2] sync_outcome_terminal
    by (fastforce simp: execute_sync_def intro: elsewhere_trans)
qed

section \<open>The contract the three services share\<close>

text \<open>
  A tracked service: a refused request leaves the registry and the slots alone; an accepted one
  holds one slot and a queued task; its execution, whatever the processes do, settles that task,
  touches no other and gives the slot back.
\<close>

locale tracked_service =
  fixes start :: "'q \<Rightarrow> 'h agent_world \<Rightarrow> (agent_error + 'j) \<times> 'h agent_world"
    and execute :: "'v \<Rightarrow> 'j \<Rightarrow> 'h agent_world \<Rightarrow> 'h agent_world"
    and job_task :: "'j \<Rightarrow> task"
    and slot :: string
  assumes refused: "start q w = (Inl e, w') \<Longrightarrow>
      aw_slots w' = aw_slots w \<and> aw_registry w' = aw_registry w"
    and accepted: "start q w = (Inr j, w') \<Longrightarrow> try_acquire (aw_slots w) slot = Inr (aw_slots w') \<and>
      find_task (aw_registry w') (tk_id (job_task j)) = Some (job_task j) \<and> tk_state (job_task j) = T_QUEUED"
    and executed: "settled (tk_id (job_task j)) (aw_registry (execute v j w)) \<and>
      elsewhere (tk_id (job_task j)) (aw_registry w) (aw_registry (execute v j w)) \<and>
      aw_slots (execute v j w) = release (aw_slots w) slot"
begin

lemma slot_returned:
  "start q w = (Inr j, w1) \<Longrightarrow> aw_slots w2 = aw_slots w1 \<Longrightarrow>
   sl_in_use (aw_slots (execute v j w2)) n = sl_in_use (aw_slots w) n"
  using accepted [of q w j w1] executed [of j v w2] slots.acquire_release by fastforce

lemma full_refused:
  "slot_limit (aw_slots w) slot \<le> sl_in_use (aw_slots w) slot \<Longrightarrow> \<exists>e. fst (start q w) = Inl e"
proof (cases "fst (start q w)")
  case (Inr j)
  assume full: "slot_limit (aw_slots w) slot \<le> sl_in_use (aw_slots w) slot"
  from Inr have "start q w = (Inr j, snd (start q w))" by (simp add: prod_eq_iff)
  from accepted [OF this] slots.full_refuses [OF full] show ?thesis by auto
qed simp

lemma task_settles:
  "start q w = (Inr j, w1) \<Longrightarrow> find_task (aw_registry w1) (tk_id (job_task j)) = Some (job_task j) \<and>
   settled (tk_id (job_task j)) (aw_registry (execute v j w2))"
  using accepted executed by blast

end

lemma acquire_or_conflict_Inr: "acquire_or_conflict n m = Inr m' \<longleftrightarrow> try_acquire m n = Inr m'"
  by (auto simp: acquire_or_conflict_def split: sum.split slot_error.split)

lemma create_task_facts:
  "create_task ok now u k c m r = (t, r') \<Longrightarrow>
   find_task r' (tk_id t) = Some t \<and> tk_state t = T_QUEUED \<and> tk_kind t = k \<and> tk_id t = u"
  by (auto simp: create_task_def Let_def)

interpretation backup_service: tracked_service
  "\<lambda>(st, guests, env, req). start_backup st guests env req"
  "\<lambda>(st, env, h, can_write, ch). execute_backup st env h can_write ch" bj_task BACKUP_SLOT
  by unfold_locales
    (auto simp: start_backup_def acquire_or_conflict_Inr backup_execution
      split: sum.splits prod.splits dest: create_task_facts)

interpretation restore_service: tracked_service
  "\<lambda>(st, guests, env, status_run, t, req). start_restore st guests env status_run t req"
  "\<lambda>(st, env, h, sr, ch, tr). execute_restore st env h sr ch tr" rj_task RESTORE_SLOT
  by unfold_locales
    (auto simp: start_restore_def acquire_or_conflict_Inr restore_execution
      split: sum.splits prod.splits if_splits dest: create_task_facts)

lemma schedule_sync_facts:
  "schedule_sync env kind argv c meta v w = (Inl e, w') \<Longrightarrow> w' = w"
  "schedule_sync env kind argv c meta v w = (Inr j, w') \<Longrightarrow>
   try_acquire (aw_slots w) SYNC_SLOT = Inr (aw_slots w') \<and>
   find_task (aw_registry w') (tk_id (sj_task j)) = Some (sj_task j) \<and> tk_state (sj_task j) = T_QUEUED \<and>
   sj_argv j = argv \<and> sj_verify j = v"
  by (auto simp: schedule_sync_def acquire_or_conflict_Inr split: sum.splits prod.splits dest: create_task_facts)

interpretation upload_service: tracked_service
  "\<lambda>(st, env, req). start_upload st env req"
  "\<lambda>(st, env, loads, h, ch, lr, fs'). execute_sync st env loads h ch lr fs'" sj_task SYNC_SLOT
  by unfold_locales
    (auto simp: start_upload_def sync_execution split: sum.splits prod.splits dest: schedule_sync_facts)

interpretation download_service: tracked_service
  "\<lambda>(st, env, req). start_download st env req"
  "\<lambda>(st, env, loads, h, ch, lr, fs'). execute_sync st env loads h ch lr fs'" sj_task SYNC_SLOT
  by unfold_locales
    (auto simp: start_download_def sync_execution split: sum.splits prod.splits dest: schedule_sync_facts)

section \<open>Accepted requests and their commands\<close>

definition settings_wf :: "agent_settings \<Rightarrow> host_fs \<Rightarrow> bool" where
  "settings_wf st fs = (absolute_arg (vzdump_bin st) \<and> absolute_arg (qmrestore_bin st) \<and> absolute_arg (qm_bin st) \<and>
     absolute_arg (pct_bin st) \<and> absolute_arg (rclone_bin st) \<and> pred_option absolute_arg (rclone_config st) \<and>
     pred_option (\<lambda>p. absolute_arg (path_str p)) (temp_dir st) \<and>
     0 \<le> rclone_transfers st \<and> 0 \<le> rclone_checkers st \<and> 0 \<le> rclone_low_level_retries st \<and> 0 \<le> rclone_stats_interval st)"

text \<open>A path of the file system holds no null byte.\<close>

definition clean_paths :: "host_fs \<Rightarrow> bool" where
  "clean_paths fs = (\<forall>p. \<forall>c \<in> set (fs_resolve fs p). NUL \<notin> set c)"

lemma path_str_absolute: "(\<forall>c \<in> set p. NUL \<notin> set c) \<Longrightarrow> absolute_arg (path_str p)"
  by (cases p) (auto simp: absolute_arg_def path_str_def startswith_iff NUL_def)

lemma resolved_absolute:
  "clean_paths fs \<Longrightarrow> resolve_within (fs_resolve fs) base n = Inr p \<Longrightarrow> absolute_arg (path_str p)"
  by (rule path_str_absolute)
    (auto simp: resolve_within_def result_simps Let_def clean_paths_def split: if_splits)

lemma require_storage_plain: "require_storage v tm live s = (Inr x, v') \<Longrightarrow> x = s \<and> plain_arg s"
  by (auto simp: require_storage_def plain_arg_def list_all_iff py_isalnum_def is_ascii_alnum_def is_digit_def
      is_lower_def is_upper_def code_def NUL_def split: if_splits sum.splits prod.splits)

lemma or_none_nonneg: "0 \<le> x \<Longrightarrow> pred_option ((\<le>) 0) (or_none x)"
  by (simp add: or_none_def)

lemma validate_vmid_nonneg: "validate_vmid g v = Inr x \<Longrightarrow> 0 \<le> v"
  by (auto simp: validate_vmid_def VMID_MIN_def split: if_splits)

lemma start_backup_job:
  "start_backup st guests env req w = (Inr job, w1) \<Longrightarrow>
   \<exists>g v'. require_guest guests (br_vmid req) (br_guest_type req) = Inr g \<and>
     require_storage (aw_backup_storages w) (ce_mono env) (ce_live env) (br_storage req) = (Inr (br_storage req), v') \<and>
     try_acquire (aw_slots w) BACKUP_SLOT = Inr (aw_slots w1) \<and>
     bj_argv job = build_vzdump (backup_command st req (ref_vmid g) (br_storage req)) (vzdump_bin st) \<and>
     bj_notes job = br_notes req"
  by (auto simp: start_backup_def acquire_or_conflict_Inr split: sum.splits prod.splits)
    (use require_storage_plain in blast)+

lemma require_guest_facts:
  "require_guest g v t = Inr r \<Longrightarrow> ref_vmid r = v \<and> ref_type r = t \<and> VMID_MIN \<le> v \<and> v \<le> VMID_MAX \<and>
   conf_exists g t v \<and> (allowed_vmids g = [] \<or> v \<in> set (allowed_vmids g))"
  by (auto simp: require_guest_def result_simps validate_vmid_def find_guest_def
      split: option.splits if_splits dest!: find_Some_mem)

lemma start_restore_job:
  "start_restore st guests env sr t req w = (Inr job, w1) \<Longrightarrow>
   \<exists>a p existing v'. resolve_artifact st (aw_fs w) (rr_archive req) = Inr (a, p) \<and> art_guest_type a = t \<and>
     require_storage (aw_restore_storages w) (ce_mono env) (ce_live env) (rr_storage req) = (Inr (rr_storage req), v') \<and>
     check_target st guests req t sr = Inr existing \<and>
     fst (check_digest env req p (aw_fs w)) = Inr () \<and>
     try_acquire (aw_slots w) RESTORE_SLOT = Inr (aw_slots w1) \<and>
     rj_argv job = build_restore t (restore_command_of req t p (rr_storage req)) (restore_binary st t) \<and>
     rj_stop_first job = (existing \<noteq> None \<and> rr_force_stop req) \<and> rj_target job = rr_target_vmid req \<and>
     rj_guest_type job = t"
  by (auto simp: start_restore_def acquire_or_conflict_Inr split: sum.splits prod.splits if_splits)
    (use require_storage_plain in blast)+

lemma check_digest_frame:
  "q \<noteq> with_name p (last p @ ''.sha256'') \<Longrightarrow> fs_files (snd (check_digest env req p fs)) q = fs_files fs q"
  by (simp add: check_digest_def digest_fs_frame split: option.split list.split)

lemma start_restore_files:
  "start_restore st guests env sr t req w = (res, w1) \<Longrightarrow>
   aw_fs w1 = aw_fs w \<or> (\<exists>a p. resolve_artifact st (aw_fs w) (rr_archive req) = Inr (a, p) \<and>
     aw_fs w1 = snd (check_digest env req p (aw_fs w)))"
  by (auto simp: start_restore_def split: sum.splits prod.splits if_splits)

lemma upload_plan_facts:
  "upload_plan st fs req = Inr (argv, meta, v) \<Longrightarrow>
   \<exists>remote rpath p. validate_remote_name (sq_remote req) (allowed_remotes st) = Inr remote \<and>
     validate_remote_path (sq_remote_path req) = Inr rpath \<and> local_artifact st fs (sq_filename req) = Inr p \<and>
     argv = build_copy_argv (rclone_options_of st (sq_bwlimit req) (sq_transfers req)) (path_str p)
       (build_remote_spec remote rpath (sq_filename req)) \<and>
     (sq_verify_after req \<longrightarrow> v = Some (req\<lparr>sq_remote := remote, sq_remote_path := rpath\<rparr>))"
  by (auto simp: upload_plan_def validated_remote_def result_simps split: option.splits)

lemma local_artifact_facts:
  "local_artifact st fs n = Inr p \<Longrightarrow> validate_basename n = Inr n \<and> resolve_within (fs_resolve fs) (dump_root st) n = Inr p"
  by (auto simp: local_artifact_def resolve_within_def result_simps validate_basename_ok)

lemma join_with_set: "set (join_with sep parts) \<subseteq> set sep \<union> \<Union> (set ` set parts)"
  by (induction sep parts rule: join_with.induct) auto

lemma remote_spec_plain:
  assumes "validate_remote_name n al = Inr remote" and "validate_remote_path p = Inr rpath"
    and "NUL \<notin> set f"
  shows "plain_arg (build_remote_spec remote rpath f)"
proof -
  from assms(1) have r: "\<not> startswith remote ''-''" "NUL \<notin> set remote" "remote \<noteq> []"
    using remote_name_no_special [of remote] validate_remote_name_ok [of n al remote]
    by (auto simp: REMOTE_NAME_PATTERN_def)
  have "NUL \<notin> set rpath" using validate_remote_path_no_nul [OF assms(2)] by simp
  with assms(3) have "NUL \<notin> set (join_with ''/'' (filter (\<lambda>part. part \<noteq> []) [rpath, f]))"
    using join_with_set [of "''/''" "filter (\<lambda>part. part \<noteq> []) [rpath, f]"] by (auto simp: NUL_def)
  with r show ?thesis
    by (cases remote) (auto simp: plain_arg_def build_remote_spec_def startswith_iff NUL_def)
qed

lemma backup_argv_wf:
  assumes "start_backup st guests env req w = (Inr job, w1)" and "settings_wf st fs"
    and "0 \<le> br_bwlimit req" and "pred_option ((\<le>) 0) (br_zstd_threads req)"
  shows "\<exists>c. vzdump_wf (c, vzdump_bin st) \<and> bj_argv job = build_vzdump c (vzdump_bin st)"
proof -
  from start_backup_job [OF assms(1)] obtain g v' where
    g: "require_guest guests (br_vmid req) (br_guest_type req) = Inr g"
    and s: "require_storage (aw_backup_storages w) (ce_mono env) (ce_live env) (br_storage req) = (Inr (br_storage req), v')"
    and b: "bj_argv job = build_vzdump (backup_command st req (ref_vmid g) (br_storage req)) (vzdump_bin st)" by blast
  have "0 \<le> ref_vmid g" using require_guest_facts [OF g] by (simp add: VMID_MIN_def)
  with require_storage_plain [OF s] assms(2-4)
  have "vzdump_wf (backup_command st req (ref_vmid g) (br_storage req), vzdump_bin st)"
    by (auto simp: vzdump_wf_def backup_command_def settings_wf_def or_none_nonneg option.pred_map o_def)
  with b show ?thesis by blast
qed

lemma restore_argv_wf:
  assumes "start_restore st guests env sr t req w = (Inr job, w1)" and "settings_wf st (aw_fs w)"
    and "clean_paths (aw_fs w)" and "0 \<le> rr_bwlimit req"
  shows "\<exists>c. restore_wf (c, restore_binary st t) \<and> rj_argv job = build_restore t c (restore_binary st t)"
proof -
  from start_restore_job [OF assms(1)] obtain a p existing v' where
    p: "resolve_artifact st (aw_fs w) (rr_archive req) = Inr (a, p)"
    and s: "require_storage (aw_restore_storages w) (ce_mono env) (ce_live env) (rr_storage req) = (Inr (rr_storage req), v')"
    and k: "check_target st guests req t sr = Inr existing"
    and b: "rj_argv job = build_restore t (restore_command_of req t p (rr_storage req)) (restore_binary st t)" by blast
  have "absolute_arg (path_str p)"
    by (rule resolved_absolute [OF assms(3)]) (use p in \<open>auto simp: resolve_artifact_def result_simps split: if_splits\<close>)
  moreover have "0 \<le> rr_target_vmid req"
    using k validate_vmid_nonneg by (auto simp: check_target_def result_simps)
  moreover have "absolute_arg (restore_binary st t)"
    using assms(2) by (cases t) (simp_all add: restore_binary_def settings_wf_def)
  ultimately have "restore_wf (restore_command_of req t p (rr_storage req), restore_binary st t)"
    using require_storage_plain [OF s] assms(4)
    by (simp add: restore_wf_def restore_command_of_def or_none_nonneg)
  with b show ?thesis by blast
qed

lemma upload_argv_wf:
  assumes "upload_plan st fs req = Inr (argv, meta, v)" and "settings_wf st fs" and "clean_paths fs"
    and "0 \<le> sq_bwlimit req" and "pred_option ((\<le>) 0) (sq_transfers req)"
  shows "\<exists>k. rclone_job_wf k \<and> argv = rclone_argv k"
proof -
  from upload_plan_facts [OF assms(1)] obtain remote rpath p where
    r: "validate_remote_name (sq_remote req) (allowed_remotes st) = Inr remote"
    and q: "validate_remote_path (sq_remote_path req) = Inr rpath"
    and l: "local_artifact st fs (sq_filename req) = Inr p"
    and a: "argv = build_copy_argv (rclone_options_of st (sq_bwlimit req) (sq_transfers req)) (path_str p)
       (build_remote_spec remote rpath (sq_filename req))" by blast
  have "plain_arg (path_str p)"
    using resolved_absolute [OF assms(3)] local_artifact_facts [OF l] absolute_plain by blast
  moreover have "plain_arg (build_remote_spec remote rpath (sq_filename req))"
    using remote_spec_plain [OF r q] local_artifact_facts [OF l] by (simp add: validate_basename_ok)
  moreover have "rclone_wf (rclone_options_of st (sq_bwlimit req) (sq_transfers req))"
    using assms(2,4,5) by (auto simp: rclone_wf_def rclone_options_of_def settings_wf_def opt_or_def split: option.split)
  ultimately have "rclone_job_wf (rclone_options_of st (sq_bwlimit req) (sq_transfers req),
      RCopy (path_str p) (build_remote_spec remote rpath (sq_filename req)))" by simp
  with a show ?thesis by (intro exI [of _ "(rclone_options_of st (sq_bwlimit req) (sq_transfers req),
      RCopy (path_str p) (build_remote_spec remote rpath (sq_filename req)))"]) simp
qed

lemma download_argv_wf:
  assumes "download_plan st fs req = Inr (argv, meta, v)" and "settings_wf st fs" and "clean_paths fs"
    and "0 \<le> sq_bwlimit req" and "pred_option ((\<le>) 0) (sq_transfers req)"
  shows "\<exists>k. rclone_job_wf k \<and> argv = rclone_argv k"
proof -
  from assms(1) obtain remote rpath p where
    r: "validate_remote_name (sq_remote req) (allowed_remotes st) = Inr remote"
    and q: "validate_remote_path (sq_remote_path req) = Inr rpath"
    and l: "local_artifact st fs (sq_filename req) = Inr p"
    and a: "argv = build_copy_argv (rclone_options_of st (sq_bwlimit req) (sq_transfers req))
       (build_remote_spec remote rpath (sq_filename req)) (path_str p)"
    by (auto simp: download_plan_def validated_remote_def result_simps)
  have "plain_arg (path_str p)"
    using resolved_absolute [OF assms(3)] local_artifact_facts [OF l] absolute_plain by blast
  moreover have "plain_arg (build_remote_spec remote rpath (sq_filename req))"
    using remote_spec_plain [OF r q] local_artifact_facts [OF l] by (simp add: validate_basename_ok)
  moreover have "rclone_wf (rclone_options_of st (sq_bwlimit req) (sq_transfers req))"
    using assms(2,4,5) by (auto simp: rclone_wf_def rclone_options_of_def settings_wf_def opt_or_def split: option.split)
  ultimately have "rclone_job_wf (rclone_options_of st (sq_bwlimit req) (sq_transfers req),
      RCopy (build_remote_spec remote rpath (sq_filename req)) (path_str p))" by simp
  with a show ?thesis by (intro exI [of _ "(rclone_options_of st (sq_bwlimit req) (sq_transfers req),
      RCopy (build_remote_spec remote rpath (sq_filename req)) (path_str p))"]) simp
qed

text \<open>The argument lists of the requests the services accept, with the number ranges of the schema.\<close>

inductive accepted_argv :: "agent_settings \<Rightarrow> 'h agent_world \<Rightarrow> string list \<Rightarrow> bool" for st w where
  Backup: "start_backup st guests env breq w = (Inr bjob, w1) \<Longrightarrow> 0 \<le> br_bwlimit breq \<Longrightarrow>
    pred_option ((\<le>) 0) (br_zstd_threads breq) \<Longrightarrow> accepted_argv st w (bj_argv bjob)"
| Restore: "start_restore st guests env sr t rreq w = (Inr rjob, w1) \<Longrightarrow> 0 \<le> rr_bwlimit rreq \<Longrightarrow>
    accepted_argv st w (rj_argv rjob)"
| Upload: "upload_plan st (aw_fs w) req = Inr (argv, meta, v) \<Longrightarrow> 0 \<le> sq_bwlimit req \<Longrightarrow>
    pred_option ((\<le>) 0) (sq_transfers req) \<Longrightarrow> accepted_argv st w argv"
| Download: "download_plan st (aw_fs w) req = Inr (argv, meta, v) \<Longrightarrow> 0 \<le> sq_bwlimit req \<Longrightarrow>
    pred_option ((\<le>) 0) (sq_transfers req) \<Longrightarrow> accepted_argv st w argv"

text \<open>
  C3. No request can steer a command: with the operator's settings well formed and the numbers in the
  ranges the schema admits, the argument list of every accepted backup, restore, upload and download
  passes the runner's check, and every argument that starts with a dash is one of the fixed flags the
  builders write.
\<close>

theorem accepted_commands_hold_no_injected_option:
  assumes "settings_wf st (aw_fs w)" and "clean_paths (aw_fs w)" and "accepted_argv st w argv"
  shows "validate_argv argv = Inr argv \<and> (\<forall>x. x \<in> set argv \<and> startswith x ''-'' \<longrightarrow> x \<in> FLAGS)"
  using assms(3)
proof cases
  case (Backup guests env breq bjob w1)
  from backup_argv_wf [OF this(2) assms(1) this(3,4)] Backup(1) show ?thesis
    using vzdump.accepted [of "(_, vzdump_bin st)"] vzdump.only_flags [of "(_, vzdump_bin st)"] by fastforce
next
  case (Restore guests env sr t rreq rjob w1)
  from restore_argv_wf [OF this(2) assms(1,2) this(3)] Restore(1) show ?thesis
    using restore.accepted [of "(_, restore_binary st t)" t] restore.only_flags [of "(_, restore_binary st t)" _ t]
    by fastforce
next
  case (Upload req meta v)
  from upload_argv_wf [OF this(1) assms(1,2) this(2,3)] show ?thesis
    using rclone.accepted rclone.only_flags by blast
next
  case (Download req meta v)
  from download_argv_wf [OF this(1) assms(1,2) this(2,3)] show ?thesis
    using rclone.accepted rclone.only_flags by blast
qed

definition demo_world :: "unit agent_world" where
  "demo_world = \<lparr>aw_registry = empty_registry ''/log'' 1,
     aw_slots = new_slots [(''backup'', 1), (''restore'', 1), (''sync'', 1)],
     aw_backup_storages = \<lparr>sv_allowed = [''hdd''], sv_ttl = 30, sv_verify = False, sv_cache = None, sv_cached_at = 0\<rparr>,
     aw_restore_storages = \<lparr>sv_allowed = [], sv_ttl = 30, sv_verify = False, sv_cache = None, sv_cached_at = 0\<rparr>,
     aw_fs = demo_fs\<rparr>"

definition demo_guests :: guest_locator where
  "demo_guests = \<lparr>conf_exists = (\<lambda>t v. t = VM \<and> v = 101), allowed_vmids = []\<rparr>"

definition demo_env :: call_env where
  "demo_env = \<lparr>ce_now = 0, ce_end = 5, ce_mono = 0, ce_uuid = ''u'', ce_disk = True, ce_files = True, ce_live = Inr []\<rparr>"

definition demo_backup :: backup_request where
  "demo_backup = \<lparr>br_vmid = 101, br_guest_type = VM, br_mode = SNAPSHOT, br_compression = ZSTD,
     br_zstd_threads = None, br_storage = ''hdd'', br_bwlimit = 0, br_notes = None, br_correlation = None\<rparr>"

lemma demo_start: "\<exists>job w1. start_backup demo_settings demo_guests demo_env demo_backup demo_world = (Inr job, w1) \<and>
    bj_argv job = [''/usr/bin/vzdump'', ''101'', ''--mode'', ''snapshot'', ''--compress'', ''zstd'', ''--storage'', ''hdd'']"
proof -
  have g: "require_guest demo_guests 101 VM = Inr \<lparr>ref_vmid = 101, ref_type = VM\<rparr>"
    by (simp add: require_guest_def validate_vmid_def find_guest_def demo_guests_def VMID_MIN_def VMID_MAX_def)
  have s: "require_storage (aw_backup_storages demo_world) 0 (Inr []) ''hdd'' =
      (Inr ''hdd'', aw_backup_storages demo_world)"
    unfolding demo_world_def by code_simp
  have a: "\<exists>m. acquire_or_conflict BACKUP_SLOT (aw_slots demo_world) = Inr m"
    by (simp add: acquire_or_conflict_def try_acquire_def demo_world_def new_slots_def BACKUP_SLOT_def)
  have n: "show_int 101 = ''101''" by code_simp
  from g s a show ?thesis
    by (auto simp: start_backup_def demo_backup_def demo_env_def create_task_def Let_def build_vzdump_def n
        backup_command_def demo_settings_def bwlimit_args_def or_none_def)
qed

theorem accepted_commands_hold_no_injected_option_witness:
  "validate_argv [''/usr/bin/vzdump'', ''101'', ''--mode'', ''snapshot'', ''--compress'', ''zstd'', ''--storage'', ''hdd''] =
   Inr [''/usr/bin/vzdump'', ''101'', ''--mode'', ''snapshot'', ''--compress'', ''zstd'', ''--storage'', ''hdd'']"
proof -
  obtain job w1 where j: "start_backup demo_settings demo_guests demo_env demo_backup demo_world = (Inr job, w1)"
    and b: "bj_argv job = [''/usr/bin/vzdump'', ''101'', ''--mode'', ''snapshot'', ''--compress'', ''zstd'', ''--storage'', ''hdd'']"
    using demo_start by blast
  have wf: "settings_wf demo_settings (aw_fs demo_world)"
    by (simp add: settings_wf_def demo_settings_def absolute_arg_def startswith_iff NUL_def)
  \<comment> \<open>the file system of the demonstration drops null bytes from every component\<close>
  let ?w = "demo_world\<lparr>aw_fs := demo_fs\<lparr>fs_resolve := map (filter (\<lambda>c. c \<noteq> NUL))\<rparr>\<rparr>"
  have "start_backup demo_settings demo_guests demo_env demo_backup ?w = (Inr job, w1\<lparr>aw_fs := aw_fs ?w\<rparr>)"
    using j by (auto simp: start_backup_def split: sum.splits prod.splits)
  then have "accepted_argv demo_settings ?w (bj_argv job)"
    by (rule accepted_argv.Backup) (simp_all add: demo_backup_def)
  moreover have "clean_paths (aw_fs ?w)" by (auto simp: clean_paths_def)
  ultimately show ?thesis
    using accepted_commands_hold_no_injected_option [of demo_settings ?w "bj_argv job"] wf b
    by (simp add: settings_wf_def)
qed

section \<open>Properties of the executions\<close>

definition state_of :: "'h registry \<Rightarrow> string \<Rightarrow> task_state option" where
  "state_of r i = map_option tk_state (find_task r i)"

lemma state_of_finish [simp]: "state_of (finish_with env t state x err res r) (tk_id t) = Some state"
  using finish_with_facts(1) [of t state x err env res r] by (auto simp: settled_as_def state_of_def)

lemma run_tracked_outcome:
  "run_tracked st env feed argv ch t r = (x, s, t', r') \<Longrightarrow> x = run_logged (tail_lines st) argv ch"
  by (auto simp: run_tracked_def Let_def split: prod.splits)

lemma backup_success:
  "state_of (aw_registry (execute_backup st env h cw ch job w)) (tk_id (bj_task job)) = Some T_SUCCESS \<longleftrightarrow>
   (\<exists>res. run_logged (tail_lines st) (bj_argv job) ch = Inr res \<and> result_ok res)"
proof -
  obtain t1 r1 where m: "mark_running (ce_disk env) (ce_now env) (bj_task job) None
      (attach_handle (tk_id (bj_task job)) h (aw_registry w)) = (t1, r1)" by fastforce
  obtain outcome s t2 r2 where t: "run_tracked st env vzdump_feed (bj_argv job) ch t1 r1 = (outcome, s, t2, r2)"
    by (metis surj_pair)
  have i: "tk_id t2 = tk_id (bj_task job)"
    using mark_running_elsewhere [OF m] run_tracked_elsewhere [OF t] by simp
  have fin: "state_of (finish_with env t2 state x err res r2) (tk_id (bj_task job)) = Some state" for state x err res
    using state_of_finish [of env t2] i by metis
  have o: "outcome = run_logged (tail_lines st) (bj_argv job) ch" by (rule run_tracked_outcome [OF t])
  show ?thesis
  proof (cases outcome)
    case (Inl e)
    with m t fin show ?thesis by (simp add: execute_backup_def flip: o)
  next
    case (Inr res)
    show ?thesis
    proof (cases "result_ok res")
      case True
      then have n: "run_failure c tt f res = None" for c tt f by (simp add: run_failure_None)
      show ?thesis using m t fin Inr True by (simp add: execute_backup_def n split: prod.split flip: o)
    next
      case False
      then have "\<exists>state err. run_failure c tt f res = Some (state, err) \<and> state \<noteq> T_SUCCESS" for c tt f
        using run_failure_terminal [of c tt f res] run_failure_None [of c tt f res]
        by (cases "run_failure c tt f res") auto
      then obtain state err where "run_failure (Some ''Cancelled by request'')
          (''vzdump exceeded the '' @ show_int (backup_timeout st) @ ''s timeout'')
          (error_text (error_message s) (tail_summary (last_lines res))) res = Some (state, err)" "state \<noteq> T_SUCCESS"
        by blast
      with m t fin Inr False show ?thesis by (simp add: execute_backup_def flip: o)
    qed
  qed
qed

text \<open>
  C13. Every accepted backup settles. Whatever the vzdump process does (it cannot be created, fails,
  times out, is cancelled, prints anything) and whatever the rest of the agent did meanwhile to the
  registry and the files, the task ends in a terminal state with its handle gone, it is a success
  exactly when the process ran and succeeded, and every slot has the holders it had before the
  request.
\<close>

theorem backup_settles_and_frees_its_slot:
  fixes w w2 :: "'h agent_world"
  assumes "start_backup st guests env req w = (Inr job, w1)" and "aw_slots w2 = aw_slots w1"
    and "w3 = execute_backup st env' h can_write ch job w2"
  shows "settled (tk_id (bj_task job)) (aw_registry w3) \<and>
    (state_of (aw_registry w3) (tk_id (bj_task job)) = Some T_SUCCESS \<longleftrightarrow>
      (\<exists>res. run_logged (tail_lines st) (bj_argv job) ch = Inr res \<and> result_ok res)) \<and>
    sl_in_use (aw_slots w3) n = sl_in_use (aw_slots w) n"
  unfolding assms(3)
  using backup_execution [of job st env' h can_write ch w2] backup_success
    backup_service.slot_returned [of "(st, guests, env, req)" w job w1 w2 "(st, env', h, can_write, ch)" n] assms(1,2)
  by simp

definition demo_child :: child_run where
  "demo_child = \<lparr>ch_spawns = False, ch_lines = [], ch_timed_out = False, ch_returncode = None,
     ch_cancelled = False, ch_duration = 0\<rparr>"

theorem backup_settles_and_frees_its_slot_witness:
  "\<exists>job w1. start_backup demo_settings demo_guests demo_env demo_backup demo_world = (Inr job, w1) \<and>
     sl_in_use (aw_slots (execute_backup demo_settings demo_env () True
       demo_child job w1)) ''backup'' = 0"
proof -
  obtain job w1 where j: "start_backup demo_settings demo_guests demo_env demo_backup demo_world = (Inr job, w1)"
    using demo_start by blast
  from backup_settles_and_frees_its_slot [OF this refl refl] j show ?thesis
    by (fastforce simp: demo_world_def new_slots_def)
qed

lemma check_target_facts:
  "check_target st guests req t sr = Inr existing \<Longrightarrow>
   VMID_MIN \<le> rr_target_vmid req \<and> rr_target_vmid req \<le> VMID_MAX \<and>
   existing = find_guest guests (rr_target_vmid req) \<and>
   (\<forall>g. existing = Some g \<longrightarrow> rr_overwrite req \<and> ref_type g = t \<and>
     (\<exists>status. guest_status_of st t (rr_target_vmid req) sr = Inr status \<and> (status = ''running'' \<longrightarrow> rr_force_stop req)))"
  by (auto simp: check_target_def assert_stoppable_def result_simps validate_vmid_def split: option.splits if_splits)

text \<open>What \<open>pvesm status\<close> is taken to list: the cached answer while it is fresh, the live one otherwise.\<close>

definition configured_storages :: "storage_validator \<Rightarrow> call_env \<Rightarrow> string list \<Rightarrow> bool" where
  "configured_storages v env names =
     (if \<exists>c. sv_cache v = Some c \<and> ce_mono env - sv_cached_at v < of_int (sv_ttl v) then sv_cache v = Some names
      else ce_live env = Inr names)"

lemma require_storage_guard:
  assumes "require_storage v (ce_mono env) (ce_live env) s = (Inr x, v')"
  shows "(sv_allowed v = [] \<or> s \<in> set (sv_allowed v))
    \<and> (sv_verify v \<longrightarrow> (\<exists>names. configured_storages v env names \<and> s \<in> set names))"
  using assms
  by (auto simp: require_storage_def live_storages_def configured_storages_def split: if_splits option.splits sum.splits prod.splits)

lemma require_storage_config:
  "require_storage v tm live s = (r, v') \<Longrightarrow> v' = v\<lparr>sv_cache := sv_cache v', sv_cached_at := sv_cached_at v'\<rparr>"
  by (auto simp: require_storage_def live_storages_def split: if_splits option.splits sum.splits prod.splits)

lemma restore_refusal:
  assumes "start_restore st guests env sr t req w = (Inl e, w1)"
  shows "\<exists>cache since fs. w1 = w\<lparr>aw_restore_storages := (aw_restore_storages w)\<lparr>sv_cache := cache, sv_cached_at := since\<rparr>, aw_fs := fs\<rparr>
    \<and> (rr_expected_sha256 req \<in> {None, Some []} \<longrightarrow> fs = aw_fs w)"
proof -
  let ?v = "aw_restore_storages w1"
  have w1: "w1 = w\<lparr>aw_restore_storages := ?v, aw_fs := aw_fs w1\<rparr>"
    using assms by (auto simp: start_restore_def split: sum.splits prod.splits if_splits)
  have "?v = aw_restore_storages w
      \<or> (\<exists>r. require_storage (aw_restore_storages w) (ce_mono env) (ce_live env) (rr_storage req) = (r, ?v))"
    using assms by (auto simp: start_restore_def split: sum.splits prod.splits if_splits)
  then have "\<exists>cache since. ?v = (aw_restore_storages w)\<lparr>sv_cache := cache, sv_cached_at := since\<rparr>"
  proof (elim disjE exE)
    assume "?v = aw_restore_storages w"
    then have "?v = (aw_restore_storages w)\<lparr>sv_cache := sv_cache ?v, sv_cached_at := sv_cached_at ?v\<rparr>" by simp
    then show ?thesis by blast
  next
    fix r
    assume "require_storage (aw_restore_storages w) (ce_mono env) (ce_live env) (rr_storage req) = (r, ?v)"
    from require_storage_config [OF this] show ?thesis by blast
  qed
  then obtain cache since where v: "?v = (aw_restore_storages w)\<lparr>sv_cache := cache, sv_cached_at := since\<rparr>" by blast
  have "rr_expected_sha256 req \<in> {None, Some []} \<longrightarrow> aw_fs w1 = aw_fs w"
    using start_restore_files [OF assms] by (auto simp: check_digest_def)
  with w1 [unfolded v] show ?thesis by blast
qed

text \<open>
  C12. The floor under every restore. A restore is accepted only if the archive is an artifact inside
  the dump root of the endpoint's guest type, the storage is on the allow-list (when there is one) and
  configured on the host (when that is verified), the target id is in range and on the allow-list of
  guests (when there is one), an existing target was marked for overwrite, is of the same type and is
  not known to be running unless \<open>force_stop\<close> was asked for (and then it is stopped first), a digest
  that was given matches the archive, and the restore slot was free. A refused restore changes nothing
  but the cached list of storages and, when a digest was given, the files; and accepted or refused, the
  only file that may change is the archive's digest side file.
\<close>

theorem restore_guards_hold:
  assumes "start_restore st guests env sr t req w = (res, w1)"
  shows "(\<forall>q. fs_files (aw_fs w1) q \<noteq> fs_files (aw_fs w) q \<longrightarrow> (\<exists>a p.
      resolve_artifact st (aw_fs w) (rr_archive req) = Inr (a, p) \<and> q = with_name p (last p @ ''.sha256''))) \<and>
    (case res of
      Inr job \<Rightarrow>
        (\<exists>a p. resolve_artifact st (aw_fs w) (rr_archive req) = Inr (a, p) \<and> art_guest_type a = t \<and>
          (rr_expected_sha256 req \<notin> {None, Some []} \<longrightarrow>
            (\<exists>c. digest_at SHA256 True (aw_fs w) p = Some c \<and>
              py_lower (hex_digest c) = py_lower (the (rr_expected_sha256 req))))) \<and>
        (sv_allowed (aw_restore_storages w) = [] \<or> rr_storage req \<in> set (sv_allowed (aw_restore_storages w))) \<and>
        (sv_verify (aw_restore_storages w) \<longrightarrow>
          (\<exists>names. configured_storages (aw_restore_storages w) env names \<and> rr_storage req \<in> set names)) \<and>
        VMID_MIN \<le> rr_target_vmid req \<and> rr_target_vmid req \<le> VMID_MAX \<and>
        (allowed_vmids guests = [] \<or> rr_target_vmid req \<in> set (allowed_vmids guests)) \<and>
        (\<forall>g. find_guest guests (rr_target_vmid req) = Some g \<longrightarrow> rr_overwrite req \<and> ref_type g = t \<and>
          (\<exists>status. guest_status_of st t (rr_target_vmid req) sr = Inr status \<and>
            (status = ''running'' \<longrightarrow> rr_force_stop req \<and> rj_stop_first job))) \<and>
        sl_in_use (aw_slots w) RESTORE_SLOT < slot_limit (aw_slots w) RESTORE_SLOT
    | Inl _ \<Rightarrow> (\<exists>cache since fs.
        w1 = w\<lparr>aw_restore_storages := (aw_restore_storages w)\<lparr>sv_cache := cache, sv_cached_at := since\<rparr>, aw_fs := fs\<rparr> \<and>
        (rr_expected_sha256 req \<in> {None, Some []} \<longrightarrow> fs = aw_fs w)))"
  (is "?files \<and> ?verdict")
proof (intro conjI)
  show ?files
    using start_restore_files [OF assms] check_digest_frame by metis
next
  show ?verdict
proof (cases res)
  case (Inl e)
  with assms restore_refusal show ?thesis by simp
next
  case (Inr job)
  with assms have st: "start_restore st guests env sr t req w = (Inr job, w1)" by simp
  from start_restore_job [OF st] obtain a p existing v' where
    a: "resolve_artifact st (aw_fs w) (rr_archive req) = Inr (a, p)" "art_guest_type a = t"
    and rs: "require_storage (aw_restore_storages w) (ce_mono env) (ce_live env) (rr_storage req) = (Inr (rr_storage req), v')"
    and k: "check_target st guests req t sr = Inr existing"
    and d: "fst (check_digest env req p (aw_fs w)) = Inr ()"
    and s: "try_acquire (aw_slots w) RESTORE_SLOT = Inr (aw_slots w1)"
    and f: "rj_stop_first job = (existing \<noteq> None \<and> rr_force_stop req)" by blast
  from d have "rr_expected_sha256 req \<notin> {None, Some []} \<longrightarrow>
      (\<exists>c. digest_at SHA256 True (aw_fs w) p = Some c \<and> py_lower (hex_digest c) = py_lower (the (rr_expected_sha256 req)))"
    by (auto simp: check_digest_def verify_digest_def split: option.splits list.splits if_splits)
  with a have "\<exists>a p. resolve_artifact st (aw_fs w) (rr_archive req) = Inr (a, p) \<and> art_guest_type a = t \<and>
      (rr_expected_sha256 req \<notin> {None, Some []} \<longrightarrow> (\<exists>c. digest_at SHA256 True (aw_fs w) p = Some c \<and>
        py_lower (hex_digest c) = py_lower (the (rr_expected_sha256 req))))" by blast
  moreover have "sl_in_use (aw_slots w) RESTORE_SLOT < slot_limit (aw_slots w) RESTORE_SLOT"
    using s by (rule slots.acquire_below)
  moreover note require_storage_guard [OF rs]
  moreover have "allowed_vmids guests = [] \<or> rr_target_vmid req \<in> set (allowed_vmids guests)"
    using k by (auto simp: check_target_def validate_vmid_def result_simps split: if_splits)
  ultimately show ?thesis using check_target_facts [OF k] f Inr by auto
qed
qed

definition demo_restore :: restore_request where
  "demo_restore = \<lparr>rr_archive = DEMO, rr_target_vmid = 101, rr_storage = ''hdd'', rr_overwrite = False,
     rr_force_stop = False, rr_start_after = False, rr_bwlimit = 0, rr_expected_sha256 = None,
     rr_unprivileged = None, rr_correlation = None\<rparr>"

theorem restore_guards_hold_witness:
  "\<exists>res w1. start_restore demo_settings demo_guests demo_env demo_child VM demo_restore demo_world = (res, w1) \<and>
     aw_slots w1 = aw_slots demo_world \<and> \<not> is_ok res"
proof -
  obtain res w1 where r: "start_restore demo_settings demo_guests demo_env demo_child VM demo_restore demo_world = (res, w1)"
    by fastforce
  have "find_guest demo_guests 101 = Some \<lparr>ref_vmid = 101, ref_type = VM\<rparr>"
    by (simp add: find_guest_def demo_guests_def)
  with restore_guards_hold [OF r] show ?thesis
    using r by (cases res) (auto simp: demo_restore_def)
qed

lemma compare_copies_verified:
  assumes "compare_copies fs source h found = Inr v"
  shows "vr_outcome v = MATCH \<longleftrightarrow> vr_verified v"
    and "vr_verified v \<longleftrightarrow> (\<exists>e m d. found = Some e \<and> re_size_bytes e = int (hf_size h) \<and>
      entry_md5 e = Some m \<and> digest_at MD5 True fs source = Some d \<and> py_lower (hex_digest d) = py_lower m)"
  using assms by (auto simp: compare_copies_def Let_def split: option.splits if_splits)

lemma verify_copy_compares:
  "fst (verify_copy st env loads fs req ch) = Inr v \<Longrightarrow> \<exists>source h found. compare_copies fs source h found = Inr v"
  by (auto simp: verify_copy_def split: sum.splits prod.splits)

text \<open>
  C36. Verified means the same bytes as far as the remote publishes them: a verification reports the
  copy as verified exactly when its outcome is a match, and exactly when the first remote file entry
  of that name has the local file's size and publishes an MD5 equal, letter case aside, to the local
  one. A remote that publishes no hash is never verified.
\<close>

theorem verified_iff_size_and_digest_agree:
  assumes "fst (verify_copy st env loads fs req ch) = Inr v"
  shows "(vr_verified v \<longleftrightarrow> vr_outcome v = MATCH) \<and>
    (vr_verified v \<longleftrightarrow> (\<exists>remote rpath source h entries e m d.
      validated_remote st (sq_remote req) (sq_remote_path req) = Inr (remote, rpath) \<and>
      local_artifact st fs (sq_filename req) = Inr source \<and> fs_files fs source = Some h \<and>
      list_remote st loads remote rpath ch = Inr entries \<and>
      find (\<lambda>e. re_name e = sq_filename req \<and> \<not> re_is_dir e) entries = Some e \<and>
      re_size_bytes e = int (hf_size h) \<and> entry_md5 e = Some m \<and>
      digest_at MD5 True fs source = Some d \<and> py_lower (hex_digest d) = py_lower m))"
proof -
  from assms obtain remote rpath source h entries where
    r: "validated_remote st (sq_remote req) (sq_remote_path req) = Inr (remote, rpath)"
      "local_artifact st fs (sq_filename req) = Inr source" "fs_files fs source = Some h"
      "list_remote st loads remote rpath ch = Inr entries"
    and c: "compare_copies fs source h (find (\<lambda>e. re_name e = sq_filename req \<and> \<not> re_is_dir e) entries) = Inr v"
    by (auto simp: verify_copy_def verify_inputs_def result_simps split: option.splits sum.splits prod.splits)
  note k = compare_copies_verified [OF c]
  show ?thesis
    using k(1) by (simp add: k(2) r)
qed

definition demo_sync :: sync_request where
  "demo_sync = \<lparr>sq_filename = DEMO, sq_remote = ''drive'', sq_remote_path = [], sq_bwlimit = 0,
     sq_transfers = None, sq_verify_after = True, sq_overwrite = False, sq_correlation = None\<rparr>"

definition demo_listing :: "string \<Rightarrow> jval option" where
  "demo_listing s = Some (JList [JDict [(''Name'', JStr DEMO), (''Size'', JInt 3),
     (''Hashes'', JDict [(''md5'', JStr ''ABC'')])]])"

definition demo_rclone :: child_run where
  "demo_rclone = \<lparr>ch_spawns = True, ch_lines = [''x''], ch_timed_out = False, ch_returncode = Some 0,
     ch_cancelled = False, ch_duration = 1\<rparr>"

lemma demo_local: "local_artifact demo_settings demo_fs DEMO = Inr [''mnt'', ''dump'', DEMO]"
  by (simp add: local_artifact_def demo_parse resolve_within_def demo_basename demo_fs_def demo_settings_def
      is_relative_to_def Let_def)

lemma demo_list: "\<exists>e. list_remote demo_settings demo_listing ''drive'' [] demo_rclone = Inr [e] \<and>
    re_name e = DEMO \<and> \<not> re_is_dir e \<and> re_size_bytes e = 3 \<and> entry_md5 e = Some ''ABC''"
proof -
  have v: "validated_remote demo_settings ''drive'' [] = Inr (''drive'', [])"
    unfolding demo_settings_def by code_simp
  have "run_capture (build_lsjson_argv (rclone_options_of demo_settings 0 None)
      (build_remote_spec ''drive'' [] []) True) demo_rclone = Inr (0, ''x'')"
    unfolding demo_settings_def demo_rclone_def by code_simp
  then show ?thesis
    by (simp add: list_remote_def require_enabled_def v)
      (simp add: demo_settings_def parse_lsjson_def demo_listing_def parse_entry_def size_of_def entry_md5_def
        nonempty_text_def Let_def)
qed

lemma demo_verify:
  "\<exists>v. fst (verify_copy demo_settings demo_env demo_listing demo_fs demo_sync demo_rclone) = Inr v \<and> vr_verified v"
proof -
  obtain e where l: "list_remote demo_settings demo_listing ''drive'' [] demo_rclone = Inr [e]"
    and e: "re_name e = DEMO" "\<not> re_is_dir e" "re_size_bytes e = 3" "entry_md5 e = Some ''ABC''"
    using demo_list by blast
  have r: "validated_remote demo_settings ''drive'' [] = Inr (''drive'', [])"
    unfolding demo_settings_def by code_simp
  let ?f = "[''mnt'', ''dump'', DEMO]"
  have f: "fs_files demo_fs ?f = Some \<lparr>hf_content = ''abc'', hf_size = 3, hf_mtime = 7, hf_readable = True\<rparr>"
    by (simp add: demo_fs_def)
  have "read_cached MD5 (Some (7, ''x'')) (Some 7) = None" by code_simp
  then have d: "digest_at MD5 True demo_fs ?f = Some \<lparr>hex_digest = ''abc'', from_cache = False, cs_algorithm = MD5\<rparr>"
    by (simp add: digest_at_def compute_digest_def sidecar_of_def with_name_def as_stat_def demo_fs_def)
  have low: "py_lower ''abc'' = py_lower ''ABC''" by code_simp
  show ?thesis
    by (simp add: verify_copy_def verify_inputs_def require_enabled_def demo_sync_def r l f d e demo_local
        compare_copies_def Let_def) (simp add: demo_settings_def compare_copies_def d e low)
qed

theorem verified_iff_size_and_digest_agree_witness:
  "\<exists>v. fst (verify_copy demo_settings demo_env demo_listing demo_fs demo_sync demo_rclone) = Inr v \<and> vr_outcome v = MATCH"
  using demo_verify verified_iff_size_and_digest_agree by blast

lemma sync_state:
  "state_of (aw_registry (execute_sync st env loads h ch lr fs' job w)) (tk_id (sj_task job)) =
   Some (case sync_outcome st env loads fs' job lr (run_logged (tail_lines st) (sj_argv job) ch)
      (feed_all rclone_feed (if is_ok (run_logged (tail_lines st) (sj_argv job) ch) then ch_lines ch else [])
        (new_parser (tk_progress (sj_task job)))) of
     Inl _ \<Rightarrow> T_FAILED | Inr (state, _) \<Rightarrow> state)"
proof -
  obtain t1 r1 where m: "mark_running (ce_disk env) (ce_now env) (sj_task job) None
      (attach_handle (tk_id (sj_task job)) h (aw_registry w)) = (t1, r1)" by fastforce
  then have p: "tk_progress t1 = tk_progress (sj_task job)" by (auto simp: mark_running_def Let_def)
  obtain outcome s t2 r2 where t: "run_tracked st env rclone_feed (sj_argv job) ch t1 r1 = (outcome, s, t2, r2)"
    by (metis surj_pair)
  then have o: "outcome = run_logged (tail_lines st) (sj_argv job) ch"
      "s = feed_all rclone_feed (if is_ok outcome then ch_lines ch else []) (new_parser (tk_progress t1))"
    by (auto simp: run_tracked_def Let_def split: prod.splits)
  have i: "tk_id t2 = tk_id (sj_task job)"
    using mark_running_elsewhere [OF m] run_tracked_elsewhere [OF t] by simp
  have fin: "state_of (finish_with env t2 state x err res r2) (tk_id (sj_task job)) = Some state" for state x err res
    using state_of_finish [of env t2] i by metis
  show ?thesis
    using m t fin o p
    by (cases "sync_outcome st env loads fs' job lr outcome s")
      (auto simp: execute_sync_def settle_sync_def split: prod.splits)
qed

lemma sync_success:
  assumes "state_of (aw_registry (execute_sync st env loads h ch lr fs' job w)) (tk_id (sj_task job)) = Some T_SUCCESS"
  shows "(\<exists>res. run_logged (tail_lines st) (sj_argv job) ch = Inr res \<and> result_ok res) \<and>
    (\<forall>req. sj_verify job = Some req \<longrightarrow> (\<exists>v. fst (verify_copy st env loads fs' req lr) = Inr v \<and> vr_verified v))"
  using assms sync_outcome_terminal
  by (auto simp: sync_state split: sum.splits prod.splits)

text \<open>
  C14. An upload that asked for verification succeeds only verified: when the task of an accepted
  upload with \<open>verify_after\<close> ends as a success, rclone ran and succeeded and the verification that
  followed it reported a match.
\<close>

theorem upload_success_is_verified:
  assumes "start_upload st env req w = (Inr job, w1)" and "sq_verify_after req"
    and "state_of (aw_registry (execute_sync st env' loads h ch lr fs' job w2)) (tk_id (sj_task job)) = Some T_SUCCESS"
  shows "(\<exists>res. run_logged (tail_lines st) (sj_argv job) ch = Inr res \<and> result_ok res) \<and>
    (\<exists>remote rpath v. fst (verify_copy st env' loads fs' (req\<lparr>sq_remote := remote, sq_remote_path := rpath\<rparr>) lr) = Inr v \<and>
      vr_outcome v = MATCH)"
proof -
  from assms(1) obtain argv meta v where u: "upload_plan st (aw_fs w) req = Inr (argv, meta, v)"
    and "schedule_sync env UPLOAD argv (sq_correlation req) meta v w = (Inr job, w1)"
    by (auto simp: start_upload_def split: sum.splits prod.splits)
  then have v: "sj_verify job = v" using schedule_sync_facts(2) by blast
  from upload_plan_facts [OF u] assms(2) v obtain remote rpath where
    "sj_verify job = Some (req\<lparr>sq_remote := remote, sq_remote_path := rpath\<rparr>)" by blast
  moreover have "vr_verified x \<Longrightarrow> fst (verify_copy st env' loads fs' q lr) = Inr x \<Longrightarrow> vr_outcome x = MATCH" for q x
    using verify_copy_compares compare_copies_verified(1) by blast
  ultimately show ?thesis using sync_success [OF assms(3)] by blast
qed

theorem upload_success_is_verified_witness:
  "\<exists>job w1 v. start_upload demo_settings demo_env demo_sync demo_world = (Inr job, w1) \<and>
     fst (verify_copy demo_settings demo_env demo_listing demo_fs
       (demo_sync\<lparr>sq_remote := fst v, sq_remote_path := fst (snd v)\<rparr>) demo_rclone) = Inr (snd (snd v)) \<and>
     vr_outcome (snd (snd v)) = MATCH"
proof -
  let ?argv = "build_copy_argv (rclone_options_of demo_settings 0 None) (path_str [''mnt'', ''dump'', DEMO])
    (build_remote_spec ''drive'' [] DEMO)"
  have r: "validated_remote demo_settings ''drive'' [] = Inr (''drive'', [])"
    unfolding demo_settings_def by code_simp
  have en: "require_enabled demo_settings = Inr ()" by (simp add: require_enabled_def demo_settings_def)
  have p: "\<exists>meta. upload_plan demo_settings demo_fs demo_sync = Inr (?argv, meta, Some demo_sync)"
    by (simp add: upload_plan_def demo_sync_def r en demo_local) (simp add: demo_fs_def)
  have fs: "aw_fs demo_world = demo_fs" by (simp add: demo_world_def)
  have a: "\<exists>m. acquire_or_conflict SYNC_SLOT (aw_slots demo_world) = Inr m"
    by (simp add: acquire_or_conflict_def try_acquire_def demo_world_def new_slots_def SYNC_SLOT_def)
  from p a obtain job w1 where j: "start_upload demo_settings demo_env demo_sync demo_world = (Inr job, w1)"
    and ja: "sj_argv job = ?argv" "sj_verify job = Some demo_sync"
    by (auto simp: start_upload_def fs schedule_sync_def create_task_def Let_def)
  have "validate_argv ?argv = Inr ?argv"
    unfolding demo_settings_def DEMO_def by code_simp
  then have run: "\<exists>res. run_logged (tail_lines demo_settings) ?argv demo_rclone = Inr res \<and> result_ok res"
    by (simp add: run_logged_def demo_rclone_def result_ok_def)
  then have n: "\<exists>res. run_logged (tail_lines demo_settings) ?argv demo_rclone = Inr res \<and>
      (\<forall>c t f. run_failure c t f res = None)" by (simp add: run_failure_None)
  obtain v where "fst (verify_copy demo_settings demo_env demo_listing demo_fs demo_sync demo_rclone) = Inr v" "vr_verified v"
    using demo_verify by blast
  with n ja have "state_of (aw_registry (execute_sync demo_settings demo_env demo_listing () demo_rclone demo_rclone
      demo_fs job w1)) (tk_id (sj_task job)) = Some T_SUCCESS"
    by (auto simp: sync_state sync_outcome_def Let_def)
  from upload_success_is_verified [OF j _ this] j show ?thesis by (fastforce simp: demo_sync_def)
qed

end
