(* ===== verification/Agent_Security.thy ===== *)
theory Agent_Security
  imports Vocabulary
begin

text \<open>
  \<open>agent/app/core/security.py\<close>: the nonce cache, the request signature and the address filter.
  SHA-256 and HMAC are parameters (\<open>sha256_hex\<close>, \<open>hmac_hex\<close>); so is the address parser. A call that
  mutates the cache returns it.
\<close>

section \<open>The nonce cache\<close>

record nonce_cache =
  nc_ttl :: int
  nc_max_size :: nat
  nc_entries :: "(string \<times> clock) list" \<comment> \<open>the OrderedDict, oldest insertion first\<close>

definition purge :: "nonce_cache \<Rightarrow> clock \<Rightarrow> nonce_cache" where
  "purge c now = (let cutoff = now - of_int (nc_ttl c)
     in c\<lparr>nc_entries := dropWhile (\<lambda>(_, seen_at). \<not> seen_at \<ge> cutoff) (nc_entries c)\<rparr>)"

definition evict :: "nonce_cache \<Rightarrow> nonce_cache" where
  "evict c = c\<lparr>nc_entries := drop (length (nc_entries c) - nc_max_size c) (nc_entries c)\<rparr>"

definition claim :: "nonce_cache \<Rightarrow> string \<Rightarrow> clock \<Rightarrow> bool \<times> nonce_cache" where
  "claim c nonce current = (let c1 = purge c current in
     if nonce \<in> fst ` set (nc_entries c1) then (False, c1)
     else (True, evict (c1\<lparr>nc_entries := nc_entries c1 @ [(nonce, current)]\<rparr>)))"

text \<open>
  \<open>holds_nonce n t k c\<close>: the cache still holds \<open>n\<close>, seen at \<open>t\<close>, with at most \<open>k\<close> newer entries.
\<close>

definition holds_nonce :: "string \<Rightarrow> clock \<Rightarrow> nat \<Rightarrow> nonce_cache \<Rightarrow> bool" where
  "holds_nonce n t k c = (\<exists>a b. nc_entries c = a @ (n, t) # b \<and> length b \<le> k)"

lemma claim_frame [simp]:
  "nc_ttl (snd (claim c n t)) = nc_ttl c" "nc_max_size (snd (claim c n t)) = nc_max_size c"
  by (simp_all add: claim_def purge_def evict_def Let_def)

lemma claim_size_bound:
  "length (nc_entries c) \<le> nc_max_size c \<Longrightarrow> length (nc_entries (snd (claim c n t))) \<le> nc_max_size c"
  using length_dropWhile_le [of "\<lambda>(_, s). \<not> s \<ge> t - of_int (nc_ttl c)" "nc_entries c"]
  by (auto simp: claim_def purge_def evict_def Let_def)

lemma drop_keeps_tail:
  "length b < m \<Longrightarrow> \<exists>a'. drop (length (a @ x # b) - m) (a @ x # b) = a' @ x # b"
  by (rule exI [of _ "drop (length (a @ x # b) - m) a"]) simp

lemma holds_nonce_purge:
  assumes "holds_nonce n t k c" and "now \<le> t + of_int (nc_ttl c)"
  shows "holds_nonce n t k (purge c now)"
proof -
  from assms(1) obtain a b where e: "nc_entries c = a @ (n, t) # b" and b: "length b \<le> k"
    by (auto simp: holds_nonce_def)
  let ?P = "\<lambda>(_ :: string, seen_at). \<not> seen_at \<ge> now - of_int (nc_ttl c)"
  have "\<not> ?P (n, t)" using assms(2) by simp
  then have "dropWhile ?P (a @ (n, t) # b) = dropWhile ?P a @ (n, t) # b"
    by (induction a) auto
  with e b show ?thesis
    unfolding holds_nonce_def purge_def Let_def by auto
qed

lemma holds_nonce_rejects:
  "holds_nonce n t k c \<Longrightarrow> now \<le> t + of_int (nc_ttl c) \<Longrightarrow> claim c n now = (False, purge c now)"
  using holds_nonce_purge [of n t k c now] by (force simp: claim_def Let_def holds_nonce_def)

lemma holds_nonce_claim:
  assumes h: "holds_nonce n t k c" and now: "now \<le> t + of_int (nc_ttl c)"
    and room: "Suc k < nc_max_size c"
  shows "holds_nonce n t (Suc k) (snd (claim c m now))"
proof -
  from holds_nonce_purge [OF h now] obtain a b where
    e: "nc_entries (purge c now) = a @ (n, t) # b" and b: "length b \<le> k"
    by (auto simp: holds_nonce_def)
  show ?thesis
  proof (cases "m \<in> fst ` set (nc_entries (purge c now))")
    case True
    then have "snd (claim c m now) = purge c now" by (simp add: claim_def Let_def)
    with e b show ?thesis unfolding holds_nonce_def by (metis le_SucI)
  next
    case False
    have "nc_max_size (purge c now) = nc_max_size c" by (simp add: purge_def)
    with False e have
      "nc_entries (snd (claim c m now)) =
       drop (length (a @ (n, t) # (b @ [(m, now)])) - nc_max_size c) (a @ (n, t) # (b @ [(m, now)]))"
      by (simp add: claim_def Let_def evict_def)
    also obtain a' where "\<dots> = a' @ (n, t) # (b @ [(m, now)])"
      using drop_keeps_tail [of "b @ [(m, now)]" "nc_max_size c" a "(n, t)"] b room by auto
    finally show ?thesis
      unfolding holds_nonce_def using b by (intro exI [of _ a'] exI [of _ "b @ [(m, now)]"]) simp
  qed
qed

lemma claim_accepted_holds:
  assumes "claim c n t = (True, c')" and "0 < nc_max_size c"
  shows "holds_nonce n t 0 c'"
proof -
  let ?es = "nc_entries (purge c t)"
  have max: "nc_max_size (purge c t) = nc_max_size c" by (simp add: purge_def)
  from assms(1) have "c' = evict ((purge c t)\<lparr>nc_entries := ?es @ [(n, t)]\<rparr>)"
    by (auto simp: claim_def Let_def split: if_splits)
  then have "nc_entries c' = drop (length (?es @ [(n, t)]) - nc_max_size c) (?es @ [(n, t)])"
    by (simp add: evict_def max)
  also obtain a' where "\<dots> = a' @ [(n, t)]"
    using drop_keeps_tail [of "[]" "nc_max_size c" ?es "(n, t)"] assms(2) by auto
  finally show ?thesis unfolding holds_nonce_def by auto
qed

text \<open>
  The contract the authenticator relies on: a store that accepts a nonce keeps refusing it for the
  life time, as long as it is asked for fewer other nonces than it has room for.
\<close>

locale nonce_store =
  fixes take_nonce :: "'s \<Rightarrow> string \<Rightarrow> clock \<Rightarrow> bool \<times> 's"
    and keeps :: "string \<Rightarrow> clock \<Rightarrow> nat \<Rightarrow> 's \<Rightarrow> bool"
    and life :: "'s \<Rightarrow> clock"
    and room :: "'s \<Rightarrow> nat"
  assumes accept_keeps: "take_nonce s n t = (True, s') \<Longrightarrow> 0 < room s \<Longrightarrow> keeps n t 0 s'"
    and keeps_refuses: "keeps n t k s \<Longrightarrow> now \<le> t + life s \<Longrightarrow> fst (take_nonce s n now) = False"
    and keeps_step: "keeps n t k s \<Longrightarrow> now \<le> t + life s \<Longrightarrow> Suc k < room s \<Longrightarrow>
      keeps n t (Suc k) (snd (take_nonce s m now))"
    and keeps_weaken: "keeps n t k s \<Longrightarrow> keeps n t (Suc k) s"
    and life_frame: "life (snd (take_nonce s n t)) = life s"
    and room_frame: "room (snd (take_nonce s n t)) = room s"
begin

fun take_all :: "'s \<Rightarrow> (string \<times> clock) list \<Rightarrow> 's" where
  "take_all s [] = s"
| "take_all s ((m, t) # es) = take_all (snd (take_nonce s m t)) es"

lemma take_all_frame: "life (take_all s es) = life s \<and> room (take_all s es) = room s"
  by (induction s es rule: take_all.induct) (auto simp: life_frame room_frame)

lemma keeps_take_all:
  "keeps n t k s \<Longrightarrow> \<forall>(m, u) \<in> set es. u \<le> t + life s \<Longrightarrow> k + length es < room s \<Longrightarrow>
   keeps n t (k + length es) (take_all s es)"
proof (induction s es arbitrary: k rule: take_all.induct)
  case (2 s m u es)
  from 2(2,3,4) have "keeps n t (Suc k) (snd (take_nonce s m u))"
    by (intro keeps_step) auto
  with 2(1) [of "Suc k"] 2(3,4) show ?case by (auto simp: life_frame room_frame)
qed simp

lemma no_replay:
  assumes "take_nonce s n t = (True, s')" and "\<forall>(m, u) \<in> set es. u \<le> t + life s"
    and "now \<le> t + life s" and "length es < room s"
  shows "fst (take_nonce (take_all s' es) n now) = False"
proof -
  have fr: "life s' = life s" "room s' = room s"
    using assms(1) life_frame [of s n t] room_frame [of s n t] by simp_all
  from assms have "keeps n t 0 s'" by (intro accept_keeps) auto
  with assms fr have "keeps n t (length es) (take_all s' es)"
    using keeps_take_all [of n t 0 s' es] by simp
  with assms(3) fr show ?thesis by (intro keeps_refuses) (auto simp: take_all_frame)
qed

end

interpretation nc: nonce_store claim holds_nonce "\<lambda>c. of_int (nc_ttl c)" nc_max_size
proof unfold_locales
  show "claim s n t = (True, s') \<Longrightarrow> 0 < nc_max_size s \<Longrightarrow> holds_nonce n t 0 s'" for s n t s'
    by (rule claim_accepted_holds)
  show "holds_nonce n t k s \<Longrightarrow> now \<le> t + of_int (nc_ttl s) \<Longrightarrow> fst (claim s n now) = False"
    for n t k s now by (simp add: holds_nonce_rejects)
  show "holds_nonce n t k s \<Longrightarrow> now \<le> t + of_int (nc_ttl s) \<Longrightarrow> Suc k < nc_max_size s \<Longrightarrow>
    holds_nonce n t (Suc k) (snd (claim s m now))" for n t k s now m by (rule holds_nonce_claim)
  show "holds_nonce n t k s \<Longrightarrow> holds_nonce n t (Suc k) s" for n t k s
    by (auto simp: holds_nonce_def intro: le_SucI)
qed simp_all

section \<open>Signatures\<close>

definition HEADER_KEY_ID :: string where "HEADER_KEY_ID = ''X-ProxSync-Key''"
definition HEADER_TIMESTAMP :: string where "HEADER_TIMESTAMP = ''X-ProxSync-Timestamp''"
definition HEADER_NONCE :: string where "HEADER_NONCE = ''X-ProxSync-Nonce''"
definition HEADER_SIGNATURE :: string where "HEADER_SIGNATURE = ''X-ProxSync-Signature''"

definition MIN_NONCE_LENGTH :: nat where "MIN_NONCE_LENGTH = 8"
definition MAX_NONCE_LENGTH :: nat where "MAX_NONCE_LENGTH = 128"

definition ascii_upper :: "string \<Rightarrow> string" where
  "ascii_upper s = map (\<lambda>c. if is_lower c then char_of (code c - 32) else c) s"

record request =
  rq_method :: string
  rq_path :: string
  rq_headers :: "(string \<times> string) list"
  rq_body :: string

definition build_canonical_string ::
  "(string \<Rightarrow> string) \<Rightarrow> string \<Rightarrow> string \<Rightarrow> string \<Rightarrow> string \<Rightarrow> string \<Rightarrow> string" where
  "build_canonical_string sha256_hex method path timestamp nonce body =
     ascii_upper method @ ''|'' @ path @ ''|'' @ timestamp @ ''|'' @ nonce @ ''|'' @ sha256_hex body"

definition sign_request ::
  "(string \<Rightarrow> string) \<Rightarrow> (string \<Rightarrow> string \<Rightarrow> string) \<Rightarrow> string \<Rightarrow> string \<Rightarrow> string \<Rightarrow> string \<Rightarrow> string \<Rightarrow>
   string \<Rightarrow> string" where
  "sign_request sha256_hex hmac_hex secret method path timestamp nonce body =
     hmac_hex secret (build_canonical_string sha256_hex method path timestamp nonce body)"

text \<open>
  \<open>hmac.compare_digest\<close> of two \<open>str\<close> raises TypeError when either holds a non-ASCII character;
  nothing in \<open>verify\<close> catches it, so it reaches the catch-all handler (\<open>ExecutionFailed\<close>, 500).
\<close>

definition compare_digest :: "string \<Rightarrow> string \<Rightarrow> agent_error + bool" where
  "compare_digest a b = (if list_all (\<lambda>c. code c < 128) a \<and> list_all (\<lambda>c. code c < 128) b
     then Inr (a = b) else Inl (ExecutionFailed ''An unexpected error occurred''))"

record authenticator =
  au_key_id :: string
  au_secret :: string
  au_window :: int
  au_nonces :: nonce_cache

definition get_header :: "(string \<times> string) list \<Rightarrow> string \<Rightarrow> string option" where
  "get_header headers n = map_of (rev (map (\<lambda>(k, v). (py_lower k, v)) headers)) (py_lower n)"

definition nonempty :: "string option \<Rightarrow> string option" where
  "nonempty s = (if s = Some [] then None else s)"

definition skew_exceeds :: "py_float \<Rightarrow> clock \<Rightarrow> int \<Rightarrow> bool" where
  "skew_exceeds t current window = (case t of
     Fin v \<Rightarrow> \<bar>current - v\<bar> > of_int window | PosInf \<Rightarrow> True | NegInf \<Rightarrow> True
   | NaN \<Rightarrow> False)" \<comment> \<open>every comparison with a NaN is false\<close>

text \<open>The checks before the nonce is claimed; the value is the nonce.\<close>

definition verify_static ::
  "(string \<Rightarrow> string) \<Rightarrow> (string \<Rightarrow> string \<Rightarrow> string) \<Rightarrow> authenticator \<Rightarrow> request \<Rightarrow> clock \<Rightarrow>
   agent_error + string" where
  "verify_static sha256_hex hmac_hex a r current =
     (case (nonempty (get_header (rq_headers r) HEADER_KEY_ID),
            nonempty (get_header (rq_headers r) HEADER_TIMESTAMP),
            nonempty (get_header (rq_headers r) HEADER_NONCE),
            nonempty (get_header (rq_headers r) HEADER_SIGNATURE)) of
        (Some key_id, Some timestamp, Some nonce, Some signature) \<Rightarrow>
          bindR (compare_digest key_id (au_key_id a)) (\<lambda>same_key.
          if \<not> same_key then Inl (AuthenticationFailed ''Unknown key id'')
          else if \<not> (MIN_NONCE_LENGTH \<le> length nonce \<and> length nonce \<le> MAX_NONCE_LENGTH)
          then Inl (AuthenticationFailed ''Malformed nonce'')
          else (case py_float_of timestamp of
            None \<Rightarrow> Inl (AuthenticationFailed ''Malformed timestamp'')
          | Some request_time \<Rightarrow>
              if skew_exceeds request_time current (au_window a)
              then Inl (AuthenticationFailed ''Timestamp outside the permitted window'')
              else bindR (compare_digest (sign_request sha256_hex hmac_hex (au_secret a)
                     (rq_method r) (rq_path r) timestamp nonce (rq_body r)) signature) (\<lambda>good.
                if \<not> good then Inl (AuthenticationFailed ''Invalid request signature'')
                else Inr nonce)))
      | _ \<Rightarrow> Inl (AuthenticationFailed ''Missing request signature headers''))"

definition verify_request ::
  "(string \<Rightarrow> string) \<Rightarrow> (string \<Rightarrow> string \<Rightarrow> string) \<Rightarrow> authenticator \<Rightarrow> request \<Rightarrow> clock \<Rightarrow>
   (agent_error + unit) \<times> authenticator" where
  "verify_request sha256_hex hmac_hex a r current =
     (case verify_static sha256_hex hmac_hex a r current of
        Inl e \<Rightarrow> (Inl e, a)
      | Inr nonce \<Rightarrow> (case claim (au_nonces a) nonce current of (fresh, nc) \<Rightarrow>
          (if fresh then Inr () else Inl (AuthenticationFailed ''Replayed nonce''),
           a\<lparr>au_nonces := nc\<rparr>)))"

text \<open>The authenticator \<open>api/deps.py\<close> builds: the nonce life time is twice the window.\<close>

definition build_authenticator :: "string \<Rightarrow> string \<Rightarrow> int \<Rightarrow> nat \<Rightarrow> authenticator" where
  "build_authenticator key_id secret window cache_size =
     \<lparr>au_key_id = key_id, au_secret = secret, au_window = window,
      au_nonces = \<lparr>nc_ttl = window * 2, nc_max_size = cache_size, nc_entries = []\<rparr>\<rparr>"

section \<open>Address filter\<close>

text \<open>A network is the predicate of its addresses; \<open>parse\<close> is \<open>ipaddress.ip_address\<close>.\<close>

definition assert_client_allowed ::
  "(string \<Rightarrow> 'ip option) \<Rightarrow> string option \<Rightarrow> ('ip \<Rightarrow> bool) list \<Rightarrow> agent_error + unit" where
  "assert_client_allowed parse client_host networks =
     (if networks = [] then Inr ()
      else case client_host of
        None \<Rightarrow> Inl (ClientNotAllowed ''Client address could not be determined'')
      | Some h \<Rightarrow> (case parse h of
          None \<Rightarrow> Inl (ClientNotAllowed ''Malformed client address'')
        | Some address \<Rightarrow> if \<not> list_ex (\<lambda>net. net address) networks
            then Inl (ClientNotAllowed ''Address is not permitted to reach this agent'')
            else Inr ()))"

section \<open>Properties\<close>

fun verify_all ::
  "(string \<Rightarrow> string) \<Rightarrow> (string \<Rightarrow> string \<Rightarrow> string) \<Rightarrow> authenticator \<Rightarrow> (request \<times> clock) list \<Rightarrow>
   authenticator" where
  "verify_all sha hmac a [] = a"
| "verify_all sha hmac a ((r, t) # rs) = verify_all sha hmac (snd (verify_request sha hmac a r t)) rs"

definition request_nonce :: "request \<Rightarrow> string option" where
  "request_nonce r = nonempty (get_header (rq_headers r) HEADER_NONCE)"

definition request_timestamp :: "request \<Rightarrow> py_float option" where
  "request_timestamp r = Option.bind (nonempty (get_header (rq_headers r) HEADER_TIMESTAMP)) py_float_of"

lemma verify_static_Inr:
  assumes "verify_static sha hmac a r t = Inr n"
  shows "request_nonce r = Some n"
    and "\<exists>f. request_timestamp r = Some f \<and> \<not> skew_exceeds f t (au_window a)"
  using assms
  by (auto simp: verify_static_def request_nonce_def request_timestamp_def result_simps
      split: option.splits if_splits)

lemma verify_static_cong:
  assumes "au_key_id a = au_key_id b" "au_secret a = au_secret b" "au_window a = au_window b"
  shows "verify_static sha hmac a r t = verify_static sha hmac b r t"
  by (simp only: verify_static_def assms)

lemma verify_request_frame:
  "au_key_id (snd (verify_request sha hmac a r t)) = au_key_id a \<and>
   au_secret (snd (verify_request sha hmac a r t)) = au_secret a \<and>
   au_window (snd (verify_request sha hmac a r t)) = au_window a"
  by (simp add: verify_request_def split: sum.split prod.split)

lemma verify_all_frame:
  "au_key_id (verify_all sha hmac a rs) = au_key_id a \<and>
   au_secret (verify_all sha hmac a rs) = au_secret a \<and> au_window (verify_all sha hmac a rs) = au_window a"
  by (induction sha hmac a rs rule: verify_all.induct) (auto simp: verify_request_frame)

lemma verify_request_nonces:
  "\<exists>es. au_nonces (snd (verify_request sha hmac a r t)) = nc.take_all (au_nonces a) es \<and>
     length es \<le> 1 \<and> (\<forall>(m, u) \<in> set es. u = t)"
proof (cases "verify_static sha hmac a r t")
  case (Inl e)
  then show ?thesis by (intro exI [of _ "[]"]) (simp add: verify_request_def)
next
  case (Inr n)
  then show ?thesis
    by (intro exI [of _ "[(n, t)]"]) (simp add: verify_request_def split: prod.split)
qed

lemma take_all_append: "nc.take_all s (es @ fs) = nc.take_all (nc.take_all s es) fs"
  by (induction s es rule: nc.take_all.induct) auto

lemma verify_all_nonces:
  "\<exists>es. au_nonces (verify_all sha hmac a rs) = nc.take_all (au_nonces a) es \<and>
     length es \<le> length rs \<and> (\<forall>(m, u) \<in> set es. u \<in> snd ` set rs)"
proof (induction sha hmac a rs rule: verify_all.induct)
  case (1 sha hmac a)
  show ?case by (intro exI [of _ "[]"]) simp
next
  case (2 sha hmac a r t rs)
  obtain es where es: "au_nonces (snd (verify_request sha hmac a r t)) = nc.take_all (au_nonces a) es"
    "length es \<le> 1" "\<forall>(m, u) \<in> set es. u = t"
    using verify_request_nonces by blast
  from 2 obtain fs where fs:
    "au_nonces (verify_all sha hmac a ((r, t) # rs)) =
       nc.take_all (au_nonces (snd (verify_request sha hmac a r t))) fs"
    "length fs \<le> length rs" "\<forall>(m, u) \<in> set fs. u \<in> snd ` set rs" by auto
  with es show ?case
    by (intro exI [of _ "es @ fs"]) (auto simp: take_all_append)
qed

lemma skew_window:
  "\<not> skew_exceeds (Fin v) t1 w \<Longrightarrow> \<not> skew_exceeds (Fin v) t2 w \<Longrightarrow> t2 \<le> t1 + of_int (w * 2)"
  by (simp add: skew_exceeds_def)

text \<open>
  C30. Replay protection, end to end: with the nonce life time \<open>deps.py\<close> configures (twice the
  window), a request accepted once with a finite timestamp is never accepted again, whatever other
  requests are verified in between, as long as there are fewer of them than the cache has room for
  and the clock shows none of them a later time than the replay.
\<close>

theorem replayed_request_rejected:
  assumes "nc_ttl (au_nonces a) = au_window a * 2"
    and "verify_request sha hmac a r t1 = (Inr (), a1)"
    and "request_timestamp r = Some (Fin v)"
    and "length rs < nc_max_size (au_nonces a)"
    and "\<forall>(q, t) \<in> set rs. t \<le> t2"
  shows "fst (verify_request sha hmac (verify_all sha hmac a1 rs) r t2) \<noteq> Inr ()"
proof
  assume again: "fst (verify_request sha hmac (verify_all sha hmac a1 rs) r t2) = Inr ()"
  from assms(2) obtain n where st: "verify_static sha hmac a r t1 = Inr n"
    and c: "claim (au_nonces a) n t1 = (True, au_nonces a1)"
    by (auto simp: verify_request_def split: sum.splits prod.splits if_splits)
  have fr: "au_key_id a1 = au_key_id a" "au_secret a1 = au_secret a" "au_window a1 = au_window a"
    using verify_request_frame [of sha hmac a r t1] assms(2) by simp_all
  then have same: "verify_static sha hmac (verify_all sha hmac a1 rs) r t2 = verify_static sha hmac a r t2"
    by (intro verify_static_cong) (simp_all add: verify_all_frame)
  with again obtain m where st2: "verify_static sha hmac a r t2 = Inr m"
    and c2: "fst (claim (au_nonces (verify_all sha hmac a1 rs)) m t2) = True"
    by (auto simp: verify_request_def split: sum.splits prod.splits if_splits)
  from verify_static_Inr(1) [OF st] verify_static_Inr(1) [OF st2] have mn: "m = n" by simp
  from verify_static_Inr(2) [OF st] verify_static_Inr(2) [OF st2] assms(1,3)
  have t2: "t2 \<le> t1 + of_int (nc_ttl (au_nonces a))" using skew_window by auto
  obtain es where es: "au_nonces (verify_all sha hmac a1 rs) = nc.take_all (au_nonces a1) es"
    "length es \<le> length rs" "\<forall>(m, u) \<in> set es. u \<in> snd ` set rs"
    using verify_all_nonces by blast
  have "\<forall>(m, u) \<in> set es. u \<le> t1 + of_int (nc_ttl (au_nonces a))"
    using es(3) assms(5) t2 by fastforce
  with nc.no_replay [OF c] t2 es(1,2) assms(4) c2 mn show False by auto
qed

definition demo_authenticator :: authenticator where
  "demo_authenticator = build_authenticator ''dashboard'' ''k'' 60 2"

definition demo_request :: "string \<Rightarrow> request" where
  "demo_request ts = \<lparr>rq_method = ''GET'', rq_path = ''/x'', rq_headers =
     [(''x-proxsync-key'', ''dashboard''), (''x-proxsync-timestamp'', ts),
      (''x-proxsync-nonce'', ''12345678''), (''x-proxsync-signature'', ''GET|/x|'' @ ts @ ''|12345678|'')],
     rq_body = ''''\<rparr>"

lemma demo_lower:
  "py_lower ''x-proxsync-key'' = ''x-proxsync-key''" "py_lower ''X-ProxSync-Key'' = ''x-proxsync-key''"
  "py_lower ''x-proxsync-timestamp'' = ''x-proxsync-timestamp''"
  "py_lower ''X-ProxSync-Timestamp'' = ''x-proxsync-timestamp''"
  "py_lower ''x-proxsync-nonce'' = ''x-proxsync-nonce''" "py_lower ''X-ProxSync-Nonce'' = ''x-proxsync-nonce''"
  "py_lower ''x-proxsync-signature'' = ''x-proxsync-signature''"
  "py_lower ''X-ProxSync-Signature'' = ''x-proxsync-signature''"
  by (simp_all add: py_lower_def lower_char_def is_upper_def code_def char_of_def bit_0)

lemma demo_headers:
  "nonempty (get_header (rq_headers (demo_request ts)) HEADER_KEY_ID) = Some ''dashboard''"
  "nonempty (get_header (rq_headers (demo_request ts)) HEADER_TIMESTAMP) = nonempty (Some ts)"
  "nonempty (get_header (rq_headers (demo_request ts)) HEADER_NONCE) = Some ''12345678''"
  "nonempty (get_header (rq_headers (demo_request ts)) HEADER_SIGNATURE) = Some (''GET|/x|'' @ ts @ ''|12345678|'')"
  unfolding demo_request_def get_header_def nonempty_def HEADER_KEY_ID_def HEADER_TIMESTAMP_def
    HEADER_NONCE_def HEADER_SIGNATURE_def
  by (simp_all add: demo_lower)

lemma demo_canonical: "sign_request (\<lambda>b. b) (\<lambda>k m. m) k ''GET'' ''/x'' ts ''12345678'' [] = ''GET|/x|'' @ ts @ ''|12345678|''"
  by (simp add: sign_request_def build_canonical_string_def ascii_upper_def is_lower_def code_def)

lemma demo_fields:
  "au_key_id demo_authenticator = ''dashboard''" "au_window demo_authenticator = 60"
  "au_nonces demo_authenticator = \<lparr>nc_ttl = 120, nc_max_size = 2, nc_entries = []\<rparr>"
  "rq_method (demo_request ts) = ''GET''" "rq_path (demo_request ts) = ''/x''" "rq_body (demo_request ts) = []"
  by (simp_all add: demo_authenticator_def build_authenticator_def demo_request_def)

lemma compare_digest_same: "list_all (\<lambda>c. code c < 128) s \<Longrightarrow> compare_digest s s = Inr True"
  by (simp add: compare_digest_def)

lemma demo_static:
  assumes "py_float_of ts = Some f" and "\<not> skew_exceeds f t 60" and "list_all (\<lambda>c. code c < 128) ts" and "ts \<noteq> []"
  shows "verify_static (\<lambda>b. b) (\<lambda>k m. m) demo_authenticator (demo_request ts) t = Inr ''12345678''"
proof -
  have k: "compare_digest ''dashboard'' ''dashboard'' = Inr True"
    by (rule compare_digest_same) (simp add: code_def)
  define sig where "sig = ''GET|/x|'' @ ts @ ''|12345678|''"
  have c: "compare_digest sig sig = Inr True"
    using assms(3) by (intro compare_digest_same) (simp add: sig_def code_def)
  have sg: "sign_request (\<lambda>b. b) (\<lambda>k m. m) (au_secret demo_authenticator) ''GET'' ''/x'' ts ''12345678'' [] = sig"
    by (simp add: demo_canonical sig_def)
  have n: "nonempty (Some ts) = Some ts" using assms(4) by (simp add: nonempty_def)
  show ?thesis
    unfolding verify_static_def demo_headers n demo_fields sg sig_def [symmetric]
    using assms(2) by (simp add: sg k c assms(1) MIN_NONCE_LENGTH_def MAX_NONCE_LENGTH_def)
qed

lemma demo_accepted:
  assumes "py_float_of ts = Some f" and "\<not> skew_exceeds f t 60" and "list_all (\<lambda>c. code c < 128) ts" and "ts \<noteq> []"
  shows "verify_request (\<lambda>b. b) (\<lambda>k m. m) demo_authenticator (demo_request ts) t =
    (Inr (), demo_authenticator\<lparr>au_nonces := \<lparr>nc_ttl = 120, nc_max_size = 2, nc_entries = [(''12345678'', t)]\<rparr>\<rparr>)"
  by (simp add: verify_request_def demo_static [OF assms] claim_def purge_def evict_def Let_def demo_fields)

lemma demo_floats: "py_float_of ''7'' = Some (Fin 7)" "py_float_of ''nan'' = Some NaN"
  by code_simp+

lemma demo_timestamp: "py_float_of ts = Some f \<Longrightarrow> ts \<noteq> [] \<Longrightarrow> request_timestamp (demo_request ts) = Some f"
  by (simp add: request_timestamp_def demo_headers) (simp add: nonempty_def)

theorem replayed_request_rejected_witness:
  "fst (verify_request (\<lambda>b. b) (\<lambda>k m. m)
     (snd (verify_request (\<lambda>b. b) (\<lambda>k m. m) demo_authenticator (demo_request ''7'') 7))
     (demo_request ''7'') 17) \<noteq> Inr ()"
proof -
  have a1: "verify_request (\<lambda>b. b) (\<lambda>k m. m) demo_authenticator (demo_request ''7'') 7 =
    (Inr (), demo_authenticator\<lparr>au_nonces := \<lparr>nc_ttl = 120, nc_max_size = 2, nc_entries = [(''12345678'', 7)]\<rparr>\<rparr>)"
    by (rule demo_accepted [OF demo_floats(1)]) (simp_all add: skew_exceeds_def code_def)
  have ttl: "nc_ttl (au_nonces demo_authenticator) = au_window demo_authenticator * 2"
    "0 < nc_max_size (au_nonces demo_authenticator)"
    by (simp_all add: demo_authenticator_def build_authenticator_def)
  show ?thesis
    using replayed_request_rejected [OF ttl(1) a1 demo_timestamp [OF demo_floats(1)], of "[]" 17] ttl(2) a1 by simp
qed

text \<open>
  The freshness check does not hold for a signed request whose timestamp header is the text
  \<open>nan\<close>: \<open>float\<close> accepts it and every comparison with the skew is false, so once its nonce has
  expired from the cache the same request is accepted again, at any later time.
\<close>

theorem nan_timestamp_never_expires:
  assumes "verify_request sha hmac a r t1 = (Inr (), a1)"
    and "request_timestamp r = Some NaN"
    and "\<forall>(n, seen) \<in> set (nc_entries (au_nonces a1)). seen < t2 - of_int (nc_ttl (au_nonces a1))"
  shows "fst (verify_request sha hmac a1 r t2) = Inr ()"
proof -
  from assms(1) obtain n where st: "verify_static sha hmac a r t1 = Inr n"
    by (auto simp: verify_request_def split: sum.splits prod.splits if_splits)
  have fr: "au_key_id a1 = au_key_id a" "au_secret a1 = au_secret a" "au_window a1 = au_window a"
    using verify_request_frame [of sha hmac a r t1] assms(1) by simp_all
  have "verify_static sha hmac a1 r t2 = verify_static sha hmac a r t2"
    by (rule verify_static_cong) (simp_all add: fr)
  also have "\<dots> = Inr n"
    using st assms(2)
    by (auto simp: verify_static_def request_timestamp_def result_simps skew_exceeds_def
        split: option.splits if_splits)
  finally have "verify_static sha hmac a1 r t2 = Inr n" .
  moreover have "nc_entries (purge (au_nonces a1) t2) = []"
    using assms(3) by (auto simp: purge_def Let_def dropWhile_eq_Nil_conv)
  ultimately show ?thesis
    by (simp add: verify_request_def claim_def Let_def)
qed

theorem nan_timestamp_never_expires_witness:
  "fst (verify_request (\<lambda>b. b) (\<lambda>k m. m)
     (snd (verify_request (\<lambda>b. b) (\<lambda>k m. m) demo_authenticator (demo_request ''nan'') 7))
     (demo_request ''nan'') 9000) = Inr ()"
proof -
  have a1: "verify_request (\<lambda>b. b) (\<lambda>k m. m) demo_authenticator (demo_request ''nan'') 7 =
    (Inr (), demo_authenticator\<lparr>au_nonces := \<lparr>nc_ttl = 120, nc_max_size = 2, nc_entries = [(''12345678'', 7)]\<rparr>\<rparr>)"
    by (rule demo_accepted [OF demo_floats(2)]) (simp_all add: skew_exceeds_def code_def)
  show ?thesis
    using nan_timestamp_never_expires [OF a1 demo_timestamp [OF demo_floats(2)], of 9000] a1 by simp
qed

lemma prepend_sep_inject:
  "a @ c # b = a' @ c # b' \<Longrightarrow> c \<notin> set a \<Longrightarrow> c \<notin> set a' \<Longrightarrow> a = a' \<and> b = b'"
proof (induction a arbitrary: a')
  case Nil
  then show ?case by (cases a') auto
next
  case (Cons x xs)
  then show ?case by (cases a') auto
qed

lemma append_sep_inject:
  "a @ c # b = a' @ c # b' \<Longrightarrow> c \<notin> set b \<Longrightarrow> c \<notin> set b' \<Longrightarrow> a = a' \<and> b = b'"
proof -
  assume eq: "a @ c # b = a' @ c # b'" and n: "c \<notin> set b" "c \<notin> set b'"
  from arg_cong [OF eq, of rev] have "rev b @ c # rev a = rev b' @ c # rev a'" by simp
  moreover have "c \<notin> set (rev b)" "c \<notin> set (rev b')" using n by auto
  ultimately have "rev b = rev b' \<and> rev a = rev a'" by (rule prepend_sep_inject)
  then show ?thesis by simp
qed

text \<open>
  The canonical string binds every part of the request: when the digest is injective on the two
  bodies and no method, timestamp, nonce or digest holds the separator, two requests with the same
  canonical string have the same (upper-cased) method, path, timestamp, nonce and body. The path
  itself may hold the separator.
\<close>

theorem canonical_string_binds:
  assumes "build_canonical_string sha m p t n b = build_canonical_string sha m' p' t' n' b'"
    and "CHR ''|'' \<notin> set (ascii_upper m) \<union> set (ascii_upper m')"
    and "CHR ''|'' \<notin> set t \<union> set t' \<union> set n \<union> set n' \<union> set (sha b) \<union> set (sha b')"
    and "sha b = sha b' \<Longrightarrow> b = b'"
  shows "ascii_upper m = ascii_upper m' \<and> p = p' \<and> t = t' \<and> n = n' \<and> b = b'"
proof -
  let ?c = "CHR ''|''"
  have e: "(ascii_upper m @ ?c # p @ ?c # t @ ?c # n) @ ?c # sha b =
           (ascii_upper m' @ ?c # p' @ ?c # t' @ ?c # n') @ ?c # sha b'"
    using assms(1) by (simp add: build_canonical_string_def)
  from append_sep_inject [OF e] assms(3) have
    e1: "(ascii_upper m @ ?c # p @ ?c # t) @ ?c # n = (ascii_upper m' @ ?c # p' @ ?c # t') @ ?c # n'"
    and b: "sha b = sha b'" by auto
  from append_sep_inject [OF e1] assms(3) have
    e2: "(ascii_upper m @ ?c # p) @ ?c # t = (ascii_upper m' @ ?c # p') @ ?c # t'" and n: "n = n'" by auto
  from append_sep_inject [OF e2] assms(3) have
    e3: "ascii_upper m @ ?c # p = ascii_upper m' @ ?c # p'" and t: "t = t'" by auto
  from prepend_sep_inject [OF e3] assms(2) have "ascii_upper m = ascii_upper m' \<and> p = p'" by simp
  with b n t assms(4) show ?thesis by simp
qed

theorem canonical_string_binds_witness:
  "build_canonical_string (\<lambda>b. b) ''get'' ''/a|b'' ''1'' ''n'' ''x'' =
   build_canonical_string (\<lambda>b. b) ''GET'' ''/a|b'' ''1'' ''n'' ''x'' \<and> ascii_upper ''get'' = ascii_upper ''GET''"
proof -
  have u: "ascii_upper ''get'' = ''GET''" "ascii_upper ''GET'' = ''GET''" by code_simp+
  then have h: "build_canonical_string (\<lambda>b. b) ''get'' ''/a|b'' ''1'' ''n'' ''x'' =
    build_canonical_string (\<lambda>b. b) ''GET'' ''/a|b'' ''1'' ''n'' ''x''"
    by (simp add: build_canonical_string_def)
  show ?thesis using canonical_string_binds [OF h] h u by simp
qed

end
