(* ===== verification/Rate_Limits.thy ===== *)
theory Rate_Limits
  imports Vocabulary "HOL-Library.AList"
begin

text \<open>
  \<open>backend/app/core/rate_limit.py\<close> and \<open>backend/app/clients/circuit_breaker.py\<close>: the sliding-window
  limiter in front of the login, the lockout duration and the circuit breaker in front of the agent.
  The \<open>OrderedDict\<close> of the limiter is the association list of its entries, oldest first; a deque is
  a list, oldest first. A call that mutates the object returns it. \<open>max_attempts\<close> is positive, as the
  settings require, so a full window is never empty.
\<close>

section \<open>Sliding-window limiter\<close>

record limiter =
  lm_max :: nat
  lm_window :: int
  lm_max_keys :: nat
  lm_hits :: "(string \<times> clock list) list"

record rate_limit_decision =
  rd_allowed :: bool
  rd_remaining :: nat
  rd_retry_after :: int

definition new_limiter :: "nat \<Rightarrow> int \<Rightarrow> nat \<Rightarrow> limiter" where
  "new_limiter m w k = \<lparr>lm_max = m, lm_window = w, lm_max_keys = k, lm_hits = []\<rparr>"

definition live_hits :: "limiter \<Rightarrow> string \<Rightarrow> clock \<Rightarrow> clock list" where
  "live_hits l key now = dropWhile (\<lambda>t. t < now - of_int (lm_window l))
     (case map_of (lm_hits l) key of None \<Rightarrow> [] | Some ts \<Rightarrow> ts)"

text \<open>\<open>_prune\<close>: the key exists afterwards, with the hits inside the window.\<close>

definition prune_key :: "limiter \<Rightarrow> string \<Rightarrow> clock \<Rightarrow> limiter" where
  "prune_key l key now = l\<lparr>lm_hits := AList.update key (live_hits l key now) (lm_hits l)\<rparr>"

definition check :: "limiter \<Rightarrow> string \<Rightarrow> clock \<Rightarrow> rate_limit_decision \<times> limiter" where
  "check l key now = (let window = live_hits l key now; l' = prune_key l key now in
     if length window < lm_max l
     then (\<lparr>rd_allowed = True, rd_remaining = lm_max l - length window, rd_retry_after = 0\<rparr>, l')
     else (\<lparr>rd_allowed = False, rd_remaining = 0, rd_retry_after =
             max 1 (trunc_rat ((case window of t # _ \<Rightarrow> t | [] \<Rightarrow> 0) + of_int (lm_window l) - now))\<rparr>, l'))"

definition record_hit :: "limiter \<Rightarrow> string \<Rightarrow> clock \<Rightarrow> limiter" where
  "record_hit l key now = (let window = live_hits l key now @ [now];
       others = filter (\<lambda>(k, _). k \<noteq> key) (lm_hits l);
       moved = others @ [(key, window)]
     in l\<lparr>lm_hits := drop (length moved - lm_max_keys l) moved\<rparr>)"

definition reset_key :: "limiter \<Rightarrow> string \<Rightarrow> limiter" where
  "reset_key l key = l\<lparr>lm_hits := filter (\<lambda>(k, _). k \<noteq> key) (lm_hits l)\<rparr>"

definition lockout_duration_seconds :: "int \<Rightarrow> int \<Rightarrow> int \<Rightarrow> int" where
  "lockout_duration_seconds failed_count base maximum =
     (if failed_count \<le> 0 then 0
      else let exponent = min (failed_count - 1) 16 in min (base * 2 ^ nat exponent) maximum)"

section \<open>Facts about the limiter\<close>

lemma map_of_filter_key: "map_of (filter (\<lambda>(k, _). k \<noteq> key) al) k = (if k = key then None else map_of al k)"
  by (induction al) auto

definition hits_of :: "limiter \<Rightarrow> string \<Rightarrow> clock list" where
  "hits_of l key = (case map_of (lm_hits l) key of None \<Rightarrow> [] | Some ts \<Rightarrow> ts)"

lemma live_hits_eq: "live_hits l key now = dropWhile (\<lambda>t. t < now - of_int (lm_window l)) (hits_of l key)"
  by (simp add: live_hits_def hits_of_def)

lemma sorted_dropWhile_filter:
  fixes ts :: "'a :: linorder list"
  shows "sorted ts \<Longrightarrow> dropWhile (\<lambda>t. t < c) ts = filter (\<lambda>t. c \<le> t) ts"
  by (induction ts) (auto simp: filter_id_conv not_less intro!: filter_True[symmetric] intro: order_trans)

text \<open>What the limiter is asked to do; a check counts as one too, for it prunes.\<close>

datatype limiter_op = Record string clock | Reset string | Check string clock

fun limiter_step :: "limiter \<Rightarrow> limiter_op \<Rightarrow> limiter" where
  "limiter_step l (Record k t) = record_hit l k t"
| "limiter_step l (Reset k) = reset_key l k"
| "limiter_step l (Check k t) = snd (check l k t)"

fun op_key :: "limiter_op \<Rightarrow> string" where
  "op_key (Record k _) = k" | "op_key (Reset k) = k" | "op_key (Check k _) = k"

fun op_time :: "limiter_op \<Rightarrow> clock option" where
  "op_time (Record _ t) = Some t" | "op_time (Reset _) = None" | "op_time (Check _ t) = Some t"

text \<open>The reference: every failure recorded for the key since it was last reset.\<close>

fun failures :: "string \<Rightarrow> limiter_op list \<Rightarrow> clock list \<Rightarrow> clock list" where
  "failures k [] acc = acc"
| "failures k (Record j t # ops) acc = failures k ops (if j = k then acc @ [t] else acc)"
| "failures k (Reset j # ops) acc = failures k ops (if j = k then [] else acc)"
| "failures k (Check j t # ops) acc = failures k ops acc"

definition times :: "limiter_op list \<Rightarrow> clock list" where
  "times ops = List.map_filter op_time ops"

text \<open>
  The state that corresponds to the reference history \<open>acc\<close> of one key at time \<open>now\<close>: the kept hits
  are a suffix of the history that misses only hits already outside the window.
\<close>

definition tracks :: "string \<Rightarrow> clock list \<Rightarrow> clock \<Rightarrow> limiter \<Rightarrow> bool" where
  "tracks k acc now l = (sorted acc \<and> (\<forall>t \<in> set acc. t \<le> now) \<and>
     (\<exists>old. acc = old @ hits_of l k \<and> (\<forall>t \<in> set old. t < now - of_int (lm_window l))))"

lemma tracks_live:
  assumes "tracks k acc now l" and "now \<le> now'"
  shows "live_hits l k now' = filter (\<lambda>t. now' - of_int (lm_window l) \<le> t) acc"
    and "\<exists>old. acc = old @ live_hits l k now' \<and> (\<forall>t \<in> set old. t < now' - of_int (lm_window l))"
proof -
  from assms obtain old where s: "sorted acc" and a: "acc = old @ hits_of l k"
    and o: "\<forall>t \<in> set old. t < now' - of_int (lm_window l)"
    by (fastforce simp: tracks_def)
  let ?c = "now' - of_int (lm_window l)"
  from s a have sh: "sorted (hits_of l k)" by (simp add: sorted_append)
  have "filter (\<lambda>t. ?c \<le> t) old = []" using o by (auto simp: filter_empty_conv not_le)
  then show "live_hits l k now' = filter (\<lambda>t. ?c \<le> t) acc"
    by (simp add: live_hits_eq sorted_dropWhile_filter [OF sh] a)
  have "acc = (old @ takeWhile (\<lambda>t. t < ?c) (hits_of l k)) @ live_hits l k now'"
    by (simp add: a live_hits_eq)
  moreover have "\<forall>t \<in> set (old @ takeWhile (\<lambda>t. t < ?c) (hits_of l k)). t < ?c"
    using o by (auto dest: set_takeWhileD)
  ultimately show "\<exists>old. acc = old @ live_hits l k now' \<and> (\<forall>t \<in> set old. t < ?c)" by blast
qed

lemma hits_of_prune [simp]: "hits_of (prune_key l j t) k = (if k = j then live_hits l j t else hits_of l k)"
  by (simp add: hits_of_def prune_key_def update_conv)

lemma hits_of_reset [simp]: "hits_of (reset_key l j) k = (if k = j then [] else hits_of l k)"
  by (simp add: hits_of_def reset_key_def map_of_filter_key)

lemma hits_of_record:
  "length (filter (\<lambda>(k, _). k \<noteq> j) (lm_hits l)) < lm_max_keys l \<Longrightarrow>
   hits_of (record_hit l j t) k = (if k = j then live_hits l j t @ [t] else hits_of l k)"
  by (auto simp: hits_of_def record_hit_def Let_def map_of_append map_of_filter_key map_add_def split: option.split)

lemma limiter_frame [simp]:
  "lm_window (limiter_step l x) = lm_window l" "lm_max (limiter_step l x) = lm_max l"
  "lm_max_keys (limiter_step l x) = lm_max_keys l"
  by (cases x; simp add: record_hit_def reset_key_def check_def prune_key_def Let_def)+

lemma keys_step:
  "fst ` set (lm_hits (limiter_step l x)) \<subseteq> insert (op_key x) (fst ` set (lm_hits l))"
proof (cases x)
  case (Record k t)
  have "set (lm_hits (record_hit l k t)) \<subseteq> insert (k, live_hits l k t @ [t]) (set (lm_hits l))"
    by (auto simp: record_hit_def Let_def dest!: in_set_dropD)
  with Record show ?thesis by auto
next
  case (Reset k)
  then show ?thesis by (auto simp: reset_key_def)
next
  case (Check k t)
  then show ?thesis by (auto simp: check_def prune_key_def Let_def dom_update)
qed

lemma hits_update: "lm_hits (l\<lparr>lm_hits := x\<rparr>) = x"
  by simp

lemma distinct_step: "distinct (map fst (lm_hits l)) \<Longrightarrow> distinct (map fst (lm_hits (limiter_step l x)))"
proof (cases x)
  case (Record k t)
  assume d: "distinct (map fst (lm_hits l))"
  then have "distinct (map fst (filter (\<lambda>(k', _). k' \<noteq> k) (lm_hits l) @ [(k, live_hits l k t @ [t])]))"
    by (auto simp: distinct_map_filter)
  then have "distinct (map fst (drop n (filter (\<lambda>(k', _). k' \<noteq> k) (lm_hits l) @ [(k, live_hits l k t @ [t])])))" for n
    unfolding drop_map [symmetric] by (rule distinct_drop)
  with Record show ?thesis by (simp only: limiter_step.simps record_hit_def Let_def hits_update)
next
  case (Reset k)
  assume "distinct (map fst (lm_hits l))"
  with Reset show ?thesis by (simp add: reset_key_def distinct_map_filter)
next
  case (Check k t)
  assume "distinct (map fst (lm_hits l))"
  with Check show ?thesis by (auto simp: check_def prune_key_def Let_def distinct_update)
qed

section \<open>The limiter counts the failures in the window\<close>

text \<open>A run whose clock does not go back and which never uses more keys than the limiter holds.\<close>

definition fair_run :: "limiter_op list \<Rightarrow> nat \<Rightarrow> bool" where
  "fair_run ops k = (sorted (times ops) \<and> card (op_key ` set ops) \<le> k)"

lemma others_bound:
  assumes "distinct (map fst al)" and "fst ` set al \<subseteq> K" and "finite K" and "card K \<le> m" and "j \<in> K"
  shows "length (filter (\<lambda>(k, _). k \<noteq> j) al) < m"
proof -
  let ?f = "filter (\<lambda>(k, _). k \<noteq> j) al"
  have "distinct (map fst ?f)" using assms(1) by (simp add: distinct_map_filter)
  then have "length ?f = card (fst ` set ?f)" by (metis distinct_card length_map list.set_map)
  also have "\<dots> \<le> card (K - {j})" using assms(2,3) by (intro card_mono) auto
  also have "\<dots> < card K" using assms(3,5) by (rule card_Diff1_less)
  finally show ?thesis using assms(4) by simp
qed

lemma tracks_step:
  assumes "tracks k acc now l" and "case op_time x of None \<Rightarrow> True | Some t \<Rightarrow> now \<le> t"
    and "length (filter (\<lambda>(j, _). j \<noteq> op_key x) (lm_hits l)) < lm_max_keys l"
  shows "tracks k (failures k [x] acc) (case op_time x of None \<Rightarrow> now | Some t \<Rightarrow> t) (limiter_step l x)"
proof (cases x)
  case (Record j t)
  with assms(2) have le: "now \<le> t" by simp
  from assms(1) have s: "sorted acc" "\<forall>u \<in> set acc. u \<le> now" by (simp_all add: tracks_def)
  show ?thesis
  proof (cases "j = k")
    case True
    obtain old where a: "acc = old @ live_hits l k t" "\<forall>u \<in> set old. u < t - of_int (lm_window l)"
      using tracks_live(2) [OF assms(1) le] by blast
    have "hits_of (record_hit l k t) k = live_hits l k t @ [t]"
      using assms(3) Record True by (simp add: hits_of_record)
    moreover have "lm_window (record_hit l k t) = lm_window l" by (simp add: record_hit_def Let_def)
    ultimately show ?thesis using Record True a s le
      by (auto simp: tracks_def sorted_append intro: order_trans)
  next
    case False
    have "hits_of (record_hit l j t) k = hits_of l k"
      using assms(3) Record False by (simp add: hits_of_record)
    moreover have "lm_window (record_hit l j t) = lm_window l" by (simp add: record_hit_def Let_def)
    ultimately show ?thesis using Record False assms(1) le
      by (fastforce simp: tracks_def)
  qed
next
  case (Reset j)
  have "lm_window (reset_key l j) = lm_window l" by (simp add: reset_key_def)
  with Reset assms(1) show ?thesis by (auto simp: tracks_def)
next
  case (Check j t)
  with assms(2) have le: "now \<le> t" by simp
  have f: "limiter_step l x = prune_key l j t" "lm_window (prune_key l j t) = lm_window l"
    by (simp_all add: Check check_def Let_def prune_key_def)
  show ?thesis
  proof (cases "j = k")
    case True
    with tracks_live(2) [OF assms(1) le] f assms(1) le Check show ?thesis
      by (auto simp: tracks_def intro: order_trans)
  next
    case False
    with f assms(1) le Check show ?thesis by (fastforce simp: tracks_def)
  qed
qed

lemma failures_append: "failures k (xs @ ys) acc = failures k ys (failures k xs acc)"
  by (induction k xs acc rule: failures.induct) auto

lemma times_Cons: "times (x # xs) = (case op_time x of None \<Rightarrow> times xs | Some t \<Rightarrow> t # times xs)"
  by (simp add: times_def map_filter_simps split: option.split)

lemma tracks_run:
  assumes "tracks k acc now l" and "sorted (now # times ops)"
    and "distinct (map fst (lm_hits l))" and "finite K" and "card K \<le> lm_max_keys l"
    and "fst ` set (lm_hits l) \<union> op_key ` set ops \<subseteq> K"
  shows "tracks k (failures k ops acc) (last (now # times ops)) (foldl limiter_step l ops)"
  using assms
proof (induction ops arbitrary: acc now l)
  case Nil
  then show ?case by (simp add: times_def map_filter_simps)
next
  case (Cons x ops)
  have b: "length (filter (\<lambda>(j, _). j \<noteq> op_key x) (lm_hits l)) < lm_max_keys l"
    using Cons.prems by (intro others_bound [where K = K]) auto
  let ?now = "case op_time x of None \<Rightarrow> now | Some t \<Rightarrow> t"
  have t: "tracks k (failures k [x] acc) ?now (limiter_step l x)"
    by (rule tracks_step [OF Cons.prems(1) _ b]) (use Cons.prems(2) in \<open>auto simp: times_Cons split: option.split\<close>)
  have "fst ` set (lm_hits (limiter_step l x)) \<union> op_key ` set ops \<subseteq> K"
    using keys_step [of l x] Cons.prems(6) unfolding list.set image_insert by blast
  moreover have "sorted (?now # times ops)"
    using Cons.prems(2) by (auto simp: times_Cons split: option.splits)
  ultimately have "tracks k (failures k ops (failures k [x] acc)) (last (?now # times ops))
      (foldl limiter_step (limiter_step l x) ops)"
    using t Cons.prems(3-5) distinct_step by (intro Cons.IH) auto
  moreover have "failures k ops (failures k [x] acc) = failures k (x # ops) acc"
    using failures_append [of k "[x]" ops acc] by simp
  moreover have "last (?now # times ops) = last (now # times (x # ops))"
    by (auto simp: times_Cons split: option.split)
  ultimately show ?case by simp
qed

text \<open>
  The limiter is exact. After any run of checks, recorded failures and resets whose clock does not
  go back and which uses no more keys than the limiter holds, a check of a key lets it proceed exactly
  when fewer than \<open>max_attempts\<close> of the failures recorded for that key since its last reset are
  inside the window, and reports how many are left.
\<close>

theorem limiter_counts_failures_in_window:
  assumes "sorted (times ops @ [now])" and "card (insert key (op_key ` set ops)) \<le> k"
  shows "let l = foldl limiter_step (new_limiter m w k) ops;
             recent = filter (\<lambda>t. now - of_int w \<le> t) (failures key ops [])
         in (rd_allowed (fst (check l key now)) \<longleftrightarrow> length recent < m) \<and>
            rd_remaining (fst (check l key now)) = m - length recent"
proof -
  define l0 where "l0 = new_limiter m w k"
  define l where "l = foldl limiter_step l0 ops"
  define start where "start = (case times ops of [] \<Rightarrow> now | t # _ \<Rightarrow> t)"
  have "tracks key [] start l0"
    by (simp add: tracks_def l0_def new_limiter_def hits_of_def)
  moreover have "sorted (start # times ops)"
    using assms(1) by (cases "times ops") (auto simp: start_def sorted_append)
  moreover have "distinct (map fst (lm_hits l0))" "lm_hits l0 = []" "lm_max_keys l0 = k"
    by (simp_all add: l0_def new_limiter_def)
  ultimately have t: "tracks key (failures key ops []) (last (start # times ops)) l"
    unfolding l_def using assms(2) by (intro tracks_run [where K = "insert key (op_key ` set ops)"]) auto
  have "last (start # times ops) \<le> now"
    using assms(1) by (cases "times ops") (auto simp: start_def sorted_append)
  from tracks_live(1) [OF t this]
  have live: "live_hits l key now = filter (\<lambda>t. now - of_int (lm_window l) \<le> t) (failures key ops [])" .
  have fold: "lm_window (foldl limiter_step a ops) = lm_window a \<and> lm_max (foldl limiter_step a ops) = lm_max a" for a
    by (induction ops arbitrary: a) auto
  then have "lm_window l = w" "lm_max l = m" by (simp_all add: l_def l0_def new_limiter_def)
  with live show ?thesis
    by (auto simp: check_def Let_def simp flip: l_def l0_def)
qed

theorem limiter_counts_failures_in_window_witness:
  "\<not> rd_allowed (fst (check (foldl limiter_step (new_limiter 2 60 8)
     [Record ''a'' 1, Record ''b'' 2, Record ''a'' 3]) ''a'' 10)) \<and>
   rd_allowed (fst (check (foldl limiter_step (new_limiter 2 60 8)
     [Record ''a'' 1, Record ''b'' 2, Record ''a'' 3]) ''a'' 62))"
  using limiter_counts_failures_in_window [of "[Record ''a'' 1, Record ''b'' 2, Record ''a'' 3]" 10 "''a''" 8 2 60]
    limiter_counts_failures_in_window [of "[Record ''a'' 1, Record ''b'' 2, Record ''a'' 3]" 62 "''a''" 8 2 60]
  by (simp add: times_def map_filter_simps Let_def card_insert_if)

lemma lockout_doubling:
  "0 < n \<Longrightarrow> n \<le> 16 \<Longrightarrow> lockout_duration_seconds (n + 1) base maximum =
   min (2 * (base * 2 ^ nat (n - 1))) maximum"
proof -
  assume n: "0 < n" "n \<le> 16"
  then have "nat n = Suc (nat (n - 1))" by simp
  with n show ?thesis by (simp add: lockout_duration_seconds_def Let_def algebra_simps)
qed

text \<open>
  The lockout grows and is bounded: with a non-negative base and a maximum not below it, the first
  lockout is exactly the base, every further failure locks for at least as long as the one before,
  and no lockout is longer than the maximum.
\<close>

theorem lockout_monotone_and_bounded:
  assumes "0 \<le> base" and "base \<le> maximum" and "0 < n" and "n \<le> n'"
  shows "lockout_duration_seconds 1 base maximum = base \<and>
    lockout_duration_seconds n base maximum \<le> lockout_duration_seconds n' base maximum \<and>
    base \<le> lockout_duration_seconds n base maximum \<and> lockout_duration_seconds n' base maximum \<le> maximum"
proof -
  let ?e = "\<lambda>n :: int. nat (min (n - 1) 16)"
  have pow: "base * 2 ^ ?e n \<le> base * 2 ^ ?e n'" "base \<le> base * 2 ^ ?e n"
    using assms mult_left_mono [of 1 "2 ^ ?e n" base]
    by (auto intro!: mult_left_mono power_increasing nat_mono)
  with assms show ?thesis
    by (auto simp: lockout_duration_seconds_def Let_def min_def)
qed

theorem lockout_monotone_and_bounded_witness:
  "lockout_duration_seconds 1 60 3600 = 60 \<and> lockout_duration_seconds 3 60 3600 \<le> lockout_duration_seconds 40 60 3600"
  using lockout_monotone_and_bounded [of 60 3600 3 40] by simp

section \<open>Circuit breaker\<close>

datatype circuit_state = CLOSED | OPEN | HALF_OPEN

record breaker =
  cb_threshold :: int
  cb_reset :: int
  cb_failures :: int
  cb_opened_at :: "clock option"
  cb_probing :: bool

definition new_breaker :: "int \<Rightarrow> int \<Rightarrow> breaker" where
  "new_breaker threshold reset = \<lparr>cb_threshold = threshold, cb_reset = reset, cb_failures = 0,
     cb_opened_at = None, cb_probing = False\<rparr>"

definition circuit :: "breaker \<Rightarrow> clock \<Rightarrow> circuit_state" where
  "circuit b now = (case cb_opened_at b of None \<Rightarrow> CLOSED
     | Some t \<Rightarrow> if now - t \<ge> of_int (cb_reset b) then HALF_OPEN else OPEN)"

definition allow :: "breaker \<Rightarrow> clock \<Rightarrow> bool \<times> breaker" where
  "allow b now = (case circuit b now of
     CLOSED \<Rightarrow> (True, b)
   | OPEN \<Rightarrow> (False, b)
   | HALF_OPEN \<Rightarrow> if cb_probing b then (False, b) else (True, b\<lparr>cb_probing := True\<rparr>))"

definition retry_after_seconds :: "breaker \<Rightarrow> clock \<Rightarrow> int" where
  "retry_after_seconds b now = (case cb_opened_at b of None \<Rightarrow> 0
     | Some t \<Rightarrow> max 0 (trunc_rat (t + of_int (cb_reset b) - now)))"

definition record_success :: "breaker \<Rightarrow> breaker" where
  "record_success b = b\<lparr>cb_failures := 0, cb_opened_at := None, cb_probing := False\<rparr>"

definition record_failure :: "breaker \<Rightarrow> clock \<Rightarrow> breaker" where
  "record_failure b now = (let b1 = b\<lparr>cb_failures := cb_failures b + 1, cb_probing := False\<rparr>
     in if cb_failures b1 \<ge> cb_threshold b1 then b1\<lparr>cb_opened_at := Some now\<rparr> else b1)"

definition reset_breaker :: "breaker \<Rightarrow> breaker" where
  "reset_breaker b = record_success b"

datatype breaker_event = Ask clock | Succeeded | Failed clock

fun breaker_step :: "breaker \<Rightarrow> breaker_event \<Rightarrow> breaker" where
  "breaker_step b (Ask t) = snd (allow b t)"
| "breaker_step b Succeeded = record_success b"
| "breaker_step b (Failed t) = record_failure b t"

definition breaker_wf :: "breaker \<Rightarrow> bool" where
  "breaker_wf b = (0 \<le> cb_failures b \<and> (cb_opened_at b \<noteq> None \<longleftrightarrow> cb_threshold b \<le> cb_failures b))"

lemma breaker_frame [simp]: "cb_threshold (breaker_step b e) = cb_threshold b"
  by (cases e) (auto simp: allow_def record_success_def record_failure_def Let_def split: circuit_state.split)

lemma breaker_wf_step: "0 < cb_threshold b \<Longrightarrow> breaker_wf b \<Longrightarrow> breaker_wf (breaker_step b e)"
  by (cases e)
    (auto simp: allow_def breaker_wf_def record_success_def record_failure_def Let_def split: circuit_state.split)

lemma breaker_run_wf:
  "0 < cb_threshold b \<Longrightarrow> breaker_wf b \<Longrightarrow>
   breaker_wf (foldl breaker_step b es) \<and> cb_threshold (foldl breaker_step b es) = cb_threshold b"
  by (induction es arbitrary: b) (auto simp: breaker_wf_step)

text \<open>The failures since the last success: the number the breaker is meant to count.\<close>

fun consecutive :: "breaker_event list \<Rightarrow> int \<Rightarrow> int" where
  "consecutive [] n = n"
| "consecutive (Ask t # es) n = consecutive es n"
| "consecutive (Succeeded # es) n = consecutive es 0"
| "consecutive (Failed t # es) n = consecutive es (n + 1)"

lemma breaker_counts: "cb_failures (foldl breaker_step b es) = consecutive es (cb_failures b)"
  by (induction es "cb_failures b" arbitrary: b rule: consecutive.induct)
    (auto simp: allow_def record_success_def record_failure_def Let_def split: circuit_state.split)

lemma probing_asks:
  "circuit b t0 = HALF_OPEN \<Longrightarrow> cb_probing b \<Longrightarrow> cb_opened_at b = Some u \<Longrightarrow> \<not> fst (allow b t)"
  by (auto simp: allow_def circuit_def split: if_splits)

text \<open>
  What the breaker is meant to remember, read off the events with the newest first: the last recorded
  failure, unless a success came after it, and the requests that asked since the last recorded result.
\<close>

fun failed_at :: "breaker_event list \<Rightarrow> clock option" where
  "failed_at (Ask u # es) = failed_at es"
| "failed_at (Failed t # es) = Some t"
| "failed_at _ = None"

fun asked_since :: "breaker_event list \<Rightarrow> clock list" where
  "asked_since (Ask u # es) = u # asked_since es"
| "asked_since _ = []"

definition opened_by :: "int \<Rightarrow> breaker_event list \<Rightarrow> clock option" where
  "opened_by threshold es = (if consecutive es 0 < threshold then None else failed_at (rev es))"

definition probe_out :: "int \<Rightarrow> int \<Rightarrow> breaker_event list \<Rightarrow> bool" where
  "probe_out threshold reset es = (case opened_by threshold es of None \<Rightarrow> False
     | Some t \<Rightarrow> \<exists>u \<in> set (asked_since (rev es)). of_int reset \<le> u - t)"

lemma consecutive_snoc [simp]:
  "consecutive (es @ [Ask t]) n = consecutive es n" "consecutive (es @ [Succeeded]) n = 0"
  "consecutive (es @ [Failed t]) n = consecutive es n + 1"
  by (induction es n rule: consecutive.induct) simp_all

lemma consecutive_nonneg: "0 \<le> n \<Longrightarrow> 0 \<le> consecutive es n"
  by (induction es n rule: consecutive.induct) simp_all

lemma failures_have_a_last:
  assumes "0 < consecutive es 0"
  shows "\<exists>t. failed_at (rev es) = Some t"
  using assms
proof (induction es rule: rev_induct)
  case (snoc e es)
  then show ?case by (cases e) simp_all
qed simp

lemma breaker_tells:
  fixes threshold reset :: int
  assumes "0 < threshold"
  defines "b \<equiv> \<lambda>es. foldl breaker_step (new_breaker threshold reset) es"
  shows "cb_threshold (b es) = threshold \<and> cb_reset (b es) = reset \<and> cb_failures (b es) = consecutive es 0
    \<and> cb_opened_at (b es) = opened_by threshold es \<and> cb_probing (b es) = probe_out threshold reset es"
proof (induction es rule: rev_induct)
  case Nil
  then show ?case using assms(1) by (simp add: b_def new_breaker_def opened_by_def probe_out_def)
next
  case (snoc e es)
  note IH = snoc.IH and nn = consecutive_nonneg [of 0 es]
  have step: "b (es @ [x]) = breaker_step (b es) x" for x by (simp add: b_def)
  show ?case
  proof (cases e)
    case (Ask u)
    then show ?thesis
      using IH by (auto simp: step allow_def circuit_def opened_by_def probe_out_def split: option.splits)
  next
    case Succeeded
    then show ?thesis using IH assms(1) by (simp add: step record_success_def opened_by_def probe_out_def)
  next
    case (Failed u)
    then show ?thesis using IH by (auto simp: step record_failure_def opened_by_def probe_out_def Let_def)
  qed
qed

text \<open>
  C33. The breaker is closed exactly when fewer failures than the threshold have been recorded since the
  last success. While it is open, nothing passes until the reset time has gone by since the last
  failure; then exactly one probe passes, and no other request does until that probe is recorded as
  a success or a failure. A recorded result settles the probe: after any events, a request passes exactly
  when the breaker is closed, or the reset time has gone by since the last failure and none of the
  requests since that failure asked after the reset time, so a failed probe makes room for the next.
\<close>

theorem breaker_admits_one_probe:
  fixes es :: "breaker_event list" and reset now
  assumes "0 < threshold"
  defines "b \<equiv> foldl breaker_step (new_breaker threshold reset) es"
  shows "(circuit b now = CLOSED \<longleftrightarrow> consecutive es 0 < threshold) \<and>
    (circuit b now = OPEN \<longrightarrow> \<not> fst (allow b now)) \<and>
    (circuit b now = HALF_OPEN \<and> fst (allow b now) \<longrightarrow>
       (\<forall>asks later. (\<forall>e \<in> set asks. \<exists>t. e = Ask t) \<longrightarrow> now \<le> later \<longrightarrow>
          \<not> fst (allow (foldl breaker_step (snd (allow b now)) asks) later))) \<and>
    (fst (allow b now) \<longleftrightarrow> consecutive es 0 < threshold \<or>
       (\<exists>t. failed_at (rev es) = Some t \<and> of_int reset \<le> now - t
          \<and> (\<forall>u \<in> set (asked_since (rev es)). u - t < of_int reset)))"
proof -
  note told = breaker_tells [OF assms(1), of reset es, folded b_def]
  have some: "consecutive es 0 < threshold \<or> (\<exists>t. failed_at (rev es) = Some t)"
    using assms(1) failures_have_a_last [of es] by (cases "0 < consecutive es 0") auto
  have one: "circuit b now = CLOSED \<longleftrightarrow> consecutive es 0 < threshold"
    using told some by (auto simp: circuit_def opened_by_def split: option.split)
  have stuck: "foldl breaker_step p asks = p"
    if "cb_probing p" "cb_opened_at p \<noteq> None" "\<forall>e \<in> set asks. \<exists>t. e = Ask t" for p asks
    using that by (induction asks) (auto simp: allow_def circuit_def)
  have "\<not> fst (allow (foldl breaker_step (snd (allow b now)) asks) later)"
    if h: "circuit b now = HALF_OPEN" "fst (allow b now)" and a: "\<forall>e \<in> set asks. \<exists>t. e = Ask t" for asks later
  proof -
    from h have p: "snd (allow b now) = b\<lparr>cb_probing := True\<rparr>" "cb_opened_at b \<noteq> None"
      by (auto simp: allow_def circuit_def split: option.splits if_splits)
    then have "foldl breaker_step (snd (allow b now)) asks = b\<lparr>cb_probing := True\<rparr>"
      using stuck [OF _ _ a, of "b\<lparr>cb_probing := True\<rparr>"] by simp
    moreover have "\<not> fst (allow (b\<lparr>cb_probing := True\<rparr>) later)"
      using p(2) by (auto simp: allow_def circuit_def split: if_splits)
    ultimately show ?thesis by simp
  qed
  moreover have "circuit b now = OPEN \<longrightarrow> \<not> fst (allow b now)" by (simp add: allow_def)
  moreover have "fst (allow b now) \<longleftrightarrow> consecutive es 0 < threshold \<or>
       (\<exists>t. failed_at (rev es) = Some t \<and> of_int reset \<le> now - t
          \<and> (\<forall>u \<in> set (asked_since (rev es)). u - t < of_int reset))"
  proof (cases "consecutive es 0 < threshold")
    case True
    then show ?thesis using told by (simp add: allow_def circuit_def opened_by_def)
  next
    case False
    with some obtain t where t: "failed_at (rev es) = Some t" by blast
    have "(\<forall>u \<in> set (asked_since (rev es)). u - t < of_int reset) \<longleftrightarrow> \<not> probe_out threshold reset es"
      using False t by (auto simp: probe_out_def opened_by_def not_le)
    then show ?thesis using told False t by (simp add: allow_def circuit_def opened_by_def)
  qed
  ultimately show ?thesis using one by blast
qed

theorem breaker_admits_one_probe_witness:
  "let run = foldl breaker_step (new_breaker 2 30) in
     fst (allow (run [Failed 1, Ask 2, Failed 3]) 40)
     \<and> \<not> fst (allow (run [Failed 1, Ask 2, Failed 3, Ask 40]) 50)
     \<and> \<not> fst (allow (run [Failed 1, Ask 2, Failed 3, Ask 40, Failed 41]) 60)
     \<and> fst (allow (run [Failed 1, Ask 2, Failed 3, Ask 40, Failed 41]) 71)"
  unfolding Let_def
  using breaker_admits_one_probe [of 2 30 "[Failed 1, Ask 2, Failed 3]" 40]
    breaker_admits_one_probe [of 2 30 "[Failed 1, Ask 2, Failed 3, Ask 40]" 50]
    breaker_admits_one_probe [of 2 30 "[Failed 1, Ask 2, Failed 3, Ask 40, Failed 41]" 60]
    breaker_admits_one_probe [of 2 30 "[Failed 1, Ask 2, Failed 3, Ask 40, Failed 41]" 71]
  by (simp del: foldl.simps)

end
