(* ===== verification/Cron.thy ===== *)
theory Cron
  imports Vocabulary
begin

text \<open>
  \<open>backend/app/core/cron.py\<close>: the translation of a crontab day-of-week field to weekday names, the
  validation of an expression and the preview of its fire times. A ValueError is \<open>None\<close>. APScheduler
  is the parameter \<open>make_trigger\<close>: the trigger of the five fields, or \<open>None\<close> when it rejects one;
  \<open>next_fire\<close> is its \<open>get_next_fire_time\<close>; the zone database is the parameter \<open>zone_known\<close>.
\<close>

section \<open>Weekdays\<close>

definition DAYS_PER_WEEK :: nat where "DAYS_PER_WEEK = 7"
definition SUNDAY_ALIAS :: nat where "SUNDAY_ALIAS = 7"

definition CRONTAB_WEEKDAYS :: "string list" where
  "CRONTAB_WEEKDAYS = [''sun'', ''mon'', ''tue'', ''wed'', ''thu'', ''fri'', ''sat'']"

definition APSCHEDULER_ORDER :: "string list" where
  "APSCHEDULER_ORDER = [''mon'', ''tue'', ''wed'', ''thu'', ''fri'', ''sat'', ''sun'']"

definition WEEKDAY_TO_CRONTAB :: "string \<Rightarrow> nat option" where
  "WEEKDAY_TO_CRONTAB = map_of (zip CRONTAB_WEEKDAYS [0..<7])"

text \<open>\<open>int(text)\<close> after \<open>isdigit\<close>: digits that are not decimal raise ValueError too.\<close>

definition decimal_int :: "string \<Rightarrow> nat option" where
  "decimal_int s = (if py_isdigit s \<and> list_all is_digit s then Some (digits_val 0 s) else None)"

definition weekday_value :: "string \<Rightarrow> nat option" where
  "weekday_value token = (let cleaned = py_lower (py_strip token) in
     if py_isdigit cleaned then Option.bind (decimal_int cleaned) (\<lambda>v.
       if v > SUNDAY_ALIAS then None else if v = SUNDAY_ALIAS then Some 0 else Some v)
     else WEEKDAY_TO_CRONTAB cleaned)"

text \<open>\<open>xs[::step]\<close>\<close>

fun every :: "nat \<Rightarrow> 'a list \<Rightarrow> 'a list" where
  "every step [] = []"
| "every step (x # xs) = x # every step (drop (step - 1) xs)"

definition weekday_range :: "nat \<Rightarrow> nat \<Rightarrow> nat list" where
  "weekday_range start stop = (if start \<le> stop then [start..<stop + 1]
     else [start..<DAYS_PER_WEEK] @ [0..<stop + 1])"

definition weekday_ordered :: "nat \<Rightarrow> string \<Rightarrow> nat list option" where
  "weekday_ordered step base =
     (if base = ''*'' then Some [0..<DAYS_PER_WEEK]
      else case partition_on (CHR ''-'') base of
        Some (a, b) \<Rightarrow> Option.bind (weekday_value a) (\<lambda>start.
          Option.bind (weekday_value b) (\<lambda>stop. Some (weekday_range start stop)))
      | None \<Rightarrow> map_option (\<lambda>first. if step > 1 then [first..<DAYS_PER_WEEK] else [first])
          (weekday_value base))"

definition weekday_token :: "string \<Rightarrow> nat set option" where
  "weekday_token token =
     (let (base, step_text) = (case partition_on (CHR ''/'') (py_strip token) of
            None \<Rightarrow> (py_strip token, None) | Some (b, s) \<Rightarrow> (b, Some s));
          step = (case step_text of None \<Rightarrow> Some 1
            | Some s \<Rightarrow> Option.bind (decimal_int s) (\<lambda>n. if n < 1 then None else Some n))
      in Option.bind step (\<lambda>step.
         map_option (\<lambda>ordered. set (every step ordered)) (weekday_ordered step (py_strip base))))"

fun weekday_parts :: "string list \<Rightarrow> nat set \<Rightarrow> nat set option" where
  "weekday_parts [] days = Some days"
| "weekday_parts (part # parts) days = (if py_strip part = [] then None
     else Option.bind (weekday_token part) (\<lambda>ds. weekday_parts parts (days \<union> ds)))"

definition translate_day_of_week :: "string \<Rightarrow> string option" where
  "translate_day_of_week field = (if py_strip field = ''*'' then Some ''*''
     else Option.bind (weekday_parts (split_on (CHR '','') field) {}) (\<lambda>days.
       if days = {} then None
       else if card days = DAYS_PER_WEEK then Some ''*''
       else Some (join_with '','' (filter (\<lambda>n. the (WEEKDAY_TO_CRONTAB n) \<in> days) APSCHEDULER_ORDER))))"

section \<open>Expressions\<close>

definition CRON_FIELDS :: nat where "CRON_FIELDS = 5"

definition resolve_timezone :: "(string \<Rightarrow> bool) \<Rightarrow> string \<Rightarrow> app_error + string" where
  "resolve_timezone zone_known n =
     (if zone_known n then Inr n else Inl (App_ValidationFailed ''is not a known IANA timezone''))"

definition build_trigger ::
  "(string \<Rightarrow> bool) \<Rightarrow> (string list \<Rightarrow> string \<Rightarrow> 't option) \<Rightarrow> string \<Rightarrow> string \<Rightarrow> app_error + 't" where
  "build_trigger zone_known make_trigger expression timezone =
     bindR (resolve_timezone zone_known timezone) (\<lambda>tz.
     case py_split expression of
       [minute, hour, day, month, day_of_week] \<Rightarrow>
         if py_strip day \<noteq> ''*'' \<and> py_strip day_of_week \<noteq> ''*''
         then Inl (App_ValidationFailed ''restricts both day-of-month and day-of-week'')
         else (case Option.bind (translate_day_of_week day_of_week)
                      (\<lambda>dow. make_trigger [minute, hour, day, month, dow] tz) of
                 None \<Rightarrow> Inl (App_ValidationFailed ''is not a valid cron expression'')
               | Some t \<Rightarrow> Inr t)
     | _ \<Rightarrow> Inl (App_ValidationFailed ''is not a valid cron expression: expected 5 fields''))"

definition validate_cron ::
  "(string \<Rightarrow> bool) \<Rightarrow> (string list \<Rightarrow> string \<Rightarrow> 't option) \<Rightarrow> string \<Rightarrow> string \<Rightarrow> app_error + string" where
  "validate_cron zone_known make_trigger expression timezone =
     (let normalised = join_with '' '' (py_split expression) in
      bindR (build_trigger zone_known make_trigger normalised timezone) (\<lambda>_. Inr normalised))"

fun fire_loop ::
  "('t \<Rightarrow> datetime option \<Rightarrow> datetime \<Rightarrow> datetime option) \<Rightarrow> 't \<Rightarrow> nat \<Rightarrow> datetime option \<Rightarrow> datetime \<Rightarrow> datetime list" where
  "fire_loop next_fire t 0 previous reference = []"
| "fire_loop next_fire t (Suc n) previous reference = (case next_fire t previous reference of
     None \<Rightarrow> []
   | Some candidate \<Rightarrow> candidate # fire_loop next_fire t n (Some candidate) candidate)"

definition next_fire_times ::
  "(string \<Rightarrow> bool) \<Rightarrow> (string list \<Rightarrow> string \<Rightarrow> 't option) \<Rightarrow>
   ('t \<Rightarrow> datetime option \<Rightarrow> datetime \<Rightarrow> datetime option) \<Rightarrow> string \<Rightarrow> string \<Rightarrow> nat \<Rightarrow> datetime \<Rightarrow>
   app_error + datetime list" where
  "next_fire_times zone_known make_trigger next_fire expression timezone count after =
     bindR (build_trigger zone_known make_trigger expression timezone) (\<lambda>t.
       Inr (fire_loop next_fire t count None after))"

definition next_fire_time ::
  "(string \<Rightarrow> bool) \<Rightarrow> (string list \<Rightarrow> string \<Rightarrow> 't option) \<Rightarrow>
   ('t \<Rightarrow> datetime option \<Rightarrow> datetime \<Rightarrow> datetime option) \<Rightarrow> string \<Rightarrow> string \<Rightarrow> datetime \<Rightarrow>
   app_error + datetime option" where
  "next_fire_time zone_known make_trigger next_fire expression timezone after =
     bindR (next_fire_times zone_known make_trigger next_fire expression timezone 1 after) (\<lambda>ts.
       Inr (case ts of [] \<Rightarrow> None | t # _ \<Rightarrow> Some t))"

section \<open>What the translated field selects\<close>

text \<open>The weekdays APScheduler reads off the translated field, in crontab's numbering.\<close>

definition aps_days :: "string \<Rightarrow> nat set" where
  "aps_days field = (if field = ''*'' then {..<DAYS_PER_WEEK}
     else {d. d < DAYS_PER_WEEK \<and> CRONTAB_WEEKDAYS ! d \<in> set (split_on (CHR '','') field)})"

text \<open>The crontab meaning of \<open>a-b/step\<close> with the raw numbers 0 to 7: from a to b, wrapping once.\<close>

definition crontab_range :: "nat \<Rightarrow> nat \<Rightarrow> nat \<Rightarrow> nat set" where
  "crontab_range a b step =
     {d. \<exists>k. a + k * step \<le> (if a \<le> b then b else b + DAYS_PER_WEEK) \<and> d = (a + k * step) mod DAYS_PER_WEEK}"

section \<open>Ranges and steps\<close>

lemma set_every: "1 \<le> step \<Longrightarrow> set (every step xs) = {xs ! (k * step) | k. k * step < length xs}"
proof (induction step xs rule: every.induct)
  case (1 step)
  then show ?case by simp
next
  case (2 step x xs)
  let ?ys = "drop (step - 1) xs"
  have nth: "?ys ! (k * step) = (x # xs) ! (Suc k * step)" if "k * step < length ?ys" for k
  proof -
    have "Suc k * step = Suc (step - 1 + k * step)" using 2 by simp
    then have "(x # xs) ! (Suc k * step) = xs ! (step - 1 + k * step)" by (metis nth_Cons_Suc)
    with that show ?thesis by (simp add: nth_drop)
  qed
  have len: "k * step < length ?ys \<longleftrightarrow> Suc k * step < length (x # xs)" for k
    using 2 by (auto simp: less_diff_conv)
  have "{(x # xs) ! (k * step) |k. k * step < length (x # xs)}
      = {x} \<union> {(x # xs) ! (Suc k * step) |k. Suc k * step < length (x # xs)}" (is "?L = ?R")
  proof
    show "?L \<subseteq> ?R"
    proof
      fix y assume "y \<in> ?L"
      then obtain k where "y = (x # xs) ! (k * step)" "k * step < length (x # xs)" by blast
      then show "y \<in> ?R" by (cases k) auto
    qed
    have "x \<in> ?L" by (rule CollectI, rule exI [of _ 0]) simp
    then show "?R \<subseteq> ?L" by blast
  qed
  also have "{(x # xs) ! (Suc k * step) |k. Suc k * step < length (x # xs)}
      = {?ys ! (k * step) |k. k * step < length ?ys}"
    unfolding len [symmetric] using nth by metis
  also have "\<dots> = set (every step ?ys)"
    using 2 by simp
  finally show ?case by simp
qed

lemma weekday_range_nth:
  assumes "start < DAYS_PER_WEEK" "stop < DAYS_PER_WEEK"
  shows "i < length (weekday_range start stop) \<Longrightarrow>
    weekday_range start stop ! i = (start + i) mod DAYS_PER_WEEK"
  using assms by (auto simp: weekday_range_def DAYS_PER_WEEK_def nth_append le_mod_geq
      simp del: upt_Suc split: if_splits)

lemma length_weekday_range:
  "start < DAYS_PER_WEEK \<Longrightarrow> length (weekday_range start stop) =
    (if start \<le> stop then stop + 1 - start else stop + 1 + DAYS_PER_WEEK - start)"
  by (auto simp: weekday_range_def DAYS_PER_WEEK_def simp del: upt_Suc)

lemma every_weekday_range:
  assumes "a \<le> SUNDAY_ALIAS" "b \<le> SUNDAY_ALIAS" "1 \<le> step" "\<not> (a = 0 \<and> b = SUNDAY_ALIAS)"
  shows "set (every step (weekday_range (a mod DAYS_PER_WEEK) (b mod DAYS_PER_WEEK)))
    = crontab_range a b step"
proof -
  let ?r = "weekday_range (a mod DAYS_PER_WEEK) (b mod DAYS_PER_WEEK)"
  let ?lim = "if a \<le> b then b else b + DAYS_PER_WEEK"
  have len: "length ?r + a = ?lim + 1"
    using assms by (cases "a = 7"; cases "b = 7")
      (auto simp: length_weekday_range DAYS_PER_WEEK_def SUNDAY_ALIAS_def)
  have idx: "i < length ?r \<longleftrightarrow> a + i \<le> ?lim" for i
    using len by linarith
  have nth: "i < length ?r \<Longrightarrow> ?r ! i = (a + i) mod DAYS_PER_WEEK" for i
    by (subst weekday_range_nth) (auto simp: DAYS_PER_WEEK_def mod_simps)
  have "set (every step ?r) = {?r ! (k * step) | k. k * step < length ?r}"
    using assms(3) by (rule set_every)
  also have "\<dots> = {(a + k * step) mod DAYS_PER_WEEK | k. k * step < length ?r}"
    using nth by (metis (no_types, lifting))
  also have "\<dots> = crontab_range a b step"
    unfolding crontab_range_def idx by blast
  finally show ?thesis .
qed

section \<open>Reading the field\<close>

lemma weekday_value_less: "weekday_value t = Some v \<Longrightarrow> v < DAYS_PER_WEEK"
  by (auto simp: weekday_value_def Let_def SUNDAY_ALIAS_def DAYS_PER_WEEK_def WEEKDAY_TO_CRONTAB_def
      CRONTAB_WEEKDAYS_def bind_eq_Some_conv upt_rec split: if_splits)

lemma set_every_subset: "set (every step xs) \<subseteq> set xs"
  by (induction step xs rule: every.induct) (auto dest: in_set_dropD)

lemma weekday_range_subset: "b < DAYS_PER_WEEK \<Longrightarrow> set (weekday_range a b) \<subseteq> {..<DAYS_PER_WEEK}"
  by (auto simp: weekday_range_def)

lemma weekday_ordered_subset:
  assumes "weekday_ordered step base = Some xs"
  shows "set xs \<subseteq> {..<DAYS_PER_WEEK}"
proof (cases "\<exists>a b. partition_on (CHR ''-'') base = Some (a, b) \<and> base \<noteq> ''*''")
  case True
  with assms obtain a b u v where "weekday_value b = Some v" "xs = weekday_range u v"
    by (auto simp: weekday_ordered_def bind_eq_Some_conv)
  then show ?thesis using weekday_range_subset [OF weekday_value_less] by blast
next
  case False
  with assms show ?thesis
    by (auto simp: weekday_ordered_def dest: weekday_value_less split: option.splits if_splits)
qed

lemma weekday_token_subset: "weekday_token t = Some ds \<Longrightarrow> ds \<subseteq> {..<DAYS_PER_WEEK}"
proof -
  assume "weekday_token t = Some ds"
  then obtain step base xs where "ds = set (every step xs)" "weekday_ordered step base = Some xs"
    by (auto simp: weekday_token_def Let_def bind_eq_Some_conv split: option.splits prod.splits)
  then show ?thesis using set_every_subset [of step xs] weekday_ordered_subset by blast
qed

lemma weekday_parts_subset:
  "weekday_parts parts acc = Some ds \<Longrightarrow> acc \<subseteq> {..<DAYS_PER_WEEK} \<Longrightarrow> ds \<subseteq> {..<DAYS_PER_WEEK}"
proof (induction parts arbitrary: acc)
  case (Cons part parts)
  then obtain d where "weekday_token part = Some d" "weekday_parts parts (acc \<union> d) = Some ds"
    by (auto simp: bind_eq_Some_conv split: if_splits)
  with Cons show ?case using weekday_token_subset [of part d] by blast
qed simp

lemma split_on_join:
  "list_all (\<lambda>x. c \<notin> set x) xs \<Longrightarrow> xs \<noteq> [] \<Longrightarrow> split_on c (join_with [c] xs) = xs"
proof (induction "[c]" xs rule: join_with.induct)
  case (3 x y zs)
  have app: "c \<notin> set u \<Longrightarrow> split_on c (u @ c # v) = u # split_on c v" for u v
    by (induction u) (auto simp: Let_def)
  from 3 show ?case by (simp add: app)
qed (simp_all add: split_on_id)

lemma weekday_names: "list_all (\<lambda>n. CHR '','' \<notin> set n \<and> n \<noteq> ''*'' \<and> CHR ''*'' \<notin> set n) APSCHEDULER_ORDER"
  by (simp add: APSCHEDULER_ORDER_def)

lemma less_7: "d < (7::nat) \<longleftrightarrow> d \<in> {0, 1, 2, 3, 4, 5, 6}"
  by auto

lemma aps_days_join:
  assumes days: "days \<subseteq> {..<DAYS_PER_WEEK}" and ne: "days \<noteq> {}"
  shows "aps_days (join_with '','' (filter (\<lambda>n. the (WEEKDAY_TO_CRONTAB n) \<in> days) APSCHEDULER_ORDER))
    = days"
proof -
  let ?names = "filter (\<lambda>n. the (WEEKDAY_TO_CRONTAB n) \<in> days) APSCHEDULER_ORDER"
  have val: "\<And>d. d < 7 \<Longrightarrow> WEEKDAY_TO_CRONTAB (CRONTAB_WEEKDAYS ! d) = Some d
      \<and> CRONTAB_WEEKDAYS ! d \<in> set APSCHEDULER_ORDER"
    by (auto simp: less_7 WEEKDAY_TO_CRONTAB_def CRONTAB_WEEKDAYS_def APSCHEDULER_ORDER_def upt_rec)
  have sel: "CRONTAB_WEEKDAYS ! d \<in> set ?names \<longleftrightarrow> d \<in> days" if "d < 7" for d
    using val [OF that] by simp
  obtain d where "d \<in> days" "d < 7" using days ne by (auto simp: DAYS_PER_WEEK_def)
  with sel have names_ne: "?names \<noteq> []" by (metis list.set(1) empty_iff)
  have split: "split_on (CHR '','') (join_with '','' ?names) = ?names"
    using weekday_names names_ne by (intro split_on_join) (auto simp: list_all_iff)
  have "join_with '','' ?names \<noteq> ''*''"
  proof
    assume "join_with '','' ?names = ''*''"
    with split have "?names = [''*'']" by (simp add: split_on_id)
    then have "''*'' \<in> set APSCHEDULER_ORDER" by (metis (no_types, lifting) filter_is_subset list.set_intros(1) subsetD)
    then show False by (simp add: APSCHEDULER_ORDER_def)
  qed
  then show ?thesis
    unfolding aps_days_def split using days sel by (auto simp: DAYS_PER_WEEK_def)
qed

lemma aps_days_translate:
  assumes "py_strip field \<noteq> ''*''"
    "weekday_parts (split_on (CHR '','') field) {} = Some days" "days \<noteq> {}"
  shows "map_option aps_days (translate_day_of_week field) = Some days"
proof -
  have sub: "days \<subseteq> {..<DAYS_PER_WEEK}" using assms(2) by (rule weekday_parts_subset) simp
  have "days = {..<DAYS_PER_WEEK}" if "card days = DAYS_PER_WEEK"
    using sub that by (intro card_subset_eq) auto
  with assms sub show ?thesis
    by (auto simp: translate_day_of_week_def aps_days_join) (simp_all add: aps_days_def)
qed


section \<open>Written ranges\<close>

lemma is_digit_plain:
  "is_digit c \<Longrightarrow> \<not> py_isspace c \<and> lower_char c = c
     \<and> c \<noteq> CHR ''-'' \<and> c \<noteq> CHR ''/'' \<and> c \<noteq> CHR '','' \<and> c \<noteq> CHR ''*''"
  by (auto simp: is_digit_def py_isspace_def lower_char_def is_upper_def code_def)

lemma show_nat_plain: "c \<in> set (show_nat n) \<Longrightarrow> is_digit c"
  using show_nat_digits [of n] by (simp add: list_all_iff)

lemma show_nat_no_sep:
  "CHR ''-'' \<notin> set (show_nat n)" "CHR ''/'' \<notin> set (show_nat n)"
  "CHR '','' \<notin> set (show_nat n)" "CHR ''*'' \<notin> set (show_nat n)"
  using show_nat_plain is_digit_plain by blast+

lemma py_strip_between_digits:
  "is_digit (hd t) \<Longrightarrow> is_digit (last t) \<Longrightarrow> py_strip t = t"
  unfolding py_strip_def by (rule strip_of_id) (simp add: is_digit_plain)

lemma hd_show_nat: "is_digit (hd (show_nat n))" and last_show_nat: "is_digit (last (show_nat n))"
  using show_nat_plain [of "hd (show_nat n)" n] show_nat_plain [of "last (show_nat n)" n] by simp_all

lemma decimal_int_show_nat: "decimal_int (show_nat n) = Some n"
proof -
  have "list_all py_isdigit_char (show_nat n)"
    using show_nat_digits [of n] by (auto simp: list_all_iff py_isdigit_char_def)
  then show ?thesis
    by (simp add: decimal_int_def py_isdigit_def show_nat_digits digits_val_show_nat)
qed

lemma weekday_value_show_nat:
  "a \<le> SUNDAY_ALIAS \<Longrightarrow> weekday_value (show_nat a) = Some (a mod DAYS_PER_WEEK)"
proof -
  assume "a \<le> SUNDAY_ALIAS"
  moreover have "py_lower (py_strip (show_nat a)) = show_nat a"
    by (simp add: py_strip_between_digits hd_show_nat last_show_nat py_lower_def)
       (simp add: map_idI is_digit_plain show_nat_plain)
  moreover have "py_isdigit (show_nat a)"
    using decimal_int_show_nat [of a] by (auto simp: decimal_int_def split: if_splits)
  ultimately show ?thesis
    by (simp add: weekday_value_def decimal_int_show_nat SUNDAY_ALIAS_def DAYS_PER_WEEK_def)
qed

lemma partition_on_append: "c \<notin> set u \<Longrightarrow> partition_on c (u @ c # v) = Some (u, v)"
  by (induction u) (auto simp: partition_on_def)

definition range_text :: "nat \<Rightarrow> nat \<Rightarrow> nat \<Rightarrow> string" where
  "range_text a b step = show_nat a @ CHR ''-'' # show_nat b @ CHR ''/'' # show_nat step"

lemma weekday_token_range_text:
  assumes "a \<le> SUNDAY_ALIAS" "b \<le> SUNDAY_ALIAS" "1 \<le> step"
  shows "weekday_token (range_text a b step) =
    Some (set (every step (weekday_range (a mod DAYS_PER_WEEK) (b mod DAYS_PER_WEEK))))"
proof -
  let ?base = "show_nat a @ CHR ''-'' # show_nat b"
  have "py_strip (range_text a b step) = ?base @ CHR ''/'' # show_nat step"
    using py_strip_between_digits [of "range_text a b step"]
    by (simp add: range_text_def hd_show_nat last_show_nat)
  moreover have "partition_on (CHR ''/'') (?base @ CHR ''/'' # show_nat step) = Some (?base, show_nat step)"
    by (rule partition_on_append) (simp add: show_nat_no_sep)
  moreover have "py_strip ?base = ?base"
    by (rule py_strip_between_digits) (simp_all add: hd_show_nat last_show_nat)
  moreover have "?base \<noteq> ''*''"
    using show_nat_no_sep(4) [of a] by (cases "show_nat a") auto
  moreover have "partition_on (CHR ''-'') ?base = Some (show_nat a, show_nat b)"
    by (rule partition_on_append) (simp add: show_nat_no_sep)
  ultimately show ?thesis
    using assms
    by (simp add: weekday_token_def weekday_ordered_def decimal_int_show_nat weekday_value_show_nat)
qed

lemma aps_days_range_text:
  assumes "a \<le> SUNDAY_ALIAS" "b \<le> SUNDAY_ALIAS" "1 \<le> step"
  shows "map_option aps_days (translate_day_of_week (range_text a b step)) =
    Some (set (every step (weekday_range (a mod DAYS_PER_WEEK) (b mod DAYS_PER_WEEK))))"
proof (rule aps_days_translate)
  have strip: "py_strip (range_text a b step) = range_text a b step"
    by (rule py_strip_between_digits) (simp_all add: range_text_def hd_show_nat last_show_nat)
  show "py_strip (range_text a b step) \<noteq> ''*''"
    unfolding strip using show_nat_no_sep(4) [of a] by (cases "show_nat a") (auto simp: range_text_def)
  have "split_on (CHR '','') (range_text a b step) = [range_text a b step]"
    by (rule split_on_id) (simp add: range_text_def show_nat_no_sep)
  then show "weekday_parts (split_on (CHR '','') (range_text a b step)) {} =
      Some (set (every step (weekday_range (a mod DAYS_PER_WEEK) (b mod DAYS_PER_WEEK))))"
    by (simp add: strip weekday_token_range_text [OF assms]) (simp add: range_text_def)
  have "weekday_range (a mod DAYS_PER_WEEK) (b mod DAYS_PER_WEEK) \<noteq> []"
    by (simp add: weekday_range_def)
  then show "set (every step (weekday_range (a mod DAYS_PER_WEEK) (b mod DAYS_PER_WEEK))) \<noteq> {}"
    by (cases "weekday_range (a mod DAYS_PER_WEEK) (b mod DAYS_PER_WEEK)") auto
qed

section \<open>Properties\<close>

text \<open>
  C40. For every range \<open>a-b/step\<close> of crontab weekdays except \<open>0-7\<close>, wrapping ranges and the
  Sunday alias included, the weekday names handed to APScheduler select exactly the days the
  crontab expression selects.
\<close>

theorem weekday_range_means_crontab:
  assumes "a \<le> SUNDAY_ALIAS" "b \<le> SUNDAY_ALIAS" "1 \<le> step" "\<not> (a = 0 \<and> b = SUNDAY_ALIAS)"
  shows "map_option aps_days (translate_day_of_week (range_text a b step)) =
    Some (crontab_range a b step)"
  by (simp only: aps_days_range_text [OF assms(1-3)] every_weekday_range [OF assms])

theorem weekday_range_means_crontab_witness:
  "map_option aps_days (translate_day_of_week (range_text 5 1 2)) = Some (crontab_range 5 1 2)"
  by (rule weekday_range_means_crontab) (simp_all add: SUNDAY_ALIAS_def)

text \<open>
  The crontab field \<open>0-7\<close> (Sunday to Sunday, every day) is translated to Sunday alone: the
  alias is folded to 0 before the range is built.
\<close>

theorem full_week_range_collapses:
  "map_option aps_days (translate_day_of_week (range_text 0 SUNDAY_ALIAS 1)) = Some {0}
   \<and> crontab_range 0 SUNDAY_ALIAS 1 = {..<DAYS_PER_WEEK}"
proof
  show "map_option aps_days (translate_day_of_week (range_text 0 SUNDAY_ALIAS 1)) = Some {0}"
    by (subst aps_days_range_text) (simp_all add: SUNDAY_ALIAS_def DAYS_PER_WEEK_def weekday_range_def)
  show "crontab_range 0 SUNDAY_ALIAS 1 = {..<DAYS_PER_WEEK}"
    by (auto simp: crontab_range_def SUNDAY_ALIAS_def DAYS_PER_WEEK_def intro: exI [of _ "_ :: nat"])
       (metis less_imp_le mod_less)
qed

end
