(* ===== verification/Database.thy ===== *)
theory Database
  imports Vocabulary
begin

text \<open>
  What every repository of the backend shares: JSON columns, LIKE, ORDER BY ... DESC with LIMIT and
  OFFSET, rows keyed by \<open>id\<close>, and the two transaction scopes, \<open>get_session\<close> of
  \<open>backend/app/api/deps.py\<close> (a request commits on a 4xx error too) and \<open>Database.session\<close> of
  \<open>backend/app/db/session.py\<close> (a worker rolls back on any exception). A service call takes the
  database the session shows it and returns its result with the database it leaves; the scope
  decides which of the two is stored.
\<close>

datatype json = J_null | J_bool bool | J_int int | J_num rat | J_str string
  | J_list "json list" | J_obj "(string \<times> json) list"

section \<open>Queries\<close>

definition ascii_lower :: "char \<Rightarrow> char" where
  "ascii_lower c = (if is_upper c then char_of (code c + 32) else c)"

fun sql_like :: "string \<Rightarrow> string \<Rightarrow> bool" where
  "sql_like [] s = (s = [])"
| "sql_like (p # ps) [] = (p = CHR ''%'' \<and> sql_like ps [])"
| "sql_like (p # ps) (c # cs) =
     (if p = CHR ''%'' then sql_like ps (c # cs) \<or> sql_like (p # ps) cs
      else (p = CHR ''_'' \<or> p = c) \<and> sql_like ps cs)"

definition sql_ilike :: "string option \<Rightarrow> string \<Rightarrow> bool" where
  "sql_ilike column pattern = (case column of None \<Rightarrow> False
     | Some s \<Rightarrow> sql_like (map ascii_lower pattern) (map ascii_lower s))"

text \<open>ORDER BY key DESC; where the key leaves a tie open, the newest row comes first.\<close>

definition order_desc :: "('r \<Rightarrow> 'k :: linorder) \<Rightarrow> 'r list \<Rightarrow> 'r list" where
  "order_desc key rows = rev (sort_key key rows)"

definition page :: "nat \<Rightarrow> nat \<Rightarrow> 'r list \<Rightarrow> 'r list" where
  "page limit offset rows = take limit (drop offset rows)"

lemma set_order_desc [simp]: "set (order_desc key rows) = set rows"
  by (simp add: order_desc_def)

lemma length_order_desc [simp]: "length (order_desc key rows) = length rows"
  by (simp add: order_desc_def)

lemma order_desc_Nil [simp]: "order_desc key rows = [] \<longleftrightarrow> rows = []"
  by (metis length_0_conv length_order_desc)

lemma distinct_order_desc [simp]: "distinct (order_desc key rows) = distinct rows"
  by (simp add: order_desc_def)

lemma order_desc_sorted: "sorted_wrt (\<lambda>a b. key b \<le> key a) (order_desc key rows)"
proof -
  have "sorted_wrt (\<lambda>a b. key a \<le> key b) (sort_key key rows)"
    using sorted_sort_key [of key rows] by (simp add: sorted_map)
  then show ?thesis by (simp add: order_desc_def sorted_wrt_rev)
qed

lemma order_desc_nth:
  "i < j \<Longrightarrow> j < length rows \<Longrightarrow> key (order_desc key rows ! j) \<le> key (order_desc key rows ! i)"
  using sorted_wrt_nth_less [OF order_desc_sorted, of i j key rows] by simp

text \<open>The generated primary key of the next insert.\<close>

definition next_id :: "nat list \<Rightarrow> nat" where
  "next_id ids = Suc (foldr max ids 0)"

lemma less_next_id: "i \<in> set ids \<Longrightarrow> i < next_id ids"
  by (induction ids) (auto simp: next_id_def)

lemma next_id_fresh [simp]: "next_id ids \<notin> set ids"
  using less_next_id by blast

section \<open>Transaction scopes\<close>

definition get_session :: "(app_error + 'a) \<times> 'db \<Rightarrow> 'db \<Rightarrow> (app_error + 'a) \<times> 'db" where
  "get_session outcome before = (case outcome of
     (Inr a, db) \<Rightarrow> (Inr a, db)
   | (Inl e, db) \<Rightarrow> (Inl e, if app_status_code e < 500 then db else before))"

definition session :: "(app_error + 'a) \<times> 'db \<Rightarrow> 'db \<Rightarrow> (app_error + 'a) \<times> 'db" where
  "session outcome before = (case outcome of
     (Inr a, db) \<Rightarrow> (Inr a, db) | (Inl e, db) \<Rightarrow> (Inl e, before))"

lemma get_session_simps [simp]:
  "get_session (Inr a, db) before = (Inr a, db)"
  "get_session (Inl e, db) before = (Inl e, if app_status_code e < 500 then db else before)"
  by (simp_all add: get_session_def)

lemma session_simps [simp]:
  "session (Inr a, db) before = (Inr a, db)" "session (Inl e, db) before = (Inl e, before)"
  by (simp_all add: session_def)

lemma fst_get_session [simp]: "fst (get_session out before) = fst out"
  by (cases out; cases "fst out") auto

lemma get_session_cases: "snd (get_session out before) \<in> {snd out, before}"
  by (cases out; cases "fst out") auto

end
