(* ===== verification/Audit_Log.thy ===== *)
theory Audit_Log
  imports Database
begin

text \<open>
  The audit trail: \<open>backend/app/db/models/system.py\<close> (\<open>AuditEvent\<close>) and
  \<open>backend/app/repositories/audit_repository.py\<close>. The table is the list of its rows in insertion
  order; the repository only appends and, past the retention, prunes.
\<close>

datatype audit_action = LOGIN_SUCCESS | LOGIN_FAILURE | LOGOUT | TOKEN_REFRESH | TOKEN_REUSE_DETECTED
  | LOGIN_VALUE_CHANGED | ACCOUNT_LOCKED | SETTINGS_CHANGED | USER_CREATED | USER_UPDATED
  | USER_DELETED | AUD_BACKUP_STARTED | BACKUP_DELETED | RESTORE_REQUESTED | RESTORE_CONFIRMED
  | RESTORE_CANCELLED | RETENTION_OVERRIDE

fun audit_action_value :: "audit_action \<Rightarrow> string" where
  "audit_action_value LOGIN_SUCCESS = ''login_success''"
| "audit_action_value LOGIN_FAILURE = ''login_failure''"
| "audit_action_value LOGOUT = ''logout''"
| "audit_action_value TOKEN_REFRESH = ''token_refresh''"
| "audit_action_value TOKEN_REUSE_DETECTED = ''token_reuse_detected''"
| "audit_action_value LOGIN_VALUE_CHANGED = ''password_changed''"
| "audit_action_value ACCOUNT_LOCKED = ''account_locked''"
| "audit_action_value SETTINGS_CHANGED = ''settings_changed''"
| "audit_action_value USER_CREATED = ''user_created''"
| "audit_action_value USER_UPDATED = ''user_updated''"
| "audit_action_value USER_DELETED = ''user_deleted''"
| "audit_action_value AUD_BACKUP_STARTED = ''backup_started''"
| "audit_action_value BACKUP_DELETED = ''backup_deleted''"
| "audit_action_value RESTORE_REQUESTED = ''restore_requested''"
| "audit_action_value RESTORE_CONFIRMED = ''restore_confirmed''"
| "audit_action_value RESTORE_CANCELLED = ''restore_cancelled''"
| "audit_action_value RETENTION_OVERRIDE = ''retention_override''"

datatype audit_result = AR_SUCCESS | AR_FAILURE

record audit_event =
  ae_id :: nat
  ae_ts :: datetime
  ae_user_id :: "nat option"
  ae_username :: "string option"
  ae_action :: audit_action
  ae_result :: audit_result
  ae_resource_type :: "string option"
  ae_resource_id :: "string option"
  ae_ip_address :: "string option"
  ae_user_agent :: "string option"
  ae_detail :: "(string \<times> json) list option"
  ae_correlation_id :: "string option"

text \<open>\<open>user_agent[:255] if user_agent else None\<close>\<close>

definition clip_agent :: "string option \<Rightarrow> string option" where
  "clip_agent ua = (case ua of None \<Rightarrow> None | Some s \<Rightarrow> if s = [] then None else Some (take 255 s))"

text \<open>The event as the service states it; \<open>record_audit\<close> gives it its id and its column values.\<close>

definition audit_entry :: "datetime \<Rightarrow> audit_action \<Rightarrow> audit_event" where
  "audit_entry now action = \<lparr>ae_id = 0, ae_ts = now, ae_user_id = None, ae_username = None,
     ae_action = action, ae_result = AR_SUCCESS, ae_resource_type = None, ae_resource_id = None,
     ae_ip_address = None, ae_user_agent = None, ae_detail = None, ae_correlation_id = None\<rparr>"

definition record_audit :: "audit_event list \<Rightarrow> audit_event \<Rightarrow> audit_event list" where
  "record_audit trail ev = trail @ [ev\<lparr>ae_id := next_id (map ae_id trail),
     ae_user_agent := clip_agent (ae_user_agent ev)\<rparr>]"

definition audit_recent :: "audit_event list \<Rightarrow> nat \<Rightarrow> audit_event list" where
  "audit_recent trail limit = take limit (order_desc ae_ts trail)"

definition audit_for_user :: "audit_event list \<Rightarrow> nat \<Rightarrow> nat \<Rightarrow> audit_event list" where
  "audit_for_user trail user_id limit =
     take limit (order_desc ae_ts (filter (\<lambda>e. ae_user_id e = Some user_id) trail))"

definition audit_count_since :: "audit_event list \<Rightarrow> audit_action \<Rightarrow> datetime \<Rightarrow> nat" where
  "audit_count_since trail action since =
     length (filter (\<lambda>e. ae_action e = action \<and> since \<le> ae_ts e) trail)"

record audit_filters =
  af_action :: "audit_action option"
  af_result :: "audit_result option"
  af_user_id :: "nat option"
  af_since :: "datetime option"
  af_until :: "datetime option"
  af_query :: "string option"
  af_correlation_id :: "string option"

definition audit_matches :: "audit_filters \<Rightarrow> audit_event \<Rightarrow> bool" where
  "audit_matches f e =
     ((case af_action f of None \<Rightarrow> True | Some a \<Rightarrow> ae_action e = a)
      \<and> (case af_result f of None \<Rightarrow> True | Some r \<Rightarrow> ae_result e = r)
      \<and> (case af_user_id f of None \<Rightarrow> True | Some u \<Rightarrow> ae_user_id e = Some u)
      \<and> (case af_since f of None \<Rightarrow> True | Some t \<Rightarrow> t \<le> ae_ts e)
      \<and> (case af_until f of None \<Rightarrow> True | Some t \<Rightarrow> ae_ts e \<le> t)
      \<and> (case af_correlation_id f of None \<Rightarrow> True
           | Some c \<Rightarrow> c = [] \<or> ae_correlation_id e = Some c)
      \<and> (case af_query f of None \<Rightarrow> True
           | Some q \<Rightarrow> q = [] \<or> (let pattern = CHR ''%'' # q @ ''%'' in
               sql_ilike (ae_username e) pattern \<or> sql_ilike (ae_resource_type e) pattern
               \<or> sql_ilike (ae_resource_id e) pattern
               \<or> sql_ilike (Some (audit_action_value (ae_action e))) pattern)))"

definition audit_search :: "audit_event list \<Rightarrow> audit_filters \<Rightarrow> nat \<Rightarrow> nat \<Rightarrow> audit_event list" where
  "audit_search trail f limit offset =
     page limit offset (order_desc (\<lambda>e. (ae_ts e, ae_id e)) (filter (audit_matches f) trail))"

definition audit_count :: "audit_event list \<Rightarrow> audit_filters \<Rightarrow> nat" where
  "audit_count trail f = length (filter (audit_matches f) trail)"

definition audit_prune :: "audit_event list \<Rightarrow> datetime \<Rightarrow> nat \<times> audit_event list" where
  "audit_prune trail before = (length (filter (\<lambda>e. ae_ts e < before) trail),
     filter (\<lambda>e. \<not> ae_ts e < before) trail)"

end
