(* ===== verification/Auth.thy ===== *)
theory Auth
  imports Audit_Log Rate_Limits
begin

text \<open>
  Sign-in and sessions of the dashboard: \<open>backend/app/services/auth_service.py\<close>,
  \<open>backend/app/core/security.py\<close>, the user and refresh-token repositories with their models, and the
  authentication dependencies of \<open>backend/app/api/deps.py\<close>.

  An operation takes the database its session shows (\<open>auth_db\<close>) and returns its result with the
  database it leaves; the request commits it as \<open>get_session\<close> says. The limiter lives in the process,
  outside the transaction. Argon2, SHA-256 and PyJWT are the parameters of \<open>auth_env\<close>; what
  \<open>secrets\<close> draws during a call, the two clocks and the client's address are the \<open>auth_call\<close>.
  Requests are taken one after the other: two that read the same row before either writes are not
  modelled.
\<close>

section \<open>Rows\<close>

record user =
  us_id :: nat
  us_username :: string
  us_email :: "string option"
  us_password_hash :: string
  us_role :: user_role
  us_is_active :: bool
  us_must_change :: bool
  us_failed :: int
  us_locked_until :: "datetime option"
  us_last_login_at :: "datetime option"
  us_last_login_ip :: "string option"

record refresh_token =
  rt_id :: nat
  rt_user_id :: nat
  rt_token_hash :: string
  rt_family_id :: string
  rt_expires_at :: datetime
  rt_revoked_at :: "datetime option"
  rt_revoked_reason :: "string option"
  rt_user_agent :: "string option"
  rt_ip_address :: "string option"
  rt_created_at :: datetime

definition is_usable :: "refresh_token \<Rightarrow> datetime \<Rightarrow> bool" where
  "is_usable t now = (rt_revoked_at t = None \<and> rt_expires_at t > now)"

record auth_db =
  db_users :: "user list"
  db_tokens :: "refresh_token list"
  db_audit :: "audit_event list"

section \<open>Parameters\<close>

datatype argon_outcome = Verified | VerifyMismatch | VerificationFault | InvalidHash

record hasher =
  ha_hash :: "string \<Rightarrow> string \<Rightarrow> string" \<comment> \<open>salt, password\<close>
  ha_verify :: "string \<Rightarrow> string \<Rightarrow> argon_outcome"
  ha_needs_rehash :: "string \<Rightarrow> bool option" \<comment> \<open>None: InvalidHashError\<close>

datatype jwt_error = ExpiredSignature | InvalidToken

type_synonym claims_dict = "(string \<times> json) list"

record jwt_lib =
  jl_encode :: "claims_dict \<Rightarrow> string \<Rightarrow> string \<Rightarrow> string"
  jl_decode :: "string \<Rightarrow> string \<Rightarrow> string \<Rightarrow> string \<Rightarrow> string \<Rightarrow> datetime \<Rightarrow> jwt_error + claims_dict"
  jl_str :: "json \<Rightarrow> string"

record token_service =
  ts_key :: string
  ts_algorithm :: string
  ts_issuer :: string
  ts_audience :: string
  ts_access_ttl :: int
  ts_refresh_ttl :: int

record auth_env =
  av_max_attempts :: int
  av_lockout_base :: int
  av_lockout_max :: int
  av_bootstrap_password :: "string option"
  av_bootstrap_username :: string
  av_hasher :: hasher
  av_sha256 :: "string \<Rightarrow> string"
  av_jwt :: jwt_lib
  av_tokens :: token_service

record auth_call =
  ac_now :: datetime
  ac_mono :: clock
  ac_ip :: "string option"
  ac_agent :: "string option"
  ac_jti :: string
  ac_refresh_raw :: string
  ac_csrf :: string
  ac_family :: string
  ac_salt :: string

section \<open>Passwords and tokens\<close>

definition verify_password :: "hasher \<Rightarrow> string \<Rightarrow> string \<Rightarrow> bool" where
  "verify_password h password_hash password = (ha_verify h password_hash password = Verified)"

definition needs_rehash :: "hasher \<Rightarrow> string \<Rightarrow> bool" where
  "needs_rehash h password_hash = (case ha_needs_rehash h password_hash of None \<Rightarrow> True | Some b \<Rightarrow> b)"

record access_claims =
  cl_user_id :: int
  cl_username :: string
  cl_role :: string
  cl_jti :: string
  cl_issued_at :: datetime
  cl_expires_at :: datetime

fun user_role_value :: "user_role \<Rightarrow> string" where
  "user_role_value VIEWER = ''viewer''"
| "user_role_value OPERATOR = ''operator''"
| "user_role_value ADMIN = ''admin''"

text \<open>\<open>int(moment.timestamp())\<close>\<close>

definition unix_seconds :: "datetime \<Rightarrow> int" where
  "unix_seconds t = trunc_rat (of_int t / 1000000)"

definition access_payload :: "token_service \<Rightarrow> nat \<Rightarrow> string \<Rightarrow> string \<Rightarrow> string \<Rightarrow> datetime \<Rightarrow> claims_dict" where
  "access_payload ts user_id username role jti issued =
     [(''sub'', J_str (show_nat user_id)), (''username'', J_str username), (''role'', J_str role),
      (''jti'', J_str jti), (''typ'', J_str ''access''),
      (''iat'', J_int (unix_seconds issued)), (''nbf'', J_int (unix_seconds issued)),
      (''exp'', J_int (unix_seconds (issued + seconds (ts_access_ttl ts)))),
      (''iss'', J_str (ts_issuer ts)), (''aud'', J_str (ts_audience ts))]"

definition create_access_token ::
  "jwt_lib \<Rightarrow> token_service \<Rightarrow> nat \<Rightarrow> string \<Rightarrow> string \<Rightarrow> string \<Rightarrow> datetime \<Rightarrow> string \<times> access_claims" where
  "create_access_token J ts user_id username role jti issued =
     (jl_encode J (access_payload ts user_id username role jti issued) (ts_key ts) (ts_algorithm ts),
      \<lparr>cl_user_id = int user_id, cl_username = username, cl_role = role, cl_jti = jti,
       cl_issued_at = issued, cl_expires_at = issued + seconds (ts_access_ttl ts)\<rparr>)"

text \<open>\<open>int(value)\<close> of a claim; \<open>None\<close> is a ValueError or a TypeError.\<close>

fun claim_int :: "json option \<Rightarrow> int option" where
  "claim_int (Some (J_str s)) = py_int s"
| "claim_int (Some (J_int i)) = Some i"
| "claim_int (Some (J_bool b)) = Some (if b then 1 else 0)"
| "claim_int (Some (J_num q)) = Some (trunc_rat q)"
| "claim_int _ = None"

text \<open>\<open>datetime.fromtimestamp\<close>; \<open>None\<close> is a TypeError, which nothing catches.\<close>

fun claim_time :: "json option \<Rightarrow> datetime option" where
  "claim_time (Some (J_int i)) = Some (seconds i)"
| "claim_time (Some (J_bool b)) = Some (if b then seconds 1 else 0)"
| "claim_time (Some (J_num q)) = Some (round_half_even (q * 1000000))"
| "claim_time _ = None"

definition claim_text :: "jwt_lib \<Rightarrow> claims_dict \<Rightarrow> string \<Rightarrow> string" where
  "claim_text J p key = (case map_of p key of None \<Rightarrow> [] | Some v \<Rightarrow> jl_str J v)"

definition decode_access_token :: "jwt_lib \<Rightarrow> token_service \<Rightarrow> string \<Rightarrow> datetime \<Rightarrow> app_error + access_claims" where
  "decode_access_token J ts token now =
     (case jl_decode J token (ts_key ts) (ts_algorithm ts) (ts_audience ts) (ts_issuer ts) now of
        Inl ExpiredSignature \<Rightarrow> Inl (App_AuthenticationFailed ''Access token has expired'')
      | Inl InvalidToken \<Rightarrow> Inl (App_AuthenticationFailed ''Access token is invalid'')
      | Inr p \<Rightarrow>
          if map_of p ''typ'' \<noteq> Some (J_str ''access'')
          then Inl (App_AuthenticationFailed ''Token is not an access token'')
          else (case claim_int (map_of p ''sub'') of
              None \<Rightarrow> Inl (App_AuthenticationFailed ''Access token has no usable subject'')
            | Some user_id \<Rightarrow>
                (case (claim_time (map_of p ''iat''), claim_time (map_of p ''exp'')) of
                   (Some iat, Some ex) \<Rightarrow> Inr \<lparr>cl_user_id = user_id,
                      cl_username = claim_text J p ''username'', cl_role = claim_text J p ''role'',
                      cl_jti = claim_text J p ''jti'', cl_issued_at = iat, cl_expires_at = ex\<rparr>
                 | _ \<Rightarrow> Inl (App_Internal ''TypeError''))))"

definition refresh_expiry :: "token_service \<Rightarrow> datetime \<Rightarrow> datetime" where
  "refresh_expiry ts now = now + seconds (ts_refresh_ttl ts)"

text \<open>\<open>hmac.compare_digest\<close> raises TypeError on a string that is not ASCII.\<close>

definition csrf_tokens_match :: "string option \<Rightarrow> string option \<Rightarrow> app_error + bool" where
  "csrf_tokens_match cookie header = (case (cookie, header) of
     (Some c, Some h) \<Rightarrow> if c = [] \<or> h = [] then Inr False
       else if list_all (\<lambda>x. code x < 128) (c @ h) then Inr (c = h)
       else Inl (App_Internal ''TypeError'')
   | _ \<Rightarrow> Inr False)"

definition verify_csrf :: "string option \<Rightarrow> string option \<Rightarrow> app_error + unit" where
  "verify_csrf cookie header = bindR (csrf_tokens_match cookie header) (\<lambda>ok.
     if ok then Inr () else Inl (App_CsrfFailed ''CSRF token missing or does not match''))"

section \<open>User repository\<close>

text \<open>\<open>casefold\<close> on Latin-1: the sharp s becomes two letters, every other letter its lower case (the
  micro sign, whose folding lies outside Latin-1, is kept).\<close>

definition py_casefold :: "string \<Rightarrow> string" where
  "py_casefold s = concat (map (\<lambda>c. if code c = 223 then ''ss'' else [lower_char c]) s)"

definition normalise_username :: "string \<Rightarrow> string" where
  "normalise_username username = py_casefold (py_strip username)"

definition user_get :: "user list \<Rightarrow> nat \<Rightarrow> user option" where
  "user_get us user_id = find (\<lambda>u. us_id u = user_id) us"

definition get_by_username :: "user list \<Rightarrow> string \<Rightarrow> user option" where
  "get_by_username us username = find (\<lambda>u. us_username u = normalise_username username) us"

definition set_user :: "nat \<Rightarrow> (user \<Rightarrow> user) \<Rightarrow> auth_db \<Rightarrow> auth_db" where
  "set_user user_id f db = db\<lparr>db_users := upd_where (\<lambda>u. us_id u = user_id) f (db_users db)\<rparr>"

definition user_create :: "auth_db \<Rightarrow> string \<Rightarrow> string \<Rightarrow> user_role \<Rightarrow> string option \<Rightarrow> bool \<Rightarrow> bool
    \<Rightarrow> app_error + user \<times> auth_db" where
  "user_create db username password_hash role email must_change is_active =
     (let u = \<lparr>us_id = next_id (map us_id (db_users db)), us_username = normalise_username username,
        us_email = email, us_password_hash = password_hash, us_role = role, us_is_active = is_active,
        us_must_change = must_change, us_failed = 0, us_locked_until = None,
        us_last_login_at = None, us_last_login_ip = None\<rparr>
      in if us_username u \<in> us_username ` set (db_users db)
            \<or> (email \<noteq> None \<and> email \<in> us_email ` set (db_users db))
         then Inl (App_Internal ''IntegrityError'')
         else Inr (u, db\<lparr>db_users := db_users db @ [u]\<rparr>))"

definition record_login_success :: "nat \<Rightarrow> datetime \<Rightarrow> string option \<Rightarrow> auth_db \<Rightarrow> auth_db" where
  "record_login_success user_id moment ip = set_user user_id (\<lambda>u. u\<lparr>us_failed := 0,
     us_locked_until := None, us_last_login_at := Some moment, us_last_login_ip := ip\<rparr>)"

definition record_login_failure :: "nat \<Rightarrow> int \<Rightarrow> datetime option \<Rightarrow> auth_db \<Rightarrow> auth_db" where
  "record_login_failure user_id failed_count locked_until = set_user user_id (\<lambda>u. u\<lparr>us_failed := failed_count,
     us_locked_until := locked_until\<rparr>)"

section \<open>Refresh-token repository\<close>

definition token_create :: "auth_db \<Rightarrow> nat \<Rightarrow> string \<Rightarrow> string \<Rightarrow> datetime \<Rightarrow> datetime \<Rightarrow> string option
    \<Rightarrow> string option \<Rightarrow> app_error + auth_db" where
  "token_create db user_id token_hash family_id expires_at created_at user_agent ip =
     (if token_hash \<in> rt_token_hash ` set (db_tokens db) then Inl (App_Internal ''IntegrityError'')
      else Inr (db\<lparr>db_tokens := db_tokens db @
        [\<lparr>rt_id = next_id (map rt_id (db_tokens db)), rt_user_id = user_id, rt_token_hash = token_hash,
          rt_family_id = family_id, rt_expires_at = expires_at, rt_revoked_at = None,
          rt_revoked_reason = None, rt_user_agent = clip_agent user_agent, rt_ip_address = ip,
          rt_created_at = created_at\<rparr>]\<rparr>))"

definition get_by_hash :: "auth_db \<Rightarrow> string \<Rightarrow> refresh_token option" where
  "get_by_hash db token_hash = find (\<lambda>t. rt_token_hash t = token_hash) (db_tokens db)"

definition revoke_where :: "(refresh_token \<Rightarrow> bool) \<Rightarrow> datetime \<Rightarrow> string \<Rightarrow> auth_db \<Rightarrow> auth_db" where
  "revoke_where P moment reason db = db\<lparr>db_tokens := upd_where (\<lambda>t. P t \<and> rt_revoked_at t = None)
     (\<lambda>t. t\<lparr>rt_revoked_at := Some moment, rt_revoked_reason := Some reason\<rparr>) (db_tokens db)\<rparr>"

definition revoked_rows :: "(refresh_token \<Rightarrow> bool) \<Rightarrow> auth_db \<Rightarrow> nat" where
  "revoked_rows P db = length (filter (\<lambda>t. P t \<and> rt_revoked_at t = None) (db_tokens db))"

definition revoke :: "nat \<Rightarrow> datetime \<Rightarrow> string \<Rightarrow> auth_db \<Rightarrow> auth_db" where
  "revoke token_id = revoke_where (\<lambda>t. rt_id t = token_id)"

definition revoke_family :: "string \<Rightarrow> datetime \<Rightarrow> string \<Rightarrow> auth_db \<Rightarrow> nat \<times> auth_db" where
  "revoke_family family_id moment reason db = (revoked_rows (\<lambda>t. rt_family_id t = family_id) db,
     revoke_where (\<lambda>t. rt_family_id t = family_id) moment reason db)"

definition revoke_all_for_user :: "nat \<Rightarrow> datetime \<Rightarrow> string \<Rightarrow> string option \<Rightarrow> auth_db \<Rightarrow> nat \<times> auth_db" where
  "revoke_all_for_user user_id moment reason except_family db =
     (let P = (\<lambda>t. rt_user_id t = user_id \<and>
        (case except_family of None \<Rightarrow> True | Some f \<Rightarrow> rt_family_id t \<noteq> f))
      in (revoked_rows P db, revoke_where P moment reason db))"

definition list_active_for_user :: "auth_db \<Rightarrow> nat \<Rightarrow> datetime \<Rightarrow> refresh_token list" where
  "list_active_for_user db user_id now = order_desc rt_created_at
     (filter (\<lambda>t. rt_user_id t = user_id \<and> is_usable t now) (db_tokens db))"

definition purge_expired :: "datetime \<Rightarrow> auth_db \<Rightarrow> nat \<times> auth_db" where
  "purge_expired before db = (length (filter (\<lambda>t. rt_expires_at t < before) (db_tokens db)),
     db\<lparr>db_tokens := filter (\<lambda>t. \<not> rt_expires_at t < before) (db_tokens db)\<rparr>)"

section \<open>Sign-in\<close>

definition GENERIC_LOGIN_FAILURE :: string where
  "GENERIC_LOGIN_FAILURE = ''Invalid username or password''"

record issued_session =
  is_access_token :: string
  is_expires_in :: int
  is_refresh_token :: string
  is_refresh_expires_at :: datetime
  is_csrf_token :: string
  is_family_id :: string
  is_user :: user

definition audit :: "audit_event \<Rightarrow> auth_db \<Rightarrow> auth_db" where
  "audit ev db = db\<lparr>db_audit := record_audit (db_audit db) ev\<rparr>"

definition audit_of :: "auth_call \<Rightarrow> audit_action \<Rightarrow> audit_result \<Rightarrow> user option \<Rightarrow> (string \<times> json) list option
    \<Rightarrow> audit_event" where
  "audit_of c action result u detail = (audit_entry (ac_now c) action)\<lparr>ae_result := result,
     ae_user_id := map_option us_id u, ae_username := map_option us_username u,
     ae_ip_address := ac_ip c, ae_user_agent := ac_agent c, ae_detail := detail\<rparr>"

definition login_failure_audit :: "auth_call \<Rightarrow> user option \<Rightarrow> string \<Rightarrow> (string \<times> json) list \<Rightarrow> audit_event" where
  "login_failure_audit c u reason details =
     audit_of c LOGIN_FAILURE AR_FAILURE u (Some ((''reason'', J_str reason) # details))"

text \<open>The database is the first component of the state of \<open>login\<close>, the limiter the second.\<close>

definition issue_session :: "auth_env \<Rightarrow> auth_call \<Rightarrow> user \<Rightarrow> string \<Rightarrow> auth_db
    \<Rightarrow> (app_error + issued_session) \<times> auth_db" where
  "issue_session E c u family_id db =
     (let (access, claims) = create_access_token (av_jwt E) (av_tokens E) (us_id u) (us_username u)
            (user_role_value (us_role u)) (ac_jti c) (ac_now c);
          expires_at = refresh_expiry (av_tokens E) (ac_now c)
      in case token_create db (us_id u) (av_sha256 E (ac_refresh_raw c)) family_id expires_at (ac_now c)
             (ac_agent c) (ac_ip c) of
           Inl e \<Rightarrow> (Inl e, db)
         | Inr db' \<Rightarrow> (Inr \<lparr>is_access_token = access,
             is_expires_in = (cl_expires_at claims - ac_now c) div 1000000,
             is_refresh_token = ac_refresh_raw c, is_refresh_expires_at = expires_at,
             is_csrf_token = ac_csrf c, is_family_id = family_id,
             is_user = (case user_get (db_users db) (us_id u) of None \<Rightarrow> u | Some v \<Rightarrow> v)\<rparr>, db'))"

definition register_failure :: "auth_env \<Rightarrow> auth_call \<Rightarrow> user \<Rightarrow> auth_db \<Rightarrow> auth_db" where
  "register_failure E c u db =
     (let failed_count = us_failed u + 1;
          secs = lockout_duration_seconds (failed_count - av_max_attempts E + 1)
            (av_lockout_base E) (av_lockout_max E);
          locked = av_max_attempts E \<le> failed_count;
          db1 = (if locked then audit ((audit_of c ACCOUNT_LOCKED AR_FAILURE (Some u)
                    (Some [(''failed_count'', J_int failed_count), (''lock_seconds'', J_int secs)]))
                  \<lparr>ae_user_agent := None\<rparr>) db else db);
          db2 = record_login_failure (us_id u) failed_count
            (if locked then Some (ac_now c + seconds secs) else None) db1
      in audit (login_failure_audit c (Some u) ''bad_password'' [(''failed_count'', J_int failed_count)]) db2)"

definition limiter_key :: "auth_call \<Rightarrow> string \<Rightarrow> string" where
  "limiter_key c username = (case ac_ip c of None \<Rightarrow> ''unknown''
     | Some ip \<Rightarrow> if ip = [] then ''unknown'' else ip) @ ''|'' @ username"

definition login_user :: "auth_env \<Rightarrow> auth_call \<Rightarrow> user \<Rightarrow> string \<Rightarrow> string \<Rightarrow> limiter \<Rightarrow> auth_db
    \<Rightarrow> ((app_error + issued_session) \<times> auth_db) \<times> limiter" where
  "login_user E c u key password l db =
     (if (case us_locked_until u of None \<Rightarrow> False | Some until \<Rightarrow> until > ac_now c)
      then ((Inl (App_AccountLocked ''This account is locked''),
             audit (login_failure_audit c (Some u) ''locked''
               [(''remaining_seconds'', J_int ((the (us_locked_until u) - ac_now c) div 1000000))]) db), l)
      else if \<not> verify_password (av_hasher E) (us_password_hash u) password
      then ((Inl (App_AuthenticationFailed GENERIC_LOGIN_FAILURE), register_failure E c u db),
            record_hit l key (ac_mono c))
      else if \<not> us_is_active u
      then ((Inl (App_AuthenticationFailed ''This account has been disabled.''),
             audit (login_failure_audit c (Some u) ''inactive'' []) db), l)
      else
        let db1 = (if needs_rehash (av_hasher E) (us_password_hash u)
                   then set_user (us_id u) (\<lambda>v. v\<lparr>us_password_hash := ha_hash (av_hasher E) (ac_salt c) password\<rparr>) db
                   else db);
            db2 = record_login_success (us_id u) (ac_now c) (ac_ip c) db1;
            db3 = audit (audit_of c LOGIN_SUCCESS AR_SUCCESS (Some u) None) db2
        in (issue_session E c u (ac_family c) db3, reset_key l key))"

definition login :: "auth_env \<Rightarrow> auth_call \<Rightarrow> string \<Rightarrow> string \<Rightarrow> limiter \<Rightarrow> auth_db
    \<Rightarrow> ((app_error + issued_session) \<times> auth_db) \<times> limiter" where
  "login E c username password l db =
     (let normalised = normalise_username username;
          key = limiter_key c normalised;
          (decision, l1) = check l key (ac_mono c)
      in if \<not> rd_allowed decision
         then ((Inl (App_RateLimited ''Too many login attempts. Try again shortly.'' (rd_retry_after decision)),
                audit ((login_failure_audit c None ''rate_limited'' [])\<lparr>ae_username := Some normalised\<rparr>) db), l1)
         else case get_by_username (db_users db) normalised of
           None \<Rightarrow> ((Inl (App_AuthenticationFailed GENERIC_LOGIN_FAILURE),
               audit ((login_failure_audit c None ''unknown_user'' [])\<lparr>ae_username := Some normalised\<rparr>) db),
             record_hit l1 key (ac_mono c))
         | Some u \<Rightarrow> login_user E c u key password l1 db)"

section \<open>Sessions\<close>

definition refresh :: "auth_env \<Rightarrow> auth_call \<Rightarrow> string \<Rightarrow> auth_db \<Rightarrow> (app_error + issued_session) \<times> auth_db" where
  "refresh E c raw_token db =
     (case get_by_hash db (av_sha256 E raw_token) of
        None \<Rightarrow> (Inl (App_AuthenticationFailed ''Refresh token is not recognised. Sign in again.''), db)
      | Some stored \<Rightarrow>
          if rt_revoked_at stored \<noteq> None then
            let (revoked, db1) = revoke_family (rt_family_id stored) (ac_now c) ''reuse_detected'' db
            in (Inl (App_AuthenticationFailed ''This session has been revoked because a token was reused. Sign in again.''),
                audit ((audit_of c TOKEN_REUSE_DETECTED AR_FAILURE None
                    (Some [(''family_id'', J_str (rt_family_id stored)), (''revoked_tokens'', J_int (int revoked))]))
                  \<lparr>ae_user_id := Some (rt_user_id stored)\<rparr>) db1)
          else if rt_expires_at stored \<le> ac_now c then
            (Inl (App_AuthenticationFailed ''Session has expired. Sign in again.''),
             revoke (rt_id stored) (ac_now c) ''expired'' db)
          else (case user_get (db_users db) (rt_user_id stored) of
              None \<Rightarrow> (Inl (App_AuthenticationFailed ''This account is no longer available.''),
                 snd (revoke_family (rt_family_id stored) (ac_now c) ''user_unavailable'' db))
            | Some u \<Rightarrow>
                if \<not> us_is_active u
                then (Inl (App_AuthenticationFailed ''This account is no longer available.''),
                  snd (revoke_family (rt_family_id stored) (ac_now c) ''user_unavailable'' db))
                else issue_session E c u (rt_family_id stored)
                  (audit (audit_of c TOKEN_REFRESH AR_SUCCESS (Some u) None)
                    (revoke (rt_id stored) (ac_now c) ''rotated'' db))))"

definition logout :: "auth_env \<Rightarrow> auth_call \<Rightarrow> string option \<Rightarrow> auth_db \<Rightarrow> (app_error + unit) \<times> auth_db" where
  "logout E c raw_token db =
     (case raw_token of None \<Rightarrow> (Inr (), db)
      | Some raw \<Rightarrow> if raw = [] then (Inr (), db)
          else (case get_by_hash db (av_sha256 E raw) of
             None \<Rightarrow> (Inr (), db)
           | Some stored \<Rightarrow> (Inr (), audit ((audit_of c LOGOUT AR_SUCCESS None None)\<lparr>ae_user_id := Some (rt_user_id stored)\<rparr>)
               (snd (revoke_family (rt_family_id stored) (ac_now c) ''logout'' db)))))"

definition revoke_session :: "auth_call \<Rightarrow> nat \<Rightarrow> nat \<Rightarrow> auth_db \<Rightarrow> (app_error + unit) \<times> auth_db" where
  "revoke_session c user_id session_id db =
     (case find (\<lambda>t. rt_id t = session_id) (list_active_for_user db user_id (ac_now c)) of
        None \<Rightarrow> (Inl (App_ValidationFailed ''No active session with that id''), db)
      | Some target \<Rightarrow> (Inr (), snd (revoke_family (rt_family_id target) (ac_now c) ''revoked_by_user'' db)))"

definition MIN_PASSWORD_LENGTH :: nat where "MIN_PASSWORD_LENGTH = 12"

definition change_password :: "auth_env \<Rightarrow> auth_call \<Rightarrow> user \<Rightarrow> string \<Rightarrow> string \<Rightarrow> auth_db
    \<Rightarrow> (app_error + unit) \<times> auth_db" where
  "change_password E c u current_password new_password db =
     (if \<not> verify_password (av_hasher E) (us_password_hash u) current_password
      then (Inl (App_AuthenticationFailed ''Current password is incorrect''),
        audit ((audit_of c LOGIN_VALUE_CHANGED AR_FAILURE (Some u)
          (Some [(''reason'', J_str ''current_password_incorrect'')]))\<lparr>ae_user_agent := None\<rparr>) db)
      else if new_password = current_password
      then (Inl (App_ValidationFailed ''The new password must differ from the current one''), db)
      else if length new_password < MIN_PASSWORD_LENGTH
      then (Inl (App_ValidationFailed ''Password must be at least 12 characters''), db)
      else
        let db1 = set_user (us_id u) (\<lambda>v. v\<lparr>us_password_hash := ha_hash (av_hasher E) (ac_salt c) new_password,
                    us_must_change := False\<rparr>) db;
            (revoked, db2) = revoke_all_for_user (us_id u) (ac_now c) ''password_changed'' None db1
        in (Inr (), audit ((audit_of c LOGIN_VALUE_CHANGED AR_SUCCESS (Some u)
              (Some [(''sessions_revoked'', J_int (int revoked))]))\<lparr>ae_user_agent := None\<rparr>) db2))"

definition ensure_bootstrap_admin :: "auth_env \<Rightarrow> auth_call \<Rightarrow> auth_db \<Rightarrow> (app_error + user option) \<times> auth_db" where
  "ensure_bootstrap_admin E c db =
     (if length (db_users db) > 0 then (Inr None, db)
      else case av_bootstrap_password E of
        None \<Rightarrow> (Inr None, db)
      | Some password \<Rightarrow>
          (case user_create db (av_bootstrap_username E) (ha_hash (av_hasher E) (ac_salt c) password) ADMIN None True True of
             Inl e \<Rightarrow> (Inl e, db)
           | Inr (u, db1) \<Rightarrow> (Inr (Some u), audit ((audit_entry (ac_now c) USER_CREATED)\<lparr>
               ae_user_id := Some (us_id u), ae_username := Some (us_username u),
               ae_detail := Some [(''bootstrap'', J_bool True), (''role'', J_str ''admin'')]\<rparr>) db1)))"

section \<open>Requests\<close>

definition get_current_user :: "auth_env \<Rightarrow> auth_call \<Rightarrow> string \<Rightarrow> auth_db \<Rightarrow> app_error + user" where
  "get_current_user E c header db =
     (let (scheme, token) = (case partition_on (CHR '' '') header of None \<Rightarrow> (header, []) | Some p \<Rightarrow> p)
      in if py_lower scheme \<noteq> ''bearer'' \<or> token = []
         then Inl (App_AuthenticationFailed ''Missing bearer token'')
         else bindR (decode_access_token (av_jwt E) (av_tokens E) token (ac_now c)) (\<lambda>claims.
           if cl_user_id claims < 0 then Inl (App_AuthenticationFailed ''This account is no longer available'')
           else case user_get (db_users db) (nat (cl_user_id claims)) of
             None \<Rightarrow> Inl (App_AuthenticationFailed ''This account is no longer available'')
           | Some u \<Rightarrow> if us_is_active u then Inr u
               else Inl (App_AuthenticationFailed ''This account is no longer available'')))"

definition require_role :: "user_role \<Rightarrow> user \<Rightarrow> app_error + user" where
  "require_role minimum u =
     (if us_must_change u
      then Inl (App_PermissionDenied ''You must change your password before using the rest of the application.'')
      else if \<not> can_act_as (us_role u) minimum
      then Inl (App_PermissionDenied ''This action requires a higher role'')
      else Inr u)"

text \<open>The endpoints of \<open>backend/app/api/v1/routes/auth.py\<close> that take the session cookie.\<close>

definition refresh_endpoint :: "auth_env \<Rightarrow> auth_call \<Rightarrow> string option \<Rightarrow> string option \<Rightarrow> string option
    \<Rightarrow> auth_db \<Rightarrow> (app_error + issued_session) \<times> auth_db" where
  "refresh_endpoint E c csrf_cookie csrf_header refresh_cookie db = get_session
     (case verify_csrf csrf_cookie csrf_header of
        Inl e \<Rightarrow> (Inl e, db)
      | Inr _ \<Rightarrow> (case refresh_cookie of
            None \<Rightarrow> (Inl (App_AuthenticationFailed ''No session cookie was presented''), db)
          | Some raw \<Rightarrow> if raw = [] then (Inl (App_AuthenticationFailed ''No session cookie was presented''), db)
              else refresh E c raw db)) db"

definition logout_endpoint :: "auth_env \<Rightarrow> auth_call \<Rightarrow> string option \<Rightarrow> string option \<Rightarrow> string option
    \<Rightarrow> auth_db \<Rightarrow> (app_error + unit) \<times> auth_db" where
  "logout_endpoint E c csrf_cookie csrf_header refresh_cookie db = get_session
     (case verify_csrf csrf_cookie csrf_header of
        Inl e \<Rightarrow> (Inl e, db) | Inr _ \<Rightarrow> logout E c refresh_cookie db) db"

definition login_endpoint :: "auth_env \<Rightarrow> auth_call \<Rightarrow> string \<Rightarrow> string \<Rightarrow> limiter \<Rightarrow> auth_db
    \<Rightarrow> ((app_error + issued_session) \<times> auth_db) \<times> limiter" where
  "login_endpoint E c username password l db =
     (let (out, l') = login E c username password l db in (get_session out db, l'))"

definition change_password_endpoint :: "auth_env \<Rightarrow> auth_call \<Rightarrow> string \<Rightarrow> string \<Rightarrow> string \<Rightarrow> auth_db
    \<Rightarrow> (app_error + unit) \<times> auth_db" where
  "change_password_endpoint E c header current_password new_password db = get_session
     (case get_current_user E c header db of Inl e \<Rightarrow> (Inl e, db)
      | Inr u \<Rightarrow> change_password E c u current_password new_password db) db"

definition revoke_session_endpoint :: "auth_env \<Rightarrow> auth_call \<Rightarrow> string \<Rightarrow> nat \<Rightarrow> auth_db
    \<Rightarrow> (app_error + unit) \<times> auth_db" where
  "revoke_session_endpoint E c header session_id db = get_session
     (case get_current_user E c header db of Inl e \<Rightarrow> (Inl e, db)
      | Inr u \<Rightarrow> revoke_session c (us_id u) session_id db) db"

end
