(* ===== verification/Auth_Sessions.thy ===== *)
theory Auth_Sessions
  imports Auth
begin

text \<open>
  What the session table promises. \<open>token_move\<close> is its contract: rows are revoked, one live token is
  replaced by its successor, or a family that was never used is opened. Every endpoint of
  \<open>backend/app/api/v1/routes/auth.py\<close> implements it (\<open>auth_step_moves\<close>), so the invariants are proved
  once on the contract. The set \<open>used\<close> is the history of family identifiers: \<open>secrets\<close> draws a family
  that was never drawn before.
\<close>

section \<open>The contract\<close>

definition live :: "refresh_token \<Rightarrow> bool" where
  "live t = (rt_revoked_at t = None)"

definition live_in :: "string \<Rightarrow> refresh_token list \<Rightarrow> refresh_token list" where
  "live_in f ts = filter (\<lambda>t. rt_family_id t = f \<and> live t) ts"

definition revoke_rows :: "(refresh_token \<Rightarrow> bool) \<Rightarrow> datetime \<Rightarrow> string \<Rightarrow> refresh_token list \<Rightarrow> refresh_token list" where
  "revoke_rows P moment reason = upd_where (\<lambda>t. P t \<and> rt_revoked_at t = None)
     (\<lambda>t. t\<lparr>rt_revoked_at := Some moment, rt_revoked_reason := Some reason\<rparr>)"

definition fresh_row :: "refresh_token list \<Rightarrow> refresh_token \<Rightarrow> bool" where
  "fresh_row ts t = (rt_id t \<notin> rt_id ` set ts \<and> rt_token_hash t \<notin> rt_token_hash ` set ts \<and> live t)"

inductive token_move :: "string set \<Rightarrow> refresh_token list \<Rightarrow> string set \<Rightarrow> refresh_token list \<Rightarrow> bool" where
  stay: "used \<subseteq> used' \<Longrightarrow> token_move used ts used' ts"
| revoking: "token_move used ts used (revoke_rows P moment reason ts)"
| rotating: "t \<in> set ts \<Longrightarrow> live t \<Longrightarrow> fresh_row ts t' \<Longrightarrow> rt_family_id t' = rt_family_id t \<Longrightarrow>
    token_move used ts used (revoke_rows (\<lambda>x. rt_id x = rt_id t) moment reason ts @ [t'])"
| start_family: "fresh_row ts t' \<Longrightarrow> rt_family_id t' \<notin> used \<Longrightarrow>
    token_move used ts (insert (rt_family_id t') used) (ts @ [t'])"

definition tokens_wf :: "string set \<Rightarrow> refresh_token list \<Rightarrow> bool" where
  "tokens_wf used ts = (distinct (map rt_id ts) \<and> distinct (map rt_token_hash ts)
     \<and> rt_family_id ` set ts \<subseteq> used \<and> (\<forall>f. length (live_in f ts) \<le> 1))"

lemma revoke_rows_keys [simp]:
  "map rt_id (revoke_rows P m r ts) = map rt_id ts"
  "map rt_token_hash (revoke_rows P m r ts) = map rt_token_hash ts"
  "map rt_family_id (revoke_rows P m r ts) = map rt_family_id ts"
  by (simp_all add: revoke_rows_def map_upd_where)

lemma revoke_rows_sets [simp]:
  "rt_id ` set (revoke_rows P m r ts) = rt_id ` set ts"
  "rt_token_hash ` set (revoke_rows P m r ts) = rt_token_hash ` set ts"
  "rt_family_id ` set (revoke_rows P m r ts) = rt_family_id ` set ts"
  by (metis revoke_rows_keys list.set_map)+

lemma live_in_revoke_rows:
  "live_in f (revoke_rows P m r ts) = filter (\<lambda>t. \<not> P t) (live_in f ts)"
  by (induction ts) (auto simp: live_in_def revoke_rows_def live_def)

lemma live_in_append [simp]: "live_in f (ts @ us) = live_in f ts @ live_in f us"
  by (simp add: live_in_def)

lemma live_in_single [simp]: "live_in f [t] = (if rt_family_id t = f \<and> live t then [t] else [])"
  by (simp add: live_in_def)

lemma live_in_unused: "rt_family_id ` set ts \<subseteq> used \<Longrightarrow> f \<notin> used \<Longrightarrow> live_in f ts = []"
  by (auto simp: live_in_def filter_empty_conv)

lemma live_in_rotated:
  assumes "tokens_wf used ts" "t \<in> set ts" "live t"
  shows "live_in (rt_family_id t) (revoke_rows (\<lambda>x. rt_id x = rt_id t) m r ts) = []"
proof -
  have "t \<in> set (live_in (rt_family_id t) ts)" using assms by (simp add: live_in_def)
  moreover have "length (live_in (rt_family_id t) ts) \<le> 1" using assms by (simp add: tokens_wf_def)
  ultimately have "live_in (rt_family_id t) ts = [t]"
    by (cases "live_in (rt_family_id t) ts") auto
  then show ?thesis by (simp add: live_in_revoke_rows)
qed

lemma token_move_wf: "token_move used ts used' ts' \<Longrightarrow> tokens_wf used ts \<Longrightarrow> tokens_wf used' ts'"
proof (induction rule: token_move.induct)
  case (stay used used' ts)
  then show ?case by (auto simp: tokens_wf_def)
next
  case (revoking used ts P moment reason)
  have "length (live_in f (revoke_rows P moment reason ts)) \<le> 1" for f
    using revoking unfolding tokens_wf_def live_in_revoke_rows
    by (blast intro: order_trans [OF length_filter_le])
  with revoking show ?case by (simp add: tokens_wf_def)
next
  case (rotating t ts t' used moment reason)
  let ?r = "revoke_rows (\<lambda>x. rt_id x = rt_id t) moment reason ts"
  have "length (live_in f (?r @ [t'])) \<le> 1" for f
  proof (cases "f = rt_family_id t")
    case True
    then show ?thesis using live_in_rotated [OF rotating(5,1,2)] by simp
  next
    case False
    have "length (live_in f ts) \<le> 1" using rotating by (simp add: tokens_wf_def)
    then show ?thesis
      using False rotating(4) order_trans [OF length_filter_le [of "\<lambda>x. rt_id x \<noteq> rt_id t" "live_in f ts"]]
      by (simp add: live_in_revoke_rows)
  qed
  with rotating show ?case by (auto simp: tokens_wf_def fresh_row_def)
next
  case (start_family ts t' used)
  have "length (live_in f (ts @ [t'])) \<le> 1" for f
    using start_family live_in_unused [of ts used f] by (cases "f = rt_family_id t'") (auto simp: tokens_wf_def)
  with start_family show ?case by (auto simp: tokens_wf_def fresh_row_def)
qed

text \<open>A family without a live token, once used, never has one again.\<close>

lemma token_move_dead:
  "token_move used ts used' ts' \<Longrightarrow> live_in f ts = [] \<Longrightarrow> f \<in> used \<Longrightarrow> live_in f ts' = [] \<and> f \<in> used'"
proof (induction rule: token_move.induct)
  case (rotating t ts t' used moment reason)
  then have "rt_family_id t \<noteq> f" by (auto simp: live_in_def filter_empty_conv)
  with rotating show ?case by (simp add: live_in_revoke_rows)
qed (auto simp: live_in_revoke_rows)

text \<open>No row ever disappears: its hash keeps naming the same family.\<close>

lemma revoke_rows_mem:
  "t \<in> set ts \<Longrightarrow> \<exists>t' \<in> set (revoke_rows P m r ts).
     rt_token_hash t' = rt_token_hash t \<and> rt_family_id t' = rt_family_id t"
  by (induction ts) (auto simp: revoke_rows_def)

lemma token_move_keeps:
  "token_move used ts used' ts' \<Longrightarrow> t \<in> set ts \<Longrightarrow>
   \<exists>t' \<in> set ts'. rt_token_hash t' = rt_token_hash t \<and> rt_family_id t' = rt_family_id t"
proof (induction rule: token_move.induct)
  case (revoking used ts P moment reason)
  then show ?case by (rule revoke_rows_mem)
next
  case (rotating t0 ts t' used moment reason)
  then show ?case using revoke_rows_mem [OF rotating(5)] by (metis UnCI set_append)
qed auto

section \<open>The endpoints implement the contract\<close>

lemma db_frame [simp]:
  "db_tokens (audit ev db) = db_tokens db" "db_users (audit ev db) = db_users db"
  "db_tokens (set_user u f db) = db_tokens db" "db_audit (set_user u f db) = db_audit db"
  "db_tokens (record_login_success u m ip db) = db_tokens db"
  "db_tokens (record_login_failure u n lu db) = db_tokens db"
  "db_tokens (revoke_where P m r db) = revoke_rows P m r (db_tokens db)"
  "db_users (revoke_where P m r db) = db_users db"
  "db_audit (revoke_where P m r db) = db_audit db"
  by (simp_all add: audit_def set_user_def record_login_success_def record_login_failure_def
      revoke_where_def revoke_rows_def)

lemma db_tokens_register_failure [simp]: "db_tokens (register_failure E c u db) = db_tokens db"
  by (simp add: register_failure_def Let_def)

lemma db_tokens_revoke [simp]:
  "db_tokens (snd (revoke_family f m r db)) = revoke_rows (\<lambda>t. rt_family_id t = f) m r (db_tokens db)"
  "db_tokens (revoke i m r db) = revoke_rows (\<lambda>t. rt_id t = i) m r (db_tokens db)"
  "db_users (revoke i m r db) = db_users db"
  by (simp_all add: revoke_family_def revoke_def)

text \<open>The row \<open>issue_session\<close> inserts.\<close>

definition issued_row :: "auth_env \<Rightarrow> auth_call \<Rightarrow> user \<Rightarrow> string \<Rightarrow> refresh_token list \<Rightarrow> refresh_token" where
  "issued_row E c u family_id ts = \<lparr>rt_id = next_id (map rt_id ts), rt_user_id = us_id u,
     rt_token_hash = av_sha256 E (ac_refresh_raw c), rt_family_id = family_id,
     rt_expires_at = refresh_expiry (av_tokens E) (ac_now c), rt_revoked_at = None,
     rt_revoked_reason = None, rt_user_agent = clip_agent (ac_agent c), rt_ip_address = ac_ip c,
     rt_created_at = ac_now c\<rparr>"

lemma issue_session_cases:
  assumes "issue_session E c u f db = (out, db')"
  obtains (collision) "av_sha256 E (ac_refresh_raw c) \<in> rt_token_hash ` set (db_tokens db)"
      "out = Inl (App_Internal ''IntegrityError'')" "db' = db"
  | (issued) s where "av_sha256 E (ac_refresh_raw c) \<notin> rt_token_hash ` set (db_tokens db)"
      "out = Inr s" "is_refresh_token s = ac_refresh_raw c" "is_family_id s = f"
      "is_refresh_expires_at s = refresh_expiry (av_tokens E) (ac_now c)"
      "db_tokens db' = db_tokens db @ [issued_row E c u f (db_tokens db)]"
      "db_users db' = db_users db" "db_audit db' = db_audit db"
  using assms
  by (auto simp: issue_session_def create_access_token_def token_create_def issued_row_def Let_def
      split: if_splits)

lemma fresh_issued_row:
  "av_sha256 E (ac_refresh_raw c) \<notin> rt_token_hash ` set ts \<Longrightarrow> fresh_row ts (issued_row E c u f ts)"
  using next_id_fresh [of "map rt_id ts"] by (simp add: fresh_row_def issued_row_def live_def)

lemma token_move_used: "token_move used ts used' ts' \<Longrightarrow> used \<subseteq> used'"
  by (induction rule: token_move.induct) auto

lemma get_session_move:
  "token_move used (db_tokens db) used' (db_tokens (snd out)) \<Longrightarrow>
   token_move used (db_tokens db) used' (db_tokens (snd (get_session out db)))"
  by (cases out; cases "fst out") (auto intro: token_move.stay dest: token_move_used)

lemma login_moves:
  assumes fresh: "ac_family c \<notin> used" and out: "login E c username password l db = ((out, db'), l')"
  shows "token_move used (db_tokens db) (insert (ac_family c) used) (db_tokens db')"
proof -
  have stay: "token_move used ts (insert (ac_family c) used) ts" for ts
    by (rule token_move.stay) auto
  have user: "token_move used (db_tokens db) (insert (ac_family c) used)
      (db_tokens (snd (fst (login_user E c u key password l1 db))))" for u key l1
  proof -
    let ?issue = "\<lambda>db3. issue_session E c u (ac_family c) db3"
    have issue: "token_move used (db_tokens db3) (insert (ac_family c) used) (db_tokens (snd (?issue db3)))" for db3
    proof (cases "?issue db3")
      case (Pair o1 d)
      then show ?thesis
      proof (cases rule: issue_session_cases)
        case collision
        then show ?thesis using Pair stay by simp
      next
        case (issued s)
        have "token_move used (db_tokens db3) (insert (rt_family_id (issued_row E c u (ac_family c) (db_tokens db3))) used)
            (db_tokens db3 @ [issued_row E c u (ac_family c) (db_tokens db3)])"
          using fresh issued(1) by (intro token_move.start_family fresh_issued_row) (auto simp: issued_row_def)
        then show ?thesis using Pair issued by (simp add: issued_row_def)
      qed
    qed
    show ?thesis
      using issue [of "audit (audit_of c LOGIN_SUCCESS AR_SUCCESS (Some u) None)
         (record_login_success (us_id u) (ac_now c) (ac_ip c)
            (if needs_rehash (av_hasher E) (us_password_hash u)
             then set_user (us_id u) (\<lambda>v. v\<lparr>us_password_hash := ha_hash (av_hasher E) (ac_salt c) password\<rparr>) db
             else db))"]
      by (auto simp: login_user_def Let_def stay)
  qed
  show ?thesis
    using out stay user
    by (auto simp: login_def Let_def split: prod.splits option.splits if_splits) (metis fst_conv snd_conv)
qed

lemma refresh_moves:
  assumes "refresh E c raw db = (out, db')"
  shows "token_move used (db_tokens db) used (db_tokens db')"
proof (cases "get_by_hash db (av_sha256 E raw)")
  case None
  with assms show ?thesis by (auto simp: refresh_def intro: token_move.stay)
next
  case (Some stored)
  then have stored: "stored \<in> set (db_tokens db)"
    unfolding get_by_hash_def by (blast dest: find_Some_mem)
  show ?thesis
  proof (cases "\<exists>u. rt_revoked_at stored = None \<and> \<not> rt_expires_at stored \<le> ac_now c
      \<and> user_get (db_users db) (rt_user_id stored) = Some u \<and> us_is_active u")
    case False
    with assms Some show ?thesis
      by (auto simp: refresh_def Let_def revoke_family_def split: option.splits if_splits
          intro: token_move.revoking token_move.stay)
  next
    case True
    then obtain u where u: "rt_revoked_at stored = None" "\<not> rt_expires_at stored \<le> ac_now c"
      "user_get (db_users db) (rt_user_id stored) = Some u" "us_is_active u" by blast
    let ?db = "audit (audit_of c TOKEN_REFRESH AR_SUCCESS (Some u) None)
                    (revoke (rt_id stored) (ac_now c) ''rotated'' db)"
    have out: "issue_session E c u (rt_family_id stored) ?db = (out, db')"
      using assms Some u by (simp add: refresh_def)
    then show ?thesis
    proof (cases rule: issue_session_cases)
      case collision
      then show ?thesis by (auto intro: token_move.revoking)
    next
      case (issued s)
      have "fresh_row (db_tokens ?db) (issued_row E c u (rt_family_id stored) (db_tokens ?db))"
        using issued(1) by (rule fresh_issued_row)
      then have "fresh_row (db_tokens db) (issued_row E c u (rt_family_id stored) (db_tokens ?db))"
        by (simp add: fresh_row_def)
      then show ?thesis
        using issued stored u token_move.rotating [of stored "db_tokens db"]
        by (simp add: live_def issued_row_def)
    qed
  qed
qed

lemma logout_moves: "token_move used (db_tokens db) used (db_tokens (snd (logout E c raw db)))"
  by (auto simp: logout_def intro: token_move.stay token_move.revoking split: option.splits)

lemma change_password_moves:
  "token_move used (db_tokens db) used (db_tokens (snd (change_password E c u old new db)))"
  by (auto simp: change_password_def Let_def revoke_all_for_user_def
      intro: token_move.stay token_move.revoking)

lemma revoke_session_moves:
  "token_move used (db_tokens db) used (db_tokens (snd (revoke_session c uid sid db)))"
  by (auto simp: revoke_session_def intro: token_move.stay token_move.revoking split: option.splits)

lemma bootstrap_moves:
  "token_move used (db_tokens db) used (db_tokens (snd (ensure_bootstrap_admin E c db)))"
  by (auto simp: ensure_bootstrap_admin_def user_create_def Let_def intro: token_move.stay split: option.splits)

text \<open>One request of a client. The state is the database, the limiter and the families drawn so far.\<close>

inductive auth_step :: "auth_env \<Rightarrow> auth_db \<times> limiter \<times> string set \<Rightarrow> auth_db \<times> limiter \<times> string set \<Rightarrow> bool"
  for E where
  s_login: "ac_family c \<notin> used \<Longrightarrow> login_endpoint E c username password l db = ((out, db'), l') \<Longrightarrow>
    auth_step E (db, l, used) (db', l', insert (ac_family c) used)"
| s_refresh: "refresh_endpoint E c csrf header cookie db = (out, db') \<Longrightarrow>
    auth_step E (db, l, used) (db', l, used)"
| s_logout: "logout_endpoint E c csrf header cookie db = (out, db') \<Longrightarrow>
    auth_step E (db, l, used) (db', l, used)"
| s_change_password: "change_password_endpoint E c bearer old new db = (out, db') \<Longrightarrow>
    auth_step E (db, l, used) (db', l, used)"
| s_revoke_session: "revoke_session_endpoint E c bearer sid db = (out, db') \<Longrightarrow>
    auth_step E (db, l, used) (db', l, used)"

inductive auth_steps :: "auth_env \<Rightarrow> auth_db \<times> limiter \<times> string set \<Rightarrow> auth_db \<times> limiter \<times> string set \<Rightarrow> bool"
  for E where
  none: "auth_steps E w w"
| more: "auth_steps E w w' \<Longrightarrow> auth_step E w' w'' \<Longrightarrow> auth_steps E w w''"

inductive_cases auth_stepE: "auth_step E w w'"

definition tokens_of :: "auth_db \<times> limiter \<times> string set \<Rightarrow> refresh_token list" where
  "tokens_of w = db_tokens (fst w)"

definition used_of :: "auth_db \<times> limiter \<times> string set \<Rightarrow> string set" where
  "used_of w = snd (snd w)"

lemma tokens_of_simps [simp]: "tokens_of (db, l, used) = db_tokens db" "used_of (db, l, used) = used"
  by (simp_all add: tokens_of_def used_of_def)

lemma scope_move:
  assumes "get_session out db = (r, db')" "token_move used (db_tokens db) used' (db_tokens (snd out))"
  shows "token_move used (db_tokens db) used' (db_tokens db')"
  using get_session_move [OF assms(2)] assms(1) by simp

lemma auth_step_moves: "auth_step E w w' \<Longrightarrow> token_move (used_of w) (tokens_of w) (used_of w') (tokens_of w')"
proof (induction rule: auth_step.induct)
  case (s_login c used username password l db out db' l')
  obtain o1 d1 l1 where l: "login E c username password l db = ((o1, d1), l1)"
    by (metis prod.exhaust)
  with s_login(2) have "get_session (o1, d1) db = (out, db')"
    by (simp add: login_endpoint_def)
  from scope_move [OF this] login_moves [OF s_login(1) l] show ?case by simp
next
  case (s_refresh c csrf header cookie db out db' l used)
  have "token_move used (db_tokens db) used (db_tokens (snd (refresh E c raw db)))" for raw
    using refresh_moves by (metis prod.collapse)
  with s_refresh show ?case
    unfolding refresh_endpoint_def tokens_of_simps
    by (elim scope_move) (auto intro: token_move.stay split: sum.splits option.splits)
next
  case (s_logout c csrf header cookie db out db' l used)
  then show ?case
    unfolding logout_endpoint_def tokens_of_simps
    by (elim scope_move) (auto intro: token_move.stay logout_moves split: sum.splits)
next
  case (s_change_password c bearer old new db out db' l used)
  then show ?case
    unfolding change_password_endpoint_def tokens_of_simps
    by (elim scope_move) (auto intro: token_move.stay change_password_moves split: sum.splits)
next
  case (s_revoke_session c bearer sid db out db' l used)
  then show ?case
    unfolding revoke_session_endpoint_def tokens_of_simps
    by (elim scope_move) (auto intro: token_move.stay revoke_session_moves split: sum.splits)
qed

lemma auth_steps_wf: "auth_steps E w w' \<Longrightarrow> tokens_wf (used_of w) (tokens_of w) \<Longrightarrow> tokens_wf (used_of w') (tokens_of w')"
  by (induction rule: auth_steps.induct) (auto intro: token_move_wf auth_step_moves)

lemma auth_steps_dead:
  "auth_steps E w w' \<Longrightarrow> live_in f (tokens_of w) = [] \<Longrightarrow> f \<in> used_of w \<Longrightarrow>
   live_in f (tokens_of w') = [] \<and> f \<in> used_of w'"
  by (induction rule: auth_steps.induct) (auto dest: token_move_dead [OF auth_step_moves])

lemma auth_steps_keeps:
  "auth_steps E w w' \<Longrightarrow> t \<in> set (tokens_of w) \<Longrightarrow>
   \<exists>t' \<in> set (tokens_of w'). rt_token_hash t' = rt_token_hash t \<and> rt_family_id t' = rt_family_id t"
proof (induction rule: auth_steps.induct)
  case (more w w' w'')
  then show ?case using token_move_keeps [OF auth_step_moves] by metis
qed auto

section \<open>Revoked tokens stay refused\<close>

lemma token_move_revoked:
  "token_move used ts used' ts' \<Longrightarrow> t \<in> set ts \<Longrightarrow> \<not> live t \<Longrightarrow>
   \<exists>t' \<in> set ts'. rt_token_hash t' = rt_token_hash t \<and> \<not> live t'"
proof (induction rule: token_move.induct)
  have *: "t \<in> set ts \<Longrightarrow> \<not> live t \<Longrightarrow>
      \<exists>t' \<in> set (revoke_rows P m r ts). rt_token_hash t' = rt_token_hash t \<and> \<not> live t'" for P m r ts
    by (induction ts) (auto simp: revoke_rows_def live_def)
  {
    case (revoking used ts P moment reason)
    then show ?case using * by blast
  next
    case (rotating t0 ts t' used moment reason)
    then show ?case using * [of ts "\<lambda>x. rt_id x = rt_id t0" moment reason] by auto
  }
qed auto

lemma auth_steps_revoked:
  "auth_steps E w w' \<Longrightarrow> t \<in> set (tokens_of w) \<Longrightarrow> \<not> live t \<Longrightarrow>
   \<exists>t' \<in> set (tokens_of w'). rt_token_hash t' = rt_token_hash t \<and> \<not> live t'"
proof (induction rule: auth_steps.induct)
  case (more w w' w'')
  then show ?case using token_move_revoked [OF auth_step_moves] by metis
qed auto

lemma get_by_hash_mem:
  "distinct (map rt_token_hash (db_tokens db)) \<Longrightarrow> t \<in> set (db_tokens db) \<Longrightarrow>
   get_by_hash db (rt_token_hash t) = Some t"
proof -
  assume d: "distinct (map rt_token_hash (db_tokens db))" and t: "t \<in> set (db_tokens db)"
  have "find (\<lambda>x. rt_token_hash x = rt_token_hash t) (db_tokens db) \<noteq> None"
    using t find_None_notin by fastforce
  then obtain s where s: "find (\<lambda>x. rt_token_hash x = rt_token_hash t) (db_tokens db) = Some s" by blast
  then have "s = t" using find_Some_mem [OF s] t d by (auto dest: distinct_key_eq)
  with s show ?thesis by (simp add: get_by_hash_def)
qed

lemma refresh_refuses_revoked:
  assumes "get_by_hash db (av_sha256 E raw) = Some t" "\<not> live t"
  shows "\<exists>e. fst (refresh_endpoint E c csrf header (Some raw) db) = Inl e"
  using assms
  by (auto simp: refresh_endpoint_def refresh_def live_def split: sum.splits prod.splits)

definition first_state :: "auth_db \<Rightarrow> bool" where
  "first_state db = (db_tokens db = [])"

lemma reached_wf:
  "first_state db0 \<Longrightarrow> auth_steps E (db0, l0, {}) (db, l, used) \<Longrightarrow> tokens_wf used (db_tokens db)"
  using auth_steps_wf [of E "(db0, l0, {})" "(db, l, used)"]
  by (simp add: first_state_def tokens_wf_def live_in_def)

lemma later_wf:
  "tokens_wf used (db_tokens db) \<Longrightarrow> auth_steps E (db, l, used) (db', l', used') \<Longrightarrow>
   tokens_wf used' (db_tokens db')"
  using auth_steps_wf [of E "(db, l, used)" "(db', l', used')"] by simp

lemma revoked_stays_refused:
  assumes wf: "tokens_wf used (db_tokens db)" and steps: "auth_steps E (db, l, used) (db', l', used')"
    and t: "t \<in> set (db_tokens db)" "\<not> live t" "rt_token_hash t = av_sha256 E raw"
  shows "\<exists>e. fst (refresh_endpoint E c csrf header (Some raw) db') = Inl e"
proof -
  obtain t' where t': "t' \<in> set (db_tokens db')" "rt_token_hash t' = av_sha256 E raw" "\<not> live t'"
    using auth_steps_revoked [OF steps, of t] t by auto
  have "distinct (map rt_token_hash (db_tokens db'))"
    using later_wf [OF wf steps] by (simp add: tokens_wf_def)
  from get_by_hash_mem [OF this t'(1)] t' show ?thesis
    by (intro refresh_refuses_revoked) simp_all
qed

lemma dead_family_refused:
  assumes wf: "tokens_wf used (db_tokens db)" and steps: "auth_steps E (db, l, used) (db', l', used')"
    and dead: "live_in f (db_tokens db) = []" "f \<in> used"
    and t: "get_by_hash db' (av_sha256 E raw) = Some t" "rt_family_id t = f"
  shows "\<exists>e. fst (refresh_endpoint E c csrf header (Some raw) db') = Inl e"
proof -
  have "live_in f (db_tokens db') = []"
    using auth_steps_dead [OF steps] dead by simp
  moreover have "t \<in> set (db_tokens db')"
    using t(1) unfolding get_by_hash_def by (blast dest: find_Some_mem)
  ultimately have "\<not> live t" using t(2) by (auto simp: live_in_def filter_empty_conv)
  with t(1) show ?thesis by (rule refresh_refuses_revoked)
qed

text \<open>Presenting a revoked token, as one request.\<close>

lemma refresh_reuse:
  assumes "verify_csrf csrf header = Inr ()" "raw \<noteq> []"
    and "get_by_hash db (av_sha256 E raw) = Some stored" "rt_revoked_at stored \<noteq> None"
    and "refresh_endpoint E c csrf header (Some raw) db = (out, db1)"
  shows "out = Inl (App_AuthenticationFailed
        ''This session has been revoked because a token was reused. Sign in again.'')"
    and "db_tokens db1 = revoke_rows (\<lambda>t. rt_family_id t = rt_family_id stored) (ac_now c) ''reuse_detected'' (db_tokens db)"
    and "ae_action (last (db_audit db1)) = TOKEN_REUSE_DETECTED"
  using assms
  by (auto simp: refresh_endpoint_def refresh_def revoke_family_def audit_def record_audit_def
      audit_of_def audit_entry_def revoke_where_def revoke_rows_def)

lemma live_in_revoked_family: "live_in f (revoke_rows (\<lambda>t. rt_family_id t = f) m r ts) = []"
  by (simp add: live_in_revoke_rows) (auto simp: live_in_def filter_empty_conv)

lemma find_upd_where_other:
  "find P rows = Some r \<Longrightarrow> Q r \<Longrightarrow> (\<And>x. P (f x) \<longleftrightarrow> P x) \<Longrightarrow> find P (upd_where Q f rows) = Some (f r)"
  by (induction rows) (auto split: if_splits)

section \<open>A concrete environment\<close>

text \<open>A digest and a password hash that keep their argument, for the runs below.\<close>

definition demo_auth_env :: auth_env where
  "demo_auth_env = \<lparr>av_max_attempts = 2, av_lockout_base = 60, av_lockout_max = 3600,
     av_bootstrap_password = Some ''correct horse'', av_bootstrap_username = ''admin'',
     av_hasher = \<lparr>ha_hash = (\<lambda>salt p. p), ha_verify = (\<lambda>h p. if h = p then Verified else VerifyMismatch),
       ha_needs_rehash = (\<lambda>h. Some False)\<rparr>,
     av_sha256 = (\<lambda>s. ''#'' @ s),
     av_jwt = \<lparr>jl_encode = (\<lambda>p k a. ''jwt''),
       jl_decode = (\<lambda>t k a aud iss now. Inr [(''typ'', J_str ''access''), (''sub'', J_str ''1''),
          (''iat'', J_int 0), (''exp'', J_int 900)]), jl_str = (\<lambda>_. [])\<rparr>,
     av_tokens = \<lparr>ts_key = ''k'', ts_algorithm = ''HS256'', ts_issuer = ''i'', ts_audience = ''a'',
       ts_access_ttl = 900, ts_refresh_ttl = 604800\<rparr>\<rparr>"

definition demo_call :: "datetime \<Rightarrow> string \<Rightarrow> auth_call" where
  "demo_call now draw = \<lparr>ac_now = seconds now, ac_mono = of_int now, ac_ip = None, ac_agent = None,
     ac_jti = ''j'', ac_refresh_raw = draw, ac_csrf = ''x'', ac_family = draw, ac_salt = []\<rparr>"

definition demo_user :: user where
  "demo_user = \<lparr>us_id = 1, us_username = ''u'', us_email = None, us_password_hash = ''p'',
     us_role = ADMIN, us_is_active = True, us_must_change = False, us_failed = 1,
     us_locked_until = None, us_last_login_at = None, us_last_login_ip = None\<rparr>"

definition demo_db :: auth_db where
  "demo_db = \<lparr>db_users = [demo_user], db_tokens = [], db_audit = []\<rparr>"

definition demo_signed_in :: auth_db where
  "demo_signed_in = snd (fst (login_endpoint demo_auth_env (demo_call 1 ''r1'') ''u'' ''p'' (new_limiter 5 900 10) demo_db))"

definition demo_limiter :: limiter where
  "demo_limiter = snd (login_endpoint demo_auth_env (demo_call 1 ''r1'') ''u'' ''p'' (new_limiter 5 900 10) demo_db)"

definition demo_refreshed :: auth_db where
  "demo_refreshed = snd (refresh_endpoint demo_auth_env (demo_call 2 ''r2'') (Some ''x'') (Some ''x'') (Some ''r1'') demo_signed_in)"

definition demo_burned :: auth_db where
  "demo_burned = snd (refresh_endpoint demo_auth_env (demo_call 3 ''r3'') (Some ''x'') (Some ''x'') (Some ''r1'') demo_refreshed)"

lemma step_result: "x = ((fst (fst x), snd (fst x)), snd x)"
  by simp

lemma demo_step1:
  "auth_steps demo_auth_env (demo_db, new_limiter 5 900 10, {}) (demo_signed_in, demo_limiter, {''r1''})"
proof -
  have "auth_step demo_auth_env (demo_db, new_limiter 5 900 10, {})
      (demo_signed_in, demo_limiter, insert (ac_family (demo_call 1 ''r1'')) {})"
    unfolding demo_signed_in_def demo_limiter_def by (rule s_login [OF _ step_result]) simp
  then show ?thesis
    using auth_steps.more [OF auth_steps.none] by (simp add: demo_call_def)
qed

lemma demo_step2:
  "auth_steps demo_auth_env (demo_db, new_limiter 5 900 10, {}) (demo_refreshed, demo_limiter, {''r1''})"
proof (rule auth_steps.more [OF demo_step1])
  show "auth_step demo_auth_env (demo_signed_in, demo_limiter, {''r1''}) (demo_refreshed, demo_limiter, {''r1''})"
    unfolding demo_refreshed_def by (rule s_refresh) (rule prod.collapse [symmetric])
qed

lemma char_code_simps [simp]:
  "code (CHR ''x'') = 120" "code (CHR ''u'') = 117" "code (CHR ''p'') = 112"
  by (simp_all add: code_def)

lemma demo_csrf: "verify_csrf (Some ''x'') (Some ''x'') = Inr ()"
  by (simp add: verify_csrf_def csrf_tokens_match_def)

lemma demo_name: "normalise_username ''u'' = ''u''"
  by (simp add: normalise_username_def py_casefold_def py_strip_def strip_of_def rstrip_of_def
      lstrip_of_def py_isspace_def lower_char_def is_upper_def)

lemma demo_signed_in_tokens: "db_tokens demo_signed_in =
  [issued_row demo_auth_env (demo_call 1 ''r1'') demo_user ''r1'' []]"
  by (simp add: demo_signed_in_def login_endpoint_def login_def login_user_def demo_name check_def
      live_hits_def new_limiter_def demo_db_def get_by_username_def demo_user_def verify_password_def
      demo_auth_env_def needs_rehash_def issue_session_def token_create_def demo_call_def issued_row_def
      create_access_token_def Let_def)

lemma demo_refreshed_tokens: "map (\<lambda>t. (rt_token_hash t, rt_family_id t, live t)) (db_tokens demo_refreshed) =
    [(''#r1'', ''r1'', False), (''#r2'', ''r1'', True)]"
  and demo_refreshed_lookup: "map_option (\<lambda>t. (rt_family_id t, live t)) (get_by_hash demo_refreshed ''#r1'') = Some (''r1'', False)"
proof -
  have users: "db_users demo_signed_in = [demo_user\<lparr>us_failed := 0, us_last_login_at := Some (seconds 1)\<rparr>]"
    by (simp add: demo_signed_in_def login_endpoint_def login_def login_user_def demo_name check_def
      live_hits_def new_limiter_def demo_db_def get_by_username_def demo_user_def verify_password_def
      demo_auth_env_def needs_rehash_def issue_session_def token_create_def demo_call_def
      create_access_token_def record_login_success_def set_user_def Let_def)
  have "db_tokens demo_refreshed = revoke_rows (\<lambda>x. rt_id x = 1) (seconds 2) ''rotated'' (db_tokens demo_signed_in)
      @ [issued_row demo_auth_env (demo_call 2 ''r2'') demo_user ''r1'' (db_tokens demo_signed_in)]"
    by (simp add: demo_refreshed_def refresh_endpoint_def demo_csrf refresh_def get_by_hash_def
        demo_signed_in_tokens issued_row_def demo_auth_env_def users user_get_def demo_user_def demo_call_def
        refresh_expiry_def seconds_def issue_session_def token_create_def create_access_token_def
        next_id_def Let_def revoke_def revoke_rows_def audit_def revoke_where_def)
  then show "map (\<lambda>t. (rt_token_hash t, rt_family_id t, live t)) (db_tokens demo_refreshed) =
    [(''#r1'', ''r1'', False), (''#r2'', ''r1'', True)]"
    and "map_option (\<lambda>t. (rt_family_id t, live t)) (get_by_hash demo_refreshed ''#r1'') = Some (''r1'', False)"
    by (simp_all add: demo_signed_in_tokens issued_row_def demo_auth_env_def demo_call_def next_id_def
        revoke_rows_def live_def get_by_hash_def)
qed

lemma not_ok: "\<exists>e. m = Inl e \<Longrightarrow> is_ok m = False"
  by auto

lemma demo_signed_in_users:
  "db_users demo_signed_in = [demo_user\<lparr>us_failed := 0, us_last_login_at := Some (seconds 1)\<rparr>]"
  by (simp add: demo_signed_in_def login_endpoint_def login_def login_user_def demo_name check_def
    live_hits_def new_limiter_def demo_db_def get_by_username_def demo_user_def verify_password_def
    demo_auth_env_def needs_rehash_def issue_session_def token_create_def demo_call_def
    create_access_token_def record_login_success_def set_user_def Let_def)

lemma demo_claim: "py_int ''1'' = Some 1"
  by (simp add: py_int_def split_sign_def py_strip_def strip_of_def rstrip_of_def lstrip_of_def
      py_isspace_def py_nat_text_def digit_groups_def is_digit_def drop_underscores_def digit_val_def code_def)

lemma demo_bearer: "partition_on (CHR '' '') ''Bearer t'' = Some (''Bearer'', ''t'')" "py_lower ''Bearer'' = ''bearer''"
  by (simp_all add: partition_on_def py_lower_def lower_char_def is_upper_def code_def char_of_def bit_0)

lemma demo_current_user:
  "get_current_user demo_auth_env (demo_call 5 ''r5'') ''Bearer t'' demo_signed_in =
    Inr (demo_user\<lparr>us_failed := 0, us_last_login_at := Some (seconds 1)\<rparr>)"
  by (simp add: get_current_user_def demo_bearer decode_access_token_def demo_auth_env_def demo_claim
      user_get_def demo_signed_in_users demo_user_def)

section \<open>Properties\<close>

text \<open>
  C27. Every request the dashboard answers moves the session table by its contract: it revokes rows,
  replaces one live token by a successor of the same family, or opens a family never used before.
\<close>

theorem requests_implement_session_contract:
  assumes "auth_step E (db, l, used) (db', l', used')"
  shows "token_move used (db_tokens db) used' (db_tokens db')"
  using auth_step_moves [OF assms] by simp

theorem requests_implement_session_contract_witness:
  "token_move {''r1''} (db_tokens demo_signed_in) {''r1''} (db_tokens demo_refreshed)"
proof (rule requests_implement_session_contract)
  show "auth_step demo_auth_env (demo_signed_in, demo_limiter, {''r1''}) (demo_refreshed, demo_limiter, {''r1''})"
    unfolding demo_refreshed_def by (rule s_refresh) (rule prod.collapse [symmetric])
qed

text \<open>
  C26. After any sequence of sign-ins, refreshes, sign-outs, password changes and revocations a
  family has at most one token that is not revoked, and no two tokens share a digest.
\<close>

theorem family_has_one_live_token:
  assumes "first_state db0" "auth_steps E (db0, l0, {}) (db, l, used)"
  shows "length (filter (\<lambda>t. rt_family_id t = f \<and> rt_revoked_at t = None) (db_tokens db)) \<le> 1
    \<and> distinct (map rt_token_hash (db_tokens db))"
  using reached_wf [OF assms] by (simp add: tokens_wf_def live_in_def live_def)

theorem family_has_one_live_token_witness:
  "length (filter (\<lambda>t. rt_family_id t = ''r1'' \<and> rt_revoked_at t = None) (db_tokens demo_refreshed)) \<le> 1
    \<and> distinct (map rt_token_hash (db_tokens demo_refreshed))"
  by (rule family_has_one_live_token [OF _ demo_step2]) (simp add: first_state_def demo_db_def)

text \<open>
  C25. Presenting a token that was already rotated burns its session: the request is refused, the
  reuse is in the audit trail although the request failed, and from then on every refresh with any
  token of that family is refused, whatever requests come in between.
\<close>

theorem reused_token_burns_its_session:
  assumes "first_state db0" "auth_steps E (db0, l0, {}) (db, l, used)"
    and "get_by_hash db (av_sha256 E raw) = Some stored" "rt_revoked_at stored \<noteq> None"
    and "verify_csrf csrf header = Inr ()" "raw \<noteq> []"
    and "refresh_endpoint E c csrf header (Some raw) db = (out, db1)"
    and "auth_steps E (db1, l, used) (db2, l2, used2)"
    and "get_by_hash db2 (av_sha256 E raw2) = Some stored2" "rt_family_id stored2 = rt_family_id stored"
  shows "is_ok out = False \<and> ae_action (last (db_audit db1)) = TOKEN_REUSE_DETECTED
    \<and> is_ok (fst (refresh_endpoint E c2 csrf2 header2 (Some raw2) db2)) = False"
proof -
  note reuse = refresh_reuse [OF assms(5,6,3,4,7)]
  have wf: "tokens_wf used (db_tokens db)" using assms(1,2) by (rule reached_wf)
  have "auth_steps E (db, l, used) (db1, l, used)"
    using assms(7) by (intro auth_steps.more [OF auth_steps.none] s_refresh)
  then have wf1: "tokens_wf used (db_tokens db1)" using later_wf [OF wf] by blast
  have dead: "live_in (rt_family_id stored) (db_tokens db1) = []"
    by (simp add: reuse(2) live_in_revoked_family)
  have "stored \<in> set (db_tokens db)"
    using assms(3) unfolding get_by_hash_def by (blast dest: find_Some_mem)
  then have "rt_family_id stored \<in> used" using wf by (auto simp: tokens_wf_def)
  from dead_family_refused [OF wf1 assms(8) dead this assms(9,10)]
  have "is_ok (fst (refresh_endpoint E c2 csrf2 header2 (Some raw2) db2)) = False"
    by (rule not_ok)
  with reuse(1,3) show ?thesis by simp
qed

theorem reused_token_burns_its_session_witness:
  "is_ok (fst (refresh_endpoint demo_auth_env (demo_call 4 ''r4'') (Some ''x'') (Some ''x'') (Some ''r1'') demo_burned)) = False"
proof -
  obtain stored where s: "get_by_hash demo_refreshed (av_sha256 demo_auth_env ''r1'') = Some stored"
    "rt_revoked_at stored \<noteq> None" "rt_family_id stored = ''r1''"
    using demo_refreshed_lookup by (auto simp: demo_auth_env_def live_def)
  have out: "refresh_endpoint demo_auth_env (demo_call 3 ''r3'') (Some ''x'') (Some ''x'') (Some ''r1'') demo_refreshed
      = (fst (refresh_endpoint demo_auth_env (demo_call 3 ''r3'') (Some ''x'') (Some ''x'') (Some ''r1'') demo_refreshed), demo_burned)"
    by (simp add: demo_burned_def)
  have first: "first_state demo_db" by (simp add: first_state_def demo_db_def)
  have ne: "''r1'' \<noteq> []" by simp
  have burned: "db_tokens demo_burned =
      revoke_rows (\<lambda>t. rt_family_id t = ''r1'') (seconds 3) ''reuse_detected'' (db_tokens demo_refreshed)"
    using refresh_reuse(2) [OF demo_csrf ne s(1,2) out] s(3) by (simp add: demo_call_def)
  have "map rt_token_hash (db_tokens demo_refreshed) = [''#r1'', ''#r2'']"
    and "map rt_family_id (db_tokens demo_refreshed) = [''r1'', ''r1'']"
    using demo_refreshed_tokens by (auto simp: map_eq_Cons_conv)
  then have hs: "map rt_token_hash (db_tokens demo_burned) = [''#r1'', ''#r2'']"
    and fs: "map rt_family_id (db_tokens demo_burned) = [''r1'', ''r1'']"
    by (simp_all add: burned)
  then obtain stored2 where s2: "get_by_hash demo_burned (av_sha256 demo_auth_env ''r1'') = Some stored2"
      "rt_family_id stored2 = rt_family_id stored"
    using s(3) by (auto simp: get_by_hash_def map_eq_Cons_conv demo_auth_env_def)
  show ?thesis
    using reused_token_burns_its_session [OF first demo_step2 s(1,2) demo_csrf ne out auth_steps.none s2]
    by simp
qed

text \<open>
  A password change ends every session of the account: a refresh token issued to the account
  before the change is refused in every later state.
\<close>

theorem password_change_ends_sessions:
  assumes "first_state db0" "auth_steps E (db0, l0, {}) (db, l, used)"
    and "get_current_user E c bearer db = Inr u"
    and "change_password_endpoint E c bearer old new db = (Inr (), db1)"
    and "t \<in> set (db_tokens db)" "rt_user_id t = us_id u" "rt_token_hash t = av_sha256 E raw"
    and "auth_steps E (db1, l, used) (db2, l2, used2)"
  shows "is_ok (fst (refresh_endpoint E c2 csrf header (Some raw) db2)) = False"
proof -
  have wf: "tokens_wf used (db_tokens db)" using assms(1,2) by (rule reached_wf)
  have "auth_steps E (db, l, used) (db1, l, used)"
    using assms(4) by (intro auth_steps.more [OF auth_steps.none] s_change_password)
  then have wf1: "tokens_wf used (db_tokens db1)" using later_wf [OF wf] by blast
  have "db_tokens db1 = revoke_rows (\<lambda>t. rt_user_id t = us_id u) (ac_now c) ''password_changed'' (db_tokens db)"
    using assms(3,4)
    by (auto simp: change_password_endpoint_def change_password_def revoke_all_for_user_def Let_def
        split: if_splits)
  moreover have "\<exists>t' \<in> set (revoke_rows (\<lambda>t. rt_user_id t = us_id u) m r (db_tokens db)).
      \<not> live t' \<and> rt_token_hash t' = av_sha256 E raw" for m r
  proof -
    let ?f = "\<lambda>x. if rt_user_id x = us_id u \<and> rt_revoked_at x = None
      then x\<lparr>rt_revoked_at := Some m, rt_revoked_reason := Some r\<rparr> else x"
    have "?f t \<in> set (revoke_rows (\<lambda>t. rt_user_id t = us_id u) m r (db_tokens db))"
      using assms(5) unfolding revoke_rows_def set_upd_where by (rule imageI)
    moreover have "\<not> live (?f t)" "rt_token_hash (?f t) = av_sha256 E raw"
      using assms(6,7) by (auto simp: live_def)
    ultimately show ?thesis by blast
  qed
  ultimately obtain t' where t': "t' \<in> set (db_tokens db1)" "\<not> live t'" "rt_token_hash t' = av_sha256 E raw"
    by metis
  from revoked_stays_refused [OF wf1 assms(8) t'] show ?thesis
    by (rule not_ok)
qed

theorem password_change_ends_sessions_witness:
  "is_ok (fst (refresh_endpoint demo_auth_env (demo_call 6 ''r6'') (Some ''x'') (Some ''x'') (Some ''r1'')
    (snd (change_password_endpoint demo_auth_env (demo_call 5 ''r5'') ''Bearer t'' ''p'' ''a much longer one'' demo_signed_in)))) = False"
proof (rule password_change_ends_sessions [OF _ demo_step1 demo_current_user _ _ _ _ auth_steps.none])
  show "first_state demo_db" by (simp add: first_state_def demo_db_def)
  have "fst (change_password_endpoint demo_auth_env (demo_call 5 ''r5'') ''Bearer t'' ''p'' ''a much longer one'' demo_signed_in) = Inr ()"
    unfolding change_password_endpoint_def demo_current_user
    by (simp add: change_password_def verify_password_def
        demo_auth_env_def demo_user_def MIN_PASSWORD_LENGTH_def Let_def split: prod.split)
  then show "change_password_endpoint demo_auth_env (demo_call 5 ''r5'') ''Bearer t'' ''p'' ''a much longer one'' demo_signed_in =
      (Inr (), snd (change_password_endpoint demo_auth_env (demo_call 5 ''r5'') ''Bearer t'' ''p'' ''a much longer one'' demo_signed_in))"
    by (metis prod.collapse)
  show "issued_row demo_auth_env (demo_call 1 ''r1'') demo_user ''r1'' [] \<in> set (db_tokens demo_signed_in)"
    by (simp add: demo_signed_in_tokens)
qed (simp_all add: issued_row_def demo_user_def demo_call_def)

section \<open>Sign-in properties\<close>

lemma py_int_show_nat: "py_int (show_nat n) = Some (int n)"
proof -
  have dig: "is_digit x \<Longrightarrow> \<not> py_isspace x \<and> x \<noteq> CHR ''-'' \<and> x \<noteq> CHR ''+'' \<and> x \<noteq> CHR ''_''" for x
    by (auto simp: is_digit_def py_isspace_def code_def)
  have all: "x \<in> set (show_nat n) \<Longrightarrow> is_digit x" for x
    using show_nat_digits [of n] by (simp add: list_all_iff)
  have "py_strip (show_nat n) = show_nat n"
    unfolding py_strip_def using all dig by (intro strip_of_id) simp
  moreover have "split_sign (show_nat n) = (False, show_nat n)"
    using all [of "hd (show_nat n)"] dig by (cases "show_nat n") (auto simp: split_sign_def)
  moreover have "CHR ''_'' \<notin> set (show_nat n)" using all dig by blast
  then have "split_on (CHR ''_'') (show_nat n) = [show_nat n]" "drop_underscores (show_nat n) = show_nat n"
    by (simp_all add: split_on_id drop_underscores_def filter_id_conv) blast
  ultimately show ?thesis
    by (simp add: py_int_def py_nat_text_def digit_groups_def show_nat_digits digits_val_show_nat)
qed

definition locked_at :: "user \<Rightarrow> datetime \<Rightarrow> bool" where
  "locked_at u now = (case us_locked_until u of None \<Rightarrow> False | Some until \<Rightarrow> until > now)"

lemma db_users_frame [simp]:
  "db_users (audit ev db) = db_users db"
  by (simp add: audit_def)

lemma issue_session_ok:
  "is_ok (fst (issue_session E c u f db)) \<longleftrightarrow>
   av_sha256 E (ac_refresh_raw c) \<notin> rt_token_hash ` set (db_tokens db)"
  by (simp add: issue_session_def create_access_token_def token_create_def Let_def)

lemma login_user_ok:
  "is_ok (fst (fst (login_user E c u key password l db))) \<longleftrightarrow>
    \<not> locked_at u (ac_now c) \<and> verify_password (av_hasher E) (us_password_hash u) password \<and> us_is_active u
    \<and> av_sha256 E (ac_refresh_raw c) \<notin> rt_token_hash ` set (db_tokens db)"
  by (auto simp: login_user_def locked_at_def Let_def issue_session_ok)

text \<open>
  C28. A sign-in is admitted exactly when the limiter lets the address and name through, the account
  exists, is not locked, its password verifies and it is active (and the drawn token is new); an
  unknown name and a wrong password get the same answer.
\<close>

theorem login_admits_iff:
  "(is_ok (fst (fst (login_endpoint E c username password l db))) \<longleftrightarrow>
     rd_allowed (fst (check l (limiter_key c (normalise_username username)) (ac_mono c)))
     \<and> (\<exists>u. get_by_username (db_users db) (normalise_username username) = Some u
        \<and> \<not> locked_at u (ac_now c) \<and> verify_password (av_hasher E) (us_password_hash u) password
        \<and> us_is_active u)
     \<and> av_sha256 E (ac_refresh_raw c) \<notin> rt_token_hash ` set (db_tokens db))
   \<and> (fst (fst (login_endpoint E c username password l db)) = Inl (App_AuthenticationFailed GENERIC_LOGIN_FAILURE) \<longleftrightarrow>
     rd_allowed (fst (check l (limiter_key c (normalise_username username)) (ac_mono c)))
     \<and> (case get_by_username (db_users db) (normalise_username username) of None \<Rightarrow> True
        | Some u \<Rightarrow> \<not> locked_at u (ac_now c) \<and> \<not> verify_password (av_hasher E) (us_password_hash u) password))"
  (is "?ok \<and> ?generic")
proof
  have issue: "fst (issue_session E c u f d) \<noteq> Inl (App_AuthenticationFailed GENERIC_LOGIN_FAILURE)" for u f d
    by (simp add: issue_session_def create_access_token_def token_create_def Let_def)
  have d: "''This account has been disabled.'' \<noteq> GENERIC_LOGIN_FAILURE"
    by (simp add: GENERIC_LOGIN_FAILURE_def)
  show ?ok
    by (simp add: login_endpoint_def login_def Let_def case_prod_beta login_user_ok split: option.split)
  show ?generic
    using issue d
    by (simp add: login_endpoint_def login_def login_user_def locked_at_def Let_def case_prod_beta
        split: option.split)
qed

lemma get_by_username_set_user:
  assumes "get_by_username us n = Some u" "\<And>x. us_username (f x) = us_username x"
  shows "get_by_username (upd_where (\<lambda>x. us_id x = us_id u) f us) n = Some (f u)"
  using assms unfolding get_by_username_def by (intro find_upd_where_other) auto

lemma wrong_password_counts:
  assumes "rd_allowed (fst (check l (limiter_key c (normalise_username username)) (ac_mono c)))"
    and u: "get_by_username (db_users db) (normalise_username username) = Some u" "\<not> locked_at u (ac_now c)"
    and "\<not> verify_password (av_hasher E) (us_password_hash u) password"
    and "login_endpoint E c username password l db = ((out, db'), l')"
  shows "get_by_username (db_users db') (normalise_username username) = Some (u\<lparr>us_failed := us_failed u + 1,
      us_locked_until := if av_max_attempts E \<le> us_failed u + 1
        then Some (ac_now c + seconds (lockout_duration_seconds (us_failed u + 1 - av_max_attempts E + 1)
               (av_lockout_base E) (av_lockout_max E))) else None\<rparr>)"
proof -
  have "db' = register_failure E c u db"
    using assms by (auto simp: login_endpoint_def login_def login_user_def locked_at_def Let_def split: prod.splits)
  then have "db_users db' = upd_where (\<lambda>x. us_id x = us_id u) (\<lambda>v. v\<lparr>us_failed := us_failed u + 1,
      us_locked_until := if av_max_attempts E \<le> us_failed u + 1
        then Some (ac_now c + seconds (lockout_duration_seconds (us_failed u + 1 - av_max_attempts E + 1)
               (av_lockout_base E) (av_lockout_max E))) else None\<rparr>) (db_users db)"
    by (simp add: register_failure_def record_login_failure_def set_user_def audit_def Let_def)
  then show ?thesis using get_by_username_set_user [OF u(1)] by simp
qed

text \<open>
  Lockout: the wrong password that makes the count of consecutive failures reach the limit
  locks the account, and until the lock runs out no sign-in is admitted, from any address and with
  any password, the right one included.
\<close>

theorem lockout_refuses_every_password:
  assumes "rd_allowed (fst (check l (limiter_key c (normalise_username username)) (ac_mono c)))"
    and "get_by_username (db_users db) (normalise_username username) = Some u" "\<not> locked_at u (ac_now c)"
    and "\<not> verify_password (av_hasher E) (us_password_hash u) password"
    and "av_max_attempts E \<le> us_failed u + 1"
    and "login_endpoint E c username password l db = ((out, db'), l')"
    and "ac_now c2 < ac_now c + seconds (lockout_duration_seconds (us_failed u + 1 - av_max_attempts E + 1)
               (av_lockout_base E) (av_lockout_max E))"
  shows "is_ok (fst (fst (login_endpoint E c2 username password2 l2 db'))) = False"
  using wrong_password_counts [OF assms(1-4,6)] assms(5,7) login_admits_iff [of E c2 username password2 l2 db']
  by (simp add: locked_at_def)

theorem lockout_refuses_every_password_witness:
  "is_ok (fst (fst (login_endpoint demo_auth_env (demo_call 59 ''r2'') ''u'' ''p'' (new_limiter 5 900 10)
     (snd (fst (login_endpoint demo_auth_env (demo_call 1 ''r1'') ''u'' ''q'' (new_limiter 5 900 10) demo_db)))))) = False"
proof (rule lockout_refuses_every_password [OF _ _ _ _ _ step_result])
  show "rd_allowed (fst (check (new_limiter 5 900 10) (limiter_key (demo_call 1 ''r1'') (normalise_username ''u''))
      (ac_mono (demo_call 1 ''r1''))))"
    by (simp add: check_def live_hits_def new_limiter_def Let_def)
  show "get_by_username (db_users demo_db) (normalise_username ''u'') = Some demo_user"
    by (simp add: demo_name get_by_username_def demo_db_def demo_user_def)
qed (simp_all add: locked_at_def demo_user_def verify_password_def demo_auth_env_def demo_call_def seconds_def
    lockout_duration_seconds_def Let_def)

text \<open>
  What PyJWT documents of the pair \<open>encode\<close> and \<open>decode\<close> with one key and algorithm, for payloads of
  distinct keys whose values are strings and integers: with the required claims present, the audience and
  the issuer the expected ones and \<open>iat\<close> and \<open>nbf\<close> not in the future, the payload comes back as long as
  \<open>exp\<close> lies ahead, and \<open>ExpiredSignatureError\<close> is raised from then on.
\<close>

definition flat_payload :: "claims_dict \<Rightarrow> bool" where
  "flat_payload p = (distinct (map fst p) \<and> list_all (\<lambda>kv. case snd kv of J_str _ \<Rightarrow> True | J_int _ \<Rightarrow> True | _ \<Rightarrow> False) p)"

definition pyjwt_law :: "jwt_lib \<Rightarrow> token_service \<Rightarrow> bool" where
  "pyjwt_law J ts = (\<forall>p sub jti iat nbf ex now. flat_payload p \<and> map_of p ''sub'' = Some (J_str sub)
     \<and> map_of p ''jti'' = Some (J_str jti) \<and> map_of p ''iat'' = Some (J_int iat) \<and> map_of p ''nbf'' = Some (J_int nbf)
     \<and> map_of p ''exp'' = Some (J_int ex) \<and> map_of p ''iss'' = Some (J_str (ts_issuer ts))
     \<and> map_of p ''aud'' = Some (J_str (ts_audience ts)) \<and> seconds iat \<le> now \<and> seconds nbf \<le> now \<longrightarrow>
     jl_decode J (jl_encode J p (ts_key ts) (ts_algorithm ts)) (ts_key ts) (ts_algorithm ts) (ts_audience ts) (ts_issuer ts) now
       = (if seconds ex \<le> now then Inl ExpiredSignature else Inr p))"

lemma whole_seconds_before: "0 \<le> t \<Longrightarrow> seconds (unix_seconds t) \<le> t"
proof -
  assume "0 \<le> t"
  then have "unix_seconds t = t div 1000000"
    by (simp add: unix_seconds_def trunc_rat_def) (metis floor_divide_of_int_eq of_int_numeral)
  then show ?thesis by (simp add: seconds_def)
qed

text \<open>
  C29. An access token carries its identity until it expires: at any moment from its creation to the
  whole second of its expiry, \<open>decode_access_token\<close> reads back what \<open>create_access_token\<close> stated, the two
  instants cut to whole seconds; from that second on it refuses the token as expired.
\<close>

theorem access_token_roundtrip:
  assumes "pyjwt_law J ts" and "\<And>x. jl_str J (J_str x) = x"
    and "create_access_token J ts user_id username role jti issued = (token, claims)"
    and "0 \<le> issued" "issued \<le> now"
  shows "decode_access_token J ts token now =
    (if seconds (unix_seconds (cl_expires_at claims)) \<le> now
     then Inl (App_AuthenticationFailed ''Access token has expired'')
     else Inr (claims\<lparr>cl_issued_at := seconds (unix_seconds (cl_issued_at claims)),
       cl_expires_at := seconds (unix_seconds (cl_expires_at claims))\<rparr>))"
proof -
  let ?p = "access_payload ts user_id username role jti issued"
  let ?e = "unix_seconds (issued + seconds (ts_access_ttl ts))"
  have "flat_payload ?p" by (simp add: flat_payload_def access_payload_def)
  moreover have "seconds (unix_seconds issued) \<le> now" using whole_seconds_before [OF assms(4)] assms(5) by linarith
  ultimately have "jl_decode J (jl_encode J ?p (ts_key ts) (ts_algorithm ts)) (ts_key ts) (ts_algorithm ts) (ts_audience ts)
      (ts_issuer ts) now = (if seconds ?e \<le> now then Inl ExpiredSignature else Inr ?p)"
    using assms(1) unfolding pyjwt_law_def by (simp add: access_payload_def)
  then show ?thesis
    using assms(2,3)
    by (auto simp: decode_access_token_def create_access_token_def access_payload_def claim_text_def py_int_show_nat)
qed

text \<open>A concrete library that obeys the law: strings framed by their length in unary, no signature.\<close>

definition frame :: "string \<Rightarrow> string" where
  "frame x = replicate (length x) CHR ''1'' @ CHR ''0'' # x"

definition unframe :: "string \<Rightarrow> string \<times> string" where
  "unframe t = (let n = length (takeWhile (\<lambda>c. c = CHR ''1'') t); r = drop (Suc n) t in (take n r, drop n r))"

lemma unframe_frame [simp]: "unframe (frame x @ t) = (x, t)"
proof -
  have "takeWhile (\<lambda>c. c = CHR ''1'') (replicate n CHR ''1'' @ CHR ''0'' # u) = replicate n CHR ''1''" for n u
    by (induction n) simp_all
  then show ?thesis by (simp add: unframe_def frame_def)
qed

fun frame_value :: "json \<Rightarrow> string" where
  "frame_value (J_str x) = CHR ''s'' # frame x"
| "frame_value (J_int i) = (if i < 0 then CHR ''-'' else CHR ''+'') # frame (replicate (nat \<bar>i\<bar>) CHR ''1'')"
| "frame_value _ = CHR ''n'' # frame []"

fun frame_claims :: "claims_dict \<Rightarrow> string" where
  "frame_claims [] = []"
| "frame_claims ((k, v) # p) = frame k @ frame_value v @ frame_claims p"

fun unframe_claims :: "nat \<Rightarrow> string \<Rightarrow> claims_dict" where
  "unframe_claims 0 t = []"
| "unframe_claims (Suc n) t = (if t = [] then [] else
     let (k, u) = unframe t; (x, r) = unframe (tl u) in
     (k, if hd u = CHR ''s'' then J_str x else if hd u = CHR ''-'' then J_int (- int (length x)) else J_int (int (length x)))
       # unframe_claims n r)"

lemma unframe_frame_claims:
  "list_all (\<lambda>kv. case snd kv of J_str _ \<Rightarrow> True | J_int _ \<Rightarrow> True | _ \<Rightarrow> False) p \<Longrightarrow> length p \<le> n
    \<Longrightarrow> unframe_claims n (frame_claims p) = p"
proof (induction p arbitrary: n)
  case Nil
  then show ?case by (cases n) simp_all
next
  case (Cons kv p)
  obtain k v where kv: "kv = (k, v)" by fastforce
  obtain m where n: "n = Suc m" using Cons.prems(2) by (cases n) simp_all
  have "frame k \<noteq> []" by (simp add: frame_def)
  then show ?case using Cons.IH [of m] Cons.prems by (cases v) (simp_all add: kv n)
qed

lemma frame_claims_length: "length p \<le> length (frame_claims p)"
  by (induction p rule: frame_claims.induct) (simp_all add: frame_def)

definition frame_jwt :: jwt_lib where
  "frame_jwt = \<lparr>jl_encode = (\<lambda>p k a. frame_claims p),
     jl_decode = (\<lambda>t k a aud iss now. let p = unframe_claims (length t) t in
       case map_of p ''exp'' of
         Some (J_int e) \<Rightarrow> if seconds e \<le> now then Inl ExpiredSignature else Inr p
       | _ \<Rightarrow> Inl InvalidToken),
     jl_str = (\<lambda>v. case v of J_str x \<Rightarrow> x | _ \<Rightarrow> [])\<rparr>"

lemma frame_jwt_law: "pyjwt_law frame_jwt ts"
proof -
  have "unframe_claims (length (frame_claims p)) (frame_claims p) = p" if "flat_payload p" for p
    using that frame_claims_length by (intro unframe_frame_claims) (simp_all add: flat_payload_def)
  then show ?thesis by (simp add: pyjwt_law_def frame_jwt_def Let_def)
qed

theorem access_token_roundtrip_witness:
  "let ts = av_tokens demo_auth_env; token = fst (create_access_token frame_jwt ts 7 ''u'' ''viewer'' ''j'' 1000000)
   in decode_access_token frame_jwt ts token 2000000 =
        Inr \<lparr>cl_user_id = 7, cl_username = ''u'', cl_role = ''viewer'', cl_jti = ''j'',
          cl_issued_at = seconds 1, cl_expires_at = seconds 901\<rparr>
      \<and> decode_access_token frame_jwt ts token 901000000 = Inl (App_AuthenticationFailed ''Access token has expired'')"
proof -
  let ?ts = "av_tokens demo_auth_env"
  have st: "jl_str frame_jwt (J_str x) = x" for x by (simp add: frame_jwt_def)
  have claims: "snd (create_access_token frame_jwt ?ts 7 ''u'' ''viewer'' ''j'' 1000000) =
      \<lparr>cl_user_id = 7, cl_username = ''u'', cl_role = ''viewer'', cl_jti = ''j'', cl_issued_at = 1000000, cl_expires_at = 901000000\<rparr>"
    by (simp add: create_access_token_def demo_auth_env_def seconds_def)
  note t = access_token_roundtrip [OF frame_jwt_law st prod.collapse [symmetric], of 1000000]
  show ?thesis
    using t [of 2000000 ?ts 7 "''u''" "''viewer''" "''j''"] t [of 901000000 ?ts 7 "''u''" "''viewer''" "''j''"]
    unfolding Let_def claims by (simp add: unix_seconds_def trunc_rat_def seconds_def)
qed

end
