(* ===== verification/Catalog.thy ===== *)
theory Catalog
  imports Audit_Log
begin

text \<open>
  The tables of the dashboard's database (\<open>backend/app/db/models/backup.py\<close>, \<open>system.py\<close>,
  \<open>guest.py\<close>) as records with the columns the services read or write, and \<open>app_db\<close>, the database a
  session shows. A table is the list of its rows in insertion order. The columns kept only for
  display (\<open>created_at\<close> of a history row, \<open>updated_at\<close>, \<open>log_path\<close>) are left out unless a query
  orders by them.
\<close>

section \<open>Vocabulary of the tables\<close>

datatype sync_direction = UPLOAD_DIR | DOWNLOAD_DIR | VERIFY_DIR

datatype sync_status = S_QUEUED | S_RUNNING | S_SUCCESS | S_FAILED | S_CANCELLED

datatype target_selector = SEL_ALL | SEL_INCLUDE | SEL_EXCLUDE

text \<open>A guest: its VMID and its type.\<close>

type_synonym guest_key = "nat \<times> guest_type"

section \<open>Rows\<close>

record backup_row =
  bh_id :: nat
  bh_run_id :: "nat option"
  bh_vmid :: nat
  bh_guest_type :: guest_type
  bh_guest_name :: string
  bh_node :: string
  bh_storage :: string
  bh_filename :: "string option"
  bh_local_path :: "string option"
  bh_size_bytes :: "int option"
  bh_mode :: backup_mode
  bh_compression :: compression
  bh_checksum_sha256 :: "string option"
  bh_status :: backup_status
  bh_agent_task_id :: "string option"
  bh_started_at :: "datetime option"
  bh_finished_at :: "datetime option"
  bh_duration_seconds :: "rat option"
  bh_error_message :: "string option"
  bh_warnings :: "string list option"
  bh_upload_status :: upload_status
  bh_uploaded_at :: "datetime option"
  bh_remote_path :: "string option"
  bh_remote_size_bytes :: "int option"
  bh_remote_checksum :: "string option"
  bh_retention_locked :: bool
  bh_local_deleted_at :: "datetime option"
  bh_remote_deleted_at :: "datetime option"
  bh_correlation_id :: "string option"

definition guest_of :: "backup_row \<Rightarrow> guest_key" where
  "guest_of b = (bh_vmid b, bh_guest_type b)"

record guest_row =
  gu_id :: nat
  gu_vmid :: nat
  gu_type :: guest_type
  gu_name :: string
  gu_node :: string
  gu_status :: guest_status
  gu_enabled :: bool
  gu_tags :: "string list option"
  gu_first_seen_at :: datetime
  gu_last_seen_at :: datetime

record job_target =
  jt_vmid :: nat
  jt_guest_type :: guest_type

record job_row =
  jb_id :: nat
  jb_name :: string
  jb_enabled :: bool
  jb_cron :: string
  jb_timezone :: string
  jb_mode :: backup_mode
  jb_compression :: compression
  jb_zstd_threads :: "int option"
  jb_storage :: string
  jb_selector :: target_selector
  jb_targets :: "job_target list"
  jb_keep_local :: int
  jb_keep_remote :: int
  jb_upload_enabled :: bool
  jb_notify_on_start :: bool
  jb_notify_on_success :: bool
  jb_notify_on_failure :: bool
  jb_bwlimit_kbps :: int
  jb_max_parallel :: int
  jb_last_run_at :: "datetime option"
  jb_next_run_at :: "datetime option"

record run_row =
  rn_id :: nat
  rn_job_id :: "nat option"
  rn_trigger :: trigger_type
  rn_status :: run_status
  rn_requested_by :: "nat option"
  rn_total :: nat
  rn_succeeded :: nat
  rn_failed :: nat
  rn_targets :: "json list option"
  rn_options :: "(string \<times> json) list option"
  rn_started_at :: "datetime option"
  rn_finished_at :: "datetime option"
  rn_duration_seconds :: "rat option"
  rn_error_message :: "string option"
  rn_correlation_id :: string
  rn_created_at :: datetime

record sync_row =
  sy_id :: nat
  sy_backup_id :: "nat option"
  sy_direction :: sync_direction
  sy_status :: sync_status
  sy_agent_task_id :: "string option"
  sy_remote_name :: "string option"
  sy_remote_path :: "string option"
  sy_bytes_total :: "int option"
  sy_bytes_transferred :: int
  sy_rate_bps :: "int option"
  sy_attempt :: nat
  sy_max_attempts :: nat
  sy_next_retry_at :: "datetime option"
  sy_started_at :: "datetime option"
  sy_finished_at :: "datetime option"
  sy_error_message :: "string option"
  sy_created_at :: datetime

record restore_row =
  rh_id :: nat
  rh_backup_id :: nat
  rh_source :: restore_source
  rh_target_vmid :: nat
  rh_target_type :: guest_type
  rh_mode :: restore_mode
  rh_target_node :: string
  rh_target_storage :: string
  rh_overwrite :: bool
  rh_force_stop :: bool
  rh_start_after :: bool
  rh_status :: restore_status
  rh_token_hash :: "string option"
  rh_expires_at :: "datetime option"
  rh_confirmed_at :: "datetime option"
  rh_agent_task_id :: "string option"
  rh_requested_by :: "nat option"
  rh_started_at :: "datetime option"
  rh_finished_at :: "datetime option"
  rh_duration_seconds :: "rat option"
  rh_error_message :: "string option"
  rh_created_at :: datetime

record retention_event_row =
  re_backup_id :: nat
  re_vmid :: nat
  re_guest_type :: guest_type
  re_action :: retention_action
  re_reason :: string
  re_location_remote :: bool
  re_effective_keep :: int
  re_freed_bytes :: int
  re_dry_run :: bool

record notification_row =
  nt_id :: nat
  nt_event :: notification_event
  nt_status :: notification_status
  nt_variables :: "(string \<times> json) list"
  nt_suppressed_by :: "nat option"
  nt_dedupe_key :: "string option"
  nt_attempts :: nat
  nt_max_attempts :: nat
  nt_next_attempt_at :: "datetime option"
  nt_sent_at :: "datetime option"
  nt_error_message :: "string option"
  nt_backup_id :: "nat option"
  nt_restore_id :: "nat option"
  nt_created_at :: datetime

section \<open>Settings\<close>

text \<open>The sections as \<open>get_section\<close> returns them: validated, defaults filled in.\<close>

record gdrive_settings =
  gd_enabled :: bool
  gd_remote_name :: string
  gd_folder :: string
  gd_bandwidth_limit_kbps :: int
  gd_transfers :: int
  gd_upload_retry :: int
  gd_verify_after_upload :: bool
  gd_delete_remote_on_retention :: bool

record telegram_settings =
  tg_enabled :: bool
  tg_bot_token :: "string option"
  tg_chat_id :: string
  tg_notify_backup_started :: bool
  tg_notify_backup_success :: bool
  tg_notify_backup_failed :: bool
  tg_notify_restore_started :: bool
  tg_notify_restore_finished :: bool
  tg_notify_restore_failed :: bool
  tg_notify_upload_failed :: bool
  tg_notify_retention_deleted :: bool
  tg_notify_storage_threshold :: bool

record retention_settings =
  rs_keep_local :: int
  rs_keep_remote :: int
  rs_dry_run :: bool
  rs_warning_percent :: int
  rs_critical_percent :: int

record agent_section =
  as_poll_interval_seconds :: int
  as_default_storage :: string
  as_default_mode :: backup_mode
  as_default_compression :: compression
  as_default_zstd_threads :: "int option"
  as_default_bwlimit_kbps :: int

record sections =
  sc_gdrive :: gdrive_settings
  sc_telegram :: telegram_settings
  sc_retention :: retention_settings
  sc_agent :: agent_section
  sc_node :: string

text \<open>The defaults of the section models.\<close>

definition default_sections :: sections where
  "default_sections = \<lparr>
     sc_gdrive = \<lparr>gd_enabled = False, gd_remote_name = ''gdrive'', gd_folder = ''proxsync/dump'',
       gd_bandwidth_limit_kbps = 0, gd_transfers = 4, gd_upload_retry = 3,
       gd_verify_after_upload = True, gd_delete_remote_on_retention = True\<rparr>,
     sc_telegram = \<lparr>tg_enabled = False, tg_bot_token = None, tg_chat_id = [],
       tg_notify_backup_started = True, tg_notify_backup_success = True, tg_notify_backup_failed = True,
       tg_notify_restore_started = True, tg_notify_restore_finished = True, tg_notify_restore_failed = True,
       tg_notify_upload_failed = True, tg_notify_retention_deleted = False,
       tg_notify_storage_threshold = True\<rparr>,
     sc_retention = \<lparr>rs_keep_local = 2, rs_keep_remote = 2, rs_dry_run = False,
       rs_warning_percent = 85, rs_critical_percent = 95\<rparr>,
     sc_agent = \<lparr>as_poll_interval_seconds = 5, as_default_storage = ''backup-hdd'',
       as_default_mode = SNAPSHOT, as_default_compression = ZSTD, as_default_zstd_threads = None,
       as_default_bwlimit_kbps = 0\<rparr>,
     sc_node = ''pve''\<rparr>"

section \<open>The database\<close>

record app_db =
  ad_guests :: "guest_row list"
  ad_backups :: "backup_row list"
  ad_jobs :: "job_row list"
  ad_runs :: "run_row list"
  ad_syncs :: "sync_row list"
  ad_restores :: "restore_row list"
  ad_retention :: "retention_event_row list"
  ad_notifications :: "notification_row list"
  ad_audit :: "audit_event list"
  ad_sections :: sections

definition empty_db :: "sections \<Rightarrow> app_db" where
  "empty_db s = \<lparr>ad_guests = [], ad_backups = [], ad_jobs = [], ad_runs = [], ad_syncs = [], ad_restores = [],
     ad_retention = [], ad_notifications = [], ad_audit = [], ad_sections = s\<rparr>"

lemma empty_db_simps [simp]:
  "ad_guests (empty_db s) = []" "ad_backups (empty_db s) = []" "ad_jobs (empty_db s) = []" "ad_runs (empty_db s) = []"
  "ad_syncs (empty_db s) = []" "ad_restores (empty_db s) = []" "ad_retention (empty_db s) = []"
  "ad_notifications (empty_db s) = []" "ad_audit (empty_db s) = []" "ad_sections (empty_db s) = s"
  by (simp_all add: empty_db_def)

definition backup_get :: "app_db \<Rightarrow> nat \<Rightarrow> backup_row option" where
  "backup_get db i = find (\<lambda>b. bh_id b = i) (ad_backups db)"

definition set_backup :: "nat \<Rightarrow> (backup_row \<Rightarrow> backup_row) \<Rightarrow> app_db \<Rightarrow> app_db" where
  "set_backup i f db = db\<lparr>ad_backups := upd_where (\<lambda>b. bh_id b = i) f (ad_backups db)\<rparr>"

definition set_restore :: "nat \<Rightarrow> (restore_row \<Rightarrow> restore_row) \<Rightarrow> app_db \<Rightarrow> app_db" where
  "set_restore i f db = db\<lparr>ad_restores := upd_where (\<lambda>r. rh_id r = i) f (ad_restores db)\<rparr>"

definition set_notification :: "nat \<Rightarrow> (notification_row \<Rightarrow> notification_row) \<Rightarrow> app_db \<Rightarrow> app_db" where
  "set_notification i f db =
     db\<lparr>ad_notifications := upd_where (\<lambda>n. nt_id n = i) f (ad_notifications db)\<rparr>"

definition set_sync :: "nat \<Rightarrow> (sync_row \<Rightarrow> sync_row) \<Rightarrow> app_db \<Rightarrow> app_db" where
  "set_sync i f db = db\<lparr>ad_syncs := upd_where (\<lambda>s. sy_id s = i) f (ad_syncs db)\<rparr>"

definition set_guest :: "nat \<Rightarrow> (guest_row \<Rightarrow> guest_row) \<Rightarrow> app_db \<Rightarrow> app_db" where
  "set_guest i f db = db\<lparr>ad_guests := upd_where (\<lambda>g. gu_id g = i) f (ad_guests db)\<rparr>"

definition set_job :: "nat \<Rightarrow> (job_row \<Rightarrow> job_row) \<Rightarrow> app_db \<Rightarrow> app_db" where
  "set_job i f db = db\<lparr>ad_jobs := upd_where (\<lambda>j. jb_id j = i) f (ad_jobs db)\<rparr>"

definition set_run :: "nat \<Rightarrow> (run_row \<Rightarrow> run_row) \<Rightarrow> app_db \<Rightarrow> app_db" where
  "set_run i f db = db\<lparr>ad_runs := upd_where (\<lambda>r. rn_id r = i) f (ad_runs db)\<rparr>"

definition record_app_audit :: "audit_event \<Rightarrow> app_db \<Rightarrow> app_db" where
  "record_app_audit ev db = db\<lparr>ad_audit := record_audit (ad_audit db) ev\<rparr>"

end
