(* ===== verification/Notify.thy ===== *)
theory Notify
  imports Catalog
begin

text \<open>
  The notification outbox: \<open>backend/app/services/notification_service.py\<close>,
  \<open>backend/app/repositories/notification_repository.py\<close>, \<open>backend/app/workers/notification_worker.py\<close> and
  the reply handling of \<open>backend/app/clients/telegram_client.py\<close>.

  The text of a message is a function of its event and variables
  (\<open>notification_templates.py\<close>, never empty), so a row keeps those two; Telegram is the only channel.
  The HTTP exchange is the reply passed to \<open>deliver\<close>; \<open>random.uniform\<close> is the fraction it draws.
\<close>

section \<open>Repository\<close>

definition latest_with_key :: "app_db \<Rightarrow> notification_event \<Rightarrow> string \<Rightarrow> datetime option
    \<Rightarrow> notification_status list \<Rightarrow> notification_row option" where
  "latest_with_key db event key since statuses =
     (case order_desc (\<lambda>n. (nt_created_at n, nt_id n)) (filter (\<lambda>n. nt_event n = event
          \<and> nt_dedupe_key n = Some key
          \<and> (case since of None \<Rightarrow> True | Some t \<Rightarrow> t \<le> nt_created_at n)
          \<and> (statuses = [] \<or> nt_status n \<in> set statuses)) (ad_notifications db)) of
        [] \<Rightarrow> None | n # _ \<Rightarrow> Some n)"

definition notification_get :: "app_db \<Rightarrow> nat \<Rightarrow> notification_row option" where
  "notification_get db i = find (\<lambda>n. nt_id n = i) (ad_notifications db)"

definition notification_create :: "app_db \<Rightarrow> datetime \<Rightarrow> notification_event \<Rightarrow> notification_status
    \<Rightarrow> (string \<times> json) list \<Rightarrow> nat option \<Rightarrow> nat \<Rightarrow> string option \<Rightarrow> nat option \<Rightarrow> nat option
    \<Rightarrow> notification_row \<times> app_db" where
  "notification_create db now event status variables suppressed_by max_attempts key backup_id restore_id =
     (let n = \<lparr>nt_id = next_id (map nt_id (ad_notifications db)), nt_event = event, nt_status = status,
        nt_variables = variables, nt_suppressed_by = suppressed_by, nt_dedupe_key = key, nt_attempts = 0,
        nt_max_attempts = max_attempts, nt_next_attempt_at = None, nt_sent_at = None,
        nt_error_message = None, nt_backup_id = backup_id, nt_restore_id = restore_id,
        nt_created_at = now\<rparr>
      in (n, db\<lparr>ad_notifications := ad_notifications db @ [n]\<rparr>))"

definition next_ready :: "app_db \<Rightarrow> datetime \<Rightarrow> notification_row option" where
  "next_ready db now =
     (case sort_key (\<lambda>n. (nt_created_at n, nt_id n)) (filter (\<lambda>n. nt_status n = N_PENDING
          \<and> (case nt_next_attempt_at n of None \<Rightarrow> True | Some t \<Rightarrow> t \<le> now)) (ad_notifications db)) of
        [] \<Rightarrow> None | n # _ \<Rightarrow> Some n)"

record notification_filters =
  nf_status :: "notification_status option"
  nf_event :: "notification_event option"
  nf_since :: "datetime option"
  nf_until :: "datetime option"

definition notification_matches :: "notification_filters \<Rightarrow> notification_row \<Rightarrow> bool" where
  "notification_matches f n =
     ((case nf_status f of None \<Rightarrow> True | Some s \<Rightarrow> nt_status n = s)
      \<and> (case nf_event f of None \<Rightarrow> True | Some e \<Rightarrow> nt_event n = e)
      \<and> (case nf_since f of None \<Rightarrow> True | Some t \<Rightarrow> t \<le> nt_created_at n)
      \<and> (case nf_until f of None \<Rightarrow> True | Some t \<Rightarrow> nt_created_at n \<le> t))"

definition notification_search :: "app_db \<Rightarrow> notification_filters \<Rightarrow> nat \<Rightarrow> nat \<Rightarrow> notification_row list" where
  "notification_search db f limit offset = page limit offset
     (order_desc (\<lambda>n. (nt_created_at n, nt_id n)) (filter (notification_matches f) (ad_notifications db)))"

definition notification_count :: "app_db \<Rightarrow> notification_filters \<Rightarrow> nat" where
  "notification_count db f = length (filter (notification_matches f) (ad_notifications db))"

definition pending_count :: "app_db \<Rightarrow> nat" where
  "pending_count db = notification_count db
     \<lparr>nf_status = Some N_PENDING, nf_event = None, nf_since = None, nf_until = None\<rparr>"

section \<open>Service\<close>

record notify_config =
  nc_max_attempts :: nat
  nc_suppress_window :: int
  nc_retry_base :: int
  nc_retry_max :: int

fun toggle_on :: "telegram_settings \<Rightarrow> notification_event \<Rightarrow> bool" where
  "toggle_on c BACKUP_STARTED = tg_notify_backup_started c"
| "toggle_on c BACKUP_SUCCESS = tg_notify_backup_success c"
| "toggle_on c BACKUP_FAILED = tg_notify_backup_failed c"
| "toggle_on c RESTORE_STARTED = tg_notify_restore_started c"
| "toggle_on c RESTORE_FINISHED = tg_notify_restore_finished c"
| "toggle_on c RESTORE_FAILED = tg_notify_restore_failed c"
| "toggle_on c UPLOAD_FAILED = tg_notify_upload_failed c"
| "toggle_on c RETENTION_DELETED = tg_notify_retention_deleted c"
| "toggle_on c STORAGE_THRESHOLD = tg_notify_storage_threshold c"
| "toggle_on c TEST = True"

definition wanted :: "telegram_settings \<Rightarrow> notification_event \<Rightarrow> bool" where
  "wanted c event = (tg_enabled c \<and> toggle_on c event)"

text \<open>An empty key is falsy, like no key.\<close>

definition enqueue :: "notify_config \<Rightarrow> datetime \<Rightarrow> notification_event \<Rightarrow> (string \<times> json) list
    \<Rightarrow> string option \<Rightarrow> bool \<Rightarrow> nat option \<Rightarrow> nat option \<Rightarrow> app_db \<Rightarrow> notification_row option \<times> app_db" where
  "enqueue C now event variables key unique backup_id restore_id db =
     (if \<not> wanted (sc_telegram (ad_sections db)) event then (None, db)
      else case (if key = Some [] then None else key) of
        None \<Rightarrow> (let (n, db') = notification_create db now event N_PENDING variables None
                     (nc_max_attempts C) key backup_id restore_id in (Some n, db'))
      | Some k \<Rightarrow>
          if unique \<and> latest_with_key db event k None [] \<noteq> None then (None, db)
          else
            let suppressed_by = (if unique then None else map_option nt_id
                  (latest_with_key db event k (Some (now - seconds (nc_suppress_window C))) [N_PENDING, N_SENT]));
                (n, db') = notification_create db now event
                  (if suppressed_by = None then N_PENDING else N_SUPPRESSED) variables suppressed_by
                  (nc_max_attempts C) key backup_id restore_id
            in (Some n, db'))"

definition resend :: "nat \<Rightarrow> app_db \<Rightarrow> (app_error + unit) \<times> app_db" where
  "resend i db = (case notification_get db i of
     None \<Rightarrow> (Inl (App_NotFound ''Notification does not exist''), db)
   | Some n \<Rightarrow> if nt_status n = N_PENDING
       then (Inl (App_Conflict ''Notification is still queued for delivery''), db)
       else (Inr (), set_notification i (\<lambda>m. m\<lparr>nt_status := N_PENDING, nt_attempts := 0,
          nt_next_attempt_at := None, nt_error_message := None, nt_sent_at := None\<rparr>) db))"

section \<open>Telegram replies\<close>

datatype http_reply = Transport_error string | Http_response nat "json option" string
  \<comment> \<open>status, parsed body, body text\<close>

definition RETRYABLE_STATUS :: "nat list" where
  "RETRYABLE_STATUS = [408, 429, 500, 502, 503, 504]"

definition body_dict :: "json option \<Rightarrow> (string \<times> json) list" where
  "body_dict body = (case body of Some (J_obj d) \<Rightarrow> d | _ \<Rightarrow> [])"

text \<open>\<open>isinstance(value, int)\<close> holds for a bool too.\<close>

definition reply_retry_after :: "(string \<times> json) list \<Rightarrow> int option" where
  "reply_retry_after body = (case map_of body ''parameters'' of
     Some (J_obj p) \<Rightarrow> (case map_of p ''retry_after'' of
         Some (J_int v) \<Rightarrow> if v > 0 then Some v else None
       | Some (J_bool True) \<Rightarrow> Some 1
       | _ \<Rightarrow> None)
   | _ \<Rightarrow> None)"

definition parse_reply :: "http_reply \<Rightarrow> app_error + unit" where
  "parse_reply r = (case r of
     Transport_error e \<Rightarrow> Inl (App_TelegramError (''Could not reach the Telegram API: '' @ e) True None)
   | Http_response status body text \<Rightarrow>
       if 200 \<le> status \<and> status < 300 \<and> map_of (body_dict body) ''ok'' = Some (J_bool True) then Inr ()
       else Inl (App_TelegramError (''Telegram returned '' @ show_nat status @ '': '' @ take 300 text)
              (status \<in> set RETRYABLE_STATUS \<or> status \<ge> 500) (reply_retry_after (body_dict body))))"

definition MAX_MESSAGE_LENGTH :: nat where "MAX_MESSAGE_LENGTH = 4096"

definition send_test :: "notify_config \<Rightarrow> datetime \<Rightarrow> string option \<Rightarrow> (string \<times> json) list
    \<Rightarrow> (string \<Rightarrow> string \<Rightarrow> http_reply) \<Rightarrow> app_db \<Rightarrow> (app_error + bool \<times> nat) \<times> app_db" where
  "send_test C now chat_id variables post db =
     (let config = sc_telegram (ad_sections db);
          token = py_strip (case tg_bot_token config of None \<Rightarrow> [] | Some t \<Rightarrow> t);
          target = py_strip (case chat_id of None \<Rightarrow> tg_chat_id config
            | Some c \<Rightarrow> if c = [] then tg_chat_id config else c)
      in if token = [] then (Inl (App_ValidationFailed ''No Telegram bot token is configured.''), db)
         else if target = [] then (Inl (App_ValidationFailed ''No Telegram chat id is configured.''), db)
         else case parse_reply (post token target) of
             Inr _ \<Rightarrow> (let (n, db') = notification_create db now TEST N_SENT [(''chat_id'', J_str target)] None
                 (nc_max_attempts C) None None None in (Inr (True, nt_id n), db'))
           | Inl e \<Rightarrow> (let (n, db') = notification_create db now TEST
                 (if app_detail e = [] then N_SENT else N_FAILED) [(''chat_id'', J_str target)] None
                 (nc_max_attempts C) None None None in (Inr (False, nt_id n), db')))"

section \<open>Worker\<close>

definition backoff_ceiling :: "notify_config \<Rightarrow> nat \<Rightarrow> int" where
  "backoff_ceiling C attempt = min (nc_retry_max C) (nc_retry_base C * 2 ^ (attempt - 1))"

definition retry_delay :: "notify_config \<Rightarrow> nat \<Rightarrow> rat \<Rightarrow> rat" where
  "retry_delay C attempt u = (let base = nc_retry_base C; ceiling = backoff_ceiling C attempt in
     if ceiling > base then of_int base + (of_int ceiling - of_int base) * u else of_int base)"

definition after_seconds :: "datetime \<Rightarrow> rat \<Rightarrow> datetime" where
  "after_seconds now delay = now + round_half_even (delay * 1000000)"

record notify_claim =
  nk_id :: nat
  nk_event :: notification_event
  nk_variables :: "(string \<times> json) list"
  nk_attempt :: nat
  nk_max_attempts :: nat

definition claim_next :: "notify_config \<Rightarrow> datetime \<Rightarrow> rat \<Rightarrow> app_db \<Rightarrow> notify_claim option \<times> app_db" where
  "claim_next C now u db = (case next_ready db now of
     None \<Rightarrow> (None, db)
   | Some n \<Rightarrow> (let attempt = nt_attempts n + 1 in
       (Some \<lparr>nk_id = nt_id n, nk_event = nt_event n, nk_variables = nt_variables n,
          nk_attempt = attempt, nk_max_attempts = nt_max_attempts n\<rparr>,
        set_notification (nt_id n) (\<lambda>m. m\<lparr>nt_attempts := attempt,
          nt_next_attempt_at := Some (after_seconds now (retry_delay C attempt u))\<rparr>) db)))"

definition record_sent :: "datetime \<Rightarrow> notify_claim \<Rightarrow> app_db \<Rightarrow> app_db" where
  "record_sent now k db = set_notification (nk_id k) (\<lambda>m. m\<lparr>nt_status := N_SENT,
     nt_sent_at := Some now, nt_next_attempt_at := None, nt_error_message := None\<rparr>) db"

definition record_delivery_failure :: "notify_config \<Rightarrow> datetime \<Rightarrow> rat \<Rightarrow> notify_claim \<Rightarrow> string \<Rightarrow> bool
    \<Rightarrow> int option \<Rightarrow> app_db \<Rightarrow> app_db" where
  "record_delivery_failure C now u k message retry retry_after db =
     (let exhausted = (\<not> retry \<or> nk_attempt k \<ge> nk_max_attempts k);
          delay = (case retry_after of Some s \<Rightarrow> of_int s | None \<Rightarrow> retry_delay C (nk_attempt k) u)
      in set_notification (nk_id k) (\<lambda>m. if exhausted
           then m\<lparr>nt_error_message := Some (take 2000 message), nt_status := N_FAILED, nt_next_attempt_at := None\<rparr>
           else m\<lparr>nt_error_message := Some (take 2000 message), nt_status := N_PENDING,
             nt_next_attempt_at := Some (after_seconds now delay)\<rparr>) db)"

definition deliver :: "notify_config \<Rightarrow> datetime \<Rightarrow> rat \<Rightarrow> (string \<Rightarrow> string \<Rightarrow> notification_event
    \<Rightarrow> (string \<times> json) list \<Rightarrow> http_reply) \<Rightarrow> notify_claim \<Rightarrow> app_db \<Rightarrow> app_db" where
  "deliver C now u post k db =
     (let config = sc_telegram (ad_sections db);
          token = py_strip (case tg_bot_token config of None \<Rightarrow> [] | Some t \<Rightarrow> t);
          target = py_strip (tg_chat_id config)
      in if \<not> tg_enabled config \<or> token = [] \<or> target = []
         then record_delivery_failure C now u k ''Telegram is not fully configured'' False None db
         else case parse_reply (post token target (nk_event k) (nk_variables k)) of
             Inl (App_TelegramError detail retryable retry_after) \<Rightarrow>
               record_delivery_failure C now u k detail retryable retry_after db
           | Inl e \<Rightarrow> record_delivery_failure C now u k (''The outbox worker failed: '' @ app_detail e) True None db
           | Inr _ \<Rightarrow> record_sent now k db)"

text \<open>One pass of \<open>_loop\<close>: the clock and the drawn fraction are read again after the send.\<close>

definition worker_pass :: "notify_config \<Rightarrow> datetime \<Rightarrow> rat \<Rightarrow> datetime \<Rightarrow> rat \<Rightarrow> (string \<Rightarrow> string
    \<Rightarrow> notification_event \<Rightarrow> (string \<times> json) list \<Rightarrow> http_reply) \<Rightarrow> app_db \<Rightarrow> app_db" where
  "worker_pass C now u now' u' post db = (case claim_next C now u db of
     (None, db') \<Rightarrow> db' | (Some k, db') \<Rightarrow> deliver C now' u' post k db')"

section \<open>Identity of the rows\<close>

definition outbox_wf :: "app_db \<Rightarrow> bool" where
  "outbox_wf db = distinct (map nt_id (ad_notifications db))"

definition same_occurrence :: "notification_event \<Rightarrow> string \<Rightarrow> notification_row \<Rightarrow> bool" where
  "same_occurrence e k n = (nt_event n = e \<and> nt_dedupe_key n = Some k)"

definition occurrences :: "notification_event \<Rightarrow> string \<Rightarrow> app_db \<Rightarrow> nat" where
  "occurrences e k db = length (filter (same_occurrence e k) (ad_notifications db))"

lemma set_notification_frame [simp]:
  "ad_sections (set_notification i f db) = ad_sections db"
  "ad_notifications (set_notification i f db) = upd_where (\<lambda>n. nt_id n = i) f (ad_notifications db)"
  by (simp_all add: set_notification_def)

lemma set_notification_occurrences:
  assumes "\<And>n. nt_event (f n) = nt_event n" "\<And>n. nt_dedupe_key (f n) = nt_dedupe_key n" "\<And>n. nt_id (f n) = nt_id n"
  shows "occurrences e k (set_notification i f db) = occurrences e k db"
    and "outbox_wf (set_notification i f db) = outbox_wf db"
proof -
  have "length (filter (same_occurrence e k) (upd_where P f ns)) = length (filter (same_occurrence e k) ns)" for P ns
    using assms by (induction ns) (simp_all add: same_occurrence_def)
  then show "occurrences e k (set_notification i f db) = occurrences e k db"
    by (simp add: occurrences_def)
  show "outbox_wf (set_notification i f db) = outbox_wf db"
    using assms(3) by (simp add: outbox_wf_def map_upd_where)
qed

lemma create_effect:
  assumes "notification_create db now event status vars supp maxa key bid rid = (n, db')"
  shows "ad_notifications db' = ad_notifications db @ [n]" "nt_event n = event" "nt_dedupe_key n = key"
    "nt_status n = status" "nt_id n = next_id (map nt_id (ad_notifications db))"
    "ad_sections db' = ad_sections db" "nt_attempts n = 0" "nt_max_attempts n = maxa"
    "nt_created_at n = now" "nt_suppressed_by n = supp"
    "db' = db\<lparr>ad_notifications := ad_notifications db @ [n]\<rparr>"
  using assms by (auto simp: notification_create_def Let_def)

lemma create_wf:
  "notification_create db now event status vars supp maxa key bid rid = (n, db') \<Longrightarrow> outbox_wf db \<Longrightarrow> outbox_wf db'"
  using next_id_fresh [of "map nt_id (ad_notifications db)"] by (simp add: outbox_wf_def create_effect)

lemma first_of_None: "(case xs of [] \<Rightarrow> None | x # _ \<Rightarrow> Some x) = None \<longleftrightarrow> xs = []"
  by (cases xs) simp_all

lemma latest_with_key_None:
  "latest_with_key db e k None [] = None \<longleftrightarrow> occurrences e k db = 0"
  unfolding latest_with_key_def first_of_None order_desc_Nil occurrences_def
  by (auto simp: same_occurrence_def filter_empty_conv)

lemma latest_with_key_Some:
  "latest_with_key db e k (Some t) sts \<noteq> None \<longleftrightarrow>
   (\<exists>n \<in> set (ad_notifications db). same_occurrence e k n \<and> t \<le> nt_created_at n \<and> (sts = [] \<or> nt_status n \<in> set sts))"
  unfolding latest_with_key_def first_of_None order_desc_Nil
  by (auto simp: same_occurrence_def filter_empty_conv)

text \<open>What enqueue does, on every path.\<close>

lemma enqueue_cases:
  assumes "enqueue C now e vars key unique bid rid db = (out, db')"
  obtains (nothing) "out = None" "db' = db"
  | (row) n where "out = Some n" "ad_notifications db' = ad_notifications db @ [n]"
      "nt_event n = e" "nt_dedupe_key n = key" "nt_id n = next_id (map nt_id (ad_notifications db))"
      "nt_attempts n = 0" "db' = db\<lparr>ad_notifications := ad_notifications db @ [n]\<rparr>"
      "\<And>k. key = Some k \<Longrightarrow> k \<noteq> [] \<Longrightarrow> unique \<Longrightarrow> occurrences e k db = 0"
proof (cases "out = None")
  case True
  with assms have "db' = db"
    by (simp add: enqueue_def Let_def notification_create_def split: if_splits option.splits)
  with True show ?thesis by (rule nothing)
next
  case False
  have free: "occurrences e k db = 0" if "key = Some k" "k \<noteq> []" unique for k
    using assms False that by (simp add: enqueue_def latest_with_key_None split: if_splits)
  obtain st supp where c: "notification_create db now e st vars supp (nc_max_attempts C) key bid rid = (the out, db')"
    using assms False by (simp add: enqueue_def Let_def notification_create_def split: if_splits option.splits)
  show ?thesis
    using False create_effect [OF c] free by (intro row [of "the out"]) auto
qed

lemma enqueue_frame [simp]:
  "ad_backups (snd (enqueue C now e vars key unique bid rid db)) = ad_backups db"
  "ad_runs (snd (enqueue C now e vars key unique bid rid db)) = ad_runs db"
  "ad_jobs (snd (enqueue C now e vars key unique bid rid db)) = ad_jobs db"
  "ad_syncs (snd (enqueue C now e vars key unique bid rid db)) = ad_syncs db"
  "ad_restores (snd (enqueue C now e vars key unique bid rid db)) = ad_restores db"
  "ad_retention (snd (enqueue C now e vars key unique bid rid db)) = ad_retention db"
  "ad_sections (snd (enqueue C now e vars key unique bid rid db)) = ad_sections db"
  "ad_audit (snd (enqueue C now e vars key unique bid rid db)) = ad_audit db"
  by (simp_all add: enqueue_def notification_create_def Let_def split: option.split)

section \<open>Steps of the outbox\<close>

text \<open>What happens to the outbox, with the occurrence \<open>(e, k)\<close> enqueued only as unique.\<close>

inductive outbox_step :: "notification_event \<Rightarrow> string \<Rightarrow> app_db \<Rightarrow> app_db \<Rightarrow> bool" for e k where
  o_enqueue: "\<not> (event = e \<and> key = Some k \<and> \<not> unique) \<Longrightarrow>
    enqueue C now event vars key unique bid rid db = (out, db') \<Longrightarrow> outbox_step e k db db'"
| o_resend: "resend i db = (out, db') \<Longrightarrow> outbox_step e k db db'"
| o_pass: "outbox_step e k db (worker_pass C now u now' u' post db)"
| o_test: "send_test C now chat vars post' db = (out, db') \<Longrightarrow> outbox_step e k db db'"

inductive outbox_steps :: "notification_event \<Rightarrow> string \<Rightarrow> app_db \<Rightarrow> app_db \<Rightarrow> bool" for e k where
  stop: "outbox_steps e k db db"
| go: "outbox_steps e k db db' \<Longrightarrow> outbox_step e k db' db'' \<Longrightarrow> outbox_steps e k db db''"

lemma resend_keeps:
  "resend i db = (out, db') \<Longrightarrow> occurrences e k db' = occurrences e k db \<and> outbox_wf db' = outbox_wf db"
  by (auto simp: resend_def set_notification_occurrences split: option.splits if_splits)

lemma failure_keeps [simp]:
  "occurrences e k (record_delivery_failure C now u c m r ra db) = occurrences e k db"
  "outbox_wf (record_delivery_failure C now u c m r ra db) = outbox_wf db"
  by (auto simp: record_delivery_failure_def Let_def set_notification_occurrences)

lemma sent_keeps [simp]:
  "occurrences e k (record_sent now c db) = occurrences e k db"
  "outbox_wf (record_sent now c db) = outbox_wf db"
  by (simp_all add: record_sent_def set_notification_occurrences)

lemma deliver_keeps [simp]:
  "occurrences e k (deliver C now u post c db) = occurrences e k db"
  "outbox_wf (deliver C now u post c db) = outbox_wf db"
  by (simp_all add: deliver_def Let_def split: sum.split app_error.split)

lemma claim_keeps:
  "claim_next C now u db = (c, db') \<Longrightarrow> occurrences e k db' = occurrences e k db \<and> outbox_wf db' = outbox_wf db"
  by (auto simp: claim_next_def Let_def set_notification_occurrences split: option.splits)

lemma pass_keeps [simp]:
  "occurrences e k (worker_pass C now u now' u' post db) = occurrences e k db"
  "outbox_wf (worker_pass C now u now' u' post db) = outbox_wf db"
  using claim_keeps by (auto simp: worker_pass_def split: prod.split option.split)

lemma test_keeps:
  "send_test C now chat vars post db = (out, db') \<Longrightarrow> outbox_wf db \<Longrightarrow>
   occurrences e k db' = occurrences e k db \<and> outbox_wf db'"
  by (auto simp: send_test_def Let_def occurrences_def same_occurrence_def create_effect
      dest: create_wf split: if_splits sum.splits prod.splits)

lemma outbox_step_inv:
  "outbox_step e k db db' \<Longrightarrow> k \<noteq> [] \<Longrightarrow> outbox_wf db \<and> occurrences e k db \<le> 1 \<Longrightarrow>
   outbox_wf db' \<and> occurrences e k db' \<le> 1"
proof (induction rule: outbox_step.induct)
  case (o_enqueue event key unique C now vars bid rid db out db')
  from o_enqueue(2) show ?case
  proof (cases rule: enqueue_cases)
    case nothing
    with o_enqueue show ?thesis by simp
  next
    case (row n)
    have "outbox_wf db'"
      using o_enqueue row next_id_fresh [of "map nt_id (ad_notifications db)"] by (simp add: outbox_wf_def)
    moreover have "occurrences e k db' \<le> 1"
    proof (cases "event = e \<and> key = Some k")
      case True
      with o_enqueue(1,3) row(8) have "occurrences e k db = 0" by blast
      then show ?thesis using row(2) by (simp add: occurrences_def)
    next
      case False
      then have "\<not> same_occurrence e k n" using row by (auto simp: same_occurrence_def)
      then show ?thesis using row(2) o_enqueue by (simp add: occurrences_def)
    qed
    ultimately show ?thesis by simp
  qed
next
  case (o_resend i db out db')
  then show ?case using resend_keeps by metis
next
  case (o_test C now chat vars post' db out db')
  then show ?case using test_keeps by metis
qed simp

section \<open>Delivery ends\<close>

definition budget_of :: "notification_row \<Rightarrow> nat" where
  "budget_of n = (if nt_status n = N_PENDING then max 1 (nt_max_attempts n - nt_attempts n) else 0)"

definition budget :: "app_db \<Rightarrow> nat" where
  "budget db = sum_list (map budget_of (ad_notifications db))"

lemma sum_list_upd_where_less:
  fixes m :: "'r \<Rightarrow> nat"
  assumes "distinct (map k xs)" "x \<in> set xs" "m (f x) < m x"
  shows "sum_list (map m (upd_where (\<lambda>y. k y = k x) f xs)) < sum_list (map m xs)"
  using assms
proof (induction xs)
  case (Cons y ys)
  show ?case
  proof (cases "k y = k x")
    case True
    with Cons.prems have "y = x" and "\<And>z. z \<in> set ys \<Longrightarrow> k z \<noteq> k x"
      by (auto simp: image_iff)
    then have "upd_where (\<lambda>y. k y = k x) f ys = ys" by (intro upd_where_cong_key) auto
    with True \<open>y = x\<close> Cons.prems show ?thesis by simp
  next
    case False
    with Cons show ?thesis by auto
  qed
qed simp

lemma upd_where_twice:
  "(\<And>x. P (f x) \<longleftrightarrow> P x) \<Longrightarrow> upd_where P g (upd_where P f xs) = upd_where P (g \<circ> f) xs"
  by (induction xs) auto

lemma next_ready_mem: "next_ready db now = Some n \<Longrightarrow> n \<in> set (ad_notifications db) \<and> nt_status n = N_PENDING"
proof -
  let ?xs = "sort_key (\<lambda>n. (nt_created_at n, nt_id n)) (filter (\<lambda>n. nt_status n = N_PENDING
          \<and> (case nt_next_attempt_at n of None \<Rightarrow> True | Some t \<Rightarrow> t \<le> now)) (ad_notifications db))"
  assume "next_ready db now = Some n"
  then obtain rest where "?xs = n # rest" by (auto simp: next_ready_def split: list.splits)
  then have "n \<in> set ?xs" by (metis list.set_intros(1))
  then show ?thesis by simp
qed

lemma next_ready_None:
  assumes "next_ready db now = None" "m \<in> set (ad_notifications db)"
  shows "\<not> (nt_status m = N_PENDING \<and> (case nt_next_attempt_at m of None \<Rightarrow> True | Some t \<Rightarrow> t \<le> now))"
proof -
  have "set (sort_key (\<lambda>n. (nt_created_at n, nt_id n)) (filter (\<lambda>n. nt_status n = N_PENDING
          \<and> (case nt_next_attempt_at n of None \<Rightarrow> True | Some t \<Rightarrow> t \<le> now)) (ad_notifications db))) = {}"
    using assms(1) by (simp add: next_ready_def split: list.splits del: set_sort)
  with assms(2) show ?thesis by auto
qed

text \<open>The row a delivery leaves, whatever Telegram answers.\<close>

lemma deliver_row:
  "\<exists>g. ad_notifications (deliver C now u post k db) = upd_where (\<lambda>m. nt_id m = nk_id k) g (ad_notifications db)
     \<and> (\<forall>m. nt_id (g m) = nt_id m) \<and> (\<forall>m. nt_status (g m) = N_PENDING \<longrightarrow> nk_attempt k < nk_max_attempts k
            \<and> nt_attempts (g m) = nt_attempts m \<and> nt_max_attempts (g m) = nt_max_attempts m)"
proof -
  have fail: "\<exists>g. ad_notifications (record_delivery_failure C now u k msg r ra db) = upd_where (\<lambda>m. nt_id m = nk_id k) g (ad_notifications db)
     \<and> (\<forall>m. nt_id (g m) = nt_id m) \<and> (\<forall>m. nt_status (g m) = N_PENDING \<longrightarrow> nk_attempt k < nk_max_attempts k
            \<and> nt_attempts (g m) = nt_attempts m \<and> nt_max_attempts (g m) = nt_max_attempts m)" for msg r ra
    unfolding record_delivery_failure_def Let_def set_notification_frame
    by (rule exI, rule conjI, rule refl) (auto simp: not_le)
  have sent: "\<exists>g. ad_notifications (record_sent now k db) = upd_where (\<lambda>m. nt_id m = nk_id k) g (ad_notifications db)
     \<and> (\<forall>m. nt_id (g m) = nt_id m) \<and> (\<forall>m. nt_status (g m) = N_PENDING \<longrightarrow> nk_attempt k < nk_max_attempts k
            \<and> nt_attempts (g m) = nt_attempts m \<and> nt_max_attempts (g m) = nt_max_attempts m)"
    unfolding record_sent_def set_notification_frame
    by (rule exI, rule conjI, rule refl, simp)
  show ?thesis
    using fail sent by (auto simp only: deliver_def Let_def split: sum.split app_error.split if_split)
qed

text \<open>A pass changes the row it found, and no other; that row has fewer attempts left than before.\<close>

lemma pass_row:
  assumes "next_ready db now = Some n"
  shows "\<exists>h. ad_notifications (worker_pass C now u now' u' post db) = upd_where (\<lambda>m. nt_id m = nt_id n) h (ad_notifications db)
    \<and> nt_id (h n) = nt_id n \<and> budget_of (h n) < budget_of n"
proof -
  let ?c = "\<lambda>m. m\<lparr>nt_attempts := nt_attempts n + 1,
    nt_next_attempt_at := Some (after_seconds now (retry_delay C (nt_attempts n + 1) u))\<rparr>"
  let ?k = "\<lparr>nk_id = nt_id n, nk_event = nt_event n, nk_variables = nt_variables n,
          nk_attempt = nt_attempts n + 1, nk_max_attempts = nt_max_attempts n\<rparr>"
  have claim: "claim_next C now u db = (Some ?k, set_notification (nt_id n) ?c db)"
    using assms by (simp add: claim_next_def Let_def)
  obtain g where g: "ad_notifications (deliver C now' u' post ?k (set_notification (nt_id n) ?c db)) =
        upd_where (\<lambda>m. nt_id m = nt_id n) g (upd_where (\<lambda>m. nt_id m = nt_id n) ?c (ad_notifications db))"
      "\<And>m. nt_id (g m) = nt_id m" "\<And>m. nt_status (g m) = N_PENDING \<Longrightarrow> nt_attempts n + 1 < nt_max_attempts n
            \<and> nt_attempts (g m) = nt_attempts m \<and> nt_max_attempts (g m) = nt_max_attempts m"
    using deliver_row [of C now' u' post ?k "set_notification (nt_id n) ?c db"] by auto
  have "ad_notifications (worker_pass C now u now' u' post db) =
      upd_where (\<lambda>m. nt_id m = nt_id n) (g \<circ> ?c) (ad_notifications db)"
    unfolding worker_pass_def claim prod.case option.case g(1) by (rule upd_where_twice) simp
  moreover have "budget_of ((g \<circ> ?c) n) < budget_of n"
    using next_ready_mem [OF assms] g(3) [of "?c n"] by (auto simp: budget_of_def)
  moreover have "nt_id ((g \<circ> ?c) n) = nt_id n" by (simp add: g(2))
  ultimately show ?thesis by blast
qed

lemma pass_spends:
  assumes "outbox_wf db" "next_ready db now = Some n"
  shows "budget (worker_pass C now u now' u' post db) < budget db"
proof -
  obtain h where h: "ad_notifications (worker_pass C now u now' u' post db) = upd_where (\<lambda>m. nt_id m = nt_id n) h (ad_notifications db)"
    "budget_of (h n) < budget_of n" using pass_row [OF assms(2)] by blast
  show ?thesis
    using sum_list_upd_where_less [of nt_id "ad_notifications db" n budget_of h] assms(1) h next_ready_mem [OF assms(2)]
    by (simp add: budget_def outbox_wf_def)
qed

section \<open>A run of the worker\<close>

text \<open>The two moments and fractions of a pass, and what Telegram answers in it.\<close>

type_synonym outbox_pass = "datetime \<times> rat \<times> datetime \<times> rat
  \<times> (string \<Rightarrow> string \<Rightarrow> notification_event \<Rightarrow> (string \<times> json) list \<Rightarrow> http_reply)"

definition one_pass :: "notify_config \<Rightarrow> outbox_pass \<Rightarrow> app_db \<Rightarrow> app_db" where
  "one_pass C p db = (case p of (now, u, now', u', post) \<Rightarrow> worker_pass C now u now' u' post db)"

fun run_passes :: "notify_config \<Rightarrow> outbox_pass list \<Rightarrow> app_db \<Rightarrow> app_db" where
  "run_passes C [] db = db"
| "run_passes C (p # ps) db = run_passes C ps (one_pass C p db)"

text \<open>How often message \<open>i\<close> is attempted in a run.\<close>

fun attempts_at :: "notify_config \<Rightarrow> nat \<Rightarrow> outbox_pass list \<Rightarrow> app_db \<Rightarrow> nat" where
  "attempts_at C i [] db = 0"
| "attempts_at C i (p # ps) db =
     (if map_option nt_id (next_ready db (fst p)) = Some i then 1 else 0) + attempts_at C i ps (one_pass C p db)"

text \<open>Every pass comes when what is pending is due.\<close>

fun in_time :: "notify_config \<Rightarrow> outbox_pass list \<Rightarrow> app_db \<Rightarrow> bool" where
  "in_time C [] db = True"
| "in_time C (p # ps) db = (list_all (\<lambda>m. nt_status m = N_PENDING \<longrightarrow>
      (case nt_next_attempt_at m of None \<Rightarrow> True | Some t \<Rightarrow> t \<le> fst p)) (ad_notifications db) \<and> in_time C ps (one_pass C p db))"

lemma attempts_at_budget:
  assumes "outbox_wf db" "m \<in> set (ad_notifications db)"
  shows "attempts_at C (nt_id m) ps db \<le> budget_of m"
  using assms
proof (induction ps arbitrary: db m)
  case (Cons p ps)
  obtain now u now' u' post where p: "p = (now, u, now', u', post)" by (cases p) auto
  have wf: "outbox_wf (one_pass C p db)" using Cons.prems(1) by (simp add: one_pass_def p pass_keeps)
  show ?case
  proof (cases "next_ready db now")
    case None
    then have "one_pass C p db = db" by (simp add: one_pass_def p worker_pass_def claim_next_def)
    then show ?thesis using Cons.IH [OF Cons.prems] None by (simp add: p)
  next
    case (Some n)
    obtain h where h: "ad_notifications (one_pass C p db) = upd_where (\<lambda>x. nt_id x = nt_id n) h (ad_notifications db)"
      "budget_of (h n) < budget_of n" "nt_id (h n) = nt_id n" using pass_row [OF Some, of C u now' u' post] by (auto simp: one_pass_def p)
    have n: "n \<in> set (ad_notifications db)" using next_ready_mem [OF Some] by simp
    show ?thesis
    proof (cases "nt_id m = nt_id n")
      case True
      then have "m = n" using distinct_key_eq [OF Cons.prems(1) [unfolded outbox_wf_def] Cons.prems(2) n] by simp
      have hn: "h n \<in> set (ad_notifications (one_pass C p db))" using n by (auto simp: h(1) upd_where_def)
      show ?thesis using Cons.IH [OF wf hn] h(2,3) by (simp add: p Some \<open>m = n\<close>)
    next
      case False
      then have "m \<in> set (ad_notifications (one_pass C p db))" using Cons.prems(2) by (auto simp: h(1) upd_where_def image_iff)
      from Cons.IH [OF wf this] False show ?thesis by (simp add: p Some)
    qed
  qed
qed simp

lemma in_time_spends:
  assumes "outbox_wf db" "in_time C ps db"
  shows "budget (run_passes C ps db) \<le> budget db - length ps"
  using assms
proof (induction ps arbitrary: db)
  case (Cons p ps)
  obtain now u now' u' post where p: "p = (now, u, now', u', post)" by (cases p) auto
  have "outbox_wf (one_pass C p db)" using Cons.prems(1) by (simp add: one_pass_def p pass_keeps)
  from Cons.IH [OF this] Cons.prems(2) have IH: "budget (run_passes C (p # ps) db) \<le> budget (one_pass C p db) - length ps"
    by simp
  show ?case
  proof (cases "next_ready db now")
    case (Some n)
    from pass_spends [OF Cons.prems(1) Some] have "budget (one_pass C p db) < budget db" by (simp add: one_pass_def p)
    with IH show ?thesis by simp
  next
    case None
    have "nt_status m \<noteq> N_PENDING" if "m \<in> set (ad_notifications db)" for m
      using next_ready_None [OF None that] Cons.prems(2) that by (auto simp: p list_all_iff split: option.splits)
    then have "budget db = 0" by (simp add: budget_def budget_of_def sum_list_eq_0_iff)
    moreover have "one_pass C p db = db" using None by (simp add: one_pass_def p worker_pass_def claim_next_def)
    ultimately show ?thesis using IH by simp
  qed
qed simp

lemma budget_zero:
  assumes "budget db = 0" "m \<in> set (ad_notifications db)"
  shows "nt_status m \<noteq> N_PENDING"
proof -
  have "budget_of m = 0" using assms by (simp add: budget_def sum_list_eq_0_iff)
  then show ?thesis by (auto simp: budget_of_def split: if_splits)
qed

lemma outbox_steps_inv:
  "outbox_steps e k db db' \<Longrightarrow> k \<noteq> [] \<Longrightarrow> outbox_wf db \<and> occurrences e k db \<le> 1 \<Longrightarrow>
   outbox_wf db' \<and> occurrences e k db' \<le> 1"
proof (induction rule: outbox_steps.induct)
  case (go db db' db'')
  from outbox_step_inv [OF go.hyps(2) go.prems(1) go.IH [OF go.prems]] show ?case .
qed

section \<open>Properties\<close>

definition demo_sections :: sections where
  "demo_sections = default_sections\<lparr>sc_telegram := (sc_telegram default_sections)\<lparr>tg_enabled := True,
     tg_bot_token := Some ''t'', tg_chat_id := ''1''\<rparr>\<rparr>"

definition demo_notify :: notify_config where
  "demo_notify = \<lparr>nc_max_attempts = 5, nc_suppress_window = 300, nc_retry_base = 30, nc_retry_max = 3600\<rparr>"

text \<open>
  An event that happens once is announced once: when an occurrence is only ever enqueued as
  unique, the outbox never holds two rows for it, whatever is enqueued, delivered, retried, sent
  again or tested in between.
\<close>

theorem unique_event_recorded_once:
  assumes "outbox_steps e k db0 db" "ad_notifications db0 = []" "k \<noteq> []"
  shows "length (filter (\<lambda>n. nt_event n = e \<and> nt_dedupe_key n = Some k) (ad_notifications db)) \<le> 1"
proof -
  have "outbox_wf db \<and> occurrences e k db \<le> 1"
    using outbox_steps_inv [OF assms(1,3)] assms(2) by (simp add: outbox_wf_def occurrences_def)
  then show ?thesis by (simp add: occurrences_def same_occurrence_def[abs_def])
qed

theorem unique_event_recorded_once_witness:
  "length (filter (\<lambda>n. nt_event n = BACKUP_FAILED \<and> nt_dedupe_key n = Some ''run:1'')
     (ad_notifications (snd (enqueue demo_notify 2 BACKUP_FAILED [] (Some ''run:1'') True None None
        (snd (enqueue demo_notify 1 BACKUP_FAILED [] (Some ''run:1'') True None None (empty_db demo_sections))))))) \<le> 1"
proof (rule unique_event_recorded_once)
  show "outbox_steps BACKUP_FAILED ''run:1'' (empty_db demo_sections)
     (snd (enqueue demo_notify 2 BACKUP_FAILED [] (Some ''run:1'') True None None
        (snd (enqueue demo_notify 1 BACKUP_FAILED [] (Some ''run:1'') True None None (empty_db demo_sections)))))"
    by (rule outbox_steps.go [OF outbox_steps.go [OF outbox_steps.stop]]; rule o_enqueue [OF _ prod.collapse [symmetric]]) simp_all
qed (simp_all add: empty_db_def)

text \<open>
  A repeated event is suppressed exactly when the channel wants it and a message for the same
  occurrence was queued or sent within the window; the repeat is recorded, not dropped.
\<close>

theorem repeat_suppressed_iff_recent:
  "(\<exists>n. fst (enqueue C now e vars (Some (c # cs)) False bid rid db) = Some n \<and> nt_status n = N_SUPPRESSED) \<longleftrightarrow>
   wanted (sc_telegram (ad_sections db)) e
   \<and> (\<exists>m \<in> set (ad_notifications db). nt_event m = e \<and> nt_dedupe_key m = Some (c # cs)
        \<and> now - seconds (nc_suppress_window C) \<le> nt_created_at m \<and> nt_status m \<in> {N_PENDING, N_SENT})"
proof (cases "wanted (sc_telegram (ad_sections db)) e")
  case False
  then show ?thesis by (simp add: enqueue_def)
next
  case True
  have "(\<exists>n. fst (enqueue C now e vars (Some (c # cs)) False bid rid db) = Some n \<and> nt_status n = N_SUPPRESSED) \<longleftrightarrow>
     latest_with_key db e (c # cs) (Some (now - seconds (nc_suppress_window C))) [N_PENDING, N_SENT] \<noteq> None"
    using True by (auto simp: enqueue_def notification_create_def Let_def)
  then show ?thesis
    unfolding latest_with_key_Some using True by (simp add: same_occurrence_def conj_assoc)
qed

text \<open>
  C39. Delivery ends. Whatever Telegram answers, and however the clock and the backoff run, a message with
  attempts left is attempted no more often than those, a fresh one no more often than its limit; and
  once the worker has made as many passes as there are attempts left (one for a pending message whose
  attempts are spent), each at a moment when what is pending is due, no message is pending.
\<close>

theorem delivery_attempts_bounded:
  assumes "distinct (map nt_id (ad_notifications db))"
  shows "(\<forall>m \<in> set (ad_notifications db). nt_attempts m < nt_max_attempts m \<longrightarrow>
       attempts_at C (nt_id m) ps db \<le> nt_max_attempts m - nt_attempts m)
    \<and> (in_time C ps db \<and> sum_list (map (\<lambda>m. if nt_status m = N_PENDING then max 1 (nt_max_attempts m - nt_attempts m) else 0)
         (ad_notifications db)) \<le> length ps \<longrightarrow>
       (\<forall>m \<in> set (ad_notifications (run_passes C ps db)). nt_status m \<noteq> N_PENDING))"
proof -
  have wf: "outbox_wf db" using assms by (simp add: outbox_wf_def)
  have "attempts_at C (nt_id m) ps db \<le> nt_max_attempts m - nt_attempts m"
    if "m \<in> set (ad_notifications db)" "nt_attempts m < nt_max_attempts m" for m
    using attempts_at_budget [OF wf that(1), of C ps] that(2) by (auto simp: budget_of_def split: if_splits)
  moreover have "nt_status m \<noteq> N_PENDING"
    if "in_time C ps db" "budget db \<le> length ps" "m \<in> set (ad_notifications (run_passes C ps db))" for m
    using in_time_spends [OF wf that(1)] that(2,3) budget_zero by simp
  ultimately show ?thesis by (auto simp: budget_def budget_of_def [abs_def])
qed

text \<open>One message, two attempts, Telegram out of reach: two passes an hour apart give it up.\<close>

definition twice_notify :: notify_config where
  "twice_notify = demo_notify\<lparr>nc_max_attempts := 2\<rparr>"

definition twice_db :: app_db where
  "twice_db = snd (enqueue twice_notify 1 BACKUP_FAILED [] None False None None (empty_db demo_sections))"

definition twice_passes :: "outbox_pass list" where
  "twice_passes = [(2, 0, 2, 0, \<lambda>_ _ _ _. Transport_error []), (3600000000, 0, 3600000000, 0, \<lambda>_ _ _ _. Transport_error [])]"

definition twice_row :: "nat \<Rightarrow> datetime option \<Rightarrow> string option \<Rightarrow> notification_row" where
  "twice_row a next e = \<lparr>nt_id = 1, nt_event = BACKUP_FAILED, nt_status = N_PENDING,
      nt_variables = [], nt_suppressed_by = None, nt_dedupe_key = None, nt_attempts = a, nt_max_attempts = 2,
      nt_next_attempt_at = next, nt_sent_at = None, nt_error_message = e, nt_backup_id = None,
      nt_restore_id = None, nt_created_at = 1\<rparr>"

lemma twice_rows: "ad_notifications twice_db = [twice_row 0 None None]" "ad_sections twice_db = demo_sections"
  by (simp_all add: twice_db_def enqueue_def wanted_def demo_sections_def default_sections_def empty_db_def
      notification_create_def twice_notify_def demo_notify_def next_id_def twice_row_def Let_def)

theorem delivery_attempts_bounded_witness:
  "attempts_at twice_notify 1 twice_passes twice_db \<le> 2
   \<and> filter (\<lambda>m. nt_status m = N_PENDING) (ad_notifications (run_passes twice_notify twice_passes twice_db)) = []"
proof -
  let ?p = "(2, 0, 2, 0, \<lambda>_ _ _ _. Transport_error []) :: outbox_pass"
  have "next_ready twice_db 2 = Some (twice_row 0 None None)" by (simp add: next_ready_def twice_rows) (simp add: twice_row_def)
  then have "claim_next twice_notify 2 0 twice_db = (Some \<lparr>nk_id = 1, nk_event = BACKUP_FAILED, nk_variables = [],
      nk_attempt = 1, nk_max_attempts = 2\<rparr>, set_notification 1 (\<lambda>m. m\<lparr>nt_attempts := 1,
        nt_next_attempt_at := Some (after_seconds 2 (retry_delay twice_notify 1 0))\<rparr>) twice_db)"
    by (simp add: claim_next_def Let_def) (simp add: twice_row_def)
  moreover have "py_strip ''t'' = ''t''" "py_strip ''1'' = ''1''" by code_simp+
  then have "tg_enabled (sc_telegram demo_sections)" "tg_bot_token (sc_telegram demo_sections) = Some ''t''"
    "tg_chat_id (sc_telegram demo_sections) = ''1''" "py_strip ''t'' \<noteq> []" "py_strip ''1'' \<noteq> []"
    by (simp_all add: demo_sections_def)
  moreover have "retry_delay twice_notify 1 0 = 30"
    by (simp add: retry_delay_def twice_notify_def demo_notify_def backoff_ceiling_def)
  ultimately have "\<exists>e. ad_notifications (one_pass twice_notify ?p twice_db) = [twice_row 1 (Some (after_seconds 2 30)) e]"
    by (simp add: one_pass_def worker_pass_def deliver_def Let_def parse_reply_def record_delivery_failure_def twice_rows)
      (simp add: twice_row_def)
  moreover have "after_seconds 2 30 = 30000002" by code_simp
  ultimately have time: "in_time twice_notify twice_passes twice_db"
    by (auto simp: twice_passes_def twice_rows) (auto simp: twice_row_def)
  have len: "length twice_passes = 2" by (simp add: twice_passes_def)
  have row: "nt_status (twice_row 0 None None) = N_PENDING" "nt_attempts (twice_row 0 None None) = 0"
    "nt_max_attempts (twice_row 0 None None) = 2" "nt_id (twice_row 0 None None) = 1"
    by (simp_all add: twice_row_def)
  have "distinct (map nt_id (ad_notifications twice_db))" by (simp add: twice_rows)
  from delivery_attempts_bounded [OF this, of twice_notify twice_passes] time len row show ?thesis
    by (simp only: twice_rows) (simp add: filter_empty_conv)
qed

text \<open>The computed backoff lies between the base and the larger of base and ceiling.\<close>

theorem backoff_within_bounds:
  assumes "0 \<le> u" "u \<le> 1"
  shows "of_int (nc_retry_base C) \<le> retry_delay C attempt u
    \<and> retry_delay C attempt u \<le> of_int (max (nc_retry_base C) (nc_retry_max C))"
proof (cases "backoff_ceiling C attempt > nc_retry_base C")
  case False
  then show ?thesis by (simp add: retry_delay_def Let_def)
next
  case True
  define b where "b = nc_retry_base C"
  define c where "c = backoff_ceiling C attempt"
  have bc: "(of_int b :: rat) < of_int c" using True by (simp add: b_def c_def)
  define p where "p = (of_int c - of_int b) * u"
  have "p \<le> (of_int c - of_int b) * 1"
    unfolding p_def using bc assms by (intro mult_left_mono) simp_all
  then have le: "p \<le> of_int c - of_int b" by simp
  have ge: "0 \<le> p" unfolding p_def using bc assms by simp
  have "c \<le> max b (nc_retry_max C)" by (simp add: c_def backoff_ceiling_def)
  then have "(of_int c :: rat) \<le> of_int (max b (nc_retry_max C))" by (simp only: of_int_le_iff)
  with le ge have "of_int b \<le> of_int b + p" "of_int b + p \<le> of_int (max b (nc_retry_max C))"
    by linarith+
  with True show ?thesis
    unfolding retry_delay_def Let_def b_def [symmetric] c_def [symmetric] p_def [symmetric] by simp
qed

theorem backoff_within_bounds_witness:
  "of_int (nc_retry_base demo_notify) \<le> retry_delay demo_notify 3 (1 / 2)
    \<and> retry_delay demo_notify 3 (1 / 2) \<le> of_int (max (nc_retry_base demo_notify) (nc_retry_max demo_notify))"
  by (rule backoff_within_bounds) simp_all

end
