(* ===== verification/Agent_Client.thy ===== *)
theory Agent_Client
  imports Agent_Services Agent_Security Rate_Limits Database
begin

text \<open>
  \<open>backend/app/clients/agent_client.py\<close>: the dashboard's only way to the agent. A request is signed,
  admitted by the circuit breaker, transmitted (again only when it is a GET) and its answer turned
  into a value or an \<open>AgentError\<close>; and \<open>agent/app/api/deps.py\<close>, the agent's end of the same wire.
  The network, the clocks and \<open>secrets.token_hex\<close> are functions of a tick that advances with every
  call and transmission; \<open>hashlib\<close>, \<open>hmac\<close> and the query encoding of \<open>httpx\<close> are parameters.
\<close>

section \<open>The wire\<close>

datatype delivery = Refused \<comment> \<open>never reached the agent\<close>
  | Lost \<comment> \<open>served, but the response was lost\<close>
  | Answered

record network =
  nt_delivery :: "nat \<Rightarrow> delivery"
  nt_time :: "nat \<Rightarrow> clock" \<comment> \<open>\<open>time.time()\<close> of the dashboard\<close>
  nt_mono :: "nat \<Rightarrow> clock" \<comment> \<open>\<open>time.monotonic()\<close> of the dashboard\<close>
  nt_agent_time :: "nat \<Rightarrow> clock" \<comment> \<open>\<open>time.time()\<close> of the host\<close>
  nt_nonce :: "nat \<Rightarrow> string"
  nt_correlation :: "string option"
  nt_sha :: "string \<Rightarrow> string"
  nt_hmac :: "string \<Rightarrow> string \<Rightarrow> string"

record client_settings =
  cs_key_id :: string
  cs_secret :: string
  cs_max_retries :: nat

text \<open>What one client holds, with the state \<open>'a\<close> of the agent it talks to.\<close>

record 'a wire =
  wi_breaker :: breaker
  wi_tick :: nat
  wi_sent :: "request list"
  wi_agent :: 'a

section \<open>Signing\<close>

definition HEADER_CORRELATION_ID :: string where "HEADER_CORRELATION_ID = ''X-Correlation-ID''"

definition timestamp_text :: "clock \<Rightarrow> string" where
  "timestamp_text t = show_int (trunc_rat t)"

text \<open>\<open>_headers\<close> and \<open>_prepare_headers\<close>.\<close>

definition client_headers :: "network \<Rightarrow> client_settings \<Rightarrow> nat \<Rightarrow> string \<Rightarrow> string \<Rightarrow> string \<Rightarrow> bool
    \<Rightarrow> (string \<times> string) list" where
  "client_headers N cs tick verb signed_path body has_payload =
     [(HEADER_KEY_ID, cs_key_id cs), (HEADER_TIMESTAMP, timestamp_text (nt_time N tick)),
      (HEADER_NONCE, nt_nonce N tick),
      (HEADER_SIGNATURE, sign_request (nt_sha N) (nt_hmac N) (cs_secret cs) verb signed_path
         (timestamp_text (nt_time N tick)) (nt_nonce N tick) body)]
     @ (case nonempty (nt_correlation N) of None \<Rightarrow> [] | Some c \<Rightarrow> [(HEADER_CORRELATION_ID, c)])
     @ (if has_payload then [(''Content-Type'', ''application/json'')] else [])"

definition signed_request :: "network \<Rightarrow> client_settings \<Rightarrow> nat \<Rightarrow> string \<Rightarrow> string \<Rightarrow> string option \<Rightarrow> request" where
  "signed_request N cs tick verb signed_path payload =
     (let body = (case payload of None \<Rightarrow> [] | Some b \<Rightarrow> b) in
      \<lparr>rq_method = verb, rq_path = signed_path,
       rq_headers = client_headers N cs tick verb signed_path body (payload \<noteq> None), rq_body = body\<rparr>)"

section \<open>Answers\<close>

fun agent_title :: "agent_error \<Rightarrow> string" where
  "agent_title (ValidationFailed _) = ''Validation failed''"
| "agent_title (SchemaValidationFailed _) = ''Request schema validation failed''"
| "agent_title (AuthenticationFailed _) = ''Authentication failed''"
| "agent_title (ClientNotAllowed _) = ''Client address not allowed''"
| "agent_title (NotFound _) = ''Resource not found''"
| "agent_title (ConcurrencyConflict _) = ''Another task holds this slot''"
| "agent_title (GuestLocked _) = ''Guest is locked by another operation''"
| "agent_title (InsufficientStorage _) = ''Insufficient storage''"
| "agent_title (ExecutionFailed _) = ''Command execution failed''"

definition BAD_CREDENTIALS :: string where
  "BAD_CREDENTIALS = ''The Backup Agent rejected the credentials of the dashboard''"

text \<open>
  \<open>_parse\<close> of the problem document the agent's handlers answer an error with: its detail, or its title
  when that is empty.
\<close>

definition parse_answer :: "agent_error + 'r \<Rightarrow> app_error + 'r" where
  "parse_answer a = (case a of
     Inr v \<Rightarrow> Inr v
   | Inl e \<Rightarrow>
       if agent_status_code e \<in> {401, 403} then Inl (App_AgentError BAD_CREDENTIALS (Some (agent_status_code e)))
       else Inl (App_AgentError (if agent_detail e = [] then agent_title e else agent_detail e)
         (Some (agent_status_code e))))"

section \<open>One request\<close>

definition UNREACHABLE :: string where "UNREACHABLE = ''Could not reach the Backup Agent''"
definition PAUSED :: string where "PAUSED = ''The Backup Agent is unreachable; requests are paused''"

type_synonym ('a, 'r) server = "nat \<Rightarrow> request \<Rightarrow> 'a \<Rightarrow> (agent_error + 'r) \<times> 'a"

text \<open>The retry loop: every attempt carries a fresh timestamp, nonce and signature.\<close>

fun transmit :: "network \<Rightarrow> client_settings \<Rightarrow> ('a, 'r) server \<Rightarrow> string \<Rightarrow> string \<Rightarrow> string option \<Rightarrow> nat
    \<Rightarrow> 'a wire \<Rightarrow> (agent_error + 'r) option \<times> 'a wire" where
  "transmit N cs serve verb signed_path payload 0 w = (None, w)"
| "transmit N cs serve verb signed_path payload (Suc attempts) w =
     (let i = wi_tick w; r = signed_request N cs i verb signed_path payload;
          w1 = w\<lparr>wi_tick := Suc i, wi_sent := wi_sent w @ [r]\<rparr> in
      case nt_delivery N i of
        Refused \<Rightarrow> transmit N cs serve verb signed_path payload attempts w1
      | Lost \<Rightarrow> transmit N cs serve verb signed_path payload attempts
          (w1\<lparr>wi_agent := snd (serve i r (wi_agent w))\<rparr>)
      | Answered \<Rightarrow> (Some (fst (serve i r (wi_agent w))), w1\<lparr>wi_agent := snd (serve i r (wi_agent w))\<rparr>))"

definition attempts_of :: "client_settings \<Rightarrow> string \<Rightarrow> nat" where
  "attempts_of cs verb = (if verb = ''GET'' then cs_max_retries cs + 1 else 1)"

definition send_request :: "network \<Rightarrow> client_settings \<Rightarrow> ('a, 'r) server \<Rightarrow> string \<Rightarrow> string \<Rightarrow> string option
    \<Rightarrow> 'a wire \<Rightarrow> (app_error + 'r) \<times> 'a wire" where
  "send_request N cs serve verb signed_path payload w0 =
     (let now = nt_mono N (wi_tick w0); w = w0\<lparr>wi_tick := Suc (wi_tick w0)\<rparr> in
      if cs_secret cs = [] then (Inl (App_ConfigurationError ''PROXSYNC_AGENT_HMAC_SECRET is not set''), w)
      else (case allow (wi_breaker w) now of
          (False, b) \<Rightarrow> (Inl (App_AgentUnavailable PAUSED), w\<lparr>wi_breaker := b\<rparr>)
        | (True, b) \<Rightarrow>
            (case transmit N cs serve verb signed_path payload (attempts_of cs verb) (w\<lparr>wi_breaker := b\<rparr>) of
               (None, w1) \<Rightarrow> (Inl (App_AgentUnavailable UNREACHABLE),
                 w1\<lparr>wi_breaker := record_failure (wi_breaker w1) (nt_mono N (wi_tick w1))\<rparr>)
             | (Some answer, w1) \<Rightarrow> (parse_answer answer, w1\<lparr>wi_breaker := record_success (wi_breaker w1)\<rparr>))))"

section \<open>The agent's end\<close>

text \<open>
  The dependencies of every route but \<open>/health\<close>: the address filter, then the signature. Starlette
  lower-cases the header names, which \<open>get_header\<close> ignores anyway.
\<close>

record agent_end =
  ae_auth :: authenticator
  ae_fs :: host_fs

definition guarded :: "network \<Rightarrow> (agent_error + unit) \<Rightarrow> (agent_end \<Rightarrow> (agent_error + 'r) \<times> agent_end)
    \<Rightarrow> (agent_end, 'r) server" where
  "guarded N client_allowed handler tick r s =
     (case client_allowed of
        Inl e \<Rightarrow> (Inl e, s)
      | Inr _ \<Rightarrow> (case verify_request (nt_sha N) (nt_hmac N) (ae_auth s) r (nt_agent_time N tick) of
          (Inl e, a) \<Rightarrow> (Inl e, s\<lparr>ae_auth := a\<rparr>)
        | (Inr _, a) \<Rightarrow> handler (s\<lparr>ae_auth := a\<rparr>)))"

section \<open>Operations\<close>

text \<open>
  \<open>json.dumps\<close> of the flat payloads the client sends (strings, integers, booleans): ASCII output,
  the separators \<open>, \<close> and \<open>: \<close>.
\<close>

definition hex4 :: "nat \<Rightarrow> string" where
  "hex4 n = map (\<lambda>d. ''0123456789abcdef'' ! d) [n div 4096 mod 16, n div 256 mod 16, n div 16 mod 16, n mod 16]"

definition BACKSLASH :: char where "BACKSLASH = CHR 0x5C"

definition json_char :: "char \<Rightarrow> string" where
  "json_char c = (if c = CHR 0x22 \<or> c = BACKSLASH then [BACKSLASH, c]
     else if c = CHR 0x0A then BACKSLASH # ''n'' else if c = CHR 0x0D then BACKSLASH # ''r''
     else if c = CHR 0x09 then BACKSLASH # ''t'' else if c = CHR 0x08 then BACKSLASH # ''b''
     else if c = CHR 0x0C then BACKSLASH # ''f''
     else if code c < 32 \<or> 126 < code c then BACKSLASH # CHR ''u'' # hex4 (code c)
     else [c])"

definition json_string :: "string \<Rightarrow> string" where
  "json_string s = [CHR 0x22] @ concat (map json_char s) @ [CHR 0x22]"

fun json_value :: "json \<Rightarrow> string" where
  "json_value J_null = ''null''"
| "json_value (J_bool b) = (if b then ''true'' else ''false'')"
| "json_value (J_int i) = show_int i"
| "json_value (J_num q) = show_int (trunc_rat q)" \<comment> \<open>no payload holds one\<close>
| "json_value (J_str s) = json_string s"
| "json_value (J_list vs) = ''['' @ join_with '', '' (map json_value vs) @ '']''"
| "json_value (J_obj kvs) = ''{'' @ join_with '', '' (map (\<lambda>kv. json_string (fst kv) @ '': '' @ json_value (snd kv)) kvs) @ ''}''"

definition json_dumps :: "(string \<times> json) list \<Rightarrow> string" where
  "json_dumps kvs = json_value (J_obj kvs)"

definition with_correlation :: "string option \<Rightarrow> (string \<times> json) list \<Rightarrow> (string \<times> json) list" where
  "with_correlation correlation payload = (case nonempty correlation of
     Some c \<Rightarrow> if ''correlation_id'' \<in> fst ` set payload then payload
       else payload @ [(''correlation_id'', J_str c)]
   | None \<Rightarrow> payload)"

definition truthy_text :: "string \<Rightarrow> string option \<Rightarrow> (string \<times> json) list" where
  "truthy_text key v = (case nonempty v of None \<Rightarrow> [] | Some s \<Rightarrow> [(key, J_str s)])"

definition given_int :: "string \<Rightarrow> int option \<Rightarrow> (string \<times> json) list" where
  "given_int key v = (case v of None \<Rightarrow> [] | Some i \<Rightarrow> [(key, J_int i)])"

record backup_call =
  bc_vmid :: int
  bc_guest_type :: guest_type
  bc_mode :: backup_mode
  bc_compression :: compression
  bc_storage :: string
  bc_zstd_threads :: "int option"
  bc_bwlimit :: int
  bc_notes :: "string option"

definition start_backup_payload :: "string option \<Rightarrow> backup_call \<Rightarrow> (string \<times> json) list" where
  "start_backup_payload correlation c =
     [(''vmid'', J_int (bc_vmid c)), (''guest_type'', J_str (guest_type_value (bc_guest_type c))),
      (''mode'', J_str (backup_mode_value (bc_mode c))),
      (''compression'', J_str (compression_value (bc_compression c))),
      (''storage'', J_str (bc_storage c)), (''bwlimit_kbps'', J_int (bc_bwlimit c))]
     @ given_int ''zstd_threads'' (bc_zstd_threads c) @ truthy_text ''notes'' (bc_notes c)
     @ truthy_text ''correlation_id'' correlation"

record restore_call =
  rc_guest_type :: guest_type
  rc_archive :: string
  rc_target_vmid :: int
  rc_storage :: string
  rc_overwrite :: bool
  rc_force_stop :: bool
  rc_start_after :: bool
  rc_bwlimit :: int
  rc_expected_sha256 :: "string option"
  rc_unprivileged :: "bool option"

definition start_restore_call :: "string option \<Rightarrow> restore_call \<Rightarrow> string \<times> (string \<times> json) list" where
  "start_restore_call correlation c =
     (let payload = [(''archive'', J_str (rc_archive c)), (''target_vmid'', J_int (rc_target_vmid c)),
        (''storage'', J_str (rc_storage c)), (''overwrite'', J_bool (rc_overwrite c)),
        (''force_stop'', J_bool (rc_force_stop c)), (''start_after'', J_bool (rc_start_after c)),
        (''bwlimit_kbps'', J_int (rc_bwlimit c))] @ truthy_text ''expected_sha256'' (rc_expected_sha256 c) in
      case rc_guest_type c of
        VM \<Rightarrow> (''/restore/vm'', with_correlation correlation payload)
      | LXC \<Rightarrow> (''/restore/lxc'', with_correlation correlation (payload
          @ (case rc_unprivileged c of None \<Rightarrow> [] | Some u \<Rightarrow> [(''unprivileged'', J_bool u)]))))"

definition start_upload_payload :: "string option \<Rightarrow> string \<Rightarrow> string \<Rightarrow> string \<Rightarrow> int \<Rightarrow> int option \<Rightarrow> bool
    \<Rightarrow> (string \<times> json) list" where
  "start_upload_payload correlation fname remote remote_path bwlimit transfers verify_after =
     with_correlation correlation ([(''filename'', J_str fname), (''remote'', J_str remote),
       (''remote_path'', J_str remote_path), (''bwlimit_kbps'', J_int bwlimit),
       (''verify_after'', J_bool verify_after)] @ given_int ''transfers'' transfers)"

definition start_download_payload :: "string option \<Rightarrow> string \<Rightarrow> string \<Rightarrow> string \<Rightarrow> int \<Rightarrow> bool
    \<Rightarrow> (string \<times> json) list" where
  "start_download_payload correlation fname remote remote_path bwlimit overwrite =
     with_correlation correlation [(''filename'', J_str fname), (''remote'', J_str remote),
       (''remote_path'', J_str remote_path), (''bwlimit_kbps'', J_int bwlimit), (''overwrite'', J_bool overwrite)]"

text \<open>The payload of \<open>verify_remote\<close> and of \<open>delete_remote\<close>.\<close>

definition remote_payload :: "string option \<Rightarrow> string \<Rightarrow> string \<Rightarrow> string \<Rightarrow> (string \<times> json) list" where
  "remote_payload correlation fname remote remote_path =
     with_correlation correlation [(''filename'', J_str fname), (''remote'', J_str remote),
       (''remote_path'', J_str remote_path)]"

section \<open>Facts\<close>

lemma transmit_sent:
  "\<exists>rs. wi_sent (snd (transmit N cs serve m p b n w)) = wi_sent w @ rs \<and> length rs \<le> n"
proof (induction n arbitrary: w)
  case (Suc n)
  let ?w = "w\<lparr>wi_tick := Suc (wi_tick w), wi_sent := wi_sent w @ [signed_request N cs (wi_tick w) m p b]\<rparr>"
  show ?case
    using Suc [of ?w] Suc [of "?w\<lparr>wi_agent := snd (serve (wi_tick w) (signed_request N cs (wi_tick w) m p b) (wi_agent w))\<rparr>"]
    by (auto simp: Let_def split: delivery.split)
qed simp

lemma transmit_breaker [simp]: "wi_breaker (snd (transmit N cs serve m p b n w)) = wi_breaker w"
  by (induction n arbitrary: w) (auto simp: Let_def split: delivery.split)

text \<open>An invariant of the agent that its server keeps is kept by every transmission.\<close>

lemma transmit_agent:
  assumes "\<And>i r s. P s \<Longrightarrow> P (snd (serve i r s))" "P (wi_agent w)"
  shows "P (wi_agent (snd (transmit N cs serve m p b n w)))"
  using assms(2) by (induction n arbitrary: w) (auto simp: Let_def assms(1) split: delivery.split)

lemma transmit_answer:
  "transmit N cs serve m p b n w = (Some a, w') \<Longrightarrow> \<exists>i r s. serve i r s = (a, wi_agent w')"
proof (induction n arbitrary: w)
  case (Suc n)
  then show ?case
    by (auto simp: Let_def split: delivery.splits) (metis prod.collapse)
qed simp

text \<open>Every call is either stopped before the wire or is one run of \<open>transmit\<close>.\<close>

lemma send_request_cases:
  assumes "send_request N cs serve m p b w = (r, w')"
  obtains (stopped) e where "r = Inl e" "wi_agent w' = wi_agent w" "wi_sent w' = wi_sent w"
      "\<forall>d s. e \<noteq> App_AgentError d s"
  | (unanswered) u w1 where "transmit N cs serve m p b (attempts_of cs m) u = (None, w1)"
      "r = Inl (App_AgentUnavailable UNREACHABLE)" "wi_agent u = wi_agent w" "wi_sent u = wi_sent w"
      "wi_agent w' = wi_agent w1" "wi_sent w' = wi_sent w1"
  | (answered) u w1 a where "transmit N cs serve m p b (attempts_of cs m) u = (Some a, w1)"
      "r = parse_answer a" "wi_agent u = wi_agent w" "wi_sent u = wi_sent w"
      "wi_agent w' = wi_agent w1" "wi_sent w' = wi_sent w1"
proof (cases "cs_secret cs = []")
  case True
  with assms stopped show thesis by (auto simp: send_request_def)
next
  case False
  let ?w = "w\<lparr>wi_tick := Suc (wi_tick w)\<rparr>"
  obtain go br where al: "allow (wi_breaker w) (nt_mono N (wi_tick w)) = (go, br)" by force
  show thesis
  proof (cases go)
    case False
    with al \<open>cs_secret cs \<noteq> []\<close> assms stopped show thesis by (auto simp: send_request_def)
  next
    case True
    obtain ans w1 where t: "transmit N cs serve m p b (attempts_of cs m) (?w\<lparr>wi_breaker := br\<rparr>) = (ans, w1)" by force
    show thesis
    proof (cases ans)
      case None
      with t True al \<open>cs_secret cs \<noteq> []\<close> assms show thesis
        by (intro unanswered [of "?w\<lparr>wi_breaker := br\<rparr>" w1]) (auto simp: send_request_def)
    next
      case (Some a)
      with t True al \<open>cs_secret cs \<noteq> []\<close> assms show thesis
        by (intro answered [of "?w\<lparr>wi_breaker := br\<rparr>" a w1]) (auto simp: send_request_def)
    qed
  qed
qed

lemma send_request_agent:
  assumes "\<And>i r s. P s \<Longrightarrow> P (snd (serve i r s))" "P (wi_agent w)" "send_request N cs serve m p b w = (r, w')"
  shows "P (wi_agent w')"
  using assms(3)
proof (cases rule: send_request_cases)
  case (unanswered u w1)
  with transmit_agent [of P serve u, OF assms(1)] assms(2) show ?thesis by (metis snd_conv)
next
  case (answered u w1 a)
  with transmit_agent [of P serve u, OF assms(1)] assms(2) show ?thesis by (metis snd_conv)
qed (use assms(2) in simp)

lemma send_request_answer:
  assumes "send_request N cs serve m p b w = (r, w')" "(\<exists>v. r = Inr v) \<or> (\<exists>d s. r = Inl (App_AgentError d s))"
  obtains i q s a where "serve i q s = (a, wi_agent w')" "r = parse_answer a"
  using assms(1)
proof (cases rule: send_request_cases)
  case (answered u w1 a)
  with transmit_answer [of N cs serve m p b "attempts_of cs m" u a w1] that show thesis by metis
qed (use assms(2) in auto)

lemma parse_answer_simps:
  "parse_answer a = Inr v \<longleftrightarrow> a = Inr v"
  "parse_answer a = Inl (App_AgentError d (Some 404)) \<Longrightarrow> \<exists>x. a = Inl (NotFound x)"
  by (auto simp: parse_answer_def split: sum.splits if_splits elim!: agent_status_code.elims)

section \<open>Properties\<close>

text \<open>
  C32. Only a GET is ever transmitted twice: a call with another method puts at most one request on the
  wire whatever the network does, a GET at most one more than the configured retries, and a client
  without a secret or with an open circuit none.
\<close>

theorem post_sent_at_most_once:
  "\<exists>rs. wi_sent (snd (send_request N cs serve verb path payload w)) = wi_sent w @ rs
    \<and> length rs \<le> (if cs_secret cs \<noteq> [] \<and> fst (allow (wi_breaker w) (nt_mono N (wi_tick w)))
        then if verb = ''GET'' then cs_max_retries cs + 1 else 1 else 0)"
proof (cases "cs_secret cs = [] \<or> \<not> fst (allow (wi_breaker w) (nt_mono N (wi_tick w)))")
  case True
  then show ?thesis by (auto simp: send_request_def Let_def split: prod.split bool.split)
next
  case False
  obtain r w' where sr: "send_request N cs serve verb path payload w = (r, w')" by force
  have att: "attempts_of cs verb = (if verb = ''GET'' then cs_max_retries cs + 1 else 1)"
    by (simp add: attempts_of_def)
  note sent = transmit_sent [of N cs serve verb path payload "attempts_of cs verb", unfolded att]
  from sr show ?thesis
  proof (cases rule: send_request_cases)
    case (unanswered u w1)
    with sent [of u] sr False show ?thesis by (simp add: att)
  next
    case (answered u w1 a)
    with sent [of u] sr False show ?thesis by (simp add: att)
  qed (use sr in auto)
qed

lemma dashboard_header_names:
  "py_lower ''X-Correlation-ID'' = ''x-correlation-id''" "py_lower ''Content-Type'' = ''content-type''"
  by (simp_all add: py_lower_def lower_char_def is_upper_def code_def char_of_def bit_0)

lemma client_header_values:
  "get_header (client_headers N cs i m p b h) HEADER_KEY_ID = Some (cs_key_id cs)"
  "get_header (client_headers N cs i m p b h) HEADER_TIMESTAMP = Some (timestamp_text (nt_time N i))"
  "get_header (client_headers N cs i m p b h) HEADER_NONCE = Some (nt_nonce N i)"
  "get_header (client_headers N cs i m p b h) HEADER_SIGNATURE = Some (sign_request (nt_sha N) (nt_hmac N)
     (cs_secret cs) m p (timestamp_text (nt_time N i)) (nt_nonce N i) b)"
  unfolding get_header_def client_headers_def HEADER_KEY_ID_def HEADER_TIMESTAMP_def HEADER_NONCE_def
    HEADER_SIGNATURE_def HEADER_CORRELATION_ID_def
  by (cases "nonempty (nt_correlation N)"; simp add: demo_lower dashboard_header_names)+

lemma digit_text:
  assumes "is_digit c"
  shows "\<not> py_isspace c" "c \<noteq> CHR ''-''" "c \<noteq> CHR ''+''" "c \<noteq> CHR ''_''" "c \<noteq> CHR ''.''"
    "c \<noteq> CHR ''e''" "c \<noteq> CHR ''i''" "c \<noteq> CHR ''n''" "lower_char c = c" "code c < 128"
  using assms by (auto simp: is_digit_def py_isspace_def code_def lower_char_def is_upper_def)

lemma py_float_show_nat: "py_float_of (show_nat n) = Some (Fin (of_nat n))"
proof -
  let ?s = "show_nat n"
  have all: "x \<in> set ?s \<Longrightarrow> is_digit x" for x using show_nat_digits [of n] by (simp add: list_all_iff)
  have sep: "CHR ''_'' \<notin> set ?s" "CHR ''.'' \<notin> set ?s" "CHR ''e'' \<notin> set ?s" "CHR ''i'' \<notin> set ?s" "CHR ''n'' \<notin> set ?s"
    using all digit_text by blast+
  have strip: "py_strip ?s = ?s" unfolding py_strip_def using all digit_text by (intro strip_of_id) simp
  have sign: "split_sign ?s = (False, ?s)"
    using all [of "hd ?s"] digit_text by (cases ?s) (auto simp: split_sign_def)
  have lower: "py_lower ?s = ?s" using all digit_text(9) by (auto simp: py_lower_def intro: map_idI)
  have words: "?s \<noteq> ''inf''" "?s \<noteq> ''infinity''" "?s \<noteq> ''nan''" using sep(4,5) by auto
  have "split_on (CHR ''_'') ?s = [?s]" "drop_underscores ?s = ?s"
    using sep(1) by (simp_all add: split_on_id drop_underscores_def filter_id_conv) blast
  then have "py_nat_text ?s = Some n" by (simp add: py_nat_text_def digit_groups_def show_nat_digits digits_val_show_nat)
  then show ?thesis
    using words sep(2,3) by (simp add: py_float_of_def strip sign unsigned_float_def lower partition_on_def mantissa_value_def)
qed

lemma ascii_digits: "list_all (\<lambda>c. code c < 128) (show_nat n)"
  using show_nat_digits [of n] digit_text(10) by (auto simp: list_all_iff)

lemma signed_request_admitted:
  assumes "cs_key_id cs = au_key_id a" "cs_secret cs = au_secret a"
    and "au_key_id a \<noteq> []" "list_all (\<lambda>c. code c < 128) (au_key_id a)"
    and "\<And>k m. nt_hmac N k m \<noteq> [] \<and> list_all (\<lambda>c. code c < 128) (nt_hmac N k m)"
    and "0 \<le> nt_time N i" "\<bar>now - of_int \<lfloor>nt_time N i\<rfloor>\<bar> \<le> of_int (au_window a)"
    and "MIN_NONCE_LENGTH \<le> length (nt_nonce N i)" "length (nt_nonce N i) \<le> MAX_NONCE_LENGTH"
    and "nt_nonce N i \<notin> fst ` set (nc_entries (au_nonces a))"
  shows "fst (verify_request (nt_sha N) (nt_hmac N) a (signed_request N cs i verb path payload) now) = Inr ()"
proof -
  let ?n = "nat \<lfloor>nt_time N i\<rfloor>"
  have pos: "0 \<le> \<lfloor>nt_time N i\<rfloor>" using assms(6) by simp
  have ts: "timestamp_text (nt_time N i) = show_nat ?n"
    using pos assms(6) by (simp add: timestamp_text_def trunc_rat_def show_int_def)
  have sig: "sign_request (nt_sha N) (nt_hmac N) (cs_secret cs) m p t n b \<noteq> []"
    "compare_digest (sign_request (nt_sha N) (nt_hmac N) (cs_secret cs) m p t n b)
       (sign_request (nt_sha N) (nt_hmac N) (cs_secret cs) m p t n b) = Inr True" for m p t n b
    using assms(5) by (simp_all add: sign_request_def compare_digest_same)
  have ne: "nt_nonce N i \<noteq> []" using assms(8) by (auto simp: MIN_NONCE_LENGTH_def)
  have fl: "py_float_of (timestamp_text (nt_time N i)) = Some (Fin (of_int \<lfloor>nt_time N i\<rfloor>))"
    using pos py_float_show_nat [of ?n] by (simp add: ts)
  have static: "verify_static (nt_sha N) (nt_hmac N) a (signed_request N cs i verb path payload) now = Inr (nt_nonce N i)"
    using assms(1-4,7-9) ne sig fl
    by (simp add: verify_static_def signed_request_def Let_def client_header_values nonempty_def ts
        compare_digest_same skew_exceeds_def not_less)
  have "fst (claim (au_nonces a) (nt_nonce N i) now) = True"
    using assms(10) by (auto simp: claim_def purge_def Let_def dest!: set_dropWhileD)
  then show ?thesis by (cases "claim (au_nonces a) (nt_nonce N i) now") (simp add: verify_request_def static)
qed

text \<open>
  C31. The two halves agree on the signature: a request the client signs with the agent's key id and
  secret is accepted by the agent, when the host's clock is within the window of the (whole seconds
  of the) dashboard's and the drawn nonce has the permitted length and is not in the cache.
\<close>

theorem signed_request_accepted:
  assumes "cs_key_id cs = au_key_id a" "cs_secret cs = au_secret a"
    and "au_key_id a \<noteq> []" "list_all (\<lambda>c. code c < 128) (au_key_id a)"
    and "\<And>k m. nt_hmac N k m \<noteq> [] \<and> list_all (\<lambda>c. code c < 128) (nt_hmac N k m)"
    and "0 \<le> nt_time N i" "\<bar>now - of_int \<lfloor>nt_time N i\<rfloor>\<bar> \<le> of_int (au_window a)"
    and "MIN_NONCE_LENGTH \<le> length (nt_nonce N i)" "length (nt_nonce N i) \<le> MAX_NONCE_LENGTH"
    and "nt_nonce N i \<notin> fst ` set (nc_entries (au_nonces a))"
  shows "fst (verify_request (nt_sha N) (nt_hmac N) a (signed_request N cs i verb path payload) now) = Inr ()"
  by (rule signed_request_admitted [OF assms])

definition demo_network :: network where
  "demo_network = \<lparr>nt_delivery = (\<lambda>_. Answered), nt_time = (\<lambda>_. 100), nt_mono = (\<lambda>_. 0), nt_agent_time = (\<lambda>_. 120),
     nt_nonce = (\<lambda>_. ''0123456789abcdef''), nt_correlation = Some ''c'', nt_sha = (\<lambda>_. ''d''), nt_hmac = (\<lambda>_ _. ''s'')\<rparr>"

definition demo_client :: client_settings where
  "demo_client = \<lparr>cs_key_id = ''dashboard'', cs_secret = ''k'', cs_max_retries = 2\<rparr>"

theorem signed_request_accepted_witness:
  "fst (verify_request (nt_sha demo_network) (nt_hmac demo_network) demo_authenticator
     (signed_request demo_network demo_client 7 ''POST'' ''/backup/start'' (Some ''{}'')) 120) = Inr ()"
  by (rule signed_request_accepted)
    (simp_all add: demo_network_def demo_client_def demo_authenticator_def build_authenticator_def code_def
      MIN_NONCE_LENGTH_def MAX_NONCE_LENGTH_def)

end
