(* ===== verification/Retention.thy ===== *)
theory Retention
  imports Notify
begin

text \<open>
  Retention of the dashboard: \<open>backend/app/repositories/retention_repository.py\<close>,
  \<open>backend/app/services/retention_service.py\<close> and \<open>backend/app/schemas/retention.py\<close>.

  The agent is a state \<open>'w\<close> with the two deletions as functions on it (\<open>retention_agent\<close>); an answer
  is an \<open>app_error\<close> or the bytes freed, and \<open>App_Internal\<close> stands for an exception that is not an
  \<open>AppError\<close>. A pass runs under the retention guard (\<open>backend/app/core/retention_guard.py\<close>), which every
  transition that could invalidate a decision takes too, so nothing changes the tables between its
  commits. \<open>stamp\<close> is the clock read after each deletion.
\<close>

datatype location = LOC_LOCAL | LOC_REMOTE

section \<open>Repository\<close>

definition guest_for_backup :: "app_db \<Rightarrow> nat \<Rightarrow> guest_key option" where
  "guest_for_backup db i = map_option guest_of (backup_get db i)"

record policy_context =
  pc_run_id :: nat
  pc_trigger :: trigger_type
  pc_job_id :: "nat option"
  pc_options :: "(string \<times> json) list option"
  pc_job_keep_local :: "int option"
  pc_job_keep_remote :: "int option"

definition retention_policy_context :: "app_db \<Rightarrow> nat \<Rightarrow> policy_context option" where
  "retention_policy_context db i =
     Option.bind (backup_get db i) (\<lambda>b. Option.bind (bh_run_id b) (\<lambda>rid.
     map_option (\<lambda>r. let job = Option.bind (rn_job_id r) (\<lambda>j. find (\<lambda>x. jb_id x = j) (ad_jobs db)) in
       \<lparr>pc_run_id = rn_id r, pc_trigger = rn_trigger r, pc_job_id = rn_job_id r, pc_options = rn_options r,
        pc_job_keep_local = map_option jb_keep_local job, pc_job_keep_remote = map_option jb_keep_remote job\<rparr>)
     (find (\<lambda>r. rn_id r = rid) (ad_runs db))))"

text \<open>\<open>_newest_first\<close>: NULL last, newest first, the id breaks ties.\<close>

definition newest_key :: "backup_row \<Rightarrow> nat \<times> int \<times> int" where
  "newest_key b = (case bh_started_at b of None \<Rightarrow> (1, 0, - int (bh_id b)) | Some t \<Rightarrow> (0, - t, - int (bh_id b)))"

definition newest_first :: "backup_row list \<Rightarrow> backup_row list" where
  "newest_first bs = sort_key newest_key bs"

definition has_local_copy :: "backup_row \<Rightarrow> bool" where
  "has_local_copy b = (bh_status b = B_SUCCESS \<and> bh_local_deleted_at b = None \<and> bh_filename b \<noteq> None)"

definition has_remote_copy :: "backup_row \<Rightarrow> bool" where
  "has_remote_copy b = (bh_status b \<in> {B_SUCCESS, B_DELETED} \<and> bh_upload_status b = UPLOADED
     \<and> bh_remote_deleted_at b = None \<and> bh_remote_path b \<noteq> None \<and> bh_filename b \<noteq> None)"

definition existing_copy :: "backup_row \<Rightarrow> bool" where
  "existing_copy b = (has_local_copy b \<or> has_remote_copy b)"

definition canonical_trigger_backup_id :: "app_db \<Rightarrow> nat \<Rightarrow> nat option" where
  "canonical_trigger_backup_id db i = Option.bind (guest_for_backup db i) (\<lambda>g.
     case newest_first (filter (\<lambda>b. guest_of b = g \<and> existing_copy b) (ad_backups db)) of
       [] \<Rightarrow> None | b # _ \<Rightarrow> Some (bh_id b))"

text \<open>ORDER BY vmid, guest_type: \<open>lxc\<close> sorts before \<open>vm\<close>.\<close>

definition guest_order :: "guest_key \<Rightarrow> nat \<times> nat" where
  "guest_order g = (fst g, if snd g = LXC then 0 else 1)"

definition guest_keys :: "app_db \<Rightarrow> guest_key list" where
  "guest_keys db = sort_key guest_order (remdups (map guest_of (filter existing_copy (ad_backups db))))"

fun first_per_guest :: "guest_key list \<Rightarrow> backup_row list \<Rightarrow> nat list" where
  "first_per_guest seen [] = []"
| "first_per_guest seen (b # bs) = (if guest_of b \<in> set seen then first_per_guest seen bs
     else bh_id b # first_per_guest (guest_of b # seen) bs)"

definition newest_trigger_backup_ids :: "app_db \<Rightarrow> nat list" where
  "newest_trigger_backup_ids db =
     first_per_guest [] (sort_key (\<lambda>b. (guest_order (guest_of b), newest_key b)) (filter existing_copy (ad_backups db)))"

definition local_for_guest :: "app_db \<Rightarrow> guest_key \<Rightarrow> backup_row list" where
  "local_for_guest db g = newest_first (filter (\<lambda>b. guest_of b = g \<and> has_local_copy b) (ad_backups db))"

definition remote_for_guest :: "app_db \<Rightarrow> guest_key \<Rightarrow> backup_row list" where
  "remote_for_guest db g = newest_first (filter (\<lambda>b. guest_of b = g \<and> has_remote_copy b) (ad_backups db))"

definition has_active_restore :: "app_db \<Rightarrow> nat \<Rightarrow> bool" where
  "has_active_restore db i = list_ex (\<lambda>r. rh_backup_id r = i \<and> blocks_retention (rh_status r)) (ad_restores db)"

definition refresh_status :: "backup_row \<Rightarrow> backup_row" where
  "refresh_status b = b\<lparr>bh_status :=
     if (bh_local_deleted_at b = None \<and> bh_filename b \<noteq> None) \<or> (bh_remote_path b \<noteq> None \<and> bh_remote_deleted_at b = None)
     then B_SUCCESS else B_DELETED\<rparr>"

definition mark_local_deleted :: "nat \<Rightarrow> datetime \<Rightarrow> app_db \<Rightarrow> app_db" where
  "mark_local_deleted i now = set_backup i (\<lambda>b. if bh_local_deleted_at b \<noteq> None then b
     else refresh_status (b\<lparr>bh_local_deleted_at := Some now\<rparr>))"

definition mark_remote_deleted :: "nat \<Rightarrow> datetime \<Rightarrow> app_db \<Rightarrow> app_db" where
  "mark_remote_deleted i now = set_backup i (\<lambda>b. if bh_remote_deleted_at b \<noteq> None then b
     else refresh_status (b\<lparr>bh_remote_deleted_at := Some now\<rparr>))"

section \<open>Policy\<close>

datatype policy_source = PS_GLOBAL | PS_JOB | PS_LEGACY_JOB | PS_UNRESOLVED

record resolution =
  pr_keep_local :: int
  pr_keep_remote :: int
  pr_source :: policy_source
  pr_resolved :: bool
  pr_block_reason :: "string option"

record policy = resolution +
  po_dry_run :: bool
  po_gdrive_enabled :: bool
  po_delete_remote :: bool

definition counts_ok :: "int \<Rightarrow> int \<Rightarrow> bool" where
  "counts_ok l r = (1 \<le> l \<and> l \<le> 365 \<and> 0 \<le> r \<and> r \<le> 365)"

text \<open>\<open>type(value) is int\<close>: a bool does not count.\<close>

definition raw_retention_counts :: "(string \<times> json) list \<Rightarrow> (int \<times> int) option" where
  "raw_retention_counts options = (case (map_of options ''keep_local'', map_of options ''keep_remote'') of
     (Some (J_int l), Some (J_int r)) \<Rightarrow> if counts_ok l r then Some (l, r) else None
   | _ \<Rightarrow> None)"

definition linked_job_counts :: "policy_context \<Rightarrow> (int \<times> int) option" where
  "linked_job_counts c = (case (pc_job_keep_local c, pc_job_keep_remote c) of
     (Some l, Some r) \<Rightarrow> if counts_ok l r then Some (l, r) else None
   | _ \<Rightarrow> None)"

definition resolved_policy :: "int \<Rightarrow> int \<Rightarrow> policy_source \<Rightarrow> resolution" where
  "resolved_policy l r source = \<lparr>pr_keep_local = l, pr_keep_remote = r, pr_source = source,
     pr_resolved = True, pr_block_reason = None\<rparr>"

definition unresolved_policy :: "int \<Rightarrow> int \<Rightarrow> string \<Rightarrow> resolution" where
  "unresolved_policy l r reason = \<lparr>pr_keep_local = l, pr_keep_remote = r, pr_source = PS_UNRESOLVED,
     pr_resolved = False, pr_block_reason = Some reason\<rparr>"

definition resolve_policy :: "policy_context option \<Rightarrow> int \<Rightarrow> int \<Rightarrow> resolution" where
  "resolve_policy context gl gr = (case context of
     None \<Rightarrow> resolved_policy gl gr PS_GLOBAL
   | Some c \<Rightarrow>
       let raw = (case pc_options c of None \<Rightarrow> [] | Some d \<Rightarrow> d);
           frozen = raw_retention_counts raw
       in (case map_of raw ''retention_source'' of
            Some v \<Rightarrow>
              if v = J_str ''global'' then resolved_policy gl gr PS_GLOBAL
              else if v = J_str ''job'' then
                (case frozen of Some (l, r) \<Rightarrow> resolved_policy l r PS_JOB
                 | None \<Rightarrow> unresolved_policy gl gr ''retention_policy_job_counts_missing'')
              else unresolved_policy gl gr ''retention_policy_source_invalid''
          | None \<Rightarrow>
              if pc_job_id c \<noteq> None then
                (case (if frozen \<noteq> None then frozen else linked_job_counts c) of
                   Some (l, r) \<Rightarrow> resolved_policy l r PS_LEGACY_JOB
                 | None \<Rightarrow> unresolved_policy gl gr ''retention_policy_legacy_job_counts_missing'')
              else unresolved_policy gl gr ''retention_policy_provenance_unknown''))"

text \<open>\<open>_policy\<close>: the proposed counts of a preview replace the stored ones.\<close>

definition policy_for :: "app_db \<Rightarrow> int option \<Rightarrow> int option \<Rightarrow> bool option \<Rightarrow> nat option \<Rightarrow> bool \<Rightarrow> policy" where
  "policy_for db keep_local keep_remote dry_run trigger frozen_run =
     (let s = ad_sections db;
          gl = (case keep_local of None \<Rightarrow> rs_keep_local (sc_retention s) | Some k \<Rightarrow> k);
          gr = (case keep_remote of None \<Rightarrow> rs_keep_remote (sc_retention s) | Some k \<Rightarrow> k);
          res = (case trigger of
              Some i \<Rightarrow> if frozen_run then resolve_policy (retention_policy_context db i) gl gr
                else resolved_policy gl gr PS_GLOBAL
            | None \<Rightarrow> resolved_policy gl gr PS_GLOBAL)
      in resolution.extend res \<lparr>po_dry_run = (case dry_run of None \<Rightarrow> rs_dry_run (sc_retention s) | Some d \<Rightarrow> d),
           po_gdrive_enabled = gd_enabled (sc_gdrive s),
           po_delete_remote = gd_delete_remote_on_retention (sc_gdrive s)\<rparr>)"

section \<open>Decisions\<close>

record plan =
  pl_backup :: backup_row
  pl_location :: location
  pl_action :: retention_action
  pl_reason :: string
  pl_size :: int
  pl_would_delete :: bool

definition base_size :: "backup_row \<Rightarrow> location \<Rightarrow> int" where
  "base_size b loc = opt_max0 (if loc = LOC_REMOTE \<and> bh_remote_size_bytes b \<noteq> None
     then bh_remote_size_bytes b else bh_size_bytes b)"

definition plan_of :: "backup_row \<Rightarrow> location \<Rightarrow> retention_action \<Rightarrow> string \<Rightarrow> bool \<Rightarrow> plan" where
  "plan_of b loc action reason would_delete = \<lparr>pl_backup = b, pl_location = loc, pl_action = action,
     pl_reason = reason, pl_size = base_size b loc, pl_would_delete = would_delete\<rparr>"

definition local_upload_blocker :: "backup_row \<Rightarrow> string option" where
  "local_upload_blocker b =
     (if bh_upload_status b = NOT_REQUIRED then None
      else if bh_upload_status b = UPLOADED \<and> bh_remote_path b \<noteq> None then None
      else if bh_upload_status b = UPLOADED then Some ''blocked_missing_remote_metadata''
      else Some (''blocked_upload_'' @ upload_status_value (bh_upload_status b)))"

definition remote_target :: "backup_row \<Rightarrow> (string \<times> string) option" where
  "remote_target b = Option.bind (bh_remote_path b) (\<lambda>p.
     case partition_on (CHR '':'') p of None \<Rightarrow> None | Some (r, path) \<Rightarrow> if r = [] then None else Some (r, path))"

definition rankable :: "backup_row list \<Rightarrow> backup_row list" where
  "rankable rows = filter (\<lambda>b. \<not> bh_retention_locked b \<and> bh_started_at b \<noteq> None) rows"

definition rank_of :: "backup_row list \<Rightarrow> backup_row \<Rightarrow> nat" where
  "rank_of rows b = length (takeWhile (\<lambda>r. bh_id r \<noteq> bh_id b) (rankable rows))"

definition local_plan :: "app_db \<Rightarrow> int \<Rightarrow> backup_row list \<Rightarrow> backup_row \<Rightarrow> plan" where
  "local_plan db keep rows b =
     (if bh_retention_locked b then plan_of b LOC_LOCAL SKIPPED ''retention_locked'' False
      else if bh_started_at b = None then plan_of b LOC_LOCAL SKIPPED ''missing_started_at'' False
      else if int (rank_of rows b) < keep
      then plan_of b LOC_LOCAL KEPT (''within_keep_local_'' @ show_int keep) False
      else case local_upload_blocker b of
        Some block \<Rightarrow> plan_of b LOC_LOCAL SKIPPED block False
      | None \<Rightarrow>
          (case List.map_filter local_upload_blocker (take (nat keep) (rankable rows)) of
             block # _ \<Rightarrow> plan_of b LOC_LOCAL SKIPPED (''blocked_replacement_'' @ block) False
           | [] \<Rightarrow>
               if has_active_restore db (bh_id b) then plan_of b LOC_LOCAL SKIPPED ''blocked_active_restore'' False
               else plan_of b LOC_LOCAL DELETED_LOCAL (''beyond_keep_local_'' @ show_int keep) True))"

definition remote_plan :: "app_db \<Rightarrow> policy \<Rightarrow> backup_row list \<Rightarrow> backup_row \<Rightarrow> plan" where
  "remote_plan db p rows b =
     (if bh_retention_locked b then plan_of b LOC_REMOTE SKIPPED ''retention_locked'' False
      else if bh_started_at b = None then plan_of b LOC_REMOTE SKIPPED ''missing_started_at'' False
      else if int (rank_of rows b) < pr_keep_remote p
      then plan_of b LOC_REMOTE KEPT (''within_keep_remote_'' @ show_int (pr_keep_remote p)) False
      else if \<not> po_delete_remote p then plan_of b LOC_REMOTE SKIPPED ''remote_deletion_disabled'' False
      else if \<not> po_gdrive_enabled p then plan_of b LOC_REMOTE SKIPPED ''remote_sync_disabled'' False
      else if remote_target b = None then plan_of b LOC_REMOTE SKIPPED ''invalid_remote_path'' False
      else if has_active_restore db (bh_id b) then plan_of b LOC_REMOTE SKIPPED ''blocked_active_restore'' False
      else plan_of b LOC_REMOTE DELETED_REMOTE (''beyond_keep_remote_'' @ show_int (pr_keep_remote p)) True)"

definition guest_plans :: "app_db \<Rightarrow> policy \<Rightarrow> guest_key \<Rightarrow> plan list" where
  "guest_plans db p g =
     (let local = local_for_guest db g; remote = remote_for_guest db g in
      if \<not> pr_resolved p then
        let reason = (case pr_block_reason p of None \<Rightarrow> ''retention_policy_unresolved'' | Some r \<Rightarrow> r) in
        map (\<lambda>b. plan_of b LOC_LOCAL SKIPPED reason False) local
        @ map (\<lambda>b. plan_of b LOC_REMOTE SKIPPED reason False) remote
      else map (local_plan db (pr_keep_local p) local) local @ map (remote_plan db p remote) remote)"

definition plans :: "app_db \<Rightarrow> policy \<Rightarrow> nat option \<Rightarrow> app_error + plan list" where
  "plans db p backup_id = (case backup_id of
     Some i \<Rightarrow> (case guest_for_backup db i of
         None \<Rightarrow> Inl (App_NotFound ''No backup with that id'')
       | Some g \<Rightarrow> Inr (guest_plans db p g))
   | None \<Rightarrow> Inr (concat (map (guest_plans db p) (guest_keys db))))"

section \<open>Outcomes\<close>

record decision =
  dn_backup_id :: nat
  dn_guest :: guest_key
  dn_guest_name :: string
  dn_filename :: string
  dn_location :: location
  dn_action :: retention_action
  dn_reason :: string
  dn_size :: int
  dn_would_delete :: bool
  dn_deleted :: bool
  dn_reconciled :: bool
  dn_freed_bytes :: int
  dn_error :: "string option"

definition render :: "plan \<Rightarrow> decision" where
  "render p = \<lparr>dn_backup_id = bh_id (pl_backup p), dn_guest = guest_of (pl_backup p),
     dn_guest_name = bh_guest_name (pl_backup p),
     dn_filename = (case bh_filename (pl_backup p) of None \<Rightarrow> [] | Some f \<Rightarrow> f),
     dn_location = pl_location p, dn_action = pl_action p, dn_reason = pl_reason p, dn_size = pl_size p,
     dn_would_delete = pl_would_delete p, dn_deleted = False, dn_reconciled = False,
     dn_freed_bytes = 0, dn_error = None\<rparr>"

fun location_value :: "location \<Rightarrow> string" where
  "location_value LOC_LOCAL = ''local''"
| "location_value LOC_REMOTE = ''remote''"

definition failed :: "plan \<Rightarrow> app_error \<Rightarrow> decision" where
  "failed p e = (let detail = take 500 (app_detail e) in (render p)\<lparr>dn_action := RA_FAILED,
     dn_reason := take 255 (''delete_'' @ location_value (pl_location p) @ ''_failed:'' @ detail),
     dn_error := Some detail\<rparr>)"

record 'w retention_agent =
  ra_delete_backup :: "'w \<Rightarrow> string \<Rightarrow> (app_error + int) \<times> 'w"
  ra_delete_remote :: "'w \<Rightarrow> string \<Rightarrow> string \<Rightarrow> string \<Rightarrow> (app_error + unit) \<times> 'w"

definition mark_deleted :: "location \<Rightarrow> nat \<Rightarrow> datetime \<Rightarrow> app_db \<Rightarrow> app_db" where
  "mark_deleted loc i now db = (case loc of LOC_LOCAL \<Rightarrow> mark_local_deleted i now db
     | LOC_REMOTE \<Rightarrow> mark_remote_deleted i now db)"

text \<open>\<open>_delete\<close>: the agent's answer, then the marker and the decision.\<close>

definition call_agent :: "'w retention_agent \<Rightarrow> plan \<Rightarrow> 'w \<Rightarrow> (app_error + int) \<times> 'w" where
  "call_agent A p w =
     (let b = pl_backup p; filename = (case bh_filename b of None \<Rightarrow> [] | Some f \<Rightarrow> f) in
      case pl_location p of
        LOC_LOCAL \<Rightarrow> (case ra_delete_backup A w filename of
            (Inr freed, w') \<Rightarrow> (Inr (max freed 0), w') | (Inl e, w') \<Rightarrow> (Inl e, w'))
      | LOC_REMOTE \<Rightarrow> (case remote_target b of
            None \<Rightarrow> (Inl (App_Internal ''AssertionError''), w)
          | Some (remote, path) \<Rightarrow> (case ra_delete_remote A w filename remote path of
                (Inr _, w') \<Rightarrow> (Inr (pl_size p), w') | (Inl e, w') \<Rightarrow> (Inl e, w'))))"

definition settle :: "(nat \<Rightarrow> location \<Rightarrow> datetime) \<Rightarrow> plan \<Rightarrow> app_error + int \<Rightarrow> app_db \<Rightarrow> decision \<times> app_db" where
  "settle stamp p answer db =
     (let i = bh_id (pl_backup p); loc = pl_location p; mark = mark_deleted loc i (stamp i loc) in
      case answer of
        Inr freed \<Rightarrow> ((render p)\<lparr>dn_deleted := True, dn_freed_bytes := freed\<rparr>, mark db)
      | Inl (App_AgentError detail status) \<Rightarrow>
          if status = Some 404
          then ((render p)\<lparr>dn_deleted := True, dn_reconciled := True,
                  dn_reason := ''reconciled_missing_'' @ location_value loc\<rparr>, mark db)
          else (failed p (App_AgentError detail status), db)
      | Inl e \<Rightarrow> (failed p e, db))"

definition delete_copy :: "'w retention_agent \<Rightarrow> (nat \<Rightarrow> location \<Rightarrow> datetime) \<Rightarrow> plan \<Rightarrow> app_db \<times> 'w
    \<Rightarrow> decision \<times> app_db \<times> 'w" where
  "delete_copy A stamp p s = (let (answer, w') = call_agent A p (snd s); (item, db') = settle stamp p answer (fst s)
     in (item, db', w'))"

definition record_event :: "plan \<Rightarrow> decision \<Rightarrow> policy \<Rightarrow> int option \<Rightarrow> app_db \<Rightarrow> app_db" where
  "record_event p item pol projected db = db\<lparr>ad_retention := ad_retention db @ [\<lparr>
     re_backup_id = bh_id (pl_backup p), re_vmid = bh_vmid (pl_backup p),
     re_guest_type = bh_guest_type (pl_backup p), re_action = dn_action item,
     re_reason = take 255 (dn_reason item), re_location_remote = (pl_location p = LOC_REMOTE),
     re_effective_keep = (if pl_location p = LOC_LOCAL then pr_keep_local pol else pr_keep_remote pol),
     re_freed_bytes = max (case projected of None \<Rightarrow> dn_freed_bytes item | Some n \<Rightarrow> n) 0,
     re_dry_run = po_dry_run pol\<rparr>]\<rparr>"

record summary =
  su_evaluated :: nat
  su_local_delete_count :: nat
  su_local_delete_bytes :: int
  su_remote_delete_count :: nat
  su_remote_delete_bytes :: int
  su_deleted_local :: nat
  su_deleted_remote :: nat
  su_failed :: nat

definition summarise :: "decision list \<Rightarrow> summary" where
  "summarise items =
     (let lc = filter (\<lambda>d. dn_location d = LOC_LOCAL \<and> dn_would_delete d) items;
          rc = filter (\<lambda>d. dn_location d = LOC_REMOTE \<and> dn_would_delete d) items
      in \<lparr>su_evaluated = length items,
          su_local_delete_count = length lc, su_local_delete_bytes = sum_list (map dn_size lc),
          su_remote_delete_count = length rc, su_remote_delete_bytes = sum_list (map dn_size rc),
          su_deleted_local = length (filter (\<lambda>d. dn_deleted d \<and> dn_location d = LOC_LOCAL) items),
          su_deleted_remote = length (filter (\<lambda>d. dn_deleted d \<and> dn_location d = LOC_REMOTE) items),
          su_failed = length (filter (\<lambda>d. dn_action d = RA_FAILED) items)\<rparr>)"

section \<open>Preview and apply\<close>

definition preview :: "app_db \<Rightarrow> int option \<Rightarrow> int option \<Rightarrow> nat option \<Rightarrow> app_error + policy \<times> decision list \<times> summary" where
  "preview db keep_local keep_remote backup_id =
     (let pol = policy_for db keep_local keep_remote (Some True) backup_id False in
      bindR (plans db pol backup_id) (\<lambda>ps. let items = map render ps in Inr (pol, items, summarise items)))"

definition apply_policy :: "app_db \<Rightarrow> nat option \<Rightarrow> policy" where
  "apply_policy db backup_id = policy_for db None None None backup_id (backup_id \<noteq> None)"

type_synonym done_map = "((nat \<times> location) \<times> decision) list"

definition plan_key :: "plan \<Rightarrow> nat \<times> location" where
  "plan_key p = (bh_id (pl_backup p), pl_location p)"

text \<open>The first loop of \<open>apply\<close>: decisions that delete nothing are recorded at once.\<close>

fun record_static :: "policy \<Rightarrow> plan list \<Rightarrow> done_map \<Rightarrow> app_db \<Rightarrow> done_map \<times> plan list \<times> app_db" where
  "record_static pol [] completed db = (completed, [], db)"
| "record_static pol (p # ps) completed db =
     (if \<not> pl_would_delete p
      then record_static pol ps ((plan_key p, render p) # completed) (record_event p (render p) pol None db)
      else if po_dry_run pol
      then record_static pol ps ((plan_key p, render p) # completed) (record_event p (render p) pol (Some (pl_size p)) db)
      else (let (c, cands, db') = record_static pol ps completed db in (c, p # cands, db')))"

definition revalidate :: "app_db \<Rightarrow> nat option \<Rightarrow> plan \<Rightarrow> app_error + policy \<times> plan" where
  "revalidate db backup_id original =
     (let pol = apply_policy db backup_id in
      bindR (plans db pol backup_id) (\<lambda>ps.
        Inr (pol, case find (\<lambda>p. plan_key p = plan_key original) ps of
           Some current \<Rightarrow> current
         | None \<Rightarrow> original\<lparr>pl_action := SKIPPED, pl_reason := ''candidate_copy_no_longer_present'',
             pl_would_delete := False\<rparr>)))"

text \<open>The second loop: every candidate is classified again immediately before it is deleted.\<close>

fun apply_candidates :: "'w retention_agent \<Rightarrow> (nat \<Rightarrow> location \<Rightarrow> datetime) \<Rightarrow> nat option \<Rightarrow> plan list \<Rightarrow> done_map
    \<Rightarrow> app_db \<times> 'w \<Rightarrow> (app_error + done_map) \<times> app_db \<times> 'w" where
  "apply_candidates A stamp backup_id [] completed s = (Inr completed, s)"
| "apply_candidates A stamp backup_id (original # rest) completed s =
     (case revalidate (fst s) backup_id original of
        Inl e \<Rightarrow> (Inl e, s)
      | Inr (pol, current) \<Rightarrow>
          if \<not> pl_would_delete current \<or> po_dry_run pol
          then apply_candidates A stamp backup_id rest ((plan_key original, render current) # completed)
             (record_event current (render current) pol
                (if pl_would_delete current \<and> po_dry_run pol then Some (pl_size current) else None) (fst s), snd s)
          else let (item, db', w') = delete_copy A stamp current s in
             apply_candidates A stamp backup_id rest ((plan_key original, item) # completed)
               (record_event current item pol None db', w'))"

definition notify_deleted :: "notify_config \<Rightarrow> datetime \<Rightarrow> policy \<Rightarrow> decision list \<Rightarrow> app_db \<Rightarrow> app_db" where
  "notify_deleted C now pol items db =
     (let s = summarise items; deleted = filter dn_deleted items in
      case deleted of [] \<Rightarrow> db
      | first # _ \<Rightarrow> if su_deleted_local s = 0 \<and> su_deleted_remote s = 0 then db
          else snd (enqueue C now RETENTION_DELETED
            [(''vmid'', J_int (int (fst (dn_guest first)))), (''guest_type'', J_str (guest_type_value (snd (dn_guest first)))),
             (''guest_name'', J_str (dn_guest_name first)),
             (''deleted_local'', J_int (int (su_deleted_local s))), (''deleted_remote'', J_int (int (su_deleted_remote s))),
             (''freed_bytes'', J_int (sum_list (map dn_freed_bytes deleted))),
             (''keep_local'', J_int (pr_keep_local pol)), (''keep_remote'', J_int (pr_keep_remote pol))]
            (Some (''retention:'' @ guest_type_value (snd (dn_guest first)) @ '':'' @ show_nat (fst (dn_guest first))))
            False None None db))"

definition apply_retention :: "'w retention_agent \<Rightarrow> notify_config \<Rightarrow> datetime \<Rightarrow> (nat \<Rightarrow> location \<Rightarrow> datetime)
    \<Rightarrow> nat option \<Rightarrow> app_db \<times> 'w \<Rightarrow> (app_error + policy \<times> decision list \<times> summary) \<times> app_db \<times> 'w" where
  "apply_retention A C now stamp backup_id s =
     (let pol = apply_policy (fst s) backup_id in
      case plans (fst s) pol backup_id of
        Inl e \<Rightarrow> (Inl e, s)
      | Inr ps \<Rightarrow>
          (let (completed, cands, db1) = record_static pol ps [] (fst s) in
           case apply_candidates A stamp backup_id cands completed (db1, snd s) of
             (Inl e, s') \<Rightarrow> (Inl e, s')
           | (Inr all, s') \<Rightarrow>
               (let items = List.map_filter (\<lambda>p. map_of all (plan_key p)) ps in
                (Inr (pol, items, summarise items), notify_deleted C now pol items (fst s'), snd s'))))"

end
