(* ===== verification/Retention_Safety.thy ===== *)
theory Retention_Safety
  imports Retention
begin

text \<open>
  What retention promises: a declarative specification of the copies that may go
  (\<open>may_delete_local\<close>, \<open>may_delete_remote\<close>), the proof that the classifier decides exactly it, and
  the safety of a pass (\<open>apply_retention\<close>): only such copies are ever marked, the newest ones
  survive, a dry run calls nobody, and a marker is only written for a copy that is gone.
\<close>

section \<open>Ranks\<close>

definition keepable :: "backup_row \<Rightarrow> bool" where
  "keepable b = (\<not> bh_retention_locked b \<and> bh_started_at b \<noteq> None)"

text \<open>The keepable copies of the same guest that are newer.\<close>

definition newer_copies :: "(backup_row \<Rightarrow> bool) \<Rightarrow> app_db \<Rightarrow> backup_row \<Rightarrow> backup_row set" where
  "newer_copies copy db b = {r \<in> set (ad_backups db). guest_of r = guest_of b \<and> copy r \<and> keepable r
     \<and> newest_key r < newest_key b}"

definition backups_wf :: "app_db \<Rightarrow> bool" where
  "backups_wf db = distinct (map bh_id (ad_backups db))"

lemma newest_key_inject: "newest_key a = newest_key b \<Longrightarrow> bh_id a = bh_id b"
  by (auto simp: newest_key_def split: option.splits)

lemma sorted_newest_first: "sorted (map newest_key (newest_first bs))"
  by (simp add: newest_first_def)

lemma set_newest_first [simp]: "set (newest_first bs) = set bs"
  by (simp add: newest_first_def)

lemma distinct_ids_newest_first [simp]: "distinct (map bh_id (newest_first bs)) = distinct (map bh_id bs)"
  by (simp add: newest_first_def distinct_map)

lemma takeWhile_rank:
  assumes "sorted (map key rs)" "inj_on key (set rs)" "inj_on i (set rs)" "b \<in> set rs"
  shows "set (takeWhile (\<lambda>r. i r \<noteq> i b) rs) = {r \<in> set rs. key r < (key b :: 'k :: linorder)}"
  using assms
proof (induction rs)
  case (Cons x xs)
  show ?case
  proof (cases "x = b")
    case True
    then have "\<And>r. r \<in> set (x # xs) \<Longrightarrow> key b \<le> key r" using Cons.prems by auto
    with True show ?thesis by (auto simp: not_less[symmetric])
  next
    case False
    then have b: "b \<in> set xs" "i x \<noteq> i b" "key x \<noteq> key b"
      using Cons.prems by (auto simp: inj_on_eq_iff)
    then have "key x < key b" using Cons.prems by (auto simp: less_le)
    with b Cons show ?thesis by (auto simp: inj_on_insert)
  qed
qed simp

lemma rank_of_card:
  assumes "distinct (map bh_id rows)" "sorted (map newest_key rows)" "b \<in> set rows" "keepable b"
  shows "rank_of rows b = card {r \<in> set rows. keepable r \<and> newest_key r < newest_key b}"
proof -
  let ?rs = "rankable rows"
  have rs: "set ?rs = {r \<in> set rows. keepable r}" by (auto simp: rankable_def keepable_def)
  have ids: "inj_on bh_id (set ?rs)"
    using assms(1) by (auto simp: distinct_map rs intro: inj_on_subset)
  have keys: "inj_on newest_key (set ?rs)"
    by (rule inj_onI) (blast intro: inj_onD [OF ids] newest_key_inject)
  have "set (takeWhile (\<lambda>r. bh_id r \<noteq> bh_id b) ?rs) = {r \<in> set ?rs. newest_key r < newest_key b}"
  proof (rule takeWhile_rank)
    show "sorted (map newest_key ?rs)" using assms(2) by (simp add: rankable_def sorted_map_filter_key)
    show "inj_on newest_key (set ?rs)" by (rule keys)
    show "inj_on bh_id (set ?rs)" by (rule ids)
    show "b \<in> set ?rs" using assms(3,4) by (simp add: rs)
  qed
  moreover have "distinct (takeWhile (\<lambda>r. bh_id r \<noteq> bh_id b) ?rs)"
    using assms(1) by (intro distinct_takeWhile) (simp add: rankable_def distinct_map)
  ultimately have "length (takeWhile (\<lambda>r. bh_id r \<noteq> bh_id b) ?rs) = card {r \<in> set ?rs. newest_key r < newest_key b}"
    by (metis distinct_card)
  then show ?thesis by (simp add: rank_of_def rs conj_assoc)
qed

lemma distinct_filter_ids: "distinct (map bh_id bs) \<Longrightarrow> distinct (map bh_id (filter P bs))"
  by (simp add: distinct_map_filter)

lemma rank_local:
  assumes "backups_wf db" "b \<in> set (ad_backups db)" "has_local_copy b" "keepable b"
  shows "rank_of (local_for_guest db (guest_of b)) b = card (newer_copies has_local_copy db b)"
proof -
  have "rank_of (local_for_guest db (guest_of b)) b =
      card {r \<in> set (local_for_guest db (guest_of b)). keepable r \<and> newest_key r < newest_key b}"
    using assms by (intro rank_of_card)
      (auto simp: local_for_guest_def backups_wf_def distinct_filter_ids sorted_newest_first)
  also have "{r \<in> set (local_for_guest db (guest_of b)). keepable r \<and> newest_key r < newest_key b}
      = newer_copies has_local_copy db b"
    by (auto simp: local_for_guest_def newer_copies_def)
  finally show ?thesis .
qed

lemma rank_remote:
  assumes "backups_wf db" "b \<in> set (ad_backups db)" "has_remote_copy b" "keepable b"
  shows "rank_of (remote_for_guest db (guest_of b)) b = card (newer_copies has_remote_copy db b)"
proof -
  have "rank_of (remote_for_guest db (guest_of b)) b =
      card {r \<in> set (remote_for_guest db (guest_of b)). keepable r \<and> newest_key r < newest_key b}"
    using assms by (intro rank_of_card)
      (auto simp: remote_for_guest_def backups_wf_def distinct_filter_ids sorted_newest_first)
  also have "{r \<in> set (remote_for_guest db (guest_of b)). keepable r \<and> newest_key r < newest_key b}
      = newer_copies has_remote_copy db b"
    by (auto simp: remote_for_guest_def newer_copies_def)
  finally show ?thesis .
qed

text \<open>The first \<open>n\<close> of a sorted list are its elements of rank below \<open>n\<close>.\<close>

lemma take_rank:
  assumes "distinct (map bh_id rows)" "sorted (map newest_key rows)"
  shows "set (take n (rankable rows)) = {r \<in> set rows. keepable r \<and> rank_of rows r < n}"
proof -
  have d: "distinct (map bh_id (rankable rows))"
    using assms(1) by (simp add: rankable_def distinct_filter_ids)
  have "r \<in> set (take n rs) \<longleftrightarrow> r \<in> set rs \<and> length (takeWhile (\<lambda>x. bh_id x \<noteq> bh_id r) rs) < n"
    if "distinct (map bh_id rs)" for rs r
    using that
  proof (induction rs arbitrary: n)
    case (Cons x xs)
    show ?case
    proof (cases n)
      case (Suc m)
      show ?thesis
      proof (cases "bh_id x = bh_id r")
        case True
        then have "r \<notin> set xs" using Cons.prems by (auto simp: image_iff)
        then have "r \<notin> set (take m xs)" by (meson in_set_takeD)
        with \<open>r \<notin> set xs\<close> True Suc show ?thesis by simp
      next
        case False
        with Suc Cons show ?thesis by auto
      qed
    qed simp
  qed simp
  then have "set (take n (rankable rows)) = {r \<in> set (rankable rows). rank_of rows r < n}"
    unfolding rank_of_def using d by blast
  also have "\<dots> = {r \<in> set rows. keepable r \<and> rank_of rows r < n}"
    by (simp add: rankable_def keepable_def conj_assoc)
  finally show ?thesis .
qed

section \<open>The copies that may go\<close>

definition replicated :: "backup_row \<Rightarrow> bool" where
  "replicated b = (bh_upload_status b = NOT_REQUIRED \<or> (bh_upload_status b = UPLOADED \<and> bh_remote_path b \<noteq> None))"

definition being_restored :: "app_db \<Rightarrow> backup_row \<Rightarrow> bool" where
  "being_restored db b = (\<exists>r \<in> set (ad_restores db). rh_backup_id r = bh_id b \<and> \<not> restore_is_terminal (rh_status r))"

definition may_delete_local :: "app_db \<Rightarrow> int \<Rightarrow> backup_row \<Rightarrow> bool" where
  "may_delete_local db keep b = (has_local_copy b \<and> keepable b
     \<and> keep \<le> int (card (newer_copies has_local_copy db b)) \<and> replicated b
     \<and> (\<forall>r \<in> set (ad_backups db). guest_of r = guest_of b \<and> has_local_copy r \<and> keepable r
           \<and> int (card (newer_copies has_local_copy db r)) < keep \<longrightarrow> replicated r)
     \<and> \<not> being_restored db b)"

definition may_delete_remote :: "app_db \<Rightarrow> policy \<Rightarrow> backup_row \<Rightarrow> bool" where
  "may_delete_remote db p b = (has_remote_copy b \<and> keepable b
     \<and> pr_keep_remote p \<le> int (card (newer_copies has_remote_copy db b))
     \<and> po_delete_remote p \<and> po_gdrive_enabled p \<and> remote_target b \<noteq> None \<and> \<not> being_restored db b)"

lemma blocker_None [simp]: "local_upload_blocker b = None \<longleftrightarrow> replicated b"
  by (simp add: local_upload_blocker_def replicated_def)

lemma has_active_restore_iff: "has_active_restore db (bh_id b) \<longleftrightarrow> being_restored db b"
  by (auto simp: has_active_restore_def being_restored_def list_ex_iff blocks_retention_iff_not_terminal)

lemma map_filter_Nil: "List.map_filter f xs = [] \<longleftrightarrow> (\<forall>x \<in> set xs. f x = None)"
  by (induction xs) (auto simp: List.map_filter_def split: option.splits)

lemma local_for_guest_wf:
  assumes "backups_wf db"
  shows "distinct (map bh_id (local_for_guest db g))" "sorted (map newest_key (local_for_guest db g))"
    "set (local_for_guest db g) = {b \<in> set (ad_backups db). guest_of b = g \<and> has_local_copy b}"
    "distinct (map bh_id (remote_for_guest db g))"
    "set (remote_for_guest db g) = {b \<in> set (ad_backups db). guest_of b = g \<and> has_remote_copy b}"
  using assms by (auto simp: local_for_guest_def remote_for_guest_def backups_wf_def distinct_filter_ids sorted_newest_first)

lemma local_plan_delete:
  assumes wf: "backups_wf db" and b: "b \<in> set (ad_backups db)" "has_local_copy b"
  shows "pl_would_delete (local_plan db keep (local_for_guest db (guest_of b)) b) \<longleftrightarrow> may_delete_local db keep b"
proof -
  let ?rows = "local_for_guest db (guest_of b)"
  note lf = local_for_guest_wf [OF wf]
  have rank: "r \<in> set ?rows \<Longrightarrow> keepable r \<Longrightarrow> rank_of ?rows r = card (newer_copies has_local_copy db r)" for r
    using rank_local [OF wf, of r] by (auto simp: lf(3))
  have "(\<forall>r \<in> set (take (nat keep) (rankable ?rows)). replicated r) \<longleftrightarrow>
      (\<forall>r \<in> set (ad_backups db). guest_of r = guest_of b \<and> has_local_copy r \<and> keepable r
           \<and> int (card (newer_copies has_local_copy db r)) < keep \<longrightarrow> replicated r)"
    unfolding take_rank [OF lf(1,2)] using rank by (auto simp: lf(3) zless_nat_eq_int_zless)
  then have repl: "List.map_filter local_upload_blocker (take (nat keep) (rankable ?rows)) = [] \<longleftrightarrow>
      (\<forall>r \<in> set (ad_backups db). guest_of r = guest_of b \<and> has_local_copy r \<and> keepable r
           \<and> int (card (newer_copies has_local_copy db r)) < keep \<longrightarrow> replicated r)"
    by (simp add: map_filter_Nil)
  have rb: "keepable b \<Longrightarrow> rank_of ?rows b = card (newer_copies has_local_copy db b)"
    using rank b by (simp add: lf(3))
  show ?thesis
  proof (cases "keepable b")
    case False
    then show ?thesis by (auto simp: local_plan_def may_delete_local_def keepable_def plan_of_def)
  next
    case True
    then have "\<not> bh_retention_locked b" "bh_started_at b \<noteq> None" by (simp_all add: keepable_def)
    then have "pl_would_delete (local_plan db keep ?rows b) \<longleftrightarrow> \<not> int (rank_of ?rows b) < keep
        \<and> replicated b \<and> List.map_filter local_upload_blocker (take (nat keep) (rankable ?rows)) = []
        \<and> \<not> being_restored db b"
      by (auto simp: local_plan_def plan_of_def has_active_restore_iff split: option.split list.split)
        (metis blocker_None option.distinct(1))+
    then show ?thesis using True b by (simp add: may_delete_local_def repl rb not_less)
  qed
qed

lemma remote_plan_delete:
  assumes wf: "backups_wf db" and b: "b \<in> set (ad_backups db)" "has_remote_copy b"
  shows "pl_would_delete (remote_plan db p (remote_for_guest db (guest_of b)) b) \<longleftrightarrow> may_delete_remote db p b"
proof (cases "keepable b")
  case True
  then have "rank_of (remote_for_guest db (guest_of b)) b = card (newer_copies has_remote_copy db b)"
    using rank_remote [OF wf] b by simp
  with True b show ?thesis
    by (auto simp: remote_plan_def may_delete_remote_def plan_of_def has_active_restore_iff keepable_def)
next
  case False
  then show ?thesis by (auto simp: remote_plan_def may_delete_remote_def keepable_def plan_of_def)
qed

definition may_delete :: "app_db \<Rightarrow> policy \<Rightarrow> location \<Rightarrow> backup_row \<Rightarrow> bool" where
  "may_delete db p loc b = (pr_resolved p \<and> (case loc of
     LOC_LOCAL \<Rightarrow> may_delete_local db (pr_keep_local p) b | LOC_REMOTE \<Rightarrow> may_delete_remote db p b))"

lemma guest_plans_delete:
  assumes wf: "backups_wf db" and p: "q \<in> set (guest_plans db p g)"
  shows "pl_backup q \<in> set (ad_backups db) \<and> guest_of (pl_backup q) = g
    \<and> (pl_location q = LOC_LOCAL \<longrightarrow> has_local_copy (pl_backup q))
    \<and> (pl_location q = LOC_REMOTE \<longrightarrow> has_remote_copy (pl_backup q))
    \<and> (pl_would_delete q \<longleftrightarrow> may_delete db p (pl_location q) (pl_backup q))"
proof -
  have loc [simp]: "pl_backup (local_plan db k rows b) = b" "pl_location (local_plan db k rows b) = LOC_LOCAL"
    "pl_backup (remote_plan db p rows b) = b" "pl_location (remote_plan db p rows b) = LOC_REMOTE" for k rows b
    by (simp_all add: local_plan_def remote_plan_def plan_of_def split: option.split list.split)
  note lf = local_for_guest_wf [OF wf, of g]
  show ?thesis
  proof (cases "pr_resolved p")
    case False
    with p show ?thesis
      by (auto simp: guest_plans_def Let_def plan_of_def may_delete_def lf)
  next
    case True
    with p consider (local) b where "b \<in> set (local_for_guest db g)" "q = local_plan db (pr_keep_local p) (local_for_guest db g) b"
      | (remote) b where "b \<in> set (remote_for_guest db g)" "q = remote_plan db p (remote_for_guest db g) b"
      by (auto simp: guest_plans_def Let_def)
    then show ?thesis
    proof cases
      case local
      with True local_plan_delete [OF wf, of b "pr_keep_local p"] show ?thesis
        by (auto simp: lf may_delete_def)
    next
      case remote
      with True remote_plan_delete [OF wf, of b p] show ?thesis
        by (auto simp: lf may_delete_def)
    qed
  qed
qed

lemma plans_delete:
  assumes "backups_wf db" "plans db p backup_id = Inr ps" "q \<in> set ps"
  shows "pl_backup q \<in> set (ad_backups db)
    \<and> (pl_location q = LOC_LOCAL \<longrightarrow> has_local_copy (pl_backup q))
    \<and> (pl_location q = LOC_REMOTE \<longrightarrow> has_remote_copy (pl_backup q))
    \<and> (pl_would_delete q \<longleftrightarrow> may_delete db p (pl_location q) (pl_backup q))"
  using assms guest_plans_delete by (fastforce simp: plans_def split: option.splits)

section \<open>What a pass may touch\<close>

text \<open>Rows keep their identity, their file and their place; a marker appears only for a key in \<open>S\<close>.\<close>

definition same_copy :: "backup_row \<Rightarrow> backup_row \<Rightarrow> bool" where
  "same_copy b b' = (bh_id b' = bh_id b \<and> bh_filename b' = bh_filename b \<and> guest_of b' = guest_of b
     \<and> bh_retention_locked b' = bh_retention_locked b \<and> bh_started_at b' = bh_started_at b
     \<and> bh_upload_status b' = bh_upload_status b \<and> bh_remote_path b' = bh_remote_path b)"

definition touched :: "(nat \<times> location) set \<Rightarrow> backup_row \<Rightarrow> backup_row \<Rightarrow> bool" where
  "touched S b b' = (same_copy b b'
     \<and> (bh_local_deleted_at b' = bh_local_deleted_at b \<or> (bh_id b, LOC_LOCAL) \<in> S)
     \<and> (bh_remote_deleted_at b' = bh_remote_deleted_at b \<or> (bh_id b, LOC_REMOTE) \<in> S)
     \<and> (bh_local_deleted_at b \<noteq> None \<longrightarrow> bh_local_deleted_at b' = bh_local_deleted_at b)
     \<and> (bh_remote_deleted_at b \<noteq> None \<longrightarrow> bh_remote_deleted_at b' = bh_remote_deleted_at b)
     \<and> (has_local_copy b \<and> (bh_id b, LOC_LOCAL) \<notin> S \<longrightarrow> has_local_copy b'))"

definition touches :: "(nat \<times> location) set \<Rightarrow> app_db \<Rightarrow> app_db \<Rightarrow> bool" where
  "touches S db db' = (list_all2 (touched S) (ad_backups db) (ad_backups db') \<and> ad_sections db' = ad_sections db)"

lemma touches_refl [simp]: "touches S db db"
  by (simp add: touches_def touched_def same_copy_def list_all2_same)

lemma touches_same: "ad_backups db' = ad_backups db \<Longrightarrow> ad_sections db' = ad_sections db \<Longrightarrow> touches S db db'"
  by (simp add: touches_def touched_def same_copy_def list_all2_same)

lemma same_copy_trans: "same_copy a b \<Longrightarrow> same_copy b c \<Longrightarrow> same_copy a c"
  by (simp add: same_copy_def)

lemma touched_trans:
  assumes "touched S a b" "touched S b c"
  shows "touched S a c"
proof -
  have same: "same_copy a b" "same_copy b c" "bh_id b = bh_id a"
    using assms by (simp_all add: touched_def same_copy_def)
  show ?thesis
    using assms same_copy_trans [OF same(1,2)] unfolding touched_def same(3)
    by (intro conjI; elim conjE; metis)
qed

lemma touches_trans: "touches S db db' \<Longrightarrow> touches S db' db'' \<Longrightarrow> touches S db db''"
  unfolding touches_def
  by (elim conjE, intro conjI, rule list_all2_trans [of "touched S" "touched S"], erule (1) touched_trans) simp_all

lemma touches_mono: "touches S db db' \<Longrightarrow> S \<subseteq> T \<Longrightarrow> touches T db db'"
  unfolding touches_def by (auto elim!: list_all2_mono) (auto simp: touched_def)

lemma record_event_frame [simp]:
  "ad_backups (record_event p i pol pr db) = ad_backups db" "ad_sections (record_event p i pol pr db) = ad_sections db"
  "ad_restores (record_event p i pol pr db) = ad_restores db" "ad_runs (record_event p i pol pr db) = ad_runs db"
  "ad_jobs (record_event p i pol pr db) = ad_jobs db"
  by (simp_all add: record_event_def)

lemma set_backup_frame [simp]:
  "ad_backups (set_backup i f db) = upd_where (\<lambda>b. bh_id b = i) f (ad_backups db)"
  "ad_sections (set_backup i f db) = ad_sections db" "ad_restores (set_backup i f db) = ad_restores db"
  by (simp_all add: set_backup_def)

lemma mark_deleted_touches: "touches {(i, loc)} db (mark_deleted loc i now db)"
  unfolding touches_def mark_deleted_def mark_local_deleted_def mark_remote_deleted_def
  by (cases loc)
    (auto intro!: list_all2_upd_where simp: touched_def same_copy_def refresh_status_def guest_of_def has_local_copy_def)

lemma settle_touches: "touches {plan_key p} db (snd (settle stamp p answer db))"
  by (auto simp: settle_def Let_def plan_key_def mark_deleted_touches split: sum.split app_error.split)

lemma delete_copy_touches: "touches {plan_key p} (fst s) (fst (snd (delete_copy A stamp p s)))"
  using settle_touches by (auto simp: delete_copy_def Let_def split: prod.split) (metis snd_conv)

lemma revalidate_key:
  "revalidate db backup_id original = Inr (pol, current) \<Longrightarrow> plan_key current = plan_key original"
proof -
  assume "revalidate db backup_id original = Inr (pol, current)"
  then obtain ps where "current = (case find (\<lambda>p. plan_key p = plan_key original) ps of
       Some current \<Rightarrow> current
     | None \<Rightarrow> original\<lparr>pl_action := SKIPPED, pl_reason := ''candidate_copy_no_longer_present'',
         pl_would_delete := False\<rparr>)"
    by (auto simp: revalidate_def Let_def bindR_Inr_iff)
  then show ?thesis
    using find_Some_mem [of "\<lambda>p. plan_key p = plan_key original" ps current]
    by (cases "find (\<lambda>p. plan_key p = plan_key original) ps") (auto simp: plan_key_def)
qed

lemma apply_candidates_touches:
  "apply_candidates A stamp backup_id cands completed s = (r, s') \<Longrightarrow> touches (plan_key ` set cands) (fst s) (fst s')"
proof (induction cands arbitrary: completed s)
  case Nil
  then show ?case by simp
next
  case (Cons original rest)
  show ?case
  proof (cases "revalidate (fst s) backup_id original")
    case (Inl e)
    with Cons.prems show ?thesis by simp
  next
    case (Inr v)
    obtain pol current where v: "v = (pol, current)" by (cases v)
    have key: "plan_key current = plan_key original" using Inr v by (auto dest: revalidate_key)
    show ?thesis
    proof (cases "\<not> pl_would_delete current \<or> po_dry_run pol")
      case True
      then have "apply_candidates A stamp backup_id rest ((plan_key original, render current) # completed)
         (record_event current (render current) pol
            (if pl_would_delete current \<and> po_dry_run pol then Some (pl_size current) else None) (fst s), snd s) = (r, s')"
        using Cons.prems Inr v by simp
      from Cons.IH [OF this] have 1: "touches (plan_key ` set rest) (record_event current (render current) pol
            (if pl_would_delete current \<and> po_dry_run pol then Some (pl_size current) else None) (fst s)) (fst s')"
        by simp
      have "touches (plan_key ` set rest) (fst s) (fst s')"
        by (rule touches_trans [OF touches_same 1]) simp_all
      then show ?thesis by (rule touches_mono) auto
    next
      case False
      obtain item db1 w1 where d: "delete_copy A stamp current s = (item, db1, w1)" by (metis prod_cases3)
      have "touches {plan_key original} (fst s) db1"
        using delete_copy_touches [of current s A stamp] d key by simp
      then have 1: "touches (plan_key ` set (original # rest)) (fst s) (record_event current item pol None db1)"
        by (rule touches_mono [OF touches_trans [OF _ touches_same]]) simp_all
      have "apply_candidates A stamp backup_id rest ((plan_key original, item) # completed)
          (record_event current item pol None db1, w1) = (r, s')"
        using Cons.prems Inr v False d by simp
      from Cons.IH [OF this] have "touches (plan_key ` set (original # rest)) (record_event current item pol None db1) (fst s')"
        by (auto elim: touches_mono)
      with 1 show ?thesis by (rule touches_trans)
    qed
  qed
qed

lemma record_static_frame:
  "record_static pol ps completed db = (c, cands, db') \<Longrightarrow> ad_backups db' = ad_backups db
    \<and> ad_sections db' = ad_sections db \<and> ad_restores db' = ad_restores db
    \<and> ad_runs db' = ad_runs db \<and> ad_jobs db' = ad_jobs db
    \<and> (if po_dry_run pol then cands = [] else cands = filter pl_would_delete ps)"
  by (induction ps arbitrary: completed db c cands db') (auto split: if_splits prod.splits)

lemma notify_deleted_frame [simp]:
  "ad_backups (notify_deleted C now pol items db) = ad_backups db"
  "ad_sections (notify_deleted C now pol items db) = ad_sections db"
  by (simp_all add: notify_deleted_def Let_def split: list.split)

lemma apply_retention_touches:
  assumes "apply_retention A C now stamp backup_id (db, w) = (r, (db', w'))"
  shows "(ad_backups db' = ad_backups db \<and> w' = w) \<or>
    (\<exists>ps. plans db (apply_policy db backup_id) backup_id = Inr ps \<and> \<not> po_dry_run (apply_policy db backup_id)
      \<and> touches (plan_key ` set (filter pl_would_delete ps)) db db')"
proof (cases "plans db (apply_policy db backup_id) backup_id")
  case (Inl e)
  with assms show ?thesis by (simp add: apply_retention_def)
next
  case (Inr ps)
  let ?pol = "apply_policy db backup_id"
  obtain c cands db1 where st: "record_static ?pol ps [] db = (c, cands, db1)" by (metis prod_cases3)
  note fr = record_static_frame [OF st]
  obtain r2 s2 where ac: "apply_candidates A stamp backup_id cands c (db1, w) = (r2, s2)" by (metis prod.exhaust)
  have out: "ad_backups db' = ad_backups (fst s2)" "ad_sections db' = ad_sections (fst s2)" "w' = snd s2"
    using assms Inr st ac by (auto simp: apply_retention_def Let_def split: sum.splits)
  show ?thesis
  proof (cases "po_dry_run ?pol")
    case True
    with fr ac out show ?thesis by auto
  next
    case False
    with fr have cands: "cands = filter pl_would_delete ps" by simp
    have "touches (plan_key ` set cands) db db1" using fr by (intro touches_same) auto
    moreover have "touches (plan_key ` set cands) db1 (fst s2)"
      using apply_candidates_touches [OF ac] by simp
    moreover have "touches (plan_key ` set cands) (fst s2) db'" using out by (intro touches_same) auto
    ultimately have "touches (plan_key ` set cands) db db'" using touches_trans by blast
    with Inr False cands show ?thesis by auto
  qed
qed

section \<open>Markers tell the truth\<close>

definition markers_truthful :: "('w \<Rightarrow> string \<Rightarrow> bool) \<Rightarrow> app_db \<Rightarrow> 'w \<Rightarrow> bool" where
  "markers_truthful present db w = (\<forall>b \<in> set (ad_backups db). bh_local_deleted_at b \<noteq> None \<longrightarrow>
     (case bh_filename b of None \<Rightarrow> True | Some f \<Rightarrow> \<not> present w f))"

lemma touches_wf: "touches S db db' \<Longrightarrow> backups_wf db \<Longrightarrow> backups_wf db'"
proof -
  assume t: "touches S db db'" and wf: "backups_wf db"
  have "list_all2 (touched S) bs bs' \<Longrightarrow> map bh_id bs' = map bh_id bs" for bs bs'
    by (induction bs bs' rule: list_all2_induct) (simp_all add: touched_def same_copy_def)
  then have "map bh_id (ad_backups db') = map bh_id (ad_backups db)" using t by (simp add: touches_def)
  with wf show ?thesis by (simp add: backups_wf_def)
qed

lemma touches_list: "touches S db db' \<Longrightarrow> list_all2 (touched S) (ad_backups db) (ad_backups db')"
  by (simp add: touches_def)

text \<open>
  What the host promises the dashboard: a removal that succeeded, or was answered 404, leaves no such
  artifact, and no deletion creates one.
\<close>

locale copy_store =
  fixes remove :: "'w \<Rightarrow> string \<Rightarrow> (app_error + int) \<times> 'w"
    and remove_remote :: "'w \<Rightarrow> string \<Rightarrow> string \<Rightarrow> string \<Rightarrow> (app_error + unit) \<times> 'w"
    and present :: "'w \<Rightarrow> string \<Rightarrow> bool"
  assumes removed: "remove w f = (Inr n, w') \<Longrightarrow> \<not> present w' f"
    and missing: "remove w f = (Inl (App_AgentError d (Some 404)), w') \<Longrightarrow> \<not> present w' f"
    and shrinks: "remove w g = (r, w') \<Longrightarrow> present w' f \<Longrightarrow> present w f"
    and remote_shrinks: "remove_remote w g rem path = (r', w') \<Longrightarrow> present w' f \<Longrightarrow> present w f"
begin

lemma call_agent_shrinks:
  "call_agent \<lparr>ra_delete_backup = remove, ra_delete_remote = remove_remote\<rparr> p w = (answer, w') \<Longrightarrow>
   present w' f \<Longrightarrow> present w f"
  by (auto simp: call_agent_def Let_def split: location.splits prod.splits sum.splits option.splits
      dest: shrinks remote_shrinks)

lemma call_agent_gone:
  assumes "call_agent \<lparr>ra_delete_backup = remove, ra_delete_remote = remove_remote\<rparr> p w = (answer, w')"
    "pl_location p = LOC_LOCAL" "bh_filename (pl_backup p) = Some f"
    "is_ok answer \<or> (\<exists>d. answer = Inl (App_AgentError d (Some 404)))"
  shows "\<not> present w' f"
  using assms
  by (auto simp: call_agent_def Let_def split: prod.splits sum.splits dest: removed missing)

lemma delete_copy_truthful:
  assumes wf: "backups_wf db" and p: "pl_backup p \<in> set (ad_backups db)"
    and truthful: "markers_truthful present db w"
    and d: "delete_copy \<lparr>ra_delete_backup = remove, ra_delete_remote = remove_remote\<rparr> stamp p (db, w) = (item, db', w')"
  shows "markers_truthful present db' w'"
proof -
  obtain answer where call: "call_agent \<lparr>ra_delete_backup = remove, ra_delete_remote = remove_remote\<rparr> p w = (answer, w')"
    and set: "settle stamp p answer db = (item, db')"
    using d by (auto simp: delete_copy_def split: prod.splits)
  have old: "markers_truthful present db w'"
    using truthful call_agent_shrinks [OF call] by (fastforce simp: markers_truthful_def split: option.splits)
  let ?i = "bh_id (pl_backup p)" and ?now = "stamp (bh_id (pl_backup p)) (pl_location p)"
  show ?thesis
  proof (cases "is_ok answer \<or> (\<exists>d. answer = Inl (App_AgentError d (Some 404)))")
    case False
    then have "db' = db"
      using set by (auto simp: settle_def Let_def split: sum.splits app_error.splits if_splits)
    with old show ?thesis by simp
  next
    case True
    then have db': "db' = mark_deleted (pl_location p) ?i ?now db"
      using set by (auto simp: settle_def Let_def split: sum.splits)
    show ?thesis
      unfolding markers_truthful_def
    proof
      fix b' assume b': "b' \<in> set (ad_backups db')"
      have "touches {(?i, pl_location p)} db db'" unfolding db' by (rule mark_deleted_touches)
      from list_all2_mem2 [OF touches_list [OF this] b']
      obtain b where b: "b \<in> set (ad_backups db)" "touched {(?i, pl_location p)} b b'" by (elim bexE)
      show "bh_local_deleted_at b' \<noteq> None \<longrightarrow> (case bh_filename b' of None \<Rightarrow> True | Some f \<Rightarrow> \<not> present w' f)"
      proof (cases "bh_local_deleted_at b' = bh_local_deleted_at b")
        case True
        with b old show ?thesis by (auto simp: markers_truthful_def touched_def same_copy_def)
      next
        case False
        with b have "bh_id b = ?i" "pl_location p = LOC_LOCAL" by (auto simp: touched_def)
        moreover from this have "b = pl_backup p"
          using distinct_key_eq [OF wf [unfolded backups_wf_def] b(1) p] by simp
        ultimately show ?thesis
          using b call_agent_gone [OF call _ _ True] by (auto simp: touched_def same_copy_def split: option.split)
      qed
    qed
  qed
qed

lemma apply_candidates_truthful:
  "apply_candidates \<lparr>ra_delete_backup = remove, ra_delete_remote = remove_remote\<rparr> stamp backup_id cands completed (db, w)
     = (r, (db', w')) \<Longrightarrow> backups_wf db \<Longrightarrow> markers_truthful present db w \<Longrightarrow> markers_truthful present db' w'"
proof (induction cands arbitrary: completed db w)
  case Nil
  then show ?case by simp
next
  case (Cons original rest)
  let ?A = "\<lparr>ra_delete_backup = remove, ra_delete_remote = remove_remote\<rparr>"
  show ?case
  proof (cases "revalidate db backup_id original")
    case (Inl e)
    with Cons.prems show ?thesis by simp
  next
    case (Inr v)
    obtain pol current where v: "v = (pol, current)" by (cases v)
    show ?thesis
    proof (cases "\<not> pl_would_delete current \<or> po_dry_run pol")
      case True
      let ?db = "record_event current (render current) pol
            (if pl_would_delete current \<and> po_dry_run pol then Some (pl_size current) else None) db"
      have "apply_candidates ?A stamp backup_id rest ((plan_key original, render current) # completed) (?db, w) = (r, (db', w'))"
        using Cons.prems(1) Inr v True by simp
      from Cons.IH [OF this] Cons.prems(2,3) show ?thesis
        by (simp add: backups_wf_def markers_truthful_def)
    next
      case False
      obtain item db1 w1 where d: "delete_copy ?A stamp current (db, w) = (item, db1, w1)" by (metis prod_cases3)
      obtain ps where ps: "plans db pol backup_id = Inr ps" "current \<in> set ps"
        using Inr v False
        by (auto simp: revalidate_def Let_def bindR_Inr_iff split: option.splits dest: find_Some_mem)
      then have "pl_backup current \<in> set (ad_backups db)" using plans_delete [OF Cons.prems(2)] by blast
      from delete_copy_truthful [OF Cons.prems(2) this Cons.prems(3) d]
      have t1: "markers_truthful present (record_event current item pol None db1) w1"
        by (simp add: markers_truthful_def)
      have "touches {plan_key current} db db1" using delete_copy_touches [of current "(db, w)" ?A stamp] d by simp
      then have w1: "backups_wf (record_event current item pol None db1)"
        using touches_wf [OF _ Cons.prems(2)] by (simp add: backups_wf_def)
      have "apply_candidates ?A stamp backup_id rest ((plan_key original, item) # completed)
          (record_event current item pol None db1, w1) = (r, (db', w'))"
        using Cons.prems(1) Inr v False d by simp
      from Cons.IH [OF this w1 t1] show ?thesis .
    qed
  qed
qed

lemma apply_retention_truthful:
  assumes "apply_retention \<lparr>ra_delete_backup = remove, ra_delete_remote = remove_remote\<rparr> C now stamp backup_id (db, w)
     = (r, (db', w'))" "backups_wf db" "markers_truthful present db w"
  shows "markers_truthful present db' w'"
proof (cases "plans db (apply_policy db backup_id) backup_id")
  case (Inl e)
  with assms show ?thesis by (simp add: apply_retention_def)
next
  case (Inr ps)
  let ?A = "\<lparr>ra_delete_backup = remove, ra_delete_remote = remove_remote\<rparr>"
  obtain c cands db1 where st: "record_static (apply_policy db backup_id) ps [] db = (c, cands, db1)"
    by (metis prod_cases3)
  obtain r2 db2 w2 where ac: "apply_candidates ?A stamp backup_id cands c (db1, w) = (r2, (db2, w2))"
    by (metis prod_cases3)
  have out: "ad_backups db' = ad_backups db2" "w' = w2"
    using assms(1) Inr st ac by (auto simp: apply_retention_def Let_def split: sum.splits)
  have "backups_wf db1" "markers_truthful present db1 w"
    using record_static_frame [OF st] assms(2,3) by (simp_all add: backups_wf_def markers_truthful_def)
  from apply_candidates_truthful [OF ac this] out show ?thesis by (simp add: markers_truthful_def)
qed

end

section \<open>Properties\<close>

definition marker :: "location \<Rightarrow> backup_row \<Rightarrow> datetime option" where
  "marker loc b = (case loc of LOC_LOCAL \<Rightarrow> bh_local_deleted_at b | LOC_REMOTE \<Rightarrow> bh_remote_deleted_at b)"

lemma touches_row:
  assumes "touches S db db'" "backups_wf db" "b \<in> set (ad_backups db)" "b' \<in> set (ad_backups db')" "bh_id b' = bh_id b"
  shows "touched S b b'"
proof -
  obtain b0 where b0: "b0 \<in> set (ad_backups db)" "touched S b0 b'"
    using list_all2_mem2 [OF touches_list [OF assms(1)] assms(4)] by (elim bexE)
  have "bh_id b' = bh_id b0" using b0(2) unfolding touched_def same_copy_def by (elim conjE)
  then have "b0 = b"
    using distinct_key_eq [OF assms(2) [unfolded backups_wf_def] b0(1) assms(3)] assms(5) by metis
  with b0 show ?thesis by simp
qed

lemma marked_copies_are_expendable:
  assumes "backups_wf db" "apply_retention A C now stamp backup_id (db, w) = (r, (db', w'))"
    and "b \<in> set (ad_backups db)" "b' \<in> set (ad_backups db')" "bh_id b' = bh_id b"
    and "marker loc b' \<noteq> marker loc b"
  shows "may_delete db (apply_policy db backup_id) loc b \<and> \<not> po_dry_run (apply_policy db backup_id)
    \<and> marker loc b = None"
proof -
  have "ad_backups db' \<noteq> ad_backups db"
  proof
    assume "ad_backups db' = ad_backups db"
    then have "b' = b"
      using assms distinct_key_eq [of bh_id "ad_backups db" b' b] by (simp add: backups_wf_def)
    with assms(6) show False by simp
  qed
  with apply_retention_touches [OF assms(2)] obtain ps where ps:
    "plans db (apply_policy db backup_id) backup_id = Inr ps" "\<not> po_dry_run (apply_policy db backup_id)"
    "touches (plan_key ` set (filter pl_would_delete ps)) db db'" by blast
  have moved: "touched K b b' \<Longrightarrow> (bh_id b, loc) \<in> K \<and> marker loc b = None" for K
    using assms(6) by (cases loc) (auto simp: touched_def marker_def)
  have "(bh_id b, loc) \<in> plan_key ` set (filter pl_would_delete ps)" "marker loc b = None"
    using moved [OF touches_row [OF ps(3) assms(1,3-5)]] by blast+
  then obtain q where q: "q \<in> set ps" "pl_would_delete q" "bh_id (pl_backup q) = bh_id b" "pl_location q = loc"
    by (auto simp: plan_key_def)
  note pd = plans_delete [OF assms(1) ps(1) q(1)]
  have "pl_backup q = b"
    using distinct_key_eq [OF assms(1) [unfolded backups_wf_def], of "pl_backup q" b] pd assms(3) q(3) by simp
  with pd q ps(2) \<open>marker loc b = None\<close> show ?thesis by simp
qed

text \<open>
  C4. Only expendable copies are deleted: when a pass of retention marks a copy of a backup deleted,
  the policy was resolved and not a dry run, and the copy was one the declarative rule lets go at the
  start of the pass: not pinned, with at least the configured number of newer copies of the same
  guest, not being restored, and for a local copy it and every copy that replaces it replicated.
\<close>

theorem retention_deletes_only_expendable:
  assumes "backups_wf db" "apply_retention A C now stamp backup_id (db, w) = (r, (db', w'))"
    and "b \<in> set (ad_backups db)" "b' \<in> set (ad_backups db')" "bh_id b' = bh_id b"
    and "marker loc b' \<noteq> marker loc b"
  shows "may_delete db (apply_policy db backup_id) loc b \<and> \<not> po_dry_run (apply_policy db backup_id)
    \<and> marker loc b = None"
  by (rule marked_copies_are_expendable [OF assms])

text \<open>
  C24. The newest copies survive: a local copy with fewer than \<open>keep_local\<close> newer unpinned copies of
  its guest still exists after the pass, whatever the agent answered.
\<close>

theorem newest_local_copies_survive:
  assumes "backups_wf db" "apply_retention A C now stamp backup_id (db, w) = (r, (db', w'))"
    and "b \<in> set (ad_backups db)" "has_local_copy b"
    and "int (card (newer_copies has_local_copy db b)) < pr_keep_local (apply_policy db backup_id)"
  shows "\<exists>b' \<in> set (ad_backups db'). bh_id b' = bh_id b \<and> has_local_copy b'"
  using apply_retention_touches [OF assms(2)]
proof (elim disjE exE conjE)
  assume "ad_backups db' = ad_backups db"
  with assms(3,4) show ?thesis by auto
next
  fix ps
  assume ps: "plans db (apply_policy db backup_id) backup_id = Inr ps"
    and t: "touches (plan_key ` set (filter pl_would_delete ps)) db db'"
  obtain b' where b': "b' \<in> set (ad_backups db')" "touched (plan_key ` set (filter pl_would_delete ps)) b b'"
    using list_all2_mem1 [OF touches_list [OF t] assms(3)] by (elim bexE)
  have "(bh_id b, LOC_LOCAL) \<notin> plan_key ` set (filter pl_would_delete ps)"
  proof
    assume "(bh_id b, LOC_LOCAL) \<in> plan_key ` set (filter pl_would_delete ps)"
    then obtain q where q: "q \<in> set ps" "pl_would_delete q" "bh_id (pl_backup q) = bh_id b" "pl_location q = LOC_LOCAL"
      by (auto simp: plan_key_def)
    note pd = plans_delete [OF assms(1) ps q(1)]
    have "pl_backup q = b"
      using distinct_key_eq [OF assms(1) [unfolded backups_wf_def], of "pl_backup q" b] pd assms(3) q(3) by simp
    with pd q assms(5) show False by (simp add: may_delete_def may_delete_local_def)
  qed
  with b' assms(4) show ?thesis by (auto simp: touched_def same_copy_def)
qed

text \<open>A dry run deletes nothing: the agent is not called and no row of the history changes.\<close>

theorem dry_run_deletes_nothing:
  assumes "rs_dry_run (sc_retention (ad_sections db))"
    and "apply_retention A C now stamp backup_id (db, w) = (r, (db', w'))"
  shows "w' = w \<and> ad_backups db' = ad_backups db"
proof -
  have "po_dry_run (apply_policy db backup_id)"
    using assms(1) by (simp add: apply_policy_def policy_for_def Let_def resolution.defs)
  with apply_retention_touches [OF assms(2)] show ?thesis by auto
qed

section \<open>A concrete pass\<close>

definition demo_copy :: backup_row where
  "demo_copy = \<lparr>bh_id = 7, bh_run_id = None, bh_vmid = 101, bh_guest_type = VM, bh_guest_name = ''web'',
     bh_node = ''pve'', bh_storage = ''backup-hdd'', bh_filename = Some ''a'', bh_local_path = None,
     bh_size_bytes = Some 10, bh_mode = SNAPSHOT, bh_compression = ZSTD, bh_checksum_sha256 = None,
     bh_status = B_SUCCESS, bh_agent_task_id = None, bh_started_at = Some 5, bh_finished_at = Some 6,
     bh_duration_seconds = None, bh_error_message = None, bh_warnings = None, bh_upload_status = UPLOADED,
     bh_uploaded_at = Some 7, bh_remote_path = Some ''g:d'', bh_remote_size_bytes = Some 10,
     bh_remote_checksum = None, bh_retention_locked = False, bh_local_deleted_at = None,
     bh_remote_deleted_at = None, bh_correlation_id = None\<rparr>"

text \<open>Google Drive enabled, no remote copy kept.\<close>

definition demo_ret_db :: app_db where
  "demo_ret_db = (empty_db (default_sections\<lparr>
       sc_gdrive := (sc_gdrive default_sections)\<lparr>gd_enabled := True\<rparr>,
       sc_retention := (sc_retention default_sections)\<lparr>rs_keep_remote := 0\<rparr>\<rparr>))\<lparr>ad_backups := [demo_copy]\<rparr>"

definition demo_ret_agent :: "nat retention_agent" where
  "demo_ret_agent = \<lparr>ra_delete_backup = (\<lambda>w f. (Inr 10, w + 1)), ra_delete_remote = (\<lambda>w f r p. (Inr (), w + 1))\<rparr>"

definition demo_pass :: "(app_error + policy \<times> decision list \<times> summary) \<times> app_db \<times> nat" where
  "demo_pass = apply_retention demo_ret_agent demo_notify 9 (\<lambda>_ _. 9) (Some 7) (demo_ret_db, 0)"

lemma demo_ret_policy:
  "apply_policy demo_ret_db (Some 7) = \<lparr>pr_keep_local = 2, pr_keep_remote = 0, pr_source = PS_GLOBAL,
     pr_resolved = True, pr_block_reason = None, po_dry_run = False, po_gdrive_enabled = True, po_delete_remote = True\<rparr>"
  by (simp add: apply_policy_def policy_for_def demo_ret_db_def default_sections_def retention_policy_context_def
      backup_get_def demo_copy_def resolve_policy_def resolved_policy_def resolution.defs Let_def)

lemma demo_target: "remote_target demo_copy = Some (''g'', ''d'')"
  by (simp add: remote_target_def demo_copy_def partition_on_def)

lemma demo_ret_restores: "ad_restores demo_ret_db = []"
  by (simp add: demo_ret_db_def)

lemma demo_key: "bh_id demo_copy = 7"
  by (simp add: demo_copy_def)

lemma demo_ret_copies: "local_for_guest demo_ret_db (101, VM) = [demo_copy]" "remote_for_guest demo_ret_db (101, VM) = [demo_copy]"
  by (simp_all add: local_for_guest_def remote_for_guest_def newest_first_def demo_ret_db_def guest_of_def demo_copy_def
      has_local_copy_def has_remote_copy_def)

lemma plan_of_simps [simp]:
  "pl_backup (plan_of b l a r d) = b" "pl_location (plan_of b l a r d) = l"
  "pl_size (plan_of b l a r d) = base_size b l" "pl_would_delete (plan_of b l a r d) = d"
  by (simp_all add: plan_of_def)

definition demo_kept :: string where "demo_kept = ''within_keep_local_'' @ show_int 2"
definition demo_gone :: string where "demo_gone = ''beyond_keep_remote_'' @ show_int 0"

lemma demo_ret_plans:
  "plans demo_ret_db (apply_policy demo_ret_db (Some 7)) (Some 7) = Inr
     [plan_of demo_copy LOC_LOCAL KEPT demo_kept False,
      plan_of demo_copy LOC_REMOTE DELETED_REMOTE demo_gone True]"
proof -
  have "guest_for_backup demo_ret_db 7 = Some (101, VM)"
    by (simp add: guest_for_backup_def backup_get_def demo_ret_db_def demo_key) (simp add: guest_of_def demo_copy_def)
  moreover have "rank_of [demo_copy] demo_copy = 0" by (simp add: rank_of_def rankable_def)
  moreover have "\<not> bh_retention_locked demo_copy" "bh_started_at demo_copy = Some 5" by (simp_all add: demo_copy_def)
  ultimately show ?thesis
    by (simp add: plans_def guest_plans_def demo_ret_policy demo_ret_copies local_plan_def remote_plan_def
        demo_target has_active_restore_def demo_ret_restores demo_kept_def demo_gone_def Let_def)
qed

text \<open>The decisions depend on five tables only; the events recorded during a pass do not change them.\<close>

lemma plans_cong:
  assumes "ad_backups db' = ad_backups db" "ad_restores db' = ad_restores db" "ad_sections db' = ad_sections db"
    "ad_runs db' = ad_runs db" "ad_jobs db' = ad_jobs db"
  shows "plans db' p i = plans db p i" "apply_policy db' i = apply_policy db i"
proof -
  have c: "local_for_guest db' g = local_for_guest db g" "remote_for_guest db' g = remote_for_guest db g"
    "has_active_restore db' j = has_active_restore db j" for g j
    using assms by (simp_all add: local_for_guest_def remote_for_guest_def has_active_restore_def)
  have "local_plan db' = local_plan db" by (intro ext) (simp only: local_plan_def c(3))
  moreover have "remote_plan db' = remote_plan db" by (intro ext) (simp only: remote_plan_def c(3))
  ultimately have "guest_plans db' = guest_plans db" by (intro ext) (simp only: guest_plans_def c)
  then show "plans db' p i = plans db p i"
    using assms by (cases i) (simp_all add: plans_def guest_for_backup_def backup_get_def guest_keys_def split: option.split)
  show "apply_policy db' i = apply_policy db i"
    using assms by (cases i) (simp_all add: apply_policy_def policy_for_def retention_policy_context_def backup_get_def)
qed

lemma demo_pass_result: "ad_backups (fst (snd demo_pass)) =
    [refresh_status (demo_copy\<lparr>bh_remote_deleted_at := Some 9\<rparr>)] \<and> snd (snd demo_pass) = 1"
proof -
  let ?local = "plan_of demo_copy LOC_LOCAL KEPT demo_kept False"
  let ?remote = "plan_of demo_copy LOC_REMOTE DELETED_REMOTE demo_gone True"
  let ?pol = "apply_policy demo_ret_db (Some 7)"
  define db1 where "db1 = record_event ?local (render ?local) ?pol None demo_ret_db"
  have dry: "\<not> po_dry_run ?pol" by (simp add: demo_ret_policy)
  have st: "record_static ?pol [?local, ?remote] [] demo_ret_db = ([(plan_key ?local, render ?local)], [?remote], db1)"
    using dry by (simp add: db1_def)
  have cong: "plans db1 p i = plans demo_ret_db p i" "apply_policy db1 i = apply_policy demo_ret_db i" for p i
    using plans_cong [of db1 demo_ret_db] by (simp_all add: db1_def)
  have rv: "revalidate db1 (Some 7) ?remote = Inr (?pol, ?remote)"
    by (simp add: revalidate_def cong demo_ret_plans Let_def plan_key_def)
  have call: "call_agent demo_ret_agent ?remote 0 = (Inr (pl_size ?remote), 1)"
    by (simp add: call_agent_def demo_target demo_ret_agent_def Let_def)
  have "ad_backups db1 = [demo_copy]" by (simp add: db1_def demo_ret_db_def)
  then have del: "fst (snd (delete_copy demo_ret_agent (\<lambda>_ _. 9) ?remote (db1, 0))) = mark_remote_deleted 7 9 db1"
      "snd (snd (delete_copy demo_ret_agent (\<lambda>_ _. 9) ?remote (db1, 0))) = 1"
    by (simp_all add: delete_copy_def call settle_def mark_deleted_def demo_key Let_def)
  obtain item where dc: "delete_copy demo_ret_agent (\<lambda>_ _. 9) ?remote (db1, 0) = (item, mark_remote_deleted 7 9 db1, 1)"
    using del by (metis prod.collapse)
  have w: "pl_would_delete ?remote" by simp
  have ac: "apply_candidates demo_ret_agent (\<lambda>_ _. 9) (Some 7) [?remote] [(plan_key ?local, render ?local)] (db1, 0)
      = (Inr [(plan_key ?remote, item), (plan_key ?local, render ?local)],
         (record_event ?remote item ?pol None (mark_remote_deleted 7 9 db1), 1))"
    using w dry by (simp add: rv dc)
  have "ad_backups (fst (snd demo_pass)) = ad_backups (mark_remote_deleted 7 9 db1) \<and> snd (snd demo_pass) = 1"
    by (simp add: demo_pass_def apply_retention_def demo_ret_plans st ac Let_def
        del: apply_candidates.simps record_static.simps)
  then show ?thesis
    using \<open>ad_backups db1 = [demo_copy]\<close>
    by (simp add: mark_remote_deleted_def demo_key) (simp add: demo_copy_def)
qed

lemma demo_wf: "backups_wf demo_ret_db" "demo_copy \<in> set (ad_backups demo_ret_db)"
  by (simp_all add: backups_wf_def demo_ret_db_def)

lemma demo_pass_eq: "demo_pass = (fst demo_pass, (fst (snd demo_pass), snd (snd demo_pass)))"
  by simp

theorem retention_deletes_only_expendable_witness:
  "may_delete demo_ret_db (apply_policy demo_ret_db (Some 7)) LOC_REMOTE demo_copy
    \<and> \<not> po_dry_run (apply_policy demo_ret_db (Some 7)) \<and> marker LOC_REMOTE demo_copy = None"
proof (rule retention_deletes_only_expendable [OF demo_wf(1) demo_pass_eq [unfolded demo_pass_def] demo_wf(2)])
  show "refresh_status (demo_copy\<lparr>bh_remote_deleted_at := Some 9\<rparr>) \<in> set (ad_backups (fst (snd
      (apply_retention demo_ret_agent demo_notify 9 (\<lambda>_ _. 9) (Some 7) (demo_ret_db, 0)))))"
    using demo_pass_result by (simp add: demo_pass_def)
qed (simp_all add: refresh_status_def marker_def, simp add: demo_copy_def)

theorem newest_local_copies_survive_witness:
  "\<exists>b' \<in> set (ad_backups (fst (snd (apply_retention demo_ret_agent demo_notify 9 (\<lambda>_ _. 9) (Some 7) (demo_ret_db, 0))))).
     bh_id b' = bh_id demo_copy \<and> has_local_copy b'"
proof (rule newest_local_copies_survive [OF demo_wf(1) demo_pass_eq [unfolded demo_pass_def] demo_wf(2)])
  show "has_local_copy demo_copy" by (simp add: has_local_copy_def demo_copy_def)
  have "newer_copies has_local_copy demo_ret_db demo_copy = {}"
    by (simp add: newer_copies_def demo_ret_db_def)
  then show "int (card (newer_copies has_local_copy demo_ret_db demo_copy)) < pr_keep_local (apply_policy demo_ret_db (Some 7))"
    by (simp add: demo_ret_policy)
qed

theorem dry_run_deletes_nothing_witness:
  "let db = demo_ret_db\<lparr>ad_sections := default_sections\<lparr>sc_retention := (sc_retention default_sections)\<lparr>rs_dry_run := True\<rparr>\<rparr>\<rparr>;
       out = apply_retention demo_ret_agent demo_notify 9 (\<lambda>_ _. 9) (Some 7) (db, 0)
   in snd (snd out) = 0 \<and> ad_backups (fst (snd out)) = [demo_copy]"
proof -
  define db where "db = demo_ret_db\<lparr>ad_sections := default_sections\<lparr>sc_retention := (sc_retention default_sections)\<lparr>rs_dry_run := True\<rparr>\<rparr>\<rparr>"
  have "rs_dry_run (sc_retention (ad_sections db))" "ad_backups db = [demo_copy]"
    by (simp_all add: db_def demo_ret_db_def)
  from dry_run_deletes_nothing [OF this(1) prod.collapse [symmetric, THEN trans]] this(2)
  show ?thesis unfolding Let_def db_def [symmetric]
    by (metis dry_run_deletes_nothing prod.collapse)
qed

end
