(* ===== verification/Retention_Agent.thy ===== *)
theory Retention_Agent
  imports Agent_Client Retention_Safety
begin

text \<open>
  Retention against the agent it really talks to: \<open>AgentClient.delete_backup\<close> and \<open>delete_remote\<close>
  composed with the agent's routes (\<open>agent/app/api/routes/backup.py\<close>, \<open>sync.py\<close>), its signature
  check and its services. The contract \<open>copy_store\<close> of \<open>Retention_Safety\<close> is proved of that
  composition, whatever the network loses.
\<close>

section \<open>The agent's routes\<close>

record agent_env =
  an_network :: network
  an_client :: client_settings
  an_settings :: agent_settings
  an_can_unlink :: "path \<Rightarrow> bool"
  an_parse_ip :: "string \<Rightarrow> string option" \<comment> \<open>\<open>ipaddress.ip_address\<close>\<close>
  an_host :: "string option" \<comment> \<open>the address of the dashboard as the agent sees it\<close>
  an_networks :: "(string \<Rightarrow> bool) list"
  an_route :: "string \<Rightarrow> string option" \<comment> \<open>the file name \<open>httpx\<close> and Starlette deliver for an unusual one\<close>
  an_rclone :: "nat \<Rightarrow> child_run"

definition an_allowed :: "agent_env \<Rightarrow> agent_error + unit" where
  "an_allowed env = assert_client_allowed (an_parse_ip env) (an_host env) (an_networks env)"

text \<open>A path segment that no URL rule rewrites reaches the route as it is.\<close>

definition delivered_segment :: "agent_env \<Rightarrow> string \<Rightarrow> string option" where
  "delivered_segment env fname =
     (if startswith fname ''vzdump-'' \<and> list_all artifact_char fname then Some fname else an_route env fname)"

definition delete_handler :: "agent_env \<Rightarrow> string \<Rightarrow> agent_end \<Rightarrow> (agent_error + nat) \<times> agent_end" where
  "delete_handler env n s =
     (if length n < 1 \<or> 255 < length n
      then (Inl (SchemaValidationFailed ''Request body failed validation''), s)
      else (case delete_artifact (an_settings env) (an_can_unlink env) n (ae_fs s) of
          (Inl e, fs) \<Rightarrow> (Inl e, s\<lparr>ae_fs := fs\<rparr>)
        | (Inr (freed, names), fs) \<Rightarrow> (Inr freed, s\<lparr>ae_fs := fs\<rparr>)))"

definition serve_delete :: "agent_env \<Rightarrow> string \<Rightarrow> (agent_end, nat) server" where
  "serve_delete env fname tick r s = (case delivered_segment env fname of
     None \<Rightarrow> (Inl (NotFound ''Not Found''), s)
   | Some n \<Rightarrow> guarded (an_network env) (an_allowed env) (delete_handler env n) tick r s)"

definition delete_request :: "string \<Rightarrow> string \<Rightarrow> string \<Rightarrow> sync_request" where
  "delete_request fname remote remote_path = \<lparr>sq_filename = fname, sq_remote = remote,
     sq_remote_path = remote_path, sq_bwlimit = 0, sq_transfers = None, sq_verify_after = False,
     sq_overwrite = False, sq_correlation = None\<rparr>"

definition remote_handler :: "agent_env \<Rightarrow> nat \<Rightarrow> sync_request \<Rightarrow> agent_end \<Rightarrow> (agent_error + string) \<times> agent_end" where
  "remote_handler env tick req s =
     (if length (sq_filename req) < 1 \<or> 255 < length (sq_filename req)
      then (Inl (SchemaValidationFailed ''Request body failed validation''), s)
      else (delete_remote (an_settings env) req (an_rclone env tick), s))"

definition serve_delete_remote :: "agent_env \<Rightarrow> sync_request \<Rightarrow> (agent_end, string) server" where
  "serve_delete_remote env req tick r s =
     guarded (an_network env) (an_allowed env) (remote_handler env tick req) tick r s"

section \<open>The client's two operations\<close>

definition client_delete_backup :: "agent_env \<Rightarrow> agent_end wire \<Rightarrow> string \<Rightarrow> (app_error + int) \<times> agent_end wire" where
  "client_delete_backup env w fname =
     (case send_request (an_network env) (an_client env) (serve_delete env fname) ''DELETE''
        (''/backup/'' @ fname) None w of
        (Inl e, w') \<Rightarrow> (Inl e, w')
      | (Inr freed, w') \<Rightarrow> (Inr (int freed), w'))"

definition client_delete_remote :: "agent_env \<Rightarrow> agent_end wire \<Rightarrow> string \<Rightarrow> string \<Rightarrow> string
    \<Rightarrow> (app_error + unit) \<times> agent_end wire" where
  "client_delete_remote env w fname remote remote_path =
     (case send_request (an_network env) (an_client env)
        (serve_delete_remote env (delete_request fname remote remote_path)) ''POST'' ''/sync/delete''
        (Some (json_dumps (remote_payload (nt_correlation (an_network env)) fname remote remote_path))) w of
        (Inl e, w') \<Rightarrow> (Inl e, w')
      | (Inr _, w') \<Rightarrow> (Inr (), w'))"

definition real_agent :: "agent_env \<Rightarrow> agent_end wire retention_agent" where
  "real_agent env = \<lparr>ra_delete_backup = client_delete_backup env, ra_delete_remote = client_delete_remote env\<rparr>"

text \<open>What the agent itself would serve under that name.\<close>

definition on_host :: "agent_env \<Rightarrow> agent_end wire \<Rightarrow> string \<Rightarrow> bool" where
  "on_host env w f = is_ok (resolve_artifact (an_settings env) (ae_fs (wi_agent w)) f)"

section \<open>The contract holds\<close>

definition held :: "agent_env \<Rightarrow> string \<Rightarrow> agent_end \<Rightarrow> bool" where
  "held env f s = is_ok (resolve_artifact (an_settings env) (ae_fs s) f)"

lemma on_host_held: "on_host env w f = held env f (wi_agent w)"
  by (simp add: on_host_def held_def)

lemma resolve_artifact_fewer:
  assumes "\<forall>q. fs_files fs' q \<in> {None, fs_files fs q}" "fs_resolve fs' = fs_resolve fs"
    and "is_ok (resolve_artifact st fs' f)"
  shows "is_ok (resolve_artifact st fs f)"
proof -
  from assms(3) obtain a p where r: "resolve_artifact st fs' f = Inr (a, p)"
    by (auto simp: is_ok_def split: sum.splits)
  then have "fs_files fs' p \<noteq> None" by (auto dest: resolve_artifact_Inr simp: is_file_def)
  with spec [OF assms(1), of p] have "fs_files fs p \<noteq> None" by auto
  with r assms(2) show ?thesis
    by (auto simp: resolve_artifact_def result_simps is_file_def is_ok_def split: sum.splits if_splits)
qed

lemma delete_artifact_fewer:
  assumes "delete_artifact st can n fs = (r, fs')" "is_ok (resolve_artifact st fs' f)"
  shows "is_ok (resolve_artifact st fs f)"
proof (cases "resolve_artifact st fs n")
  case (Inl e)
  with assms show ?thesis by (simp add: delete_artifact_def)
next
  case (Inr ap)
  with assms(1) have "snd (unlink_all can (delete_targets fs (fst ap) (snd ap)) (0, []) fs) = fs'"
    by (simp add: delete_artifact_def split: prod.splits)
  from unlink_all_frame [OF this] assms(2) show ?thesis by (blast intro: resolve_artifact_fewer)
qed

lemma delete_artifact_gone:
  assumes "delete_artifact st can n fs = (Inr r, fs')"
  shows "\<not> is_ok (resolve_artifact st fs' n)"
proof -
  obtain a p where r: "resolve_artifact st fs n = Inr (a, p)"
    using assms by (auto simp: delete_artifact_def split: sum.splits)
  let ?u = "unlink_all can (delete_targets fs a p) (0, []) fs"
  have u: "fst ?u = Inr r" "snd ?u = fs'" using assms r by (simp_all add: delete_artifact_def)
  have "fs_files fs' p = None" using unlink_all_gone [OF u(1), of p] u(2) by (simp add: delete_targets_def)
  moreover have "fs_resolve fs' = fs_resolve fs" using unlink_all_frame [OF u(2)] by blast
  ultimately show ?thesis
    using r by (auto simp: resolve_artifact_def result_simps is_file_def is_ok_def split: sum.splits if_splits)
qed

lemma guarded_held:
  assumes "\<And>s'. ae_fs s' = ae_fs s \<Longrightarrow> \<not> held env f (snd (handler s'))" "\<not> held env f s"
  shows "\<not> held env f (snd (guarded N al handler i r s))"
  using assms by (auto simp: guarded_def held_def split: sum.split prod.split)

lemma delete_handler_held: "\<not> held env f s \<Longrightarrow> \<not> held env f (snd (delete_handler env n s))"
  by (auto simp: delete_handler_def held_def split: prod.split sum.split dest: delete_artifact_fewer)

lemma serve_delete_held: "\<not> held env f s \<Longrightarrow> \<not> held env f (snd (serve_delete env n i r s))"
  unfolding serve_delete_def
  by (cases "delivered_segment env n", simp_all)
    (rule guarded_held [OF delete_handler_held], simp_all add: held_def)

lemma serve_delete_remote_held: "\<not> held env f s \<Longrightarrow> \<not> held env f (snd (serve_delete_remote env req i r s))"
  unfolding serve_delete_remote_def
  by (rule guarded_held) (auto simp: remote_handler_def held_def)

lemma not_delivered_not_held:
  assumes "delivered_segment env f = None \<or> (\<exists>n. delivered_segment env f = Some n \<and> n \<noteq> f)"
  shows "\<not> held env f s"
  using assms resolve_artifact_chars
  by (fastforce simp: delivered_segment_def held_def is_ok_def split: sum.splits if_splits)

lemma resolve_fails_not_held: "resolve_artifact (an_settings env) (ae_fs s) f = Inl e \<Longrightarrow> \<not> held env f s"
  by (simp add: held_def is_ok_def)

lemma guard_errors:
  "an_allowed env = Inl e \<Longrightarrow> e \<noteq> NotFound d"
  "verify_request sha hmac a r t = (Inl e, a') \<Longrightarrow> e \<noteq> NotFound d"
  by (auto simp: an_allowed_def assert_client_allowed_def verify_request_def verify_static_def compare_digest_def
      result_simps split: if_splits option.splits sum.splits prod.splits)

lemma unlink_all_errors: "fst (unlink_all can ts acc fs) \<noteq> Inl (NotFound d)"
  by (induction can ts acc fs rule: unlink_all.induct) (auto split: option.split)

lemma delete_handler_gone:
  assumes "delete_handler env f s = (a, s')" "is_ok a \<or> (\<exists>d. a = Inl (NotFound d))"
  shows "\<not> held env f s'"
proof (cases "resolve_artifact (an_settings env) (ae_fs s) f")
  case (Inl e)
  then have "\<not> held env f s" by (rule resolve_fails_not_held)
  with assms(1) delete_handler_held show ?thesis by (metis snd_conv)
next
  case (Inr ap)
  obtain r fs' where d: "delete_artifact (an_settings env) (an_can_unlink env) f (ae_fs s) = (r, fs')" by force
  have "r \<noteq> Inl (NotFound x)" for x
    using d Inr unlink_all_errors by (auto simp: delete_artifact_def split: prod.splits) (metis fst_conv)
  with assms d obtain v where r: "r = Inr v" "ae_fs s' = fs'"
    by (auto simp: delete_handler_def is_ok_def split: sum.splits prod.splits if_splits)
  show ?thesis using delete_artifact_gone [OF d [unfolded r(1)]] by (simp add: held_def r(2))
qed

text \<open>A success, and a 404, both mean that the agent holds nothing under that name any more.\<close>

lemma serve_delete_gone:
  assumes "serve_delete env f i r s = (a, s')" "is_ok a \<or> (\<exists>d. a = Inl (NotFound d))"
  shows "\<not> held env f s'"
proof (cases "delivered_segment env f = Some f")
  case False
  then show ?thesis by (intro not_delivered_not_held) (metis option.exhaust)
next
  case True
  then have g: "guarded (an_network env) (an_allowed env) (delete_handler env f) i r s = (a, s')"
    using assms(1) by (simp add: serve_delete_def)
  obtain v au where v: "verify_request (nt_sha (an_network env)) (nt_hmac (an_network env)) (ae_auth s) r
      (nt_agent_time (an_network env) i) = (v, au)" by force
  have "delete_handler env f (s\<lparr>ae_auth := au\<rparr>) = (a, s')"
    using g v assms(2) guard_errors
    by (auto simp: guarded_def is_ok_def split: sum.splits prod.splits)
  from delete_handler_gone [OF this assms(2)] show ?thesis .
qed

lemma client_delete_backup_held:
  assumes "client_delete_backup env w g = (r, w')" "\<not> held env f (wi_agent w)"
  shows "\<not> held env f (wi_agent w')"
proof -
  obtain x where "send_request (an_network env) (an_client env) (serve_delete env g) ''DELETE'' (''/backup/'' @ g) None w = (x, w')"
    using assms(1) by (auto simp: client_delete_backup_def split: prod.splits sum.splits)
  from send_request_agent [of "\<lambda>s. \<not> held env f s", OF serve_delete_held assms(2) this] show ?thesis .
qed

lemma client_delete_remote_held:
  assumes "client_delete_remote env w g rem path = (r, w')" "\<not> held env f (wi_agent w)"
  shows "\<not> held env f (wi_agent w')"
proof -
  obtain x where "send_request (an_network env) (an_client env) (serve_delete_remote env (delete_request g rem path)) ''POST''
      ''/sync/delete'' (Some (json_dumps (remote_payload (nt_correlation (an_network env)) g rem path))) w = (x, w')"
    using assms(1) by (auto simp: client_delete_remote_def split: prod.splits sum.splits)
  from send_request_agent [of "\<lambda>s. \<not> held env f s", OF serve_delete_remote_held assms(2) this] show ?thesis .
qed

lemma client_delete_backup_gone:
  assumes "client_delete_backup env w f = (r, w')" "is_ok r \<or> (\<exists>d. r = Inl (App_AgentError d (Some 404)))"
  shows "\<not> held env f (wi_agent w')"
proof -
  obtain x where sr: "send_request (an_network env) (an_client env) (serve_delete env f) ''DELETE''
      (''/backup/'' @ f) None w = (x, w')" and x: "is_ok x \<or> (\<exists>d. x = Inl (App_AgentError d (Some 404)))"
    using assms by (auto simp: client_delete_backup_def is_ok_def split: prod.splits sum.splits)
  then have "(\<exists>v. x = Inr v) \<or> (\<exists>d s. x = Inl (App_AgentError d s))" by (auto simp: is_ok_def split: sum.splits)
  from send_request_answer [OF sr this] obtain i q s a
    where a: "serve_delete env f i q s = (a, wi_agent w')" "x = parse_answer a" by metis
  with x have "is_ok a \<or> (\<exists>d. a = Inl (NotFound d))"
    using parse_answer_simps(2) [of a] by (cases a) (auto simp: is_ok_def parse_answer_simps split: sum.splits)
  from serve_delete_gone [OF a(1) this] show ?thesis .
qed

interpretation agent_store: copy_store "client_delete_backup env" "client_delete_remote env" "on_host env"
  for env :: agent_env
  unfolding on_host_held
proof (unfold_locales, goal_cases)
  case (1 w f n w')
  then show ?case by (rule client_delete_backup_gone) (simp add: is_ok_def)
next
  case (2 w f d w')
  then show ?case by (rule client_delete_backup_gone) simp
next
  case (3 w g r w' f)
  then show ?case using client_delete_backup_held by blast
next
  case (4 w g rem path r' w' f)
  then show ?case using client_delete_remote_held by blast
qed

section \<open>Properties\<close>

text \<open>The contract restricted to the names outside a set \<open>F\<close>: what is false about \<open>F\<close> already, stays out of it.\<close>

definition on_host_beside :: "string set \<Rightarrow> agent_env \<Rightarrow> agent_end wire \<Rightarrow> string \<Rightarrow> bool" where
  "on_host_beside F env w f = (f \<notin> F \<and> on_host env w f)"

interpretation agent_store_beside: copy_store "client_delete_backup env" "client_delete_remote env" "on_host_beside F env"
  for F :: "string set" and env :: agent_env
  by unfold_locales (auto simp: on_host_beside_def
      dest: agent_store.removed agent_store.missing agent_store.shrinks agent_store.remote_shrinks)

text \<open>
  C8. A pass of retention leaves no false marker on a local copy: when a backup bears the marker
  \<open>local_deleted_at\<close> after the pass and the agent still serves a file of its name, then a backup of that
  name bore the marker, and the agent served the file, before the pass already. So the markers the pass
  sets are true, and the ones it finds stay as true as they were, whether its requests are refused,
  lost after they were served, rejected or answered.
\<close>

theorem deleted_marker_means_gone:
  assumes "apply_retention (real_agent env) C now stamp backup_id (db, w) = (r, (db', w'))"
    and "backups_wf db"
    and "b' \<in> set (ad_backups db')" "bh_local_deleted_at b' \<noteq> None" "bh_filename b' = Some f" "on_host env w' f"
  shows "\<exists>b \<in> set (ad_backups db). bh_local_deleted_at b \<noteq> None \<and> bh_filename b = Some f \<and> on_host env w f"
proof -
  let ?F = "{f. \<exists>b \<in> set (ad_backups db). bh_local_deleted_at b \<noteq> None \<and> bh_filename b = Some f \<and> on_host env w f}"
  have "markers_truthful (on_host_beside ?F env) db w"
    by (auto simp: markers_truthful_def on_host_beside_def split: option.split)
  from agent_store_beside.apply_retention_truthful [OF assms(1) [unfolded real_agent_def] assms(2) this]
  have "\<not> on_host_beside ?F env w' f"
    using assms(3-5) by (fastforce simp: markers_truthful_def split: option.splits)
  with assms(6) show ?thesis by (auto simp: on_host_beside_def)
qed

section \<open>A concrete deletion\<close>

definition demo_agent_env :: agent_env where
  "demo_agent_env = \<lparr>an_network = demo_network, an_client = demo_client, an_settings = demo_settings,
     an_can_unlink = (\<lambda>_. True), an_parse_ip = Some, an_host = None, an_networks = [],
     an_route = (\<lambda>_. None), an_rclone = (\<lambda>_. demo_rclone)\<rparr>"

definition demo_wire :: "agent_end wire" where
  "demo_wire = \<lparr>wi_breaker = new_breaker 3 30, wi_tick = 0, wi_sent = [], wi_agent = \<lparr>ae_auth = demo_authenticator,
     ae_fs = demo_fs\<rparr>\<rparr>"

text \<open>An older replicated copy, whose archive is on the host, beside the newest one; one copy is kept.\<close>

definition demo_older :: backup_row where
  "demo_older = demo_copy\<lparr>bh_id := 6, bh_filename := Some DEMO, bh_started_at := Some 4\<rparr>"

definition demo_full_db :: app_db where
  "demo_full_db = (empty_db (default_sections\<lparr>
       sc_retention := (sc_retention default_sections)\<lparr>rs_keep_local := 1, rs_keep_remote := 5\<rparr>\<rparr>))\<lparr>
     ad_backups := [demo_older, demo_copy]\<rparr>"

definition demo_deletion :: "(app_error + policy \<times> decision list \<times> summary) \<times> app_db \<times> agent_end wire" where
  "demo_deletion = apply_retention (real_agent demo_agent_env) demo_notify 9 (\<lambda>_ _. 9) (Some 7) (demo_full_db, demo_wire)"

lemma demo_request_served:
  "\<exists>n w'. client_delete_backup demo_agent_env demo_wire DEMO = (Inr n, w')"
proof -
  let ?r = "signed_request demo_network demo_client 1 ''DELETE'' (''/backup/'' @ DEMO) None"
  have "fst (verify_request (nt_sha demo_network) (nt_hmac demo_network) demo_authenticator ?r 120) = Inr ()"
    by (rule signed_request_admitted)
      (simp_all add: demo_network_def demo_client_def demo_authenticator_def build_authenticator_def code_def
        MIN_NONCE_LENGTH_def MAX_NONCE_LENGTH_def)
  then obtain au where v: "verify_request (nt_sha demo_network) (nt_hmac demo_network) demo_authenticator ?r 120 = (Inr (), au)"
    by (metis prod.collapse)
  have seg: "delivered_segment demo_agent_env DEMO = Some DEMO"
    unfolding delivered_segment_def DEMO_def by code_simp
  have len: "length DEMO = 43" unfolding DEMO_def by simp
  have al: "an_allowed demo_agent_env = Inr ()"
    by (simp add: an_allowed_def demo_agent_env_def assert_client_allowed_def)
  let ?d = "delete_artifact demo_settings (\<lambda>_. True) DEMO demo_fs"
  have "is_ok (fst ?d)" by (simp add: delete_artifact_def demo_resolve unlink_all_ok)
  then obtain freed names fs where d: "?d = (Inr (freed, names), fs)" by (cases ?d) (auto simp: is_ok_def split: sum.splits)
  have env: "an_network demo_agent_env = demo_network" "an_client demo_agent_env = demo_client"
    "an_settings demo_agent_env = demo_settings" "an_can_unlink demo_agent_env = (\<lambda>_. True)"
    "nt_agent_time demo_network i = 120" "nt_delivery demo_network i = Answered" "cs_secret demo_client = ''k''"
    "attempts_of demo_client ''DELETE'' = Suc 0" for i
    by (simp_all add: demo_agent_env_def demo_network_def demo_client_def attempts_of_def)
  have w: "wi_tick demo_wire = 0" "ae_auth (wi_agent demo_wire) = demo_authenticator" "ae_fs (wi_agent demo_wire) = demo_fs"
    "allow (wi_breaker demo_wire) t = (True, wi_breaker demo_wire)" for t
    by (simp_all add: demo_wire_def new_breaker_def allow_def circuit_def)
  have "fst (serve_delete demo_agent_env DEMO 1 ?r (wi_agent demo_wire)) = Inr freed"
    using v d by (simp add: serve_delete_def seg guarded_def al env w delete_handler_def len)
  then show ?thesis
    by (simp add: client_delete_backup_def send_request_def env w Let_def parse_answer_def split: prod.split)
qed

lemma demo_full_backups: "ad_backups demo_full_db = [demo_older, demo_copy]" "backups_wf demo_full_db"
    "bh_id demo_older = 6" "bh_filename demo_older = Some DEMO"
  by (simp_all add: demo_full_db_def backups_wf_def demo_older_def demo_key)

lemma demo_full_policy:
  "apply_policy demo_full_db (Some 7) = \<lparr>pr_keep_local = 1, pr_keep_remote = 5, pr_source = PS_GLOBAL,
     pr_resolved = True, pr_block_reason = None, po_dry_run = False, po_gdrive_enabled = False, po_delete_remote = True\<rparr>"
  by (simp add: apply_policy_def policy_for_def demo_full_db_def default_sections_def retention_policy_context_def
      backup_get_def demo_copy_def demo_older_def resolve_policy_def resolved_policy_def resolution.defs Let_def)

definition demo_victim :: plan where
  "demo_victim = plan_of demo_older LOC_LOCAL DELETED_LOCAL (''beyond_keep_local_'' @ show_int 1) True"

lemma demo_full_plans:
  "\<exists>p q r. plans demo_full_db (apply_policy demo_full_db (Some 7)) (Some 7) = Inr [p, demo_victim, q, r]
     \<and> \<not> pl_would_delete p \<and> \<not> pl_would_delete q \<and> \<not> pl_would_delete r \<and> plan_key p \<noteq> plan_key demo_victim"
proof -
  have g: "guest_for_backup demo_full_db 7 = Some (101, VM)"
    by (simp add: guest_for_backup_def backup_get_def demo_full_backups demo_key) (simp add: guest_of_def demo_copy_def)
  have c: "local_for_guest demo_full_db (101, VM) = [demo_copy, demo_older]"
    "remote_for_guest demo_full_db (101, VM) = [demo_copy, demo_older]"
    by (simp_all add: local_for_guest_def remote_for_guest_def newest_first_def demo_full_backups guest_of_def
        has_local_copy_def has_remote_copy_def demo_older_def demo_copy_def newest_key_def)
  have k: "\<not> bh_retention_locked demo_copy" "\<not> bh_retention_locked demo_older" "bh_started_at demo_copy = Some 5"
    "bh_started_at demo_older = Some 4" "replicated demo_copy" "replicated demo_older"
    by (simp_all add: demo_older_def demo_copy_def replicated_def)
  have r: "rank_of [demo_copy, demo_older] demo_copy = 0" "rank_of [demo_copy, demo_older] demo_older = 1"
    "rankable [demo_copy, demo_older] = [demo_copy, demo_older]"
    by (simp_all add: rank_of_def rankable_def k demo_key demo_full_backups)
  have a: "\<not> has_active_restore demo_full_db 6" by (simp add: has_active_restore_def demo_full_db_def)
  have l: "local_upload_blocker demo_copy = None" "local_upload_blocker demo_older = None" using k by simp_all
  show ?thesis
    by (simp add: plans_def g guest_plans_def demo_full_policy c local_plan_def remote_plan_def k l r [simplified] a
        demo_full_backups map_filter_def demo_victim_def plan_key_def demo_key Let_def)
qed

lemma demo_deletion_marks:
  "\<exists>b' \<in> set (ad_backups (fst (snd demo_deletion))). bh_local_deleted_at b' \<noteq> None \<and> bh_filename b' = Some DEMO"
proof -
  let ?pol = "apply_policy demo_full_db (Some 7)" and ?A = "real_agent demo_agent_env" and ?S = "\<lambda>_ _. 9 :: int"
  obtain p q r where pl: "plans demo_full_db ?pol (Some 7) = Inr [p, demo_victim, q, r]" "\<not> pl_would_delete p"
    "\<not> pl_would_delete q" "\<not> pl_would_delete r" "plan_key p \<noteq> plan_key demo_victim"
    using demo_full_plans by blast
  have v: "pl_would_delete demo_victim" "pl_backup demo_victim = demo_older" "pl_location demo_victim = LOC_LOCAL"
    by (simp_all add: demo_victim_def)
  have dry: "\<not> po_dry_run ?pol" by (simp add: demo_full_policy)
  obtain c db1 where st: "record_static ?pol [p, demo_victim, q, r] [] demo_full_db = (c, [demo_victim], db1)"
    using pl v dry by simp
  note fr = record_static_frame [OF st]
  have cong: "plans db1 x i = plans demo_full_db x i" "apply_policy db1 i = apply_policy demo_full_db i" for x i
    using plans_cong [of db1 demo_full_db] fr by simp_all
  have rv: "revalidate db1 (Some 7) demo_victim = Inr (?pol, demo_victim)"
    using pl(5) by (simp add: revalidate_def cong pl(1) Let_def)
  obtain n w' where n: "client_delete_backup demo_agent_env demo_wire DEMO = (Inr n, w')"
    using demo_request_served by blast
  have call: "call_agent ?A demo_victim demo_wire = (Inr (max n 0), w')"
    by (simp add: call_agent_def v demo_full_backups real_agent_def n)
  obtain item where dc: "delete_copy ?A ?S demo_victim (db1, demo_wire) = (item, mark_local_deleted 6 9 db1, w')"
    by (simp add: delete_copy_def call settle_def mark_deleted_def v demo_full_backups Let_def)
  have ac: "apply_candidates ?A ?S (Some 7) [demo_victim] c (db1, demo_wire)
      = (Inr ((plan_key demo_victim, item) # c), (record_event demo_victim item ?pol None (mark_local_deleted 6 9 db1), w'))"
    using v(1) dry by (simp add: rv dc)
  have "ad_backups (fst (snd demo_deletion)) = ad_backups (mark_local_deleted 6 9 db1)"
    by (simp add: demo_deletion_def apply_retention_def pl(1) st ac Let_def
        del: apply_candidates.simps record_static.simps)
  moreover have "ad_backups db1 = [demo_older, demo_copy]" using fr demo_full_backups by simp
  ultimately show ?thesis
    by (simp add: mark_local_deleted_def demo_full_backups) (simp add: demo_older_def demo_copy_def refresh_status_def)
qed

theorem deleted_marker_means_gone_witness:
  "on_host demo_agent_env demo_wire DEMO \<and> \<not> on_host demo_agent_env (snd (snd demo_deletion)) DEMO
   \<and> (\<exists>b' \<in> set (ad_backups (fst (snd demo_deletion))). bh_local_deleted_at b' \<noteq> None \<and> bh_filename b' = Some DEMO)"
proof -
  have before: "on_host demo_agent_env demo_wire DEMO"
    by (simp add: on_host_def demo_agent_env_def demo_wire_def demo_resolve is_ok_def)
  have unmarked: "\<not> (\<exists>b \<in> set (ad_backups demo_full_db). bh_local_deleted_at b \<noteq> None \<and> bh_filename b = Some DEMO
      \<and> on_host demo_agent_env demo_wire DEMO)"
    by (simp add: demo_full_backups) (simp add: demo_older_def demo_copy_def)
  obtain b' where b': "b' \<in> set (ad_backups (fst (snd demo_deletion)))" "bh_local_deleted_at b' \<noteq> None" "bh_filename b' = Some DEMO"
    using demo_deletion_marks by blast
  have "apply_retention (real_agent demo_agent_env) demo_notify 9 (\<lambda>_ _. 9) (Some 7) (demo_full_db, demo_wire)
      = (fst demo_deletion, (fst (snd demo_deletion), snd (snd demo_deletion)))"
    by (simp add: demo_deletion_def)
  from deleted_marker_means_gone [OF this demo_full_backups(2) b'] unmarked
  have "\<not> on_host demo_agent_env (snd (snd demo_deletion)) DEMO" by blast
  with before b' show ?thesis by blast
qed

text \<open>
  Any \<open>not found\<close> in rclone's output of a failed deletion is taken for a missing file: the agent
  answers 404 and retention marks the remote copy deleted, although rclone failed before it reached
  the remote (its notice of a missing configuration file says \<open>not found\<close> too).
\<close>

theorem not_found_output_marks_remote_deleted:
  assumes "delete_remote st req (ch\<lparr>ch_returncode := Some 0\<rparr>) = Inr target"
    and "ch_returncode ch = Some c" "c \<noteq> 0"
    and "contains_sub ''not found'' (py_lower (join_with [NL] (ch_lines ch)))"
    and "pl_location p = LOC_REMOTE" "parse_answer (delete_remote st req ch) = answer"
  shows "\<exists>e item. answer = Inl e \<and> settle stamp p (Inl e) db
      = (item, mark_remote_deleted (bh_id (pl_backup p)) (stamp (bh_id (pl_backup p)) LOC_REMOTE) db)
    \<and> dn_deleted item \<and> dn_reconciled item"
proof -
  have "\<exists>d. delete_remote st req ch = Inl (NotFound d)"
    using assms(1-4) by (auto simp: delete_remote_def result_simps run_capture_def Let_def split: if_splits prod.splits)
  then obtain d where "delete_remote st req ch = Inl (NotFound d)" by blast
  with assms(5,6) show ?thesis
    by (auto simp: parse_answer_def settle_def mark_deleted_def Let_def)
qed

definition demo_misconfigured :: child_run where
  "demo_misconfigured = \<lparr>ch_spawns = True, ch_lines = [''NOTICE: Config file not found - using defaults''],
     ch_timed_out = False, ch_returncode = Some 7, ch_cancelled = False, ch_duration = 1\<rparr>"

theorem not_found_output_marks_remote_deleted_witness:
  "\<exists>e item. parse_answer (delete_remote demo_settings demo_sync demo_misconfigured) = Inl e
    \<and> settle (\<lambda>_ _. 9) (plan_of demo_copy LOC_REMOTE DELETED_REMOTE demo_gone True) (Inl e) demo_ret_db
      = (item, mark_remote_deleted 7 9 demo_ret_db) \<and> dn_deleted item \<and> dn_reconciled item"
proof -
  let ?p = "plan_of demo_copy LOC_REMOTE DELETED_REMOTE demo_gone True"
  have r: "validated_remote demo_settings ''drive'' [] = Inr (''drive'', [])"
    unfolding demo_settings_def by code_simp
  have "validate_argv (build_delete_argv (rclone_options_of demo_settings 0 None) (build_remote_spec ''drive'' [] DEMO))
      = Inr (build_delete_argv (rclone_options_of demo_settings 0 None) (build_remote_spec ''drive'' [] DEMO))"
    unfolding demo_settings_def DEMO_def by code_simp
  then have "delete_remote demo_settings demo_sync (demo_misconfigured\<lparr>ch_returncode := Some 0\<rparr>)
      = Inr (build_remote_spec ''drive'' [] DEMO)"
    by (simp add: delete_remote_def require_enabled_def demo_sync_def r demo_basename demo_parse run_capture_def
        demo_misconfigured_def Let_def) (simp add: demo_settings_def)
  moreover have "contains_sub ''not found'' (py_lower (join_with [NL] (ch_lines demo_misconfigured)))" by code_simp
  moreover have "ch_returncode demo_misconfigured = Some 7" by (simp add: demo_misconfigured_def)
  ultimately show ?thesis
    using not_found_output_marks_remote_deleted [of demo_settings demo_sync demo_misconfigured _ 7 ?p _ "\<lambda>_ _. 9" demo_ret_db]
    by (simp add: demo_key)
qed

end
