(* ===== verification/Restore.thy ===== *)
theory Restore
  imports Notify
begin

text \<open>
  Restores: \<open>backend/app/repositories/restore_repository.py\<close>, \<open>backend/app/services/restore_service.py\<close> and
  the guarded routes of \<open>backend/app/api/v1/routes/restores.py\<close>. What the service asks the agent and
  reads of the guest inventory is the record \<open>restore_view\<close>, one moment's answers. A preflight check
  keeps its name and verdict; its display text is left out. \<open>FREE_SPACE_MARGIN\<close> is the exact 115/100
  (the source multiplies by the nearest double).
\<close>

section \<open>Repository\<close>

definition restore_get :: "app_db \<Rightarrow> nat \<Rightarrow> restore_row option" where
  "restore_get db i = find (\<lambda>r. rh_id r = i) (ad_restores db)"

definition first_restore :: "(restore_row \<Rightarrow> bool) \<Rightarrow> app_db \<Rightarrow> restore_row option" where
  "first_restore P db = (case sort_key rh_id (filter P (ad_restores db)) of [] \<Rightarrow> None | r # _ \<Rightarrow> Some r)"

definition next_confirmed :: "app_db \<Rightarrow> restore_row option" where
  "next_confirmed db = first_restore (\<lambda>r. rh_status r = CONFIRMED) db"

definition authorised :: "restore_row \<Rightarrow> bool" where
  "authorised r = (rh_status r \<in> {CONFIRMED, RS_RUNNING})"

definition in_flight :: "app_db \<Rightarrow> restore_row option" where
  "in_flight db = first_restore authorised db"

definition running_restores :: "app_db \<Rightarrow> restore_row list" where
  "running_restores db = sort_key rh_id (filter (\<lambda>r. rh_status r = RS_RUNNING) (ad_restores db))"

definition active_for_backup :: "app_db \<Rightarrow> nat \<Rightarrow> restore_row option" where
  "active_for_backup db b = first_restore (\<lambda>r. rh_backup_id r = b \<and> blocks_retention (rh_status r)) db"

definition window_closed :: "datetime \<Rightarrow> restore_row \<Rightarrow> bool" where
  "window_closed now r = (case rh_expires_at r of None \<Rightarrow> False | Some t \<Rightarrow> t \<le> now)"

definition expired_pending :: "app_db \<Rightarrow> datetime \<Rightarrow> restore_row list" where
  "expired_pending db now = sort_key rh_id (filter (\<lambda>r. rh_status r = PENDING_CONFIRMATION
     \<and> window_closed now r) (ad_restores db))"

definition EXPIRY_MESSAGE :: string where
  "EXPIRY_MESSAGE = ''The confirmation window closed before it was confirmed''"

definition expire_row :: "datetime \<Rightarrow> restore_row \<Rightarrow> restore_row" where
  "expire_row now r = r\<lparr>rh_status := RS_EXPIRED, rh_finished_at := Some now, rh_token_hash := None,
     rh_error_message := Some EXPIRY_MESSAGE\<rparr>"

definition expire_pending :: "datetime \<Rightarrow> app_db \<Rightarrow> nat list \<times> app_db" where
  "expire_pending now db = (map rh_id (expired_pending db now),
     db\<lparr>ad_restores := upd_where (\<lambda>r. rh_status r = PENDING_CONFIRMATION \<and> window_closed now r)
          (expire_row now) (ad_restores db)\<rparr>)"

record restore_filters =
  rf_status :: "restore_status option"
  rf_backup_id :: "nat option"
  rf_target_vmid :: "nat option"

definition restore_matches :: "restore_filters \<Rightarrow> restore_row \<Rightarrow> bool" where
  "restore_matches f r =
     ((case rf_status f of None \<Rightarrow> True | Some s \<Rightarrow> rh_status r = s)
      \<and> (case rf_backup_id f of None \<Rightarrow> True | Some b \<Rightarrow> rh_backup_id r = b)
      \<and> (case rf_target_vmid f of None \<Rightarrow> True | Some v \<Rightarrow> rh_target_vmid r = v))"

definition restore_search :: "app_db \<Rightarrow> restore_filters \<Rightarrow> nat \<Rightarrow> nat \<Rightarrow> restore_row list" where
  "restore_search db f limit offset = page limit offset
     (order_desc (\<lambda>r. (rh_created_at r, rh_id r)) (filter (restore_matches f) (ad_restores db)))"

definition restore_count :: "app_db \<Rightarrow> restore_filters \<Rightarrow> nat" where
  "restore_count db f = length (filter (restore_matches f) (ad_restores db))"

section \<open>What a preflight sees\<close>

definition get_by_vmid :: "app_db \<Rightarrow> nat \<Rightarrow> guest_type \<Rightarrow> guest_row option" where
  "get_by_vmid db vmid t = find (\<lambda>g. gu_vmid g = vmid \<and> gu_type g = t) (ad_guests db)"

record agent_artifact =
  aa_filename :: string
  aa_checksum :: "string option"

record agent_storage =
  as_name :: string
  as_active :: bool
  as_available :: int

record restore_view =
  rv_listing :: "nat \<Rightarrow> guest_type \<Rightarrow> app_error + agent_artifact list"
  rv_storages :: "app_error + agent_storage list"

record restore_ask =
  ra_backup_id :: nat
  ra_mode :: restore_mode
  ra_vmid :: "nat option"
  ra_storage :: "string option"
  ra_node :: "string option"
  ra_overwrite :: bool
  ra_force_stop :: bool
  ra_start_after :: bool

text \<open>The validation of \<open>RestoreRequest\<close>: text is stripped, then checked.\<close>

definition short_text :: "string option \<Rightarrow> bool" where
  "short_text s = (case s of None \<Rightarrow> True | Some t \<Rightarrow> 1 \<le> length t \<and> length t \<le> 64)"

definition validate_ask :: "restore_ask \<Rightarrow> restore_ask option" where
  "validate_ask a = (let b = a\<lparr>ra_storage := map_option py_strip (ra_storage a), ra_node := map_option py_strip (ra_node a)\<rparr> in
     if (case ra_vmid b of None \<Rightarrow> True | Some v \<Rightarrow> 100 \<le> v \<and> v \<le> 999999999)
        \<and> short_text (ra_storage b) \<and> short_text (ra_node b) \<and> (ra_mode b = NEW_ID \<longrightarrow> ra_vmid b \<noteq> None)
     then Some b else None)"

section \<open>Checks\<close>

type_synonym preflight_check = "string \<times> bool"

record report =
  rp_checks :: "preflight_check list"
  rp_blocking :: bool
  rp_warnings :: "string list"
  rp_source :: restore_source
  rp_target_vmid :: nat
  rp_target_type :: guest_type
  rp_target_storage :: string
  rp_target_node :: string

definition failed_checks :: "report \<Rightarrow> string list" where
  "failed_checks r = map fst (filter (\<lambda>c. \<not> snd c) (rp_checks r))"

definition backup_restorable :: "backup_row \<Rightarrow> bool" where
  "backup_restorable b = (bh_filename b \<noteq> None \<and> bh_status b = B_SUCCESS)"

text \<open>\<open>_local_artifact\<close>: an unreachable agent and a refusal are values, anything else is raised.\<close>

definition local_artifact_of :: "restore_view \<Rightarrow> backup_row \<Rightarrow> app_error + agent_artifact option \<times> string option" where
  "local_artifact_of V b = (case bh_filename b of
     None \<Rightarrow> Inr (None, None)
   | Some f \<Rightarrow> (case rv_listing V (bh_vmid b) (bh_guest_type b) of
       Inl (App_AgentUnavailable d) \<Rightarrow> Inr (None, Some d)
     | Inl (App_AgentError d s) \<Rightarrow> Inr (None, Some d)
     | Inl e \<Rightarrow> Inl e
     | Inr items \<Rightarrow> Inr (find (\<lambda>a. aa_filename a = f) items, None)))"

definition remote_usable :: "backup_row \<Rightarrow> bool" where
  "remote_usable b = (bh_upload_status b = UPLOADED \<and> bh_remote_path b \<noteq> None \<and> bh_remote_deleted_at b = None)"

definition artifact_presence :: "backup_row \<Rightarrow> agent_artifact option \<Rightarrow> string option
    \<Rightarrow> restore_source \<times> bool \<times> string list" where
  "artifact_presence b artifact error =
     (if error \<noteq> None then (SRC_LOCAL, False, [])
      else if artifact \<noteq> None then (SRC_LOCAL, True, [])
      else if remote_usable b
      then (SRC_GDRIVE, True, [''The archive is not on the host and will be downloaded from Google Drive''])
      else (SRC_LOCAL, False, []))"

definition checksum_check :: "backup_row \<Rightarrow> agent_artifact option \<Rightarrow> restore_source
    \<Rightarrow> app_error + bool \<times> string list" where
  "checksum_check b artifact source = (case bh_checksum_sha256 b of
     None \<Rightarrow> Inr (True, [''No checksum was recorded for this backup''])
   | Some expected \<Rightarrow>
       if source = SRC_GDRIVE then Inr (True, [])
       else (case Option.bind artifact aa_checksum of
           None \<Rightarrow> Inr (True, [])
         | Some actual \<Rightarrow>
             if list_all (\<lambda>c. code c < 128) (py_lower actual @ py_lower expected)
             then Inr (py_lower actual = py_lower expected, [])
             else Inl (App_Internal ''TypeError'')))"

text \<open>\<open>_existing_guest\<close>: virtual machines first, then containers.\<close>

definition existing_guest :: "app_db \<Rightarrow> nat \<Rightarrow> guest_row option" where
  "existing_guest db vmid = (case get_by_vmid db vmid VM of
     Some g \<Rightarrow> Some g | None \<Rightarrow> get_by_vmid db vmid LXC)"

definition target_free_check :: "guest_row option \<Rightarrow> restore_ask \<Rightarrow> bool \<times> string list" where
  "target_free_check existing a = (case existing of
     None \<Rightarrow> (True, [])
   | Some g \<Rightarrow> if \<not> ra_overwrite a then (False, [])
       else (True, [gu_name g @ '' will be destroyed and replaced by this restore.'']))"

definition target_type_check :: "guest_row option \<Rightarrow> guest_type \<Rightarrow> bool" where
  "target_type_check existing t = (case existing of None \<Rightarrow> True | Some g \<Rightarrow> gu_type g = t)"

definition target_stopped_check :: "guest_row option \<Rightarrow> restore_ask \<Rightarrow> bool" where
  "target_stopped_check existing a = (case existing of None \<Rightarrow> True
     | Some g \<Rightarrow> gu_status g \<noteq> G_RUNNING \<or> ra_force_stop a)"

definition required_bytes :: "int \<Rightarrow> int" where
  "required_bytes n = \<lceil>of_int n * (115 / 100 :: rat)\<rceil>"

definition free_space_check :: "restore_view \<Rightarrow> backup_row \<Rightarrow> string \<Rightarrow> app_error + bool \<times> string list" where
  "free_space_check V b storage = (case rv_storages V of
     Inl (App_AgentUnavailable d) \<Rightarrow> Inr (False, [])
   | Inl (App_AgentError d s) \<Rightarrow> Inr (False, [])
   | Inl e \<Rightarrow> Inl e
   | Inr storages \<Rightarrow> (case find (\<lambda>s. as_name s = storage) storages of
       None \<Rightarrow> Inr (False, [])
     | Some s \<Rightarrow>
         if \<not> as_active s then Inr (False, [])
         else if bh_size_bytes b \<in> {None, Some 0}
         then Inr (True, [''The size of this backup is not recorded''])
         else Inr (as_available s \<ge> required_bytes (the (bh_size_bytes b)), [])))"

definition resolve_target_vmid :: "restore_ask \<Rightarrow> backup_row \<Rightarrow> nat" where
  "resolve_target_vmid a b = (case ra_mode a of ORIGINAL_ID \<Rightarrow> bh_vmid b | NEW_ID \<Rightarrow> the (ra_vmid a))"

definition storage_of :: "restore_ask \<Rightarrow> app_db \<Rightarrow> string" where
  "storage_of a db = (case ra_storage a of Some s \<Rightarrow> s | None \<Rightarrow> as_default_storage (sc_agent (ad_sections db)))"

definition node_of :: "restore_ask \<Rightarrow> app_db \<Rightarrow> string" where
  "node_of a db = (case ra_node a of Some n \<Rightarrow> n | None \<Rightarrow> sc_node (ad_sections db))"

definition preflight :: "restore_view \<Rightarrow> restore_ask \<Rightarrow> app_db \<Rightarrow> app_error + report" where
  "preflight V a db = (case backup_get db (ra_backup_id a) of
     None \<Rightarrow> Inl (App_NotFound ''No such backup'')
   | Some b \<Rightarrow>
     (let vmid = resolve_target_vmid a b;
          storage = storage_of a db; agent_node = sc_node (ad_sections db); node = node_of a db;
          existing = existing_guest db vmid in
      bindR (local_artifact_of V b) (\<lambda>(artifact, error).
      let (source, present, w1) = artifact_presence b artifact error in
      bindR (checksum_check b artifact source) (\<lambda>(sum_ok, w2).
      let (free, w3) = target_free_check existing a in
      bindR (free_space_check V b storage) (\<lambda>(space, w4).
      let checks = [(''backup_restorable'', backup_restorable b), (''backup_present_locally'', present),
            (''checksum_matches'', sum_ok), (''target_vmid_free'', free),
            (''target_type_matches'', target_type_check existing (bh_guest_type b)),
            (''target_guest_stopped'', target_stopped_check existing a),
            (''target_node_supported'', node = agent_node),
            (''storage_free_space'', space),
            (''no_restore_in_flight'', in_flight db = None)];
          w5 = (if bh_node b \<noteq> [] \<and> bh_node b \<noteq> node then [''This backup was taken on another node''] else [])
      in Inr \<lparr>rp_checks = checks, rp_blocking = list_ex (\<lambda>c. \<not> snd c) checks,
           rp_warnings = w1 @ w2 @ w3 @ w4 @ w5, rp_source = source, rp_target_vmid = vmid,
           rp_target_type = bh_guest_type b, rp_target_storage = storage, rp_target_node = node\<rparr>)))))"

section \<open>The two-phase flow\<close>

text \<open>The moment, the confirmation window and the drawn token; \<open>rm_sha\<close> is SHA-256.\<close>

record restore_moment =
  rm_now :: datetime
  rm_ttl :: int
  rm_token :: string
  rm_sha :: "string \<Rightarrow> string"
  rm_user :: "nat \<times> string"

definition CONFIRMATION_TOKEN_PREFIX :: string where "CONFIRMATION_TOKEN_PREFIX = ''rst_''"

definition restore_create :: "restore_row \<Rightarrow> app_db \<Rightarrow> restore_row \<times> app_db" where
  "restore_create r db = (let row = r\<lparr>rh_id := next_id (map rh_id (ad_restores db))\<rparr>
     in (row, db\<lparr>ad_restores := ad_restores db @ [row]\<rparr>))"

definition restore_row_of :: "restore_moment \<Rightarrow> restore_ask \<Rightarrow> report \<Rightarrow> restore_row" where
  "restore_row_of c a rp = \<lparr>rh_id = 0, rh_backup_id = ra_backup_id a, rh_source = rp_source rp,
     rh_target_vmid = rp_target_vmid rp, rh_target_type = rp_target_type rp, rh_mode = ra_mode a,
     rh_target_node = rp_target_node rp, rh_target_storage = rp_target_storage rp,
     rh_overwrite = ra_overwrite a, rh_force_stop = ra_force_stop a, rh_start_after = ra_start_after a,
     rh_status = PENDING_CONFIRMATION,
     rh_token_hash = Some (rm_sha c (CONFIRMATION_TOKEN_PREFIX @ rm_token c)),
     rh_expires_at = Some (rm_now c + seconds (rm_ttl c)), rh_confirmed_at = None, rh_agent_task_id = None,
     rh_requested_by = Some (fst (rm_user c)), rh_started_at = None, rh_finished_at = None,
     rh_duration_seconds = None, rh_error_message = None, rh_created_at = rm_now c\<rparr>"

definition create_restore :: "restore_moment \<Rightarrow> restore_view \<Rightarrow> restore_ask \<Rightarrow> app_db
    \<Rightarrow> (app_error + restore_row \<times> string) \<times> app_db" where
  "create_restore c V a db = (case preflight V a db of
     Inl e \<Rightarrow> (Inl e, db)
   | Inr rp \<Rightarrow> if rp_blocking rp
       then (Inl (App_ValidationFailed ''The restore was not created because a preflight check failed''), db)
       else (let (row, db') = restore_create (restore_row_of c a rp) db
             in (Inr (row, CONFIRMATION_TOKEN_PREFIX @ rm_token c), db')))"

definition token_matches :: "restore_moment \<Rightarrow> string \<Rightarrow> string option \<Rightarrow> bool" where
  "token_matches c token stored = (case stored of None \<Rightarrow> False
     | Some h \<Rightarrow> h \<noteq> [] \<and> rm_sha c token = h)"

text \<open>\<open>_request_from\<close>: the stored row is validated as a request again.\<close>

definition ask_of :: "restore_row \<Rightarrow> app_error + restore_ask" where
  "ask_of r = (case validate_ask \<lparr>ra_backup_id = rh_backup_id r, ra_mode = rh_mode r,
       ra_vmid = Some (rh_target_vmid r), ra_storage = Some (rh_target_storage r),
       ra_node = Some (rh_target_node r), ra_overwrite = rh_overwrite r, ra_force_stop = rh_force_stop r,
       ra_start_after = rh_start_after r\<rparr> of
     None \<Rightarrow> Inl (App_Internal ''ValidationError'') | Some a \<Rightarrow> Inr a)"

definition confirm_row :: "datetime \<Rightarrow> restore_source \<Rightarrow> restore_row \<Rightarrow> restore_row" where
  "confirm_row now source r = r\<lparr>rh_status := CONFIRMED, rh_confirmed_at := Some now, rh_source := source,
     rh_token_hash := None\<rparr>"

definition confirm_restore :: "restore_moment \<Rightarrow> restore_view \<Rightarrow> nat \<Rightarrow> string \<Rightarrow> nat \<Rightarrow> app_db
    \<Rightarrow> (app_error + unit) \<times> app_db" where
  "confirm_restore c V i token target_vmid db = (case restore_get db i of
     None \<Rightarrow> (Inl (App_NotFound ''No such restore''), db)
   | Some r \<Rightarrow>
       if rh_status r = RS_EXPIRED then (Inl (App_Conflict ''Restore expired before it was confirmed''), db)
       else if rh_status r \<noteq> PENDING_CONFIRMATION
       then (Inl (App_Conflict ''Restore is no longer awaiting confirmation''), db)
       else if window_closed (rm_now c) r
       then (Inl (App_Conflict ''The confirmation window has closed''), db)
       else if \<not> token_matches c token (rh_token_hash r)
       then (Inl (App_ValidationFailed ''The confirmation token does not match this restore.''), db)
       else if target_vmid \<noteq> rh_target_vmid r
       then (Inl (App_ValidationFailed ''Another VMID was typed to confirm it''), db)
       else (case bindR (ask_of r) (\<lambda>a. preflight V a db) of
           Inl e \<Rightarrow> (Inl e, db)
         | Inr rp \<Rightarrow> if rp_blocking rp
             then (Inl (App_Conflict ''The restore was not started because conditions changed''), db)
             else (Inr (), set_restore i (confirm_row (rm_now c) (rp_source rp)) db)))"

definition cancel_row :: "datetime \<Rightarrow> restore_row \<Rightarrow> restore_row" where
  "cancel_row now r = r\<lparr>rh_status := RS_CANCELLED, rh_finished_at := Some now, rh_token_hash := None,
     rh_error_message := Some ''Cancelled before it started''\<rparr>"

definition cancel_restore :: "datetime \<Rightarrow> nat \<Rightarrow> app_db \<Rightarrow> (app_error + unit) \<times> app_db" where
  "cancel_restore now i db = (case restore_get db i of
     None \<Rightarrow> (Inl (App_NotFound ''No such restore''), db)
   | Some r \<Rightarrow>
       if rh_status r = RS_RUNNING then (Inl (App_Conflict ''Restore is already running on the host''), db)
       else if restore_is_terminal (rh_status r) then (Inl (App_Conflict ''Restore is already finished''), db)
       else (Inr (), set_restore i (cancel_row now) db))"

section \<open>The guarded routes\<close>

text \<open>
  \<open>RetentionGuard.transaction\<close> commits when its body returns and rolls back on any exception, which is
  the scope \<open>session\<close>. The worker's answer to a cancellation is the argument \<open>asked\<close>.
\<close>

fun restore_source_value :: "restore_source \<Rightarrow> string" where
  "restore_source_value SRC_LOCAL = ''local''"
| "restore_source_value SRC_GDRIVE = ''gdrive''"

fun restore_status_value :: "restore_status \<Rightarrow> string" where
  "restore_status_value PENDING_CONFIRMATION = ''pending_confirmation''"
| "restore_status_value CONFIRMED = ''confirmed''"
| "restore_status_value RS_RUNNING = ''running''"
| "restore_status_value RS_SUCCESS = ''success''"
| "restore_status_value RS_FAILED = ''failed''"
| "restore_status_value RS_CANCELLED = ''cancelled''"
| "restore_status_value RS_INTERRUPTED = ''interrupted''"
| "restore_status_value RS_EXPIRED = ''expired''"

definition restore_audit :: "restore_moment \<Rightarrow> audit_action \<Rightarrow> nat \<Rightarrow> (string \<times> json) list \<Rightarrow> app_db \<Rightarrow> app_db" where
  "restore_audit c action i detail db = record_app_audit ((audit_entry (rm_now c) action)\<lparr>
     ae_user_id := Some (fst (rm_user c)), ae_username := Some (snd (rm_user c)),
     ae_resource_type := Some ''restore'', ae_resource_id := Some (show_nat i), ae_detail := Some detail\<rparr>) db"

definition create_route :: "restore_moment \<Rightarrow> restore_view \<Rightarrow> restore_ask \<Rightarrow> app_db
    \<Rightarrow> (app_error + restore_row \<times> string) \<times> app_db" where
  "create_route c V a db = session (case create_restore c V a db of
     (Inl e, db1) \<Rightarrow> (Inl e, db1)
   | (Inr (r, token), db1) \<Rightarrow> (Inr (r, token), restore_audit c RESTORE_REQUESTED (rh_id r)
       [(''backup_id'', J_int (int (ra_backup_id a))), (''target_vmid'', J_int (int (rh_target_vmid r))),
        (''overwrite_existing'', J_bool (rh_overwrite r)), (''source'', J_str (restore_source_value (rh_source r)))] db1)) db"

definition confirm_route :: "restore_moment \<Rightarrow> restore_view \<Rightarrow> nat \<Rightarrow> string \<Rightarrow> nat \<Rightarrow> app_db
    \<Rightarrow> (app_error + unit) \<times> app_db" where
  "confirm_route c V i token target_vmid db = session (case confirm_restore c V i token target_vmid db of
     (Inl e, db1) \<Rightarrow> (Inl e, db1)
   | (Inr _, db1) \<Rightarrow> (Inr (), restore_audit c RESTORE_CONFIRMED i
       (case restore_get db1 i of None \<Rightarrow> [] | Some r \<Rightarrow> [(''backup_id'', J_int (int (rh_backup_id r))),
          (''target_vmid'', J_int (int (rh_target_vmid r))), (''force_stop'', J_bool (rh_force_stop r))]) db1)) db"

definition cancel_route :: "restore_moment \<Rightarrow> bool \<Rightarrow> nat \<Rightarrow> app_db \<Rightarrow> (app_error + unit) \<times> app_db" where
  "cancel_route c asked i db = session (case restore_get db i of
     None \<Rightarrow> (Inl (App_NotFound ''No such restore''), db)
   | Some r \<Rightarrow>
      (let (out, db1) = (if rh_status r = RS_RUNNING
           then (if asked then (Inr (), db) else (Inl (App_Conflict ''Restore could not be cancelled at the agent''), db))
           else cancel_restore (rm_now c) i db) in
       case out of Inl e \<Rightarrow> (Inl e, db1)
       | Inr _ \<Rightarrow> (Inr (), restore_audit c RESTORE_CANCELLED i
           [(''previous_status'', J_str (restore_status_value (case restore_get db1 i of None \<Rightarrow> rh_status r
               | Some r' \<Rightarrow> rh_status r'))),
            (''target_vmid'', J_int (int (rh_target_vmid r)))] db1))) db"

section \<open>Facts\<close>

lemma restore_audit_frame [simp]:
  "ad_restores (restore_audit c act i d db) = ad_restores db"
  "ad_backups (restore_audit c act i d db) = ad_backups db" "ad_guests (restore_audit c act i d db) = ad_guests db"
  "ad_sections (restore_audit c act i d db) = ad_sections db"
  by (simp_all add: restore_audit_def record_app_audit_def)

lemma set_restore_frame [simp]:
  "ad_restores (set_restore i f db) = upd_where (\<lambda>r. rh_id r = i) f (ad_restores db)"
  "ad_backups (set_restore i f db) = ad_backups db" "ad_sections (set_restore i f db) = ad_sections db"
  by (simp_all add: set_restore_def)

lemma first_restore_Some:
  "first_restore P db = Some r \<Longrightarrow> r \<in> set (ad_restores db) \<and> P r"
proof -
  assume "first_restore P db = Some r"
  then have "r \<in> set (sort_key rh_id (filter P (ad_restores db)))"
    by (auto simp: first_restore_def simp del: set_sort split: list.splits)
  then show ?thesis by simp
qed

lemma first_restore_None: "first_restore P db = None \<longleftrightarrow> (\<forall>r \<in> set (ad_restores db). \<not> P r)"
proof -
  have "first_restore P db = None \<longleftrightarrow> set (sort_key rh_id (filter P (ad_restores db))) = {}"
    by (simp add: first_restore_def split: list.split del: set_sort)
  then show ?thesis by auto
qed

lemma restore_get_Some: "restore_get db i = Some r \<Longrightarrow> r \<in> set (ad_restores db) \<and> rh_id r = i"
  unfolding restore_get_def by (rule find_Some_mem)

text \<open>A report without a failed check, check by check.\<close>

lemma preflight_clear:
  assumes "preflight V a db = Inr rp" "\<not> rp_blocking rp"
  obtains b artifact error w2 w4 where "backup_get db (ra_backup_id a) = Some b" "backup_restorable b"
    "local_artifact_of V b = Inr (artifact, error)" "fst (snd (artifact_presence b artifact error))"
    "checksum_check b artifact (fst (artifact_presence b artifact error)) = Inr (True, w2)"
    "fst (target_free_check (existing_guest db (resolve_target_vmid a b)) a)"
    "target_type_check (existing_guest db (resolve_target_vmid a b)) (bh_guest_type b)"
    "target_stopped_check (existing_guest db (resolve_target_vmid a b)) a"
    "node_of a db = sc_node (ad_sections db)" "free_space_check V b (storage_of a db) = Inr (True, w4)"
    "in_flight db = None" "rp_source rp = fst (artifact_presence b artifact error)"
proof -
  obtain b where b: "backup_get db (ra_backup_id a) = Some b"
    using assms(1) by (auto simp: preflight_def split: option.splits)
  obtain artifact error ok2 w2 ok4 w4 where m: "local_artifact_of V b = Inr (artifact, error)"
    "checksum_check b artifact (fst (artifact_presence b artifact error)) = Inr (ok2, w2)"
    "free_space_check V b (storage_of a db) = Inr (ok4, w4)"
    using assms(1) by (auto simp: preflight_def b Let_def bindR_Inr_iff case_prod_beta)
  show thesis
    using assms by (intro that [OF b _ m(1)]) (auto simp: preflight_def b m Let_def case_prod_beta)
qed


text \<open>
  The audit detail \<open>previous_status\<close> of a cancelled restore is read after the row was changed: whatever
  the restore was waiting for, the trail says it had been cancelled already.
\<close>

lemma cancel_audits_the_new_status:
  assumes "restore_get db i = Some r" "rh_status r = PENDING_CONFIRMATION \<or> rh_status r = CONFIRMED"
  shows "\<exists>ev. ad_audit (snd (cancel_route c asked i db)) = ad_audit db @ [ev]
    \<and> ae_detail ev = Some [(''previous_status'', J_str ''cancelled''), (''target_vmid'', J_int (int (rh_target_vmid r)))]"
proof -
  have g: "restore_get (set_restore i (cancel_row (rm_now c)) db) i = Some (cancel_row (rm_now c) r)"
    using assms(1) unfolding restore_get_def set_restore_frame
    by (rule find_upd_where_same) (use restore_get_Some [OF assms(1)] in \<open>auto simp: cancel_row_def\<close>)
  show ?thesis
    using assms(2)
    by (auto simp: cancel_route_def cancel_restore_def assms(1) g restore_is_terminal_def session_def
        restore_audit_def record_app_audit_def record_audit_def audit_entry_def)
      (simp_all add: set_restore_def cancel_row_def)
qed

end
