(* ===== verification/Backups.thy ===== *)
theory Backups
  imports Restore "HOL-Library.Option_ord" "HOL-Library.List_Lexorder"
begin

text \<open>
  What to back up and with which options: \<open>backend/app/services/backup_service.py\<close> over the repositories
  of guests, runs, jobs and backups (\<open>backend/app/repositories/\<close>), the request models of
  \<open>backend/app/schemas/backup.py\<close>, and the routes of \<open>backups.py\<close> and \<open>runs.py\<close> that change state.
  A run is queued with its targets and its options frozen as JSON; \<open>read_options\<close> and \<open>read_target\<close> are
  what Pydantic makes of that JSON again. Of Pydantic's reading they keep what this column can hold:
  the types \<open>dump_options\<close> writes; a value of another JSON type is refused.
\<close>

section \<open>Guests\<close>

definition guests_ordered :: "app_db \<Rightarrow> guest_row list" where
  "guests_ordered db = sort_key gu_vmid (ad_guests db)"

definition guest_get :: "app_db \<Rightarrow> nat \<Rightarrow> guest_row option" where
  "guest_get db i = find (\<lambda>g. gu_id g = i) (ad_guests db)"

definition enabled_guests :: "app_db \<Rightarrow> guest_row list" where
  "enabled_guests db = filter gu_enabled (guests_ordered db)"

definition count_by_type :: "app_db \<Rightarrow> guest_type \<Rightarrow> nat" where
  "count_by_type db t = length (filter (\<lambda>g. gu_type g = t) (ad_guests db))"

record guest_filters =
  gf_type :: "guest_type option"
  gf_status :: "guest_status option"
  gf_enabled :: "bool option"
  gf_query :: "string option"

text \<open>
  A search text: \<open>%text%\<close> against the names, and the VMID when the text is all digits. A character that
  \<open>isdigit\<close> takes and \<open>int\<close> refuses (a superscript) is an unhandled ValueError.
\<close>

definition query_hit :: "string \<Rightarrow> string option list \<Rightarrow> nat \<Rightarrow> bool" where
  "query_hit q names vmid =
     (let t = py_strip q; pattern = ''%'' @ t @ ''%'' in
      list_ex (\<lambda>n. sql_ilike n pattern) names \<or> (py_isdigit t \<and> py_int t = Some (int vmid)))"

definition query_given :: "string option \<Rightarrow> string option" where
  "query_given q = (if q = Some [] then None else q)"

definition query_ok :: "string option \<Rightarrow> bool" where
  "query_ok q = (case query_given q of None \<Rightarrow> True
     | Some t \<Rightarrow> py_isdigit (py_strip t) \<longrightarrow> py_int (py_strip t) \<noteq> None)"

definition guest_matches :: "guest_filters \<Rightarrow> guest_row \<Rightarrow> bool" where
  "guest_matches f g =
     ((case gf_type f of None \<Rightarrow> True | Some t \<Rightarrow> gu_type g = t)
      \<and> (case gf_status f of None \<Rightarrow> True | Some s \<Rightarrow> gu_status g = s)
      \<and> (case gf_enabled f of None \<Rightarrow> True | Some b \<Rightarrow> gu_enabled g = b)
      \<and> (case query_given (gf_query f) of None \<Rightarrow> True | Some q \<Rightarrow> query_hit q [Some (gu_name g)] (gu_vmid g)))"

definition guest_search :: "app_db \<Rightarrow> guest_filters \<Rightarrow> app_error + guest_row list" where
  "guest_search db f = (if query_ok (gf_query f) then Inr (filter (guest_matches f) (guests_ordered db))
     else Inl (App_Internal ''ValueError''))"

section \<open>Runs\<close>

definition run_get :: "app_db \<Rightarrow> nat \<Rightarrow> run_row option" where
  "run_get db i = find (\<lambda>r. rn_id r = i) (ad_runs db)"

definition run_create :: "datetime \<Rightarrow> nat option \<Rightarrow> trigger_type \<Rightarrow> nat option \<Rightarrow> json list \<Rightarrow> app_db
    \<Rightarrow> run_row \<times> app_db" where
  "run_create now job trigger by targets db =
     (let r = \<lparr>rn_id = next_id (map rn_id (ad_runs db)), rn_job_id = job, rn_trigger = trigger,
        rn_status = R_QUEUED, rn_requested_by = by, rn_total = length targets, rn_succeeded = 0,
        rn_failed = 0, rn_targets = Some targets, rn_options = None, rn_started_at = None,
        rn_finished_at = None, rn_duration_seconds = None, rn_error_message = None, rn_correlation_id = [],
        rn_created_at = now\<rparr> in (r, db\<lparr>ad_runs := ad_runs db @ [r]\<rparr>))"

definition run_matches :: "run_status option \<Rightarrow> run_row \<Rightarrow> bool" where
  "run_matches status r = (case status of None \<Rightarrow> True | Some s \<Rightarrow> rn_status r = s)"

definition list_recent_runs :: "app_db \<Rightarrow> run_status option \<Rightarrow> nat \<Rightarrow> nat \<Rightarrow> run_row list" where
  "list_recent_runs db status limit offset = page limit offset
     (order_desc (\<lambda>r. (rn_created_at r, rn_id r)) (filter (run_matches status) (ad_runs db)))"

definition run_count :: "app_db \<Rightarrow> run_status option \<Rightarrow> nat" where
  "run_count db status = length (filter (run_matches status) (ad_runs db))"

definition run_active :: "run_row \<Rightarrow> bool" where
  "run_active r = (rn_status r \<in> {R_QUEUED, R_RUNNING})"

definition first_run :: "(run_row \<Rightarrow> bool) \<Rightarrow> app_db \<Rightarrow> run_row option" where
  "first_run P db = (case sort_key rn_id (filter P (ad_runs db)) of [] \<Rightarrow> None | r # _ \<Rightarrow> Some r)"

definition active_runs :: "app_db \<Rightarrow> run_row list" where
  "active_runs db = sort_key rn_id (filter run_active (ad_runs db))"

definition next_queued_run :: "app_db \<Rightarrow> run_row option" where
  "next_queued_run db = first_run (\<lambda>r. rn_status r = R_QUEUED) db"

definition active_for_job :: "app_db \<Rightarrow> nat \<Rightarrow> run_row option" where
  "active_for_job db j = first_run (\<lambda>r. rn_job_id r = Some j \<and> run_active r) db"

section \<open>Backups\<close>

definition for_run :: "app_db \<Rightarrow> nat \<Rightarrow> backup_row list" where
  "for_run db i = sort_key bh_id (filter (\<lambda>b. bh_run_id b = Some i) (ad_backups db))"

definition history_create :: "backup_row \<Rightarrow> app_db \<Rightarrow> backup_row \<times> app_db" where
  "history_create b db = (let row = b\<lparr>bh_id := next_id (map bh_id (ad_backups db))\<rparr>
     in (row, db\<lparr>ad_backups := ad_backups db @ [row]\<rparr>))"

definition awaiting_upload :: "app_db \<Rightarrow> nat \<Rightarrow> backup_row list" where
  "awaiting_upload db limit = take limit (sort_key bh_id (filter (\<lambda>b. bh_status b = B_SUCCESS
     \<and> bh_upload_status b = PENDING \<and> bh_filename b \<noteq> None \<and> bh_local_deleted_at b = None) (ad_backups db)))"

definition count_awaiting_upload :: "app_db \<Rightarrow> nat" where
  "count_awaiting_upload db = length (filter (\<lambda>b. bh_status b = B_SUCCESS \<and> bh_upload_status b = PENDING)
     (ad_backups db))"

definition last_successful :: "app_db \<Rightarrow> backup_row option" where
  "last_successful db = (case order_desc bh_finished_at (filter (\<lambda>b. bh_status b = B_SUCCESS) (ad_backups db)) of
     [] \<Rightarrow> None | b # _ \<Rightarrow> Some b)"

record history_filters =
  hf_vmid :: "nat option"
  hf_type :: "guest_type option"
  hf_status :: "backup_status option"
  hf_upload :: "upload_status option"
  hf_run_id :: "nat option"
  hf_since :: "datetime option"
  hf_until :: "datetime option"
  hf_query :: "string option"
  hf_deleted :: bool

definition history_matches :: "history_filters \<Rightarrow> backup_row \<Rightarrow> bool" where
  "history_matches f b =
     ((case hf_vmid f of None \<Rightarrow> True | Some v \<Rightarrow> bh_vmid b = v)
      \<and> (case hf_type f of None \<Rightarrow> True | Some t \<Rightarrow> bh_guest_type b = t)
      \<and> (case hf_status f of None \<Rightarrow> True | Some s \<Rightarrow> bh_status b = s)
      \<and> (case hf_upload f of None \<Rightarrow> True | Some u \<Rightarrow> bh_upload_status b = u)
      \<and> (case hf_run_id f of None \<Rightarrow> True | Some r \<Rightarrow> bh_run_id b = Some r)
      \<and> (case hf_since f of None \<Rightarrow> True | Some t \<Rightarrow> (case bh_started_at b of None \<Rightarrow> False | Some x \<Rightarrow> t \<le> x))
      \<and> (case hf_until f of None \<Rightarrow> True | Some t \<Rightarrow> (case bh_started_at b of None \<Rightarrow> False | Some x \<Rightarrow> x \<le> t))
      \<and> (hf_deleted f \<or> bh_status b \<noteq> B_DELETED)
      \<and> (case query_given (hf_query f) of None \<Rightarrow> True
         | Some q \<Rightarrow> query_hit q [Some (bh_guest_name b), bh_filename b] (bh_vmid b)))"

definition history_search :: "app_db \<Rightarrow> history_filters \<Rightarrow> nat \<Rightarrow> nat \<Rightarrow> app_error + backup_row list" where
  "history_search db f limit offset = (if query_ok (hf_query f)
     then Inr (page limit offset (order_desc (\<lambda>b. (bh_started_at b, bh_id b)) (filter (history_matches f) (ad_backups db))))
     else Inl (App_Internal ''ValueError''))"

definition history_count :: "app_db \<Rightarrow> history_filters \<Rightarrow> app_error + nat" where
  "history_count db f = (if query_ok (hf_query f)
     then Inr (length (filter (history_matches f) (ad_backups db))) else Inl (App_Internal ''ValueError''))"


section \<open>Jobs\<close>

definition job_get :: "app_db \<Rightarrow> nat \<Rightarrow> job_row option" where
  "job_get db i = find (\<lambda>j. jb_id j = i) (ad_jobs db)"

text \<open>SQLite's \<open>lower\<close> folds ASCII only, Python's the whole text.\<close>

definition job_by_name :: "app_db \<Rightarrow> string \<Rightarrow> job_row option" where
  "job_by_name db name = find (\<lambda>j. map ascii_lower (jb_name j) = py_lower (py_strip name)) (ad_jobs db)"

definition jobs_all :: "app_db \<Rightarrow> job_row list" where
  "jobs_all db = sort_key (\<lambda>j. map code (jb_name j)) (ad_jobs db)"

definition jobs_enabled :: "app_db \<Rightarrow> job_row list" where
  "jobs_enabled db = sort_key jb_id (filter jb_enabled (ad_jobs db))"

definition job_add :: "job_row \<Rightarrow> app_db \<Rightarrow> job_row \<times> app_db" where
  "job_add j db = (let row = j\<lparr>jb_id := next_id (map jb_id (ad_jobs db))\<rparr>
     in (row, db\<lparr>ad_jobs := ad_jobs db @ [row]\<rparr>))"

text \<open>The foreign key of a run becomes NULL when its job is deleted.\<close>

definition job_delete :: "nat \<Rightarrow> app_db \<Rightarrow> app_db" where
  "job_delete i db = db\<lparr>ad_jobs := filter (\<lambda>j. jb_id j \<noteq> i) (ad_jobs db),
     ad_runs := upd_where (\<lambda>r. rn_job_id r = Some i) (\<lambda>r. r\<lparr>rn_job_id := None\<rparr>) (ad_runs db)\<rparr>"

section \<open>Frozen plans\<close>

record resolved_target =
  rt_guest_id :: nat
  rt_vmid :: nat
  rt_type :: guest_type
  rt_name :: string
  rt_node :: string

definition target_key :: "resolved_target \<Rightarrow> guest_key" where
  "target_key t = (rt_vmid t, rt_type t)"

record run_options =
  ro_mode :: backup_mode
  ro_compression :: compression
  ro_zstd_threads :: "int option"
  ro_storage :: string
  ro_bwlimit_kbps :: int
  ro_upload :: bool
  ro_job_policy :: bool \<comment> \<open>retention_source is job, not global\<close>
  ro_keep_local :: int
  ro_keep_remote :: int
  ro_notes :: "string option"

definition options_ok :: "run_options \<Rightarrow> bool" where
  "options_ok o' = ((case ro_zstd_threads o' of None \<Rightarrow> True | Some z \<Rightarrow> 0 \<le> z \<and> z \<le> 64)
     \<and> 0 \<le> ro_bwlimit_kbps o' \<and> ro_bwlimit_kbps o' \<le> 10000000
     \<and> 1 \<le> ro_keep_local o' \<and> ro_keep_local o' \<le> 365 \<and> 0 \<le> ro_keep_remote o' \<and> ro_keep_remote o' \<le> 365)"

definition json_opt :: "('a \<Rightarrow> json) \<Rightarrow> 'a option \<Rightarrow> json" where
  "json_opt f v = (case v of None \<Rightarrow> J_null | Some x \<Rightarrow> f x)"

text \<open>\<open>model_dump(mode="json")\<close>\<close>

definition dump_options :: "run_options \<Rightarrow> (string \<times> json) list" where
  "dump_options o' =
     [(''mode'', J_str (backup_mode_value (ro_mode o'))), (''compression'', J_str (compression_value (ro_compression o'))),
      (''zstd_threads'', json_opt J_int (ro_zstd_threads o')), (''storage'', J_str (ro_storage o')),
      (''bwlimit_kbps'', J_int (ro_bwlimit_kbps o')), (''upload'', J_bool (ro_upload o')),
      (''retention_source'', J_str (if ro_job_policy o' then ''job'' else ''global'')),
      (''keep_local'', J_int (ro_keep_local o')), (''keep_remote'', J_int (ro_keep_remote o')),
      (''notes'', json_opt J_str (ro_notes o'))]"

definition dump_target :: "resolved_target \<Rightarrow> json" where
  "dump_target t = J_obj [(''guest_id'', J_int (int (rt_guest_id t))), (''vmid'', J_int (int (rt_vmid t))),
     (''guest_type'', J_str (guest_type_value (rt_type t))), (''guest_name'', J_str (rt_name t)),
     (''node'', J_str (rt_node t))]"

text \<open>Readers of a field: \<open>None\<close> for an absent key, and for a value the type refuses.\<close>

definition as_int :: "json \<Rightarrow> int option" where
  "as_int v = (case v of J_int i \<Rightarrow> Some i | _ \<Rightarrow> None)"

definition as_str :: "json \<Rightarrow> string option" where
  "as_str v = (case v of J_str s \<Rightarrow> Some s | _ \<Rightarrow> None)"

definition as_bool :: "json \<Rightarrow> bool option" where
  "as_bool v = (case v of J_bool b \<Rightarrow> Some b | _ \<Rightarrow> None)"

definition as_enum :: "('a \<Rightarrow> string) \<Rightarrow> 'a list \<Rightarrow> json \<Rightarrow> 'a option" where
  "as_enum value members v = Option.bind (as_str v) (\<lambda>s. find (\<lambda>m. value m = s) members)"

definition nullable :: "(json \<Rightarrow> 'a option) \<Rightarrow> json \<Rightarrow> 'a option option" where
  "nullable f v = (case v of J_null \<Rightarrow> Some None | _ \<Rightarrow> map_option Some (f v))"

definition field :: "(string \<times> json) list \<Rightarrow> string \<Rightarrow> (json \<Rightarrow> 'a option) \<Rightarrow> 'a option \<Rightarrow> 'a option" where
  "field d key reader absent = (case map_of d key of None \<Rightarrow> absent | Some v \<Rightarrow> reader v)"

definition OPTION_KEYS :: "string list" where
  "OPTION_KEYS = [''mode'', ''compression'', ''zstd_threads'', ''storage'', ''bwlimit_kbps'', ''upload'',
     ''retention_source'', ''keep_local'', ''keep_remote'', ''notes'']"

definition read_options :: "(string \<times> json) list \<Rightarrow> run_options option" where
  "read_options d = (if \<not> list_all (\<lambda>kv. fst kv \<in> set OPTION_KEYS) d then None else
     Option.bind (field d ''mode'' (as_enum backup_mode_value [SNAPSHOT, SUSPEND, STOP]) None) (\<lambda>m.
     Option.bind (field d ''compression'' (as_enum compression_value [ZSTD, GZIP, LZO, NO_COMPRESSION]) None) (\<lambda>c.
     Option.bind (field d ''zstd_threads'' (nullable as_int) (Some None)) (\<lambda>z.
     Option.bind (field d ''storage'' as_str None) (\<lambda>s.
     Option.bind (field d ''bwlimit_kbps'' as_int (Some 0)) (\<lambda>b.
     Option.bind (field d ''upload'' as_bool (Some False)) (\<lambda>u.
     Option.bind (field d ''retention_source'' (as_enum (\<lambda>j. if j then ''job'' else ''global'') [False, True]) (Some False)) (\<lambda>r.
     Option.bind (field d ''keep_local'' as_int (Some 2)) (\<lambda>kl.
     Option.bind (field d ''keep_remote'' as_int (Some 2)) (\<lambda>kr.
     Option.bind (field d ''notes'' (nullable as_str) (Some None)) (\<lambda>n.
       let o' = \<lparr>ro_mode = m, ro_compression = c, ro_zstd_threads = z, ro_storage = s, ro_bwlimit_kbps = b,
         ro_upload = u, ro_job_policy = r, ro_keep_local = kl, ro_keep_remote = kr, ro_notes = n\<rparr>
       in if options_ok o' then Some o' else None)))))))))))"

definition as_nat :: "json \<Rightarrow> nat option" where
  "as_nat v = Option.bind (as_int v) (\<lambda>i. if 0 \<le> i then Some (nat i) else None)"

definition read_target :: "json \<Rightarrow> resolved_target option" where
  "read_target v = (case v of J_obj d \<Rightarrow>
     Option.bind (field d ''guest_id'' as_nat None) (\<lambda>g. Option.bind (field d ''vmid'' as_nat None) (\<lambda>vm.
     Option.bind (field d ''guest_type'' (as_enum guest_type_value [VM, LXC]) None) (\<lambda>t.
     Option.bind (field d ''guest_name'' as_str None) (\<lambda>n. Option.bind (field d ''node'' as_str None) (\<lambda>nd.
       Some \<lparr>rt_guest_id = g, rt_vmid = vm, rt_type = t, rt_name = n, rt_node = nd\<rparr>)))))
   | _ \<Rightarrow> None)"

fun read_targets :: "json list \<Rightarrow> resolved_target list option" where
  "read_targets [] = Some []"
| "read_targets (v # vs) = Option.bind (read_target v) (\<lambda>t. map_option ((#) t) (read_targets vs))"

text \<open>Reading back what was written.\<close>

lemma map_of_Cons_key: "map_of ((k, v) # d) k' = (if k' = k then Some v else map_of d k')"
  by simp

lemma read_dump_target: "read_target (dump_target t) = Some t"
  by (cases t; cases "rt_type t")
    (simp_all add: read_target_def dump_target_def field_def as_nat_def as_int_def as_str_def as_enum_def)

lemma read_dump_targets: "read_targets (map dump_target ts) = Some ts"
  by (induction ts) (simp_all add: read_dump_target)

lemma dump_option_fields:
  "map_of (dump_options o') ''mode'' = Some (J_str (backup_mode_value (ro_mode o')))"
  "map_of (dump_options o') ''compression'' = Some (J_str (compression_value (ro_compression o')))"
  "map_of (dump_options o') ''zstd_threads'' = Some (json_opt J_int (ro_zstd_threads o'))"
  "map_of (dump_options o') ''storage'' = Some (J_str (ro_storage o'))"
  "map_of (dump_options o') ''bwlimit_kbps'' = Some (J_int (ro_bwlimit_kbps o'))"
  "map_of (dump_options o') ''upload'' = Some (J_bool (ro_upload o'))"
  "map_of (dump_options o') ''retention_source'' = Some (J_str (if ro_job_policy o' then ''job'' else ''global''))"
  "map_of (dump_options o') ''keep_local'' = Some (J_int (ro_keep_local o'))"
  "map_of (dump_options o') ''keep_remote'' = Some (J_int (ro_keep_remote o'))"
  "map_of (dump_options o') ''notes'' = Some (json_opt J_str (ro_notes o'))"
  by (simp_all add: dump_options_def)

lemma read_values:
  "as_enum backup_mode_value [SNAPSHOT, SUSPEND, STOP] (J_str (backup_mode_value m)) = Some m"
  "as_enum compression_value [ZSTD, GZIP, LZO, NO_COMPRESSION] (J_str (compression_value c)) = Some c"
  "as_enum (\<lambda>j. if j then ''job'' else ''global'') [False, True] (J_str (if b then ''job'' else ''global'')) = Some b"
  "nullable as_int (json_opt J_int z) = Some z" "nullable as_str (json_opt J_str n) = Some n"
  "as_int (J_int i) = Some i" "as_str (J_str s) = Some s" "as_bool (J_bool u) = Some u"
proof -
  show "as_enum backup_mode_value [SNAPSHOT, SUSPEND, STOP] (J_str (backup_mode_value m)) = Some m"
    by (cases m) (simp_all add: as_enum_def as_str_def)
  show "as_enum compression_value [ZSTD, GZIP, LZO, NO_COMPRESSION] (J_str (compression_value c)) = Some c"
    by (cases c) (simp_all add: as_enum_def as_str_def)
qed (simp_all add: as_enum_def as_int_def as_str_def as_bool_def nullable_def json_opt_def split: option.split)

lemma read_dump_options: "read_options (dump_options o') = (if options_ok o' then Some o' else None)"
proof -
  have "list_all (\<lambda>kv. fst kv \<in> set OPTION_KEYS) (dump_options o')"
    by (simp add: dump_options_def OPTION_KEYS_def)
  then show ?thesis
    by (cases o') (simp add: read_options_def field_def dump_option_fields read_values Let_def)
qed


section \<open>Requests\<close>

record manual_request =
  mr_targets :: "job_target list"
  mr_mode :: "backup_mode option"
  mr_compression :: "compression option"
  mr_zstd_threads :: "int option"
  mr_storage :: "string option"
  mr_bwlimit_kbps :: "int option"
  mr_upload :: "bool option"
  mr_notes :: "string option"

definition MAX_TARGETS :: nat where "MAX_TARGETS = 500"

definition guest_target_ok :: "job_target \<Rightarrow> bool" where
  "guest_target_ok t = (100 \<le> jt_vmid t \<and> jt_vmid t \<le> 999999999)"

fun assert_distinct_vmids :: "nat list \<Rightarrow> job_target list \<Rightarrow> bool" where
  "assert_distinct_vmids seen [] = True"
| "assert_distinct_vmids seen (t # ts) =
     (if jt_vmid t \<in> set seen then False else assert_distinct_vmids (jt_vmid t # seen) ts)"

lemma assert_distinct_vmids_iff:
  "assert_distinct_vmids seen ts \<longleftrightarrow> distinct (map jt_vmid ts) \<and> set seen \<inter> jt_vmid ` set ts = {}"
  by (induction ts arbitrary: seen) auto

definition in_bounds :: "int \<Rightarrow> int \<Rightarrow> int option \<Rightarrow> bool" where
  "in_bounds lo hi v = (case v of None \<Rightarrow> True | Some x \<Rightarrow> lo \<le> x \<and> x \<le> hi)"

definition manual_request_ok :: "manual_request \<Rightarrow> bool" where
  "manual_request_ok m = (mr_targets m \<noteq> [] \<and> length (mr_targets m) \<le> MAX_TARGETS
     \<and> list_all guest_target_ok (mr_targets m) \<and> in_bounds 0 64 (mr_zstd_threads m)
     \<and> in_bounds 0 10000000 (mr_bwlimit_kbps m)
     \<and> (case mr_notes m of None \<Rightarrow> True | Some n \<Rightarrow> length n \<le> 255)
     \<and> assert_distinct_vmids [] (mr_targets m))"

section \<open>Target resolution\<close>

definition resolve_guest :: "guest_row \<Rightarrow> resolved_target" where
  "resolve_guest g = \<lparr>rt_guest_id = gu_id g, rt_vmid = gu_vmid g, rt_type = gu_type g, rt_name = gu_name g,
     rt_node = gu_node g\<rparr>"

text \<open>The dict \<open>enabled\<close>: a later guest with the same key replaces the value, not the place.\<close>

fun dict_put :: "'k \<Rightarrow> 'v \<Rightarrow> ('k \<times> 'v) list \<Rightarrow> ('k \<times> 'v) list" where
  "dict_put k v [] = [(k, v)]"
| "dict_put k v ((k', v') # d) = (if k' = k then (k, v) # d else (k', v') # dict_put k v d)"

definition enabled_map :: "app_db \<Rightarrow> (guest_key \<times> guest_row) list" where
  "enabled_map db = fold (\<lambda>g. dict_put (gu_vmid g, gu_type g) g) (enabled_guests db) []"

definition skip_reason :: "app_db \<Rightarrow> guest_key \<Rightarrow> string" where
  "skip_reason db k = (case get_by_vmid db (fst k) (snd k) of
     None \<Rightarrow> guest_type_value (snd k) @ '' '' @ show_nat (fst k) @ '': no longer in the inventory''
   | Some g \<Rightarrow> guest_type_value (snd k) @ '' '' @ show_nat (fst k) @ '' ('' @ gu_name g @ ''): not enabled for backup'')"

definition named_targets :: "job_row \<Rightarrow> guest_key list" where
  "named_targets j = map (\<lambda>t. (jt_vmid t, jt_guest_type t)) (jb_targets j)"

definition resolve_job_targets :: "app_db \<Rightarrow> job_row \<Rightarrow> resolved_target list \<times> string list" where
  "resolve_job_targets db j = (let enabled = enabled_map db; named = named_targets j in
     case jb_selector j of
       SEL_ALL \<Rightarrow> (map (\<lambda>kg. resolve_guest (snd kg)) enabled, [])
     | SEL_EXCLUDE \<Rightarrow> (map (\<lambda>kg. resolve_guest (snd kg)) (filter (\<lambda>kg. fst kg \<notin> set named) enabled), [])
     | SEL_INCLUDE \<Rightarrow> (List.map_filter (\<lambda>k. map_option resolve_guest (map_of enabled k)) named,
         List.map_filter (\<lambda>k. case map_of enabled k of None \<Rightarrow> Some (skip_reason db k) | Some _ \<Rightarrow> None) named))"

definition manual_target :: "app_db \<Rightarrow> job_target \<Rightarrow> string + resolved_target" where
  "manual_target db t = (case get_by_vmid db (jt_vmid t) (jt_guest_type t) of
     None \<Rightarrow> Inl ''is not in the inventory''
   | Some g \<Rightarrow> if \<not> gu_enabled g then Inl ''is not enabled for backup'' else Inr (resolve_guest g))"

definition resolve_explicit_targets :: "app_db \<Rightarrow> job_target list \<Rightarrow> app_error + resolved_target list" where
  "resolve_explicit_targets db requested =
     (let answers = map (manual_target db) requested in
      if list_ex (\<lambda>a. \<not> is_ok a) answers
      then Inl (App_ValidationFailed ''The backup was not started because some targets are unavailable.'')
      else Inr (List.map_filter (\<lambda>a. case a of Inl _ \<Rightarrow> None | Inr t \<Rightarrow> Some t) answers))"

section \<open>Runs requested\<close>

definition make_options :: "run_options \<Rightarrow> app_error + run_options" where
  "make_options o' = (if options_ok o' then Inr o' else Inl (App_Internal ''ValidationError''))"

definition create_run :: "datetime \<Rightarrow> nat option \<Rightarrow> trigger_type \<Rightarrow> nat option \<Rightarrow> resolved_target list
    \<Rightarrow> run_options \<Rightarrow> app_db \<Rightarrow> run_row \<times> app_db" where
  "create_run now job trigger by targets o' db =
     (let (r, db1) = run_create now job trigger by (map dump_target targets) db
      in (r\<lparr>rn_options := Some (dump_options o')\<rparr>,
          set_run (rn_id r) (\<lambda>x. x\<lparr>rn_options := Some (dump_options o')\<rparr>) db1))"

definition or_default :: "string option \<Rightarrow> string \<Rightarrow> string" where
  "or_default v d = (case v of None \<Rightarrow> d | Some s \<Rightarrow> if s = [] then d else s)"

definition given_or :: "'a option \<Rightarrow> 'a \<Rightarrow> 'a" where
  "given_or v d = (case v of None \<Rightarrow> d | Some x \<Rightarrow> x)"

definition manual_options :: "manual_request \<Rightarrow> app_db \<Rightarrow> app_error + run_options" where
  "manual_options m db =
     (let a = sc_agent (ad_sections db); g = sc_gdrive (ad_sections db); r = sc_retention (ad_sections db) in
      make_options \<lparr>ro_mode = given_or (mr_mode m) (as_default_mode a),
        ro_compression = given_or (mr_compression m) (as_default_compression a),
        ro_zstd_threads = (if mr_zstd_threads m \<noteq> None then mr_zstd_threads m else as_default_zstd_threads a),
        ro_storage = or_default (mr_storage m) (as_default_storage a),
        ro_bwlimit_kbps = given_or (mr_bwlimit_kbps m) (as_default_bwlimit_kbps a),
        ro_upload = given_or (mr_upload m) (gd_enabled g), ro_job_policy = False,
        ro_keep_local = rs_keep_local r, ro_keep_remote = rs_keep_remote r, ro_notes = mr_notes m\<rparr>)"

definition request_manual_run :: "datetime \<Rightarrow> manual_request \<Rightarrow> nat option \<Rightarrow> app_db \<Rightarrow> (app_error + run_row) \<times> app_db" where
  "request_manual_run now m by db =
     (case bindR (resolve_explicit_targets db (mr_targets m)) (\<lambda>ts.
           bindR (manual_options m db) (\<lambda>o'. Inr (ts, o'))) of
       Inl e \<Rightarrow> (Inl e, db)
     | Inr (ts, o') \<Rightarrow> (let (r, db') = create_run now None MANUAL by ts o' db in (Inr r, db')))"

definition job_options :: "job_row \<Rightarrow> app_error + run_options" where
  "job_options j = make_options \<lparr>ro_mode = jb_mode j, ro_compression = jb_compression j,
     ro_zstd_threads = jb_zstd_threads j, ro_storage = jb_storage j, ro_bwlimit_kbps = jb_bwlimit_kbps j,
     ro_upload = jb_upload_enabled j, ro_job_policy = True, ro_keep_local = jb_keep_local j,
     ro_keep_remote = jb_keep_remote j, ro_notes = Some (''proxsync job '' @ [CHR 0x27] @ jb_name j @ [CHR 0x27])\<rparr>"

definition request_job_run :: "datetime \<Rightarrow> job_row \<Rightarrow> trigger_type \<Rightarrow> nat option \<Rightarrow> app_db
    \<Rightarrow> (app_error + run_row) \<times> app_db" where
  "request_job_run now j trigger by db =
     (if active_for_job db (jb_id j) \<noteq> None then (Inl (App_Conflict ''The job already has a run in progress''), db)
      else let (targets, skipped) = resolve_job_targets db j in
        if targets = [] then (Inl (App_ValidationFailed ''The job resolves to no guests''), db)
        else (case job_options j of
            Inl e \<Rightarrow> (Inl e, db)
          | Inr o' \<Rightarrow> (let (r, db') = create_run now (Some (jb_id j)) trigger by targets o' db in (Inr r, db'))))"

section \<open>Single backups and runs\<close>

definition set_retention_lock :: "nat \<Rightarrow> bool \<Rightarrow> app_db \<Rightarrow> (app_error + backup_row) \<times> app_db" where
  "set_retention_lock i locked db = (case backup_get db i of
     None \<Rightarrow> (Inl (App_NotFound ''No such backup''), db)
   | Some b \<Rightarrow> (Inr (b\<lparr>bh_retention_locked := locked\<rparr>), set_backup i (\<lambda>b. b\<lparr>bh_retention_locked := locked\<rparr>) db))"

definition deleted_row :: "datetime \<Rightarrow> backup_row \<Rightarrow> backup_row" where
  "deleted_row now b = b\<lparr>bh_local_deleted_at := Some now,
     bh_status := (if remote_usable b then B_SUCCESS else B_DELETED)\<rparr>"

text \<open>\<open>agent\<close> is what the agent's deletion of a file answers: the bytes it freed.\<close>

definition delete_local_artifact :: "datetime \<Rightarrow> (string \<Rightarrow> app_error + int) \<Rightarrow> nat \<Rightarrow> app_db
    \<Rightarrow> (app_error + string \<times> int) \<times> app_db" where
  "delete_local_artifact now agent i db = (case backup_get db i of
     None \<Rightarrow> (Inl (App_NotFound ''No such backup''), db)
   | Some b \<Rightarrow>
       if bh_status b = B_RUNNING then (Inl (App_Conflict ''The backup is still running''), db)
       else if bh_retention_locked b then (Inl (App_Conflict ''The backup is pinned against deletion''), db)
       else if active_for_backup db i \<noteq> None then (Inl (App_Conflict ''A restore needs this artifact''), db)
       else (case bh_filename b of
           None \<Rightarrow> (Inl (App_ValidationFailed ''The backup never produced an artifact''), db)
         | Some f \<Rightarrow> (case agent f of
             Inl e \<Rightarrow> (Inl e, db)
           | Inr freed \<Rightarrow> (Inr (f, freed), set_backup i (deleted_row now) db))))"

definition cancel_queued_row :: "datetime \<Rightarrow> run_row \<Rightarrow> run_row" where
  "cancel_queued_row now r = r\<lparr>rn_status := R_CANCELLED, rn_finished_at := Some now,
     rn_error_message := Some ''Cancelled before it started''\<rparr>"

definition cancel_queued_run :: "datetime \<Rightarrow> nat \<Rightarrow> app_db \<Rightarrow> (app_error + unit) \<times> app_db" where
  "cancel_queued_run now i db = (case run_get db i of
     None \<Rightarrow> (Inl (App_NotFound ''No such run''), db)
   | Some r \<Rightarrow> if rn_status r \<noteq> R_QUEUED then (Inl (App_Conflict ''The run cannot be cancelled while queued''), db)
       else (Inr (), set_run i (cancel_queued_row now) db))"

definition summarise_run :: "run_row \<Rightarrow> backup_row list \<Rightarrow> run_status" where
  "summarise_run r records =
     (if records = [] then R_FAILED
      else let succeeded = length (filter (\<lambda>b. bh_status b = B_SUCCESS) records);
               cancelled = length (filter (\<lambda>b. bh_status b = B_CANCELLED) records) in
        if cancelled \<noteq> 0 \<and> succeeded = 0 then R_CANCELLED
        else if succeeded = rn_total r then R_SUCCESS
        else if succeeded = 0 then (if cancelled \<noteq> 0 then R_CANCELLED else R_FAILED)
        else R_PARTIAL)"


section \<open>Only guests on the allow-list are backed up\<close>

definition allowed_target :: "app_db \<Rightarrow> resolved_target \<Rightarrow> bool" where
  "allowed_target db t = (\<exists>g \<in> set (ad_guests db). gu_enabled g \<and> t = resolve_guest g)"

lemma allowed_resolved: "g \<in> set (ad_guests db) \<Longrightarrow> gu_enabled g \<Longrightarrow> allowed_target db (resolve_guest g)"
  by (auto simp: allowed_target_def)

lemma target_key_resolve [simp]: "target_key (resolve_guest g) = (gu_vmid g, gu_type g)"
  by (simp add: target_key_def resolve_guest_def)

lemma dict_put_keys: "set (map fst (dict_put k v d)) = insert k (set (map fst d))"
  by (induction k v d rule: dict_put.induct) auto

lemma dict_put_distinct: "distinct (map fst d) \<Longrightarrow> distinct (map fst (dict_put k v d))"
proof (induction k v d rule: dict_put.induct)
  case (2 k v k' v' d)
  then show ?case using dict_put_keys [of k v d] by auto
qed simp

lemma dict_put_mem: "x \<in> set (dict_put k v d) \<Longrightarrow> x = (k, v) \<or> x \<in> set d"
  by (induction k v d rule: dict_put.induct) (auto split: if_splits)

lemma fold_dict_put:
  "distinct (map fst d) \<Longrightarrow> distinct (map fst (fold (\<lambda>g. dict_put (f g) g) gs d))
    \<and> set (fold (\<lambda>g. dict_put (f g) g) gs d) \<subseteq> set d \<union> (\<lambda>g. (f g, g)) ` set gs"
proof (induction gs arbitrary: d)
  case (Cons g gs)
  from Cons.IH [OF dict_put_distinct [OF Cons.prems, of "f g" g]]
  show ?case using dict_put_mem [of _ "f g" g d] by fastforce
qed simp

lemma enabled_map_distinct: "distinct (map fst (enabled_map db))"
  using fold_dict_put [of "[]" "\<lambda>g. (gu_vmid g, gu_type g)" "enabled_guests db"] by (simp add: enabled_map_def)

lemma enabled_map_mem:
  "(k, g) \<in> set (enabled_map db) \<Longrightarrow> g \<in> set (ad_guests db) \<and> gu_enabled g \<and> k = (gu_vmid g, gu_type g)"
  using fold_dict_put [of "[]" "\<lambda>g. (gu_vmid g, gu_type g)" "enabled_guests db"]
  by (auto simp: enabled_map_def enabled_guests_def guests_ordered_def)

lemma enabled_map_of:
  "map_of (enabled_map db) k = Some g \<Longrightarrow> g \<in> set (ad_guests db) \<and> gu_enabled g \<and> k = (gu_vmid g, gu_type g)"
  by (rule enabled_map_mem) (rule map_of_SomeD)

lemma map_filter_keys:
  "distinct ks \<Longrightarrow> (\<And>k x. f k = Some x \<Longrightarrow> key x = k) \<Longrightarrow> distinct (map key (List.map_filter f ks))"
proof (induction ks)
  case (Cons k ks)
  have "key ` set (List.map_filter f ks) \<subseteq> set ks"
    using Cons.prems(2) by (auto simp: List.map_filter_def)
  then show ?case
    using Cons by (auto simp: List.map_filter_def split: option.split)
qed (simp add: List.map_filter_def)

lemma set_map_filter: "x \<in> set (List.map_filter f ks) \<longleftrightarrow> (\<exists>k \<in> set ks. f k = Some x)"
  by (force simp: List.map_filter_def)

lemma resolve_job_targets_allowed:
  assumes "resolve_job_targets db j = (ts, skipped)" "t \<in> set ts"
  shows "allowed_target db t"
  using assms
  by (auto simp: resolve_job_targets_def Let_def set_map_filter split: target_selector.splits
      intro!: allowed_resolved dest!: enabled_map_mem enabled_map_of)

lemma resolve_job_targets_distinct:
  assumes "resolve_job_targets db j = (ts, skipped)" "distinct (named_targets j)"
  shows "distinct (map target_key ts)"
proof -
  have k: "map (target_key \<circ> (\<lambda>kg. resolve_guest (snd kg))) xs = map fst xs" if "set xs \<subseteq> set (enabled_map db)" for xs
    using that by (induction xs) (auto dest: enabled_map_mem)
  have "distinct (map fst (filter P (enabled_map db)))" for P
    using enabled_map_distinct by (rule distinct_map_filter)
  moreover have "distinct (map target_key (List.map_filter (\<lambda>k. map_option resolve_guest (map_of (enabled_map db) k)) (named_targets j)))"
    using assms(2) by (rule map_filter_keys) (auto dest: enabled_map_of)
  ultimately show ?thesis
    using assms(1) enabled_map_distinct [of db]
    by (auto simp: resolve_job_targets_def Let_def k split: target_selector.splits)
qed

lemma get_by_vmid_Some: "get_by_vmid db v t = Some g \<Longrightarrow> g \<in> set (ad_guests db) \<and> gu_vmid g = v \<and> gu_type g = t"
  unfolding get_by_vmid_def by (drule find_Some_mem) simp

lemma ok_part: "(case m of Inl _ \<Rightarrow> None | Inr r \<Rightarrow> Some r) = Some x \<longleftrightarrow> m = Inr x"
  by (cases m) simp_all

lemma explicit_targets_eq:
  assumes "resolve_explicit_targets db ts = Inr rs"
  shows "rs = List.map_filter (\<lambda>t. case manual_target db t of Inl _ \<Rightarrow> None | Inr r \<Rightarrow> Some r) ts"
proof -
  have "List.map_filter f (map g xs) = List.map_filter (\<lambda>x. f (g x)) xs" for f :: "string + resolved_target \<Rightarrow> resolved_target option" and g xs
    by (induction xs) (simp_all add: List.map_filter_def)
  then show ?thesis using assms by (auto simp: resolve_explicit_targets_def Let_def split: if_splits)
qed

lemma manual_target_Inr:
  "manual_target db t = Inr r \<Longrightarrow> allowed_target db r \<and> target_key r = (jt_vmid t, jt_guest_type t)"
  by (auto simp: manual_target_def allowed_target_def split: option.splits if_splits dest!: get_by_vmid_Some)

lemma explicit_targets:
  assumes "resolve_explicit_targets db ts = Inr rs" "distinct (map jt_vmid ts)"
  shows "map target_key rs = map (\<lambda>t. (jt_vmid t, jt_guest_type t)) ts" "\<And>r. r \<in> set rs \<Longrightarrow> allowed_target db r"
    "distinct (map target_key rs)"
proof -
  note rs = explicit_targets_eq [OF assms(1)]
  have "list_all (\<lambda>t. is_ok (manual_target db t)) ts"
    using assms(1) by (auto simp: resolve_explicit_targets_def Let_def list_ex_iff list_all_iff split: if_splits)
  then show m: "map target_key rs = map (\<lambda>t. (jt_vmid t, jt_guest_type t)) ts"
    unfolding rs by (induction ts) (auto simp: List.map_filter_def is_ok_iff manual_target_Inr)
  show "allowed_target db r" if "r \<in> set rs" for r
    using that by (auto simp: rs set_map_filter ok_part manual_target_Inr)
  have "distinct (map (\<lambda>t. (jt_vmid t, jt_guest_type t)) ts)"
    using assms(2) by (auto simp: distinct_map inj_on_def)
  then show "distinct (map target_key rs)" by (simp add: m)
qed


section \<open>What a request leaves\<close>

text \<open>A run row carries the plan it was requested with: distinct guests and valid options.\<close>

definition run_typed :: "run_row \<Rightarrow> bool" where
  "run_typed r = (\<exists>ts o'. rn_targets r = Some (map dump_target ts) \<and> rn_options r = Some (dump_options o')
     \<and> options_ok o' \<and> distinct (map target_key ts) \<and> rn_total r = length ts)"

definition fresh_run :: "run_row \<Rightarrow> bool" where
  "fresh_run r = (rn_status r = R_QUEUED \<and> rn_succeeded r = 0 \<and> rn_failed r = 0 \<and> run_typed r)"

lemma create_run_row:
  assumes "create_run now job trigger by ts o' db = (r, db')"
  shows "db' = db\<lparr>ad_runs := ad_runs db @ [r]\<rparr>" "rn_id r = next_id (map rn_id (ad_runs db))" "rn_job_id r = job"
    "rn_trigger r = trigger" "rn_targets r = Some (map dump_target ts)" "rn_options r = Some (dump_options o')"
    "rn_total r = length ts" "rn_status r = R_QUEUED" "rn_succeeded r = 0" "rn_failed r = 0"
proof -
  let ?n = "next_id (map rn_id (ad_runs db))"
  have "upd_where (\<lambda>x. rn_id x = ?n) f (ad_runs db) = ad_runs db" for f
    by (rule upd_where_cong_key) (metis imageI next_id_fresh set_map)
  then have "upd_where (\<lambda>x. rn_id x = ?n) f (ad_runs db @ [x]) = ad_runs db @ [if rn_id x = ?n then f x else x]" for f x
    by (simp add: upd_where_def)
  then show "db' = db\<lparr>ad_runs := ad_runs db @ [r]\<rparr>" "rn_id r = ?n" "rn_job_id r = job"
    "rn_trigger r = trigger" "rn_targets r = Some (map dump_target ts)" "rn_options r = Some (dump_options o')"
    "rn_total r = length ts" "rn_status r = R_QUEUED" "rn_succeeded r = 0" "rn_failed r = 0"
    using assms by (auto simp: create_run_def run_create_def set_run_def Let_def)
qed

lemma make_options_Inr: "make_options o' = Inr p \<longleftrightarrow> p = o' \<and> options_ok o'"
  by (auto simp: make_options_def)

lemma manual_run:
  assumes "request_manual_run now m by db = (Inr r, db')" "manual_request_ok m"
  obtains ts o' where "create_run now None MANUAL by ts o' db = (r, db')" "options_ok o'" "\<not> ro_job_policy o'"
    "map target_key ts = map (\<lambda>t. (jt_vmid t, jt_guest_type t)) (mr_targets m)" "distinct (map target_key ts)"
    "\<And>t. t \<in> set ts \<Longrightarrow> allowed_target db t" "ts \<noteq> []"
proof -
  obtain ts o' where m: "resolve_explicit_targets db (mr_targets m) = Inr ts" "manual_options m db = Inr o'"
    "create_run now None MANUAL by ts o' db = (r, db')"
    using assms(1) by (auto simp: request_manual_run_def bindR_Inr_iff split: sum.splits prod.splits)
  have d: "distinct (map jt_vmid (mr_targets m))"
    using assms(2) by (simp add: manual_request_ok_def assert_distinct_vmids_iff)
  note t = explicit_targets [OF m(1) d]
  have "options_ok o'" "\<not> ro_job_policy o'" using m(2) by (auto simp: manual_options_def Let_def make_options_Inr)
  moreover have "ts \<noteq> []" using t(1) assms(2) by (auto simp: manual_request_ok_def)
  ultimately show thesis using m(3) t by (intro that) auto
qed

lemma job_run:
  assumes "request_job_run now j trigger by db = (Inr r, db')"
  obtains ts o' where "create_run now (Some (jb_id j)) trigger by ts o' db = (r, db')" "job_options j = Inr o'"
    "\<And>t. t \<in> set ts \<Longrightarrow> allowed_target db t" "ts \<noteq> []" "active_for_job db (jb_id j) = None"
    "distinct (named_targets j) \<Longrightarrow> distinct (map target_key ts)"
  using assms
  by (auto simp: request_job_run_def Let_def resolve_job_targets_allowed resolve_job_targets_distinct
      split: if_splits prod.splits sum.splits)

lemma job_options_Inr:
  "job_options j = Inr o' \<Longrightarrow> options_ok o' \<and> ro_job_policy o' \<and> ro_keep_local o' = jb_keep_local j
    \<and> ro_keep_remote o' = jb_keep_remote j"
  by (auto simp: job_options_def make_options_Inr)

lemma fresh_created:
  assumes "create_run now job trigger by ts o' db = (r, db')" "options_ok o'" "distinct (map target_key ts)"
  shows "fresh_run r"
  using create_run_row [OF assms(1)] assms(2,3) by (auto simp: fresh_run_def run_typed_def)

section \<open>Routes\<close>

definition audit_as :: "datetime \<Rightarrow> nat \<times> string \<Rightarrow> audit_action \<Rightarrow> string \<Rightarrow> nat \<Rightarrow> (string \<times> json) list \<Rightarrow> app_db \<Rightarrow> app_db" where
  "audit_as now user action kind i detail db = record_app_audit ((audit_entry now action)\<lparr>
     ae_user_id := Some (fst user), ae_username := Some (snd user), ae_resource_type := Some kind,
     ae_resource_id := Some (show_nat i), ae_detail := Some detail\<rparr>) db"

lemma audit_as_frame [simp]:
  "ad_runs (audit_as now u a k i d db) = ad_runs db" "ad_backups (audit_as now u a k i d db) = ad_backups db"
  "ad_restores (audit_as now u a k i d db) = ad_restores db" "ad_jobs (audit_as now u a k i d db) = ad_jobs db"
  "ad_syncs (audit_as now u a k i d db) = ad_syncs db" "ad_guests (audit_as now u a k i d db) = ad_guests db"
  "ad_sections (audit_as now u a k i d db) = ad_sections db"
  by (simp_all add: audit_as_def record_app_audit_def)

definition dump_guest_target :: "job_target \<Rightarrow> json" where
  "dump_guest_target t = J_obj [(''vmid'', J_int (int (jt_vmid t))), (''guest_type'', J_str (guest_type_value (jt_guest_type t)))]"

definition run_backup_route :: "datetime \<Rightarrow> nat \<times> string \<Rightarrow> manual_request \<Rightarrow> app_db \<Rightarrow> (app_error + run_row) \<times> app_db" where
  "run_backup_route now user m db = get_session (case request_manual_run now m (Some (fst user)) db of
     (Inl e, db1) \<Rightarrow> (Inl e, db1)
   | (Inr r, db1) \<Rightarrow> (Inr r, audit_as now user AUD_BACKUP_STARTED ''backup_run'' (rn_id r)
       [(''guests'', J_list (map dump_guest_target (mr_targets m))), (''trigger'', J_str ''manual'')] db1)) db"

definition set_lock_route :: "datetime \<Rightarrow> nat \<times> string \<Rightarrow> nat \<Rightarrow> bool \<Rightarrow> app_db \<Rightarrow> (app_error + backup_row) \<times> app_db" where
  "set_lock_route now user i locked db = session (case set_retention_lock i locked db of
     (Inl e, db1) \<Rightarrow> (Inl e, db1)
   | (Inr b, db1) \<Rightarrow> (Inr b, audit_as now user RETENTION_OVERRIDE ''backup'' i
       [(''retention_locked'', J_bool locked), (''filename'', json_opt J_str (bh_filename b))] db1)) db"

definition delete_backup_route :: "datetime \<Rightarrow> nat \<times> string \<Rightarrow> (string \<Rightarrow> app_error + int) \<Rightarrow> nat \<Rightarrow> app_db
    \<Rightarrow> (app_error + string \<times> int) \<times> app_db" where
  "delete_backup_route now user agent i db = session (case delete_local_artifact now agent i db of
     (Inl e, db1) \<Rightarrow> (Inl e, db1)
   | (Inr (f, freed), db1) \<Rightarrow> (Inr (f, freed), audit_as now user BACKUP_DELETED ''backup'' i
       [(''filename'', J_str f), (''freed_bytes'', J_int freed)] db1)) db"

end
