(* ===== verification/Retention_Worker.thy ===== *)
theory Retention_Worker
  imports Retention_Safety Backups
begin

text \<open>
  The worker that runs retention, \<open>backend/app/workers/retention_worker.py\<close>. A phase is where it is
  between two awaits; notifications and timers come between any two steps, passes share one lane (the
  execution lock), and \<open>RetentionGuard\<close> (\<open>core/retention_guard.py\<close>) makes each pass one step. An exception
  of the database is a given text. \<open>rk_passes\<close> records each pass with the database it started from.
\<close>

section \<open>Queue, retries, errors\<close>

type_synonym trigger_key = "nat option" \<comment> \<open>\<open>None\<close>: every guest\<close>

record retention_worker =
  rw_pending :: "nat list"
  rw_full :: bool
  rw_attempts :: "trigger_key \<rightharpoonup> nat"
  rw_timers :: "trigger_key set" \<comment> \<open>the retry tasks that sleep\<close>
  rw_errors :: "(trigger_key \<times> string) list"

definition idle_worker :: retention_worker where
  "idle_worker = \<lparr>rw_pending = [], rw_full = False, rw_attempts = Map.empty, rw_timers = {}, rw_errors = []\<rparr>"

definition DEFAULT_RETRY_DELAYS :: "rat list" where "DEFAULT_RETRY_DELAYS = [5, 30, 120]"

definition retry_delays :: "rat list \<Rightarrow> rat list" where
  "retry_delays ds = map (max (1 / 100)) ds"

definition last_error :: "retention_worker \<Rightarrow> string option" where
  "last_error w = (if rw_errors w = [] then None else Some (snd (last (rw_errors w))))"

definition set_error :: "trigger_key \<Rightarrow> string \<Rightarrow> retention_worker \<Rightarrow> retention_worker" where
  "set_error k m w = w\<lparr>rw_errors := dict_put k m (rw_errors w)\<rparr>"

definition drop_error :: "trigger_key \<Rightarrow> retention_worker \<Rightarrow> retention_worker" where
  "drop_error k w = w\<lparr>rw_errors := filter (\<lambda>e. fst e \<noteq> k) (rw_errors w)\<rparr>"

definition cancel_retry_task_only :: "trigger_key \<Rightarrow> retention_worker \<Rightarrow> retention_worker" where
  "cancel_retry_task_only k w = w\<lparr>rw_timers := rw_timers w - {k}\<rparr>"

definition cancel_retry :: "trigger_key \<Rightarrow> retention_worker \<Rightarrow> retention_worker" where
  "cancel_retry k w = cancel_retry_task_only k (w\<lparr>rw_attempts := (rw_attempts w)(k := None)\<rparr>)"

definition cancel_all_retries :: "retention_worker \<Rightarrow> retention_worker" where
  "cancel_all_retries w = w\<lparr>rw_timers := {}, rw_attempts := Map.empty\<rparr>"

definition clear_retry :: "trigger_key \<Rightarrow> retention_worker \<Rightarrow> retention_worker" where
  "clear_retry k w = cancel_retry k (drop_error k w)"

definition retries_of :: "retention_worker \<Rightarrow> trigger_key \<Rightarrow> nat" where
  "retries_of w k = (case rw_attempts w k of None \<Rightarrow> 0 | Some n \<Rightarrow> n)"

definition exhausted_text :: "trigger_key \<Rightarrow> string" where
  "exhausted_text k = ''Retention retries exhausted for '' @ (case k of None \<Rightarrow> ''full sweep'' | Some i \<Rightarrow> ''backup #'' @ show_nat i)"

definition schedule_retry :: "rat list \<Rightarrow> trigger_key \<Rightarrow> retention_worker \<Rightarrow> retention_worker" where
  "schedule_retry D k w =
     (if k \<in> rw_timers w then w
      else if retries_of w k \<ge> length D then set_error k (exhausted_text k) w
      else w\<lparr>rw_attempts := (rw_attempts w)(k \<mapsto> retries_of w k + 1), rw_timers := insert k (rw_timers w)\<rparr>)"

definition queue_trigger :: "trigger_key \<Rightarrow> retention_worker \<Rightarrow> retention_worker" where
  "queue_trigger k w = (case k of
     None \<Rightarrow> w\<lparr>rw_full := True, rw_pending := []\<rparr>
   | Some i \<Rightarrow> if rw_full w then w else w\<lparr>rw_pending := List.insert i (rw_pending w)\<rparr>)"

definition notify_worker :: "trigger_key \<Rightarrow> retention_worker \<Rightarrow> retention_worker" where
  "notify_worker k w = queue_trigger k (case k of None \<Rightarrow> cancel_all_retries w | Some i \<Rightarrow> cancel_retry k w)"

definition retry_after :: "trigger_key \<Rightarrow> retention_worker \<Rightarrow> retention_worker" where
  "retry_after k w = queue_trigger k (cancel_retry_task_only k w)"

definition migrate_retry_state :: "nat \<Rightarrow> nat \<Rightarrow> retention_worker \<Rightarrow> retention_worker" where
  "migrate_retry_state raw c w =
     (if raw = c then w
      else let w1 = (case rw_attempts w (Some raw) of None \<Rightarrow> w
             | Some n \<Rightarrow> w\<lparr>rw_attempts := (rw_attempts w)(Some raw := None, Some c \<mapsto> max n (retries_of w (Some c)))\<rparr>);
           w2 = (case map_of (rw_errors w1) (Some raw) of None \<Rightarrow> w1
             | Some m \<Rightarrow> set_error (Some c) m (drop_error (Some raw) w1))
         in cancel_retry_task_only (Some raw) w2)"

definition failed_text :: "decision list \<Rightarrow> string" where
  "failed_text items = (case List.map_filter (\<lambda>i. case dn_error i of None \<Rightarrow> None | Some m \<Rightarrow> if m = [] then None else Some m) items of
     [] \<Rightarrow> ''one or more retention deletes failed'' | m # _ \<Rightarrow> m)"

definition finish_attempt :: "rat list \<Rightarrow> nat \<Rightarrow> policy \<times> decision list \<times> summary \<Rightarrow> retention_worker \<Rightarrow> retention_worker" where
  "finish_attempt D i response w = (case response of (p, items, su) \<Rightarrow>
     if su_failed su > 0
     then schedule_retry D (Some i) (set_error (Some i) (''Retention pass failed: '' @ failed_text items) w)
     else clear_retry (Some i) w)"

definition settle_pass :: "rat list \<Rightarrow> nat \<Rightarrow> app_error + policy \<times> decision list \<times> summary \<Rightarrow> retention_worker \<Rightarrow> retention_worker" where
  "settle_pass D i result w = (case result of
     Inl e \<Rightarrow> schedule_retry D (Some i) (set_error (Some i) (''Retention pass for backup #'' @ show_nat i @ '' failed: '' @ app_detail e) w)
   | Inr response \<Rightarrow> finish_attempt D i response w)"

section \<open>Passes\<close>

datatype rw_phase = RW_Idle | RW_Queue "nat list" "nat list" | RW_Sweep "nat list"

record 'w rw_env =
  re_agent :: "'w retention_agent"
  re_notify :: notify_config
  re_delays :: "rat list"

record 'w rw_sys =
  rk_db :: app_db
  rk_world :: 'w
  rk_worker :: retention_worker
  rk_phase :: rw_phase
  rk_passes :: "(nat \<times> app_db) list"

definition apply_one :: "'w rw_env \<Rightarrow> datetime \<Rightarrow> (nat \<Rightarrow> location \<Rightarrow> datetime) \<Rightarrow> nat \<Rightarrow> 'w rw_sys
    \<Rightarrow> (app_error + policy \<times> decision list \<times> summary) \<times> 'w rw_sys" where
  "apply_one E now stamp i s =
     (let (r, db', w') = apply_retention (re_agent E) (re_notify E) now stamp (Some i) (rk_db s, rk_world s) in
      (r, s\<lparr>rk_db := db', rk_world := w', rk_passes := (i, rk_db s) # rk_passes s,
        rk_worker := settle_pass (re_delays E) i r (rk_worker s)\<rparr>))"

definition upd_worker :: "(retention_worker \<Rightarrow> retention_worker) \<Rightarrow> 'w rw_sys \<Rightarrow> 'w rw_sys" where
  "upd_worker f s = s\<lparr>rk_worker := f (rk_worker s)\<rparr>"

definition lookup_failed :: "rat list \<Rightarrow> nat \<Rightarrow> string \<Rightarrow> retention_worker \<Rightarrow> retention_worker" where
  "lookup_failed D raw m w = schedule_retry D (Some raw)
     (set_error (Some raw) (''Retention trigger canonicalization failed: '' @ m) w)"

text \<open>\<open>run_once\<close>, which a request or a test awaits.\<close>

definition run_once :: "'w rw_env \<Rightarrow> datetime \<Rightarrow> (nat \<Rightarrow> location \<Rightarrow> datetime) \<Rightarrow> trigger_key \<Rightarrow> 'w rw_sys
    \<Rightarrow> (app_error + policy \<times> decision list \<times> summary) \<times> 'w rw_sys" where
  "run_once E now stamp k s = (case k of
     None \<Rightarrow> (Inl (App_ValidationFailed ''A global retention apply is unsafe''), s)
   | Some raw \<Rightarrow> (case canonical_trigger_backup_id (rk_db s) raw of
       None \<Rightarrow> (Inl (App_NotFound ''No existing backup copy for the trigger''), upd_worker (clear_retry (Some raw)) s)
     | Some c \<Rightarrow> apply_one E now stamp c
         (upd_worker (\<lambda>w. cancel_retry_task_only (Some c) (migrate_retry_state raw c w)) s)))"

definition queue_one :: "'w rw_env \<Rightarrow> datetime \<Rightarrow> (nat \<Rightarrow> location \<Rightarrow> datetime) \<Rightarrow> string option \<Rightarrow> nat \<Rightarrow> nat list \<Rightarrow> 'w rw_sys
    \<Rightarrow> nat list \<times> 'w rw_sys" where
  "queue_one E now stamp fault raw processed s = (case fault of
     Some m \<Rightarrow> (processed, upd_worker (lookup_failed (re_delays E) raw m) s)
   | None \<Rightarrow> (case canonical_trigger_backup_id (rk_db s) raw of
       None \<Rightarrow> (processed, upd_worker (clear_retry (Some raw)) s)
     | Some c \<Rightarrow>
         if c \<in> set processed then (processed, upd_worker (clear_retry (Some raw)) s)
         else (c # processed, snd (apply_one E now stamp c
           (upd_worker (\<lambda>w. cancel_retry_task_only (Some c) (migrate_retry_state raw c w)) s)))))"

definition sweep_one :: "'w rw_env \<Rightarrow> datetime \<Rightarrow> (nat \<Rightarrow> location \<Rightarrow> datetime) \<Rightarrow> string option \<Rightarrow> nat \<Rightarrow> 'w rw_sys \<Rightarrow> 'w rw_sys" where
  "sweep_one E now stamp fault raw s = (case fault of
     Some m \<Rightarrow> upd_worker (lookup_failed (re_delays E) raw m) s
   | None \<Rightarrow> (case canonical_trigger_backup_id (rk_db s) raw of
       None \<Rightarrow> upd_worker (clear_retry (Some raw)) s
     | Some c \<Rightarrow> snd (apply_one E now stamp c (upd_worker (migrate_retry_state raw c) s))))"

definition migrate_error :: "app_db \<Rightarrow> nat \<Rightarrow> retention_worker \<Rightarrow> retention_worker" where
  "migrate_error db raw w = (case canonical_trigger_backup_id db raw of
     None \<Rightarrow> clear_retry (Some raw) w | Some c \<Rightarrow> migrate_retry_state raw c w)"

definition start_sweep :: "'w rw_env \<Rightarrow> string option \<Rightarrow> 'w rw_sys \<Rightarrow> 'w rw_sys" where
  "start_sweep E fault s = (case fault of
     Some m \<Rightarrow> (upd_worker (\<lambda>w. schedule_retry (re_delays E) None (set_error None (''Retention startup scan failed: '' @ m) w)) s)
         \<lparr>rk_phase := RW_Idle\<rparr>
   | None \<Rightarrow> (upd_worker (\<lambda>w. fold (migrate_error (rk_db s)) (List.map_filter fst (rw_errors w)) (clear_retry None w)) s)
         \<lparr>rk_phase := RW_Sweep (newest_trigger_backup_ids (rk_db s))\<rparr>)"

text \<open>\<open>_loop\<close>: the queue is drained in ascending order; a pending sweep replaces it.\<close>

definition drain_pending :: "'w rw_env \<Rightarrow> string option \<Rightarrow> 'w rw_sys \<Rightarrow> 'w rw_sys" where
  "drain_pending E fault s = (let w = rk_worker s in
     if rw_full w then start_sweep E fault (upd_worker (\<lambda>w. w\<lparr>rw_full := False, rw_pending := []\<rparr>) s)
     else if rw_pending w = [] then s
     else (upd_worker (\<lambda>w. w\<lparr>rw_pending := []\<rparr>) s)\<lparr>rk_phase := RW_Queue (sort (rw_pending w)) []\<rparr>)"

definition worker_advance :: "'w rw_env \<Rightarrow> datetime \<Rightarrow> (nat \<Rightarrow> location \<Rightarrow> datetime) \<Rightarrow> string option \<Rightarrow> 'w rw_sys \<Rightarrow> 'w rw_sys" where
  "worker_advance E now stamp fault s = (case rk_phase s of
     RW_Idle \<Rightarrow> drain_pending E fault s
   | RW_Queue [] processed \<Rightarrow> s\<lparr>rk_phase := RW_Idle\<rparr>
   | RW_Queue (raw # todo) processed \<Rightarrow> (let (processed', s') = queue_one E now stamp fault raw processed s in
       s'\<lparr>rk_phase := RW_Queue todo processed'\<rparr>)
   | RW_Sweep [] \<Rightarrow> s\<lparr>rk_phase := RW_Idle\<rparr>
   | RW_Sweep (raw # todo) \<Rightarrow> (sweep_one E now stamp fault raw s)\<lparr>rk_phase := RW_Sweep todo\<rparr>)"

text \<open>A start of the dashboard: nothing is remembered, every guest is swept.\<close>

definition start_worker :: "'w rw_env \<Rightarrow> string option \<Rightarrow> 'w rw_sys \<Rightarrow> 'w rw_sys" where
  "start_worker E fault s = start_sweep E fault (s\<lparr>rk_worker := idle_worker, rk_phase := RW_Idle\<rparr>)"

text \<open>The execution lock is free: no pass of the queue or the sweep has begun.\<close>

definition lane_free :: "'w rw_sys \<Rightarrow> bool" where
  "lane_free s = (case rk_phase s of RW_Idle \<Rightarrow> True | RW_Queue todo processed \<Rightarrow> processed = [] | RW_Sweep todo \<Rightarrow> False)"

inductive rw_step :: "'w rw_env \<Rightarrow> 'w rw_sys \<Rightarrow> 'w rw_sys \<Rightarrow> bool" for E where
  w_notify: "rw_step E s (upd_worker (notify_worker k) s)"
| w_timer: "k \<in> rw_timers (rk_worker s) \<Longrightarrow> rw_step E s (upd_worker (retry_after k) s)"
| w_work: "rw_step E s (worker_advance E now stamp fault s)"
| w_once: "lane_free s \<Longrightarrow> run_once E now stamp k s = (answer, s') \<Longrightarrow> rw_step E s s'"
| w_start: "rw_step E s (start_worker E fault s)"
| w_other: "rw_step E s (s\<lparr>rk_db := db', rk_world := world'\<rparr>)"

inductive rw_reachable :: "'w rw_env \<Rightarrow> 'w rw_sys \<Rightarrow> bool" for E where
  rw_init: "rw_reachable E (start_worker E fault \<lparr>rk_db = db, rk_world = world, rk_worker = idle_worker, rk_phase = RW_Idle, rk_passes = []\<rparr>)"
| rw_more: "rw_reachable E s \<Longrightarrow> rw_step E s s' \<Longrightarrow> rw_reachable E s'"


section \<open>Every failure is pursued\<close>

fun phase_todo :: "rw_phase \<Rightarrow> nat list" where
  "phase_todo RW_Idle = []"
| "phase_todo (RW_Queue todo processed) = todo"
| "phase_todo (RW_Sweep todo) = todo"

text \<open>A trigger comes up again: it is queued, its retry sleeps, a sweep is due, or its retries are used up.\<close>

definition pursued :: "rat list \<Rightarrow> nat list \<Rightarrow> retention_worker \<Rightarrow> trigger_key \<Rightarrow> bool" where
  "pursued D todo w k = (rw_full w \<or> k \<in> rw_timers w \<or> None \<in> rw_timers w
     \<or> k \<in> Some ` (set (rw_pending w) \<union> set todo) \<or> length D \<le> retries_of w k \<or> length D \<le> retries_of w None)"

definition error_keys :: "retention_worker \<Rightarrow> trigger_key set" where
  "error_keys w = fst ` set (rw_errors w)"

definition counted :: "rat list \<Rightarrow> retention_worker \<Rightarrow> bool" where
  "counted D w = ((\<forall>k. retries_of w k \<le> length D) \<and> (\<forall>k \<in> rw_timers w. 1 \<le> retries_of w k))"

definition settled :: "rat list \<Rightarrow> nat list \<Rightarrow> trigger_key set \<Rightarrow> retention_worker \<Rightarrow> bool" where
  "settled D todo K w = (counted D w \<and> (\<forall>k \<in> error_keys w - K. pursued D todo w k))"

lemma set_dict_put: "fst ` set (dict_put k v d) = insert k (fst ` set d)"
  using dict_put_keys [of k v d] by simp

lemma error_keys_simps [simp]:
  "error_keys (set_error k m w) = insert k (error_keys w)" "error_keys (drop_error k w) = error_keys w - {k}"
  "error_keys (cancel_retry_task_only k w) = error_keys w" "error_keys (cancel_retry k w) = error_keys w"
  "error_keys (clear_retry k w) = error_keys w - {k}" "error_keys (queue_trigger k w) = error_keys w"
  "error_keys (cancel_all_retries w) = error_keys w" "error_keys idle_worker = {}"
  "error_keys (w\<lparr>rw_pending := ps\<rparr>) = error_keys w" "error_keys (w\<lparr>rw_full := b, rw_pending := ps\<rparr>) = error_keys w"
  "error_keys (w\<lparr>rw_attempts := a, rw_timers := ts\<rparr>) = error_keys w" "error_keys (w\<lparr>rw_timers := ts\<rparr>) = error_keys w"
  by (auto simp: error_keys_def set_error_def set_dict_put drop_error_def cancel_retry_task_only_def cancel_retry_def
      clear_retry_def queue_trigger_def cancel_all_retries_def idle_worker_def split: option.split)

lemma error_keys_schedule: "error_keys (schedule_retry D k w) \<subseteq> insert k (error_keys w)"
  by (auto simp: schedule_retry_def error_keys_def set_error_def set_dict_put)

lemma attempts_upd [simp]:
  "retries_of (w\<lparr>rw_attempts := (rw_attempts u)(k := v)\<rparr>) j = (if j = k then (case v of None \<Rightarrow> 0 | Some n \<Rightarrow> n) else retries_of u j)"
  by (simp add: retries_of_def)

lemma worker_frame [simp]:
  "retries_of (set_error k m w) j = retries_of w j" "rw_timers (set_error k m w) = rw_timers w"
  "rw_full (set_error k m w) = rw_full w" "rw_pending (set_error k m w) = rw_pending w"
  "retries_of (drop_error k w) j = retries_of w j" "rw_timers (drop_error k w) = rw_timers w"
  "rw_full (drop_error k w) = rw_full w" "rw_pending (drop_error k w) = rw_pending w" "rw_attempts (drop_error k w) = rw_attempts w"
  "retries_of (w\<lparr>rw_timers := ts\<rparr>) j = retries_of w j" "retries_of (w\<lparr>rw_pending := ps\<rparr>) j = retries_of w j"
  "retries_of (w\<lparr>rw_full := b\<rparr>) j = retries_of w j"
  by (simp_all add: set_error_def drop_error_def retries_of_def)

lemma counted_ops:
  "counted D w \<Longrightarrow> counted D (set_error k m w)" "counted D w \<Longrightarrow> counted D (drop_error k w)"
  "counted D w \<Longrightarrow> counted D (cancel_retry_task_only k w)" "counted D w \<Longrightarrow> counted D (clear_retry k w)"
  "counted D w \<Longrightarrow> counted D (cancel_retry k w)"
  by (auto simp: counted_def cancel_retry_task_only_def clear_retry_def cancel_retry_def)

lemma counted_schedule: "counted D w \<Longrightarrow> counted D (schedule_retry D k w)"
  by (auto simp: counted_def schedule_retry_def retries_of_def [of "_\<lparr>rw_attempts := _, rw_timers := _\<rparr>"]
      split: option.splits)

lemma schedule_pursues: "pursued D todo (schedule_retry D k w) k"
  by (simp add: schedule_retry_def pursued_def)

lemma pursued_schedule: "pursued D todo w j \<Longrightarrow> pursued D todo (schedule_retry D k w) j"
proof -
  have a: "retries_of w i \<le> retries_of (schedule_retry D k w) i" for i
    by (auto simp: schedule_retry_def)
  have f: "rw_timers w \<subseteq> rw_timers (schedule_retry D k w)" "rw_full (schedule_retry D k w) = rw_full w"
    "rw_pending (schedule_retry D k w) = rw_pending w"
    by (auto simp: schedule_retry_def)
  show "pursued D todo w j \<Longrightarrow> pursued D todo (schedule_retry D k w) j"
    using f(1) order_trans [OF _ a, of "length D"] by (auto simp: pursued_def f(2,3))
qed

lemma pursued_clear: "j \<noteq> Some i \<Longrightarrow> pursued D todo (clear_retry (Some i) w) j = pursued D todo w j"
  by (simp add: pursued_def clear_retry_def cancel_retry_def cancel_retry_task_only_def)

lemma pursued_cancel_retry: "j \<noteq> Some i \<Longrightarrow> pursued D todo (cancel_retry (Some i) w) j = pursued D todo w j"
  by (simp add: pursued_def cancel_retry_def cancel_retry_task_only_def)

lemma pursued_cancel: "j \<noteq> Some i \<Longrightarrow> pursued D todo (cancel_retry_task_only (Some i) w) j = pursued D todo w j"
  by (simp add: pursued_def cancel_retry_task_only_def)

text \<open>A settled trigger leaves the queue: its error is gone or pursued.\<close>

lemma settled_clear:
  assumes "settled D todo (insert (Some i) K) w"
  shows "settled D todo (K - {Some i}) (clear_retry (Some i) w)"
  using assms by (auto simp: settled_def counted_ops pursued_clear)

lemma settled_next: "settled D (i # todo) K w \<Longrightarrow> settled D todo (insert (Some i) K) w"
  by (auto simp: settled_def pursued_def)

lemma settled_mono: "settled D todo K w \<Longrightarrow> K \<subseteq> L \<Longrightarrow> settled D todo L w"
  by (auto simp: settled_def)

lemma settled_retry:
  assumes "settled D todo (insert k K) w"
  shows "settled D todo (K - {k}) (schedule_retry D k (set_error k m w))"
proof -
  have "pursued D todo (schedule_retry D k (set_error k m w)) j" if "j \<in> error_keys w - insert k K" for j
  proof -
    have "pursued D todo w j" using assms that by (auto simp: settled_def)
    then have "pursued D todo (set_error k m w) j" by (simp add: pursued_def)
    then show ?thesis by (rule pursued_schedule)
  qed
  moreover have "error_keys (schedule_retry D k (set_error k m w)) \<subseteq> insert k (error_keys w)"
    using error_keys_schedule [of D k "set_error k m w"] by simp
  ultimately show ?thesis
    using assms schedule_pursues [of D todo k "set_error k m w"] counted_schedule [OF counted_ops(1)]
    unfolding settled_def by blast
qed


lemma migrate_frame:
  assumes "raw \<noteq> c"
  shows "error_keys (migrate_retry_state raw c w) \<subseteq> insert (Some c) (error_keys w - {Some raw})"
    "retries_of (migrate_retry_state raw c w) j = (if j = Some raw then 0
       else if j = Some c then max (retries_of w (Some raw)) (retries_of w (Some c)) else retries_of w j)"
    "rw_timers (migrate_retry_state raw c w) = rw_timers w - {Some raw}"
    "rw_full (migrate_retry_state raw c w) = rw_full w" "rw_pending (migrate_retry_state raw c w) = rw_pending w"
proof -
  define w1 where "w1 = (case rw_attempts w (Some raw) of None \<Rightarrow> w
    | Some n \<Rightarrow> w\<lparr>rw_attempts := (rw_attempts w)(Some raw := None, Some c \<mapsto> max n (retries_of w (Some c)))\<rparr>)"
  define w2 where "w2 = (case map_of (rw_errors w1) (Some raw) of None \<Rightarrow> w1
    | Some m \<Rightarrow> set_error (Some c) m (drop_error (Some raw) w1))"
  have m: "migrate_retry_state raw c w = cancel_retry_task_only (Some raw) w2"
    using assms by (simp add: migrate_retry_state_def Let_def w2_def [unfolded w1_def])
  have w1: "retries_of w1 j = (if j = Some raw then 0
      else if j = Some c then max (retries_of w (Some raw)) (retries_of w (Some c)) else retries_of w j)" for j
    using assms by (auto simp: w1_def retries_of_def split: option.split)
  have f1: "rw_timers w1 = rw_timers w" "rw_full w1 = rw_full w" "rw_pending w1 = rw_pending w" "error_keys w1 = error_keys w"
    by (simp_all add: w1_def error_keys_def split: option.split)
  have f2: "rw_timers w2 = rw_timers w1" "rw_full w2 = rw_full w1" "rw_pending w2 = rw_pending w1" "retries_of w2 j = retries_of w1 j"
    for j by (simp_all add: w2_def split: option.split)
  have "Some raw \<notin> error_keys w1" if "map_of (rw_errors w1) (Some raw) = None"
    using that by (simp add: error_keys_def map_of_eq_None_iff)
  then have "error_keys w2 \<subseteq> insert (Some c) (error_keys w1 - {Some raw})" by (auto simp: w2_def split: option.splits)
  then show "error_keys (migrate_retry_state raw c w) \<subseteq> insert (Some c) (error_keys w - {Some raw})" by (simp add: m f1)
  have a: "retries_of (cancel_retry_task_only k w2) j = retries_of w2 j" for k by (simp add: cancel_retry_task_only_def)
  then show "retries_of (migrate_retry_state raw c w) j = (if j = Some raw then 0
       else if j = Some c then max (retries_of w (Some raw)) (retries_of w (Some c)) else retries_of w j)"
    by (simp only: m a f2 w1)
  show "rw_timers (migrate_retry_state raw c w) = rw_timers w - {Some raw}"
    "rw_full (migrate_retry_state raw c w) = rw_full w" "rw_pending (migrate_retry_state raw c w) = rw_pending w"
    by (simp_all add: m cancel_retry_task_only_def f1 f2)
qed

lemma counted_migrate: "counted D w \<Longrightarrow> counted D (migrate_retry_state raw c w)"
proof (cases "raw = c")
  case False
  then show "counted D w \<Longrightarrow> counted D (migrate_retry_state raw c w)"
    by (auto simp: counted_def migrate_frame(2,3) le_max_iff_disj)
qed (simp add: migrate_retry_state_def)

lemma settled_migrate:
  assumes "settled D todo (insert (Some raw) K) w"
  shows "settled D todo (insert (Some c) K) (migrate_retry_state raw c w)"
proof (cases "raw = c")
  case False
  note m = migrate_frame [OF False, of w]
  have "pursued D todo (migrate_retry_state raw c w) k" if "k \<in> error_keys (migrate_retry_state raw c w) - insert (Some c) K" for k
  proof -
    have "k \<in> error_keys w - insert (Some raw) K" "k \<noteq> Some raw" "k \<noteq> Some c" using that m(1) by auto
    then have "pursued D todo w k" "k \<noteq> Some raw" "k \<noteq> Some c" using assms by (auto simp: settled_def)
    then show ?thesis by (simp add: pursued_def m(2-5))
  qed
  then show ?thesis using assms counted_migrate by (auto simp: settled_def)
qed (use assms in \<open>simp add: migrate_retry_state_def\<close>)

lemma settled_pass:
  assumes "settled D todo (insert (Some c) K) w"
  shows "settled D todo (K - {Some c}) (settle_pass D c r w)"
  using settled_retry [OF assms] settled_clear [OF assms]
  by (auto simp: settle_pass_def finish_attempt_def split: sum.split prod.split)

lemma settled_cancel:
  "settled D todo (insert (Some c) K) w \<Longrightarrow> settled D todo (insert (Some c) K) (cancel_retry_task_only (Some c) w)"
  by (auto simp: settled_def counted_ops pursued_cancel)

section \<open>The steps\<close>

lemma upd_worker_simps [simp]: "rk_worker (upd_worker f s) = f (rk_worker s)" "rk_phase (upd_worker f s) = rk_phase s"
  "rk_db (upd_worker f s) = rk_db s" "rk_world (upd_worker f s) = rk_world s" "rk_passes (upd_worker f s) = rk_passes s"
  by (simp_all add: upd_worker_def)

lemma apply_one_fields:
  assumes "apply_one E now stamp i s = (r, s')"
  shows "rk_worker s' = settle_pass (re_delays E) i r (rk_worker s)" "rk_phase s' = rk_phase s" "rk_passes s' = (i, rk_db s) # rk_passes s"
  using assms by (auto simp: apply_one_def split: prod.splits)

definition worker_inv :: "'w rw_env \<Rightarrow> 'w rw_sys \<Rightarrow> bool" where
  "worker_inv E s = settled (re_delays E) (phase_todo (rk_phase s)) {} (rk_worker s)"

lemma queue_one_settles:
  assumes "settled (re_delays E) todo {Some raw} (rk_worker s)" "queue_one E now stamp fault raw processed s = (p', s')"
  shows "settled (re_delays E) todo {} (rk_worker s')"
proof (cases fault)
  case (Some m)
  then show ?thesis using assms settled_retry [of _ _ "Some raw" "{}"] by (auto simp: queue_one_def lookup_failed_def)
next
  case None
  show ?thesis
  proof (cases "canonical_trigger_backup_id (rk_db s) raw")
    case (Some c)
    let ?w = "cancel_retry_task_only (Some c) (migrate_retry_state raw c (rk_worker s))"
    have "settled (re_delays E) todo {Some c} ?w"
      using settled_cancel [OF settled_migrate [OF assms(1)]] by simp
    then have "settled (re_delays E) todo {} (settle_pass (re_delays E) c r ?w)" for r using settled_pass [of _ _ c "{}"] by simp
    moreover have "settled (re_delays E) todo {} (clear_retry (Some raw) (rk_worker s))" using settled_clear [OF assms(1)] by simp
    ultimately show ?thesis using assms(2) None Some
      apply_one_fields(1) [OF prod.collapse [symmetric], of E now stamp c
        "upd_worker (\<lambda>w. cancel_retry_task_only (Some c) (migrate_retry_state raw c w)) s"]
      by (auto simp: queue_one_def split: if_splits)
  qed (use assms None settled_clear [OF assms(1)] in \<open>auto simp: queue_one_def\<close>)
qed

lemma sweep_one_settles:
  assumes "settled (re_delays E) todo {Some raw} (rk_worker s)"
  shows "settled (re_delays E) todo {} (rk_worker (sweep_one E now stamp fault raw s))"
proof (cases fault)
  case (Some m)
  then show ?thesis using assms settled_retry [of _ _ "Some raw" "{}"] by (auto simp: sweep_one_def lookup_failed_def)
next
  case None
  show ?thesis
  proof (cases "canonical_trigger_backup_id (rk_db s) raw")
    case (Some c)
    have "settled (re_delays E) todo {} (settle_pass (re_delays E) c r (migrate_retry_state raw c (rk_worker s)))" for r
      using settled_pass [of _ _ c "{}"] settled_migrate [OF assms] by simp
    then show ?thesis using None Some
      apply_one_fields(1) [OF prod.collapse [symmetric], of E now stamp c "upd_worker (migrate_retry_state raw c) s"]
      by (simp add: sweep_one_def)
  qed (use None settled_clear [OF assms] in \<open>simp add: sweep_one_def\<close>)
qed

section \<open>The sweep\<close>

lemma insort_same_key:
  "(\<And>y. y \<in> insert x (set ys) \<Longrightarrow> f y = (c, k y)) \<Longrightarrow> insort_key f x ys = insort_key k x ys"
  by (induction ys) auto

lemma sort_same_key: "(\<And>x. x \<in> set xs \<Longrightarrow> f x = (c, k x)) \<Longrightarrow> sort_key f xs = sort_key k xs"
proof (induction xs)
  case (Cons x xs)
  then have "insort_key f x (sort_key k xs) = insort_key k x (sort_key k xs)" by (intro insort_same_key) auto
  then show ?case using Cons by simp
qed simp

definition copies_of_guest :: "app_db \<Rightarrow> guest_key \<Rightarrow> backup_row list" where
  "copies_of_guest db g = newest_first (filter (\<lambda>b. guest_of b = g \<and> existing_copy b) (ad_backups db))"

abbreviation sweep_order :: "app_db \<Rightarrow> backup_row list" where
  "sweep_order db \<equiv> sort_key (\<lambda>b. (guest_order (guest_of b), newest_key b)) (filter existing_copy (ad_backups db))"

lemma sweep_order_guest: "filter (\<lambda>b. guest_of b = g) (sweep_order db) = copies_of_guest db g"
proof -
  have "filter (\<lambda>b. guest_of b = g) (sweep_order db) = sort_key (\<lambda>b. (guest_order (guest_of b), newest_key b))
      (filter (\<lambda>b. guest_of b = g \<and> existing_copy b) (ad_backups db))"
    by (simp add: filter_sort conj_commute)
  also have "\<dots> = copies_of_guest db g"
    unfolding copies_of_guest_def newest_first_def by (rule sort_same_key [where c = "guest_order g"]) simp
  finally show ?thesis .
qed

lemma find_filter: "find P xs = (case filter P xs of [] \<Rightarrow> None | x # _ \<Rightarrow> Some x)"
  by (induction xs) auto

definition first_of_guest :: "backup_row list \<Rightarrow> guest_key \<Rightarrow> nat option" where
  "first_of_guest bs g = map_option bh_id (find (\<lambda>b. guest_of b = g) bs)"

lemma first_of_guest_simps: "first_of_guest [] g = None"
  "first_of_guest (a # bs) g = (if guest_of a = g then Some (bh_id a) else first_of_guest bs g)"
  by (simp_all add: first_of_guest_def)

lemma first_per_guest_mem: "c \<in> set (first_per_guest seen bs) \<longleftrightarrow> (\<exists>g. g \<notin> set seen \<and> first_of_guest bs g = Some c)"
proof (induction bs arbitrary: seen)
  case (Cons a bs)
  show ?case
  proof (cases "guest_of a \<in> set seen")
    case True
    then have "(\<exists>g. g \<notin> set seen \<and> first_of_guest (a # bs) g = Some c) \<longleftrightarrow> (\<exists>g. g \<notin> set seen \<and> first_of_guest bs g = Some c)"
      unfolding first_of_guest_simps by metis
    then show ?thesis using True Cons.IH [of seen] by simp
  next
    case False
    then have "(\<exists>g. g \<notin> set seen \<and> first_of_guest (a # bs) g = Some c) \<longleftrightarrow>
        bh_id a = c \<or> (\<exists>g. g \<notin> set (guest_of a # seen) \<and> first_of_guest bs g = Some c)"
      unfolding first_of_guest_simps list.set by (metis (no_types, opaque_lifting) insert_iff option.inject)
    then show ?thesis using False Cons.IH [of "guest_of a # seen"] by (simp del: split_paired_Ex) blast
  qed
qed (simp add: first_of_guest_simps)

lemma first_per_guest_length: "length (first_per_guest seen bs) = card (guest_of ` set bs - set seen)"
proof (induction bs arbitrary: seen)
  case (Cons a bs)
  have "guest_of ` set (a # bs) - set seen = insert (guest_of a) (guest_of ` set bs - set (guest_of a # seen))"
    if "guest_of a \<notin> set seen" using that by auto
  moreover have "guest_of ` set (a # bs) - set seen = guest_of ` set bs - set seen" if "guest_of a \<in> set seen"
    using that by auto
  ultimately show ?case by (simp add: Cons.IH)
qed simp

lemma canonical_Some:
  "canonical_trigger_backup_id db i = Some c \<Longrightarrow> \<exists>g b rest. copies_of_guest db g = b # rest \<and> c = bh_id b"
proof -
  assume "canonical_trigger_backup_id db i = Some c"
  then obtain g where "(case copies_of_guest db g of [] \<Rightarrow> None | b # _ \<Rightarrow> Some (bh_id b)) = Some c"
    by (auto simp: canonical_trigger_backup_id_def copies_of_guest_def bind_eq_Some_conv)
  then obtain b rest where "copies_of_guest db g = b # rest" "c = bh_id b" by (cases "copies_of_guest db g") auto
  then show ?thesis by blast
qed

lemma newest_triggers_set: "set (newest_trigger_backup_ids db) = {bh_id b | b rest g. copies_of_guest db g = b # rest}"
proof -
  have "first_of_guest (sweep_order db) g = Some c \<longleftrightarrow> (\<exists>b rest. copies_of_guest db g = b # rest \<and> c = bh_id b)" for g c
    by (cases "copies_of_guest db g") (auto simp: first_of_guest_def find_filter sweep_order_guest)
  then show ?thesis unfolding newest_trigger_backup_ids_def set_eq_iff first_per_guest_mem
    by (simp del: split_paired_Ex) blast
qed

lemma canonical_swept: "canonical_trigger_backup_id db i = Some c \<Longrightarrow> c \<in> set (newest_trigger_backup_ids db)"
  using canonical_Some by (fastforce simp: newest_triggers_set)

lemma canonical_of_newest:
  assumes "backups_wf db" "copies_of_guest db g = b # rest"
  shows "canonical_trigger_backup_id db (bh_id b) = Some (bh_id b)"
proof -
  have "b \<in> set (copies_of_guest db g)" by (simp add: assms(2))
  then have b: "b \<in> set (ad_backups db)" "guest_of b = g" by (simp_all add: copies_of_guest_def newest_first_def)
  obtain q where q: "backup_get db (bh_id b) = Some q"
    using find_None_notin [of "\<lambda>x. bh_id x = bh_id b" "ad_backups db" b] b(1) by (cases "backup_get db (bh_id b)") (auto simp: backup_get_def)
  then have "q \<in> set (ad_backups db)" "bh_id q = bh_id b" unfolding backup_get_def by (auto dest: find_Some_mem)
  then have "q = b" using distinct_key_eq [OF assms(1) [unfolded backups_wf_def]] b(1) by blast
  then show ?thesis using assms(2) b(2) q
    by (simp add: canonical_trigger_backup_id_def guest_for_backup_def copies_of_guest_def)
qed

lemma migrate_error_keys:
  "error_keys (fold (migrate_error db) ids w) \<subseteq> (error_keys w - Some ` set ids) \<union> Some ` set (newest_trigger_backup_ids db)"
proof (induction ids arbitrary: w)
  case (Cons raw ids)
  have "error_keys (migrate_error db raw w) \<subseteq> (error_keys w - {Some raw}) \<union> Some ` set (newest_trigger_backup_ids db)"
  proof (cases "canonical_trigger_backup_id db raw")
    case (Some c)
    then show ?thesis using canonical_swept [OF Some] migrate_frame(1) [of raw c w]
      by (cases "raw = c") (auto simp: migrate_error_def migrate_retry_state_def)
  qed (simp add: migrate_error_def)
  then show ?case using Cons.IH [of "migrate_error db raw w"] by auto
qed simp

lemma counted_migrate_errors: "counted D w \<Longrightarrow> counted D (fold (migrate_error db) ids w)"
  by (induction ids arbitrary: w) (simp_all add: migrate_error_def counted_ops counted_migrate split: option.split)

lemma start_sweep_inv:
  assumes "counted (re_delays E) (rk_worker s)"
  shows "worker_inv E (start_sweep E fault s)"
proof (cases fault)
  case (Some m)
  let ?w = "schedule_retry (re_delays E) None (set_error None (''Retention startup scan failed: '' @ m) (rk_worker s))"
  have "pursued (re_delays E) [] ?w None" by (rule schedule_pursues)
  then have "pursued (re_delays E) [] ?w k" for k by (auto simp: pursued_def)
  then show ?thesis using assms Some
    by (simp add: worker_inv_def start_sweep_def settled_def counted_schedule counted_ops)
next
  case None
  let ?w = "fold (migrate_error (rk_db s)) (List.map_filter fst (rw_errors (rk_worker s))) (clear_retry None (rk_worker s))"
  have "k \<in> Some ` set (List.map_filter fst (rw_errors (rk_worker s)))" if k: "k \<in> error_keys (rk_worker s)" "k \<noteq> None" for k
  proof -
    obtain i m where "k = Some i" "(Some i, m) \<in> set (rw_errors (rk_worker s))" using k by (auto simp: error_keys_def)
    then show ?thesis by (force simp: set_map_filter)
  qed
  then have "error_keys (clear_retry None (rk_worker s)) - Some ` set (List.map_filter fst (rw_errors (rk_worker s))) = {}"
    unfolding error_keys_simps by blast
  then have "error_keys ?w \<subseteq> Some ` set (newest_trigger_backup_ids (rk_db s))"
    using migrate_error_keys [of "rk_db s" "List.map_filter fst (rw_errors (rk_worker s))" "clear_retry None (rk_worker s)"] by blast
  then show ?thesis using assms None
    by (auto simp: worker_inv_def start_sweep_def settled_def counted_migrate_errors counted_ops pursued_def)
qed

lemma counted_idle: "counted D idle_worker"
  by (simp add: counted_def idle_worker_def retries_of_def)

lemma settled_queue: "settled D todo {} w \<Longrightarrow> settled D todo {} (queue_trigger None w)"
  by (auto simp: settled_def queue_trigger_def pursued_def counted_def)

lemma settled_trigger:
  assumes "settled D todo {Some i} w"
  shows "settled D todo {} (queue_trigger (Some i) w)"
  using assms by (auto simp: settled_def queue_trigger_def pursued_def counted_def)

lemma notify_settles:
  assumes "settled D todo {} w"
  shows "settled D todo {} (notify_worker k w)"
proof (cases k)
  case None
  have "counted D (cancel_all_retries w)" by (simp add: counted_def cancel_all_retries_def retries_of_def)
  then show ?thesis using None
    by (auto simp: notify_worker_def queue_trigger_def settled_def counted_def pursued_def)
next
  case (Some i)
  have "settled D todo {Some i} (cancel_retry (Some i) w)"
    using assms by (auto simp: settled_def counted_ops pursued_cancel_retry)
  then show ?thesis using settled_trigger Some by (simp add: notify_worker_def)
qed

lemma timer_settles:
  assumes "settled D todo {} w"
  shows "settled D todo {} (retry_after k w)"
proof (cases k)
  case None
  then show ?thesis using assms
    by (auto simp: retry_after_def queue_trigger_def settled_def counted_def pursued_def cancel_retry_task_only_def)
next
  case (Some i)
  have "settled D todo {Some i} (cancel_retry_task_only (Some i) w)"
    using assms by (auto simp: settled_def counted_ops pursued_cancel)
  then show ?thesis using settled_trigger Some by (simp add: retry_after_def)
qed

lemma advance_inv:
  assumes "worker_inv E s"
  shows "worker_inv E (worker_advance E now stamp fault s)"
proof (cases "rk_phase s")
  case RW_Idle
  have c: "counted (re_delays E) (rk_worker s)" using assms by (simp add: worker_inv_def settled_def)
  have "worker_inv E (start_sweep E fault (upd_worker (\<lambda>w. w\<lparr>rw_full := False, rw_pending := []\<rparr>) s))"
    by (rule start_sweep_inv) (use c in \<open>simp add: counted_def\<close>)
  moreover have "settled (re_delays E) (sort (rw_pending w)) {} (w\<lparr>rw_pending := []\<rparr>)"
    if "settled (re_delays E) [] {} w" for w
    using that by (auto simp: settled_def counted_def pursued_def)
  ultimately show ?thesis using assms RW_Idle by (simp add: worker_advance_def drain_pending_def Let_def worker_inv_def)
next
  case (RW_Queue todo processed)
  show ?thesis
  proof (cases todo)
    case (Cons raw rest)
    obtain p' s' where q: "queue_one E now stamp fault raw processed s = (p', s')" by fastforce
    have "settled (re_delays E) rest {Some raw} (rk_worker s)"
      using assms RW_Queue Cons settled_next [of _ raw rest "{}"] by (simp add: worker_inv_def)
    from queue_one_settles [OF this q] show ?thesis
      by (simp add: worker_advance_def RW_Queue Cons q worker_inv_def)
  qed (use assms RW_Queue in \<open>simp add: worker_advance_def worker_inv_def\<close>)
next
  case (RW_Sweep todo)
  show ?thesis
  proof (cases todo)
    case (Cons raw rest)
    have "settled (re_delays E) rest {Some raw} (rk_worker s)"
      using assms RW_Sweep Cons settled_next [of _ raw rest "{}"] by (simp add: worker_inv_def)
    from sweep_one_settles [OF this] show ?thesis by (simp add: worker_advance_def RW_Sweep Cons worker_inv_def)
  qed (use assms RW_Sweep in \<open>simp add: worker_advance_def worker_inv_def\<close>)
qed

lemma once_inv:
  assumes "worker_inv E s" "run_once E now stamp k s = (answer, s')"
  shows "worker_inv E s'"
proof (cases k)
  case (Some raw)
  have w: "settled (re_delays E) (phase_todo (rk_phase s)) {Some raw} (rk_worker s)"
    using assms(1) settled_mono [of _ _ "{}"] by (simp add: worker_inv_def)
  show ?thesis
  proof (cases "canonical_trigger_backup_id (rk_db s) raw")
    case (Some c)
    let ?s = "upd_worker (\<lambda>w. cancel_retry_task_only (Some c) (migrate_retry_state raw c w)) s"
    have a: "apply_one E now stamp c ?s = (answer, s')" using assms(2) \<open>k = Some raw\<close> Some by (simp add: run_once_def)
    have "settled (re_delays E) (phase_todo (rk_phase s)) {Some c} (rk_worker ?s)" using settled_cancel [OF settled_migrate [OF w]] by simp
    then show ?thesis using settled_pass [of _ _ c "{}"] apply_one_fields(1,2) [OF a] by (simp add: worker_inv_def)
  next
    case None
    then show ?thesis using assms(2) \<open>k = Some raw\<close> settled_clear [OF w] by (auto simp: run_once_def worker_inv_def)
  qed
qed (use assms in \<open>auto simp: run_once_def\<close>)

lemma rw_step_inv: "rw_step E s s' \<Longrightarrow> worker_inv E s \<Longrightarrow> worker_inv E s'"
proof (induction rule: rw_step.induct)
  case (w_notify s k)
  then show ?case by (simp add: worker_inv_def notify_settles)
next
  case (w_timer k s)
  then show ?case by (simp add: worker_inv_def timer_settles)
next
  case (w_start s fault)
  then show ?case unfolding start_worker_def by (intro start_sweep_inv) (simp add: counted_idle)
next
  case (w_other s db' world')
  then show ?case by (simp add: worker_inv_def)
qed (simp_all add: advance_inv once_inv)

lemma rw_reachable_inv: "rw_reachable E s \<Longrightarrow> worker_inv E s"
proof (induction rule: rw_reachable.induct)
  case (rw_init fault db world)
  then show ?case unfolding start_worker_def by (intro start_sweep_inv) (simp add: counted_idle)
qed (rule rw_step_inv)


text \<open>A step makes at most one pass, for the canonical trigger of the moment.\<close>

definition passed :: "'w rw_sys \<Rightarrow> 'w rw_sys \<Rightarrow> bool" where
  "passed s s' = (rk_passes s' = rk_passes s
     \<or> (\<exists>raw c. canonical_trigger_backup_id (rk_db s) raw = Some c \<and> rk_passes s' = (c, rk_db s) # rk_passes s))"

lemma apply_one_passed:
  assumes "canonical_trigger_backup_id (rk_db s) raw = Some c" "apply_one E now stamp c (upd_worker f s) = (r, s')"
  shows "passed s s'"
  using apply_one_fields(3) [OF assms(2)] assms(1) by (auto simp: passed_def)

lemma queue_one_passed: "queue_one E now stamp fault raw processed s = (p', s') \<Longrightarrow> passed s s'"
  using apply_one_passed [of s raw _ E now stamp "\<lambda>w. cancel_retry_task_only (Some c) (migrate_retry_state raw c w)" for c, OF _ prod.collapse [symmetric]]
  by (auto simp: queue_one_def passed_def split: option.splits if_splits)

lemma sweep_one_passed: "passed s (sweep_one E now stamp fault raw s)"
  using apply_one_passed [of s raw _ E now stamp "migrate_retry_state raw c" for c, OF _ prod.collapse [symmetric]]
  by (auto simp: sweep_one_def passed_def split: option.split)

lemma run_once_passed: "run_once E now stamp k s = (r, s') \<Longrightarrow> passed s s'"
  using apply_one_passed by (fastforce simp: run_once_def passed_def split: option.splits)

lemma sweep_start_passes [simp]: "rk_passes (start_sweep E fault s) = rk_passes s"
  by (simp add: start_sweep_def split: option.split)

lemma advance_passed: "passed s (worker_advance E now stamp fault s)"
proof (cases "rk_phase s")
  case RW_Idle
  then show ?thesis by (simp add: worker_advance_def drain_pending_def Let_def passed_def)
next
  case (RW_Queue todo processed)
  show ?thesis
  proof (cases todo)
    case (Cons raw rest)
    obtain p' s' where q: "queue_one E now stamp fault raw processed s = (p', s')" by fastforce
    then show ?thesis using queue_one_passed [OF q] by (simp add: worker_advance_def RW_Queue Cons passed_def)
  qed (simp add: worker_advance_def RW_Queue passed_def)
next
  case (RW_Sweep todo)
  show ?thesis
  proof (cases todo)
    case (Cons raw rest)
    then show ?thesis using sweep_one_passed [of s E now stamp fault raw] by (simp add: worker_advance_def RW_Sweep passed_def)
  qed (simp add: worker_advance_def RW_Sweep passed_def)
qed

lemma rw_step_passed: "rw_step E s s' \<Longrightarrow> passed s s'"
proof (induction rule: rw_step.induct)
  case (w_work s now stamp fault)
  show ?case by (rule advance_passed)
next
  case (w_once s now stamp k answer s')
  show ?case by (rule run_once_passed [OF w_once(2)])
qed (simp_all add: passed_def start_worker_def)

definition newest_copy :: "app_db \<Rightarrow> nat \<Rightarrow> bool" where
  "newest_copy db i = (\<exists>g b rest. copies_of_guest db g = b # rest \<and> bh_id b = i)"

lemma canonical_newest: "canonical_trigger_backup_id db raw = Some c \<Longrightarrow> newest_copy db c"
  using canonical_Some [of db raw c] unfolding newest_copy_def by blast

lemma rw_reachable_passes: "rw_reachable E s \<Longrightarrow> \<forall>(i, db) \<in> set (rk_passes s). newest_copy db i"
proof (induction rule: rw_reachable.induct)
  case (rw_init fault db world)
  then show ?case by (simp add: start_worker_def)
next
  case (rw_more s s')
  show ?case using rw_step_passed [OF rw_more(2)] rw_more(3)
    by (auto simp: passed_def intro: canonical_newest)
qed

section \<open>Properties\<close>

text \<open>
  A sweep misses no guest: the triggers it visits are exactly the canonical triggers, one for every guest
  of which a copy exists.
\<close>

theorem sweep_visits_every_guest:
  assumes "backups_wf db"
  shows "set (newest_trigger_backup_ids db) = {c. \<exists>i. canonical_trigger_backup_id db i = Some c}
    \<and> length (newest_trigger_backup_ids db) = card (guest_of ` {b \<in> set (ad_backups db). existing_copy b})"
proof
  show "set (newest_trigger_backup_ids db) = {c. \<exists>i. canonical_trigger_backup_id db i = Some c}"
    using canonical_swept canonical_of_newest [OF assms] by (fastforce simp: newest_triggers_set)
  show "length (newest_trigger_backup_ids db) = card (guest_of ` {b \<in> set (ad_backups db). existing_copy b})"
    by (simp add: newest_trigger_backup_ids_def first_per_guest_length)
qed

text \<open>
  No failure is forgotten: whatever notifications, timers, requests, restarts and failures come, every
  trigger with a recorded error is queued, or its retry or the one of the sweep sleeps, or a sweep is due, or
  its retries are used up; and no trigger is retried more often than there are delays.
\<close>

theorem failed_pass_is_pursued:
  assumes "rw_reachable E s"
  shows "(\<forall>k \<in> error_keys (rk_worker s). pursued (re_delays E) (phase_todo (rk_phase s)) (rk_worker s) k)
    \<and> (\<forall>k. retries_of (rk_worker s) k \<le> length (re_delays E))"
  using rw_reachable_inv [OF assms] by (simp add: worker_inv_def settled_def counted_def)

text \<open>A stale completion applies no older policy: every pass is one for the newest existing copy of its guest.\<close>

theorem passes_are_for_the_newest_copy:
  assumes "rw_reachable E s" and "(i, db) \<in> set (rk_passes s)"
  shows "\<exists>g b rest. copies_of_guest db g = b # rest \<and> bh_id b = i"
  using rw_reachable_passes [OF assms(1)] assms(2) by (auto simp: newest_copy_def)

section \<open>A concrete worker\<close>

definition demo_rw_env :: "nat rw_env" where
  "demo_rw_env = \<lparr>re_agent = demo_ret_agent, re_notify = demo_notify, re_delays = retry_delays DEFAULT_RETRY_DELAYS\<rparr>"

definition demo_rw :: "string option \<Rightarrow> nat rw_sys" where
  "demo_rw fault = start_worker demo_rw_env fault
     \<lparr>rk_db = demo_ret_db, rk_world = 0, rk_worker = idle_worker, rk_phase = RW_Idle, rk_passes = []\<rparr>"

lemma demo_rw_reachable: "rw_reachable demo_rw_env (demo_rw fault)"
  unfolding demo_rw_def by (rule rw_init)

lemma demo_copies: "copies_of_guest demo_ret_db (101, VM) = [demo_copy]" "existing_copy demo_copy" "guest_of demo_copy = (101, VM)"
  by (simp_all add: copies_of_guest_def newest_first_def demo_ret_db_def guest_of_def demo_copy_def existing_copy_def has_local_copy_def)

lemma demo_triggers: "newest_trigger_backup_ids demo_ret_db = [7]"
  by (simp add: newest_trigger_backup_ids_def demo_ret_db_def demo_copies) (simp add: demo_copy_def)

theorem sweep_visits_every_guest_witness: "{c. \<exists>i. canonical_trigger_backup_id demo_ret_db i = Some c} = {7}"
  using sweep_visits_every_guest [OF demo_wf(1)] by (simp add: demo_triggers)

theorem failed_pass_is_pursued_witness:
  "error_keys (rk_worker (demo_rw (Some ''locked''))) = {None} \<and> pursued (re_delays demo_rw_env) [] (rk_worker (demo_rw (Some ''locked''))) None"
proof -
  have "error_keys (rk_worker (demo_rw (Some ''locked''))) = {None}" "rk_phase (demo_rw (Some ''locked'')) = RW_Idle"
    by (simp_all add: demo_rw_def start_worker_def start_sweep_def schedule_retry_def error_keys_def set_error_def idle_worker_def
        demo_rw_env_def retry_delays_def DEFAULT_RETRY_DELAYS_def retries_of_def)
  then show ?thesis using failed_pass_is_pursued [OF demo_rw_reachable [of "Some ''locked''"]] by simp
qed

theorem passes_are_for_the_newest_copy_witness:
  "rk_passes (worker_advance demo_rw_env 9 (\<lambda>_ _. 9) None (demo_rw None)) = [(7, demo_ret_db)]
    \<and> (\<exists>g b rest. copies_of_guest demo_ret_db g = b # rest \<and> bh_id b = 7)"
proof -
  let ?s = "worker_advance demo_rw_env 9 (\<lambda>_ _. 9) None (demo_rw None)"
  have d: "rk_phase (demo_rw None) = RW_Sweep [7]" "rk_db (demo_rw None) = demo_ret_db" "rk_passes (demo_rw None) = []"
    by (simp_all add: demo_rw_def start_worker_def start_sweep_def demo_triggers)
  have c: "canonical_trigger_backup_id demo_ret_db 7 = Some 7"
    using canonical_of_newest [OF demo_wf(1) demo_copies(1)] by (simp add: demo_key)
  have p: "rk_passes ?s = [(7, demo_ret_db)]"
    by (simp add: worker_advance_def d sweep_one_def c apply_one_def split: prod.split)
  have "rw_reachable demo_rw_env ?s" by (rule rw_more [OF demo_rw_reachable w_work])
  from passes_are_for_the_newest_copy [OF this, of 7 demo_ret_db] p show ?thesis by simp
qed

end
