(* ===== verification/Row_Tables.thy ===== *)
theory Row_Tables
  imports Prelude
begin

text \<open>
  A database table as a state machine: its rows keep their key and their place, each step moves some
  of them along an allowed relation and appends fresh ones. \<open>row_table\<close> is what such a table promises;
  the tables of restores, transfers and runs are interpretations of it.
\<close>

definition table_grows :: "('r \<Rightarrow> nat) \<Rightarrow> ('r \<Rightarrow> 'r \<Rightarrow> bool) \<Rightarrow> ('r \<Rightarrow> bool) \<Rightarrow> 'r list \<Rightarrow> 'r list \<Rightarrow> bool" where
  "table_grows key move fresh xs ys \<longleftrightarrow> (\<exists>olds new. ys = olds @ new \<and> list_all2 move xs olds
     \<and> (\<forall>r \<in> set new. fresh r) \<and> (distinct (map key xs) \<longrightarrow> distinct (map key ys)))"

locale row_table =
  fixes key :: "'r \<Rightarrow> nat" and move :: "'r \<Rightarrow> 'r \<Rightarrow> bool" and fresh :: "'r \<Rightarrow> bool"
  assumes move_refl: "move r r"
    and move_key: "move r r' \<Longrightarrow> key r' = key r"
begin

lemma moved_keys: "list_all2 move xs ys \<Longrightarrow> map key ys = map key xs"
  by (induction xs ys rule: list_all2_induct) (auto simp: move_key)

lemma grows_moved: "list_all2 move xs ys \<Longrightarrow> table_grows key move fresh xs ys"
  unfolding table_grows_def using moved_keys by (metis append_Nil2 empty_iff empty_set)

lemma grows_same: "table_grows key move fresh xs xs"
  by (rule grows_moved) (simp add: list_all2_refl move_refl)

lemma grows_updated:
  "(\<And>r. r \<in> set xs \<Longrightarrow> P r \<Longrightarrow> move r (f r)) \<Longrightarrow> table_grows key move fresh xs (upd_where P f xs)"
  by (intro grows_moved list_all2_upd_where) (auto simp: move_refl)

lemma grows_appended:
  assumes "fresh r" "key r \<notin> key ` set xs"
  shows "table_grows key move fresh xs (xs @ [r])"
  unfolding table_grows_def
  using assms by (intro exI [of _ xs] exI [of _ "[r]"]) (auto simp: list_all2_refl move_refl)

lemma grows_distinct: "table_grows key move fresh xs ys \<Longrightarrow> distinct (map key xs) \<Longrightarrow> distinct (map key ys)"
  by (auto simp: table_grows_def)

lemma grows_old: "table_grows key move fresh xs ys \<Longrightarrow> r \<in> set xs \<Longrightarrow> \<exists>r' \<in> set ys. move r r'"
  unfolding table_grows_def by (elim exE conjE) (metis Un_iff list_all2_mem1 set_append)

lemma grows_new:
  "table_grows key move fresh xs ys \<Longrightarrow> r' \<in> set ys \<Longrightarrow> fresh r' \<or> (\<exists>r \<in> set xs. move r r')"
  unfolding table_grows_def by (elim exE conjE) (metis Un_iff list_all2_mem2 set_append)

text \<open>A property of single rows that fresh rows have and moves keep holds of every row.\<close>

lemma grows_all:
  assumes "table_grows key move fresh xs ys" "\<And>r. r \<in> set xs \<Longrightarrow> Q r"
    and "\<And>r. fresh r \<Longrightarrow> Q r" "\<And>r r'. r \<in> set xs \<Longrightarrow> Q r \<Longrightarrow> move r r' \<Longrightarrow> Q r'"
  shows "r' \<in> set ys \<Longrightarrow> Q r'"
  using grows_new [OF assms(1)] assms(2-4) by blast

end

end
