(* ===== verification/Restore_Exec.thy ===== *)
theory Restore_Exec
  imports Restore Row_Tables
begin

text \<open>
  The restore executor, \<open>backend/app/workers/restore_worker.py\<close>, as a state machine: a phase is where
  \<open>_execute\<close> is between two awaits, so requests, expiry and a crash can fall between any two of them.
  An answer of the agent is an argument of the step; \<open>App_Internal\<close> stands for an exception that is
  not an \<open>AppError\<close>. \<open>zs_sent\<close> records, for the proofs, the restores whose start was sent to the
  agent. Progress events and log lines are left out.
\<close>

section \<open>Plans and agent tasks\<close>

record restore_plan =
  rq_restore_id :: nat
  rq_filename :: string
  rq_guest_type :: guest_type
  rq_target_vmid :: nat
  rq_storage :: string
  rq_overwrite :: bool
  rq_force_stop :: bool
  rq_start_after :: bool
  rq_source :: restore_source
  rq_expected_sha256 :: "string option"
  rq_backup_id :: nat

text \<open>
  The last five fields are \<open>result.get(...)\<close> of \<open>warnings\<close>, \<open>filename\<close>, \<open>path\<close>, \<open>size_bytes\<close> and
  \<open>checksum_sha256\<close>, \<open>None\<close> where the value is absent or fails the \<open>isinstance\<close> test its readers make;
  the warnings are the texts \<open>str\<close> gives.
\<close>

record agent_task =
  at_state :: string
  at_error :: "string option"
  at_finished_at :: "datetime option"
  at_duration_seconds :: "rat option"
  at_warnings :: "string list option"
  at_filename :: "string option"
  at_path :: "string option"
  at_size_bytes :: "int option"
  at_checksum :: "string option"

definition at_terminal :: "agent_task \<Rightarrow> bool" where
  "at_terminal t = (at_state t \<in> {''success'', ''failed'', ''cancelled'', ''interrupted''})"

definition at_succeeded :: "agent_task \<Rightarrow> bool" where
  "at_succeeded t = (at_state t = ''success'')"

definition restore_status_of :: "string \<Rightarrow> restore_status" where
  "restore_status_of s = (if s = ''success'' then RS_SUCCESS else if s = ''failed'' then RS_FAILED
     else if s = ''cancelled'' then RS_CANCELLED else if s = ''interrupted'' then RS_INTERRUPTED else RS_FAILED)"

definition warning_text :: "string list option \<Rightarrow> string option" where
  "warning_text ws = (if ws \<in> {None, Some []} then None else Some (take 2000 (join_with ''; '' (the ws))))"

definition or_else :: "string option \<Rightarrow> string option \<Rightarrow> string option" where
  "or_else a b = (case a of None \<Rightarrow> b | Some s \<Rightarrow> if s = [] then b else Some s)"

section \<open>Writes\<close>

definition seconds_between :: "datetime \<Rightarrow> datetime \<Rightarrow> rat" where
  "seconds_between a b = of_int (b - a) / 1000000"

text \<open>\<open>_notify_started\<close> and \<open>_notify_finished\<close>: queued in the transaction that moves the row.\<close>

definition notify_started :: "notify_config \<Rightarrow> datetime \<Rightarrow> restore_row \<Rightarrow> app_db \<Rightarrow> app_db" where
  "notify_started C now r db = snd (enqueue C now RESTORE_STARTED
     [(''restore_id'', J_int (int (rh_id r))),
      (''filename'', case Option.bind (backup_get db (rh_backup_id r)) bh_filename of
         None \<Rightarrow> J_null | Some f \<Rightarrow> J_str f),
      (''target_vmid'', J_int (int (rh_target_vmid r))),
      (''target_type'', J_str (guest_type_value (rh_target_type r))),
      (''target_storage'', J_str (rh_target_storage r)), (''source'', J_str (restore_source_value (rh_source r))),
      (''overwrite'', J_bool (rh_overwrite r))]
     (Some (''restore:'' @ show_nat (rh_id r) @ '':started'')) True (Some (rh_backup_id r)) (Some (rh_id r)) db)"

definition notify_finished :: "notify_config \<Rightarrow> datetime \<Rightarrow> restore_row \<Rightarrow> app_db \<Rightarrow> app_db" where
  "notify_finished C now r db =
     (if rh_status r = RS_CANCELLED then db
      else let ok = (rh_status r = RS_SUCCESS);
               text = (case rh_error_message r of None \<Rightarrow> J_null | Some m \<Rightarrow> J_str m) in
       snd (enqueue C now (if ok then RESTORE_FINISHED else RESTORE_FAILED)
         [(''restore_id'', J_int (int (rh_id r))), (''target_vmid'', J_int (int (rh_target_vmid r))),
          (''target_type'', J_str (guest_type_value (rh_target_type r))),
          (''duration_seconds'', case rh_duration_seconds r of None \<Rightarrow> J_null | Some d \<Rightarrow> J_num d),
          (''status'', J_str (restore_status_value (rh_status r))),
          (''warning'', if ok then text else J_null), (''error'', if ok then J_null else text)]
         (Some (''restore:'' @ show_nat (rh_id r) @ (if ok then '':restore_finished'' else '':restore_failed'')))
         True (Some (rh_backup_id r)) (Some (rh_id r)) db))"

definition claim_row :: "datetime \<Rightarrow> restore_row \<Rightarrow> restore_row" where
  "claim_row now r = r\<lparr>rh_status := RS_RUNNING,
     rh_started_at := (if rh_started_at r = None then Some now else rh_started_at r)\<rparr>"

definition outcome_row :: "datetime \<Rightarrow> agent_task \<Rightarrow> restore_row \<Rightarrow> restore_row" where
  "outcome_row now t r = r\<lparr>rh_status := restore_status_of (at_state t),
     rh_finished_at := (if at_finished_at t = None then Some now else at_finished_at t),
     rh_duration_seconds := at_duration_seconds t,
     rh_error_message := or_else (at_error t) (warning_text (at_warnings t))\<rparr>"

definition close_row :: "datetime \<Rightarrow> restore_status \<Rightarrow> string \<Rightarrow> restore_row \<Rightarrow> restore_row" where
  "close_row now status message r = r\<lparr>rh_status := status, rh_error_message := Some message,
     rh_finished_at := Some now,
     rh_duration_seconds := (case rh_started_at r of None \<Rightarrow> rh_duration_seconds r
        | Some t \<Rightarrow> Some (py_round (seconds_between t now) 2))\<rparr>"

definition with_restore :: "nat \<Rightarrow> (restore_row \<Rightarrow> restore_row) \<Rightarrow> (restore_row \<Rightarrow> app_db \<Rightarrow> app_db) \<Rightarrow> app_db \<Rightarrow> app_db" where
  "with_restore i f announce db = (case restore_get db i of None \<Rightarrow> db
     | Some r \<Rightarrow> announce (f r) (set_restore i f db))"

definition record_outcome :: "notify_config \<Rightarrow> datetime \<Rightarrow> nat \<Rightarrow> agent_task \<Rightarrow> app_db \<Rightarrow> app_db" where
  "record_outcome C now i t db = with_restore i (outcome_row now t) (notify_finished C now) db"

definition close_restore :: "notify_config \<Rightarrow> datetime \<Rightarrow> nat \<Rightarrow> restore_status \<Rightarrow> string \<Rightarrow> app_db \<Rightarrow> app_db" where
  "close_restore C now i status message db = with_restore i (close_row now status message) (notify_finished C now) db"

definition attach_task :: "nat \<Rightarrow> string \<Rightarrow> app_db \<Rightarrow> app_db" where
  "attach_task i t db = set_restore i (\<lambda>r. r\<lparr>rh_agent_task_id := Some t\<rparr>) db"

definition mark_local_copy_present :: "nat \<Rightarrow> app_db \<Rightarrow> app_db" where
  "mark_local_copy_present b db = set_backup b (\<lambda>r. r\<lparr>bh_local_deleted_at := None\<rparr>) db"

section \<open>Phases\<close>

datatype phase =
    W_Idle
  | W_Claimed nat "string option" \<comment> \<open>claimed, or adopted with its agent task\<close>
  | W_Fetch restore_plan
  | W_Fetching restore_plan string "clock option" \<comment> \<open>download task, unreachable since\<close>
  | W_Fetched restore_plan
  | W_Send restore_plan
  | W_Sent restore_plan
  | W_Accepted nat string
  | W_Watch nat string "clock option"
  | W_Report nat agent_task
  | W_Closing nat restore_status string

record restore_sys =
  zs_db :: app_db
  zs_resume :: "(nat \<times> string) list"
  zs_phase :: phase
  zs_task :: "string option" \<comment> \<open>\<open>_current_agent_task\<close>\<close>
  zs_sent :: "nat list"

text \<open>\<open>_load\<close>\<close>

definition load_plan :: "app_db \<Rightarrow> nat \<Rightarrow> restore_plan option \<times> string option" where
  "load_plan db i = (case restore_get db i of
     None \<Rightarrow> (None, None)
   | Some r \<Rightarrow> (case backup_get db (rh_backup_id r) of
       None \<Rightarrow> (None, Some ''The backup this restore refers to no longer has an artifact.'')
     | Some b \<Rightarrow> (case bh_filename b of
         None \<Rightarrow> (None, Some ''The backup this restore refers to no longer has an artifact.'')
       | Some f \<Rightarrow> (Some \<lparr>rq_restore_id = rh_id r, rq_filename = f, rq_guest_type = rh_target_type r,
           rq_target_vmid = rh_target_vmid r, rq_storage = rh_target_storage r, rq_overwrite = rh_overwrite r,
           rq_force_stop = rh_force_stop r, rq_start_after = rh_start_after r, rq_source = rh_source r,
           rq_expected_sha256 = bh_checksum_sha256 b, rq_backup_id = bh_id b\<rparr>, None))))"

definition CRASHED :: string where "CRASHED = ''The restore executor failed unexpectedly.''"

text \<open>\<open>_claim_next\<close>: adopted restores first, then the oldest confirmed one.\<close>

definition claim_restore :: "notify_config \<Rightarrow> datetime \<Rightarrow> restore_sys \<Rightarrow> restore_sys" where
  "claim_restore C now s = (case zs_resume s of
     (i, t) # rest \<Rightarrow> s\<lparr>zs_resume := rest, zs_phase := W_Claimed i (Some t)\<rparr>
   | [] \<Rightarrow> (case next_confirmed (zs_db s) of
       None \<Rightarrow> s
     | Some r \<Rightarrow> s\<lparr>zs_db := notify_started C now (claim_row now r)
           (set_restore (rh_id r) (claim_row now) (zs_db s)),
         zs_phase := W_Claimed (rh_id r) None\<rparr>))"

definition execute_begin :: "app_db \<Rightarrow> nat \<Rightarrow> string option \<Rightarrow> phase" where
  "execute_begin db i adopted = (case adopted of
     Some t \<Rightarrow> W_Watch i t None
   | None \<Rightarrow> (case load_plan db i of
       (Some p, _) \<Rightarrow> if rq_source p = SRC_GDRIVE then W_Fetch p else W_Send p
     | (None, Some problem) \<Rightarrow> W_Closing i RS_FAILED problem
     | (None, None) \<Rightarrow> W_Idle))"

definition fetch_begin :: "gdrive_settings \<Rightarrow> restore_plan \<Rightarrow> app_error + string \<Rightarrow> phase" where
  "fetch_begin g p started =
     (if \<not> gd_enabled g then W_Closing (rq_restore_id p) RS_FAILED ''Drive sync is disabled, so the archive cannot be fetched.''
      else case started of
          Inr t \<Rightarrow> W_Fetching p t None
        | Inl (App_Internal d) \<Rightarrow> W_Closing (rq_restore_id p) RS_INTERRUPTED CRASHED
        | Inl e \<Rightarrow> W_Closing (rq_restore_id p) RS_FAILED (app_detail e))"

text \<open>One round of \<open>_poll\<close>.\<close>

datatype poll_result = Poll_Done agent_task | Poll_Lost string | Poll_Wait "clock option" | Poll_Crash

definition poll_once :: "rat \<Rightarrow> clock \<Rightarrow> clock option \<Rightarrow> app_error + agent_task \<Rightarrow> poll_result" where
  "poll_once grace now since answer = (case answer of
     Inr t \<Rightarrow> if at_terminal t then Poll_Done t else Poll_Wait None
   | Inl e \<Rightarrow>
      (let since' = (case since of None \<Rightarrow> now | Some t \<Rightarrow> if t = 0 then now else t);
           retry = (if now - since' > grace then Poll_Lost ''The agent stopped answering while this restore was running''
             else Poll_Wait (Some since')) in
       case e of
         App_AgentError d status \<Rightarrow> if status = Some 404
           then Poll_Lost ''The agent no longer has a record of this task'' else retry
       | App_AgentUnavailable d \<Rightarrow> retry
       | _ \<Rightarrow> Poll_Crash))"

definition fetch_poll :: "rat \<Rightarrow> clock \<Rightarrow> restore_plan \<Rightarrow> string \<Rightarrow> clock option \<Rightarrow> app_error + agent_task \<Rightarrow> phase" where
  "fetch_poll grace now p t since answer = (case poll_once grace now since answer of
     Poll_Wait since' \<Rightarrow> W_Fetching p t since'
   | Poll_Lost m \<Rightarrow> W_Closing (rq_restore_id p) RS_INTERRUPTED m
   | Poll_Crash \<Rightarrow> W_Closing (rq_restore_id p) RS_INTERRUPTED CRASHED
   | Poll_Done r \<Rightarrow> if at_succeeded r then W_Fetched p
       else W_Closing (rq_restore_id p) RS_FAILED (case or_else (at_error r) None of
          Some m \<Rightarrow> m | None \<Rightarrow> ''The download ended in state '' @ at_state r))"

definition send_answer :: "restore_plan \<Rightarrow> app_error + string \<Rightarrow> phase" where
  "send_answer p started = (case started of
     Inr t \<Rightarrow> W_Accepted (rq_restore_id p) t
   | Inl (App_AgentUnavailable d) \<Rightarrow> W_Closing (rq_restore_id p) RS_INTERRUPTED
       ''The agent could not be reached while starting this restore''
   | Inl (App_Internal d) \<Rightarrow> W_Closing (rq_restore_id p) RS_INTERRUPTED CRASHED
   | Inl e \<Rightarrow> W_Closing (rq_restore_id p) RS_FAILED (app_detail e))"

definition watch_poll :: "rat \<Rightarrow> clock \<Rightarrow> nat \<Rightarrow> string \<Rightarrow> clock option \<Rightarrow> app_error + agent_task \<Rightarrow> phase" where
  "watch_poll grace now i t since answer = (case poll_once grace now since answer of
     Poll_Wait since' \<Rightarrow> W_Watch i t since'
   | Poll_Lost m \<Rightarrow> W_Closing i RS_INTERRUPTED m
   | Poll_Crash \<Rightarrow> W_Closing i RS_INTERRUPTED CRASHED
   | Poll_Done r \<Rightarrow> W_Report i r)"

section \<open>Steps of the executor\<close>

record worker_env =
  we_notify :: notify_config
  we_grace :: rat

text \<open>One step of \<open>_loop\<close> and \<open>_execute\<close>; each phase reads the input it waits for.\<close>

definition advance :: "worker_env \<Rightarrow> datetime \<Rightarrow> clock \<Rightarrow> app_error + string \<Rightarrow> app_error + agent_task
    \<Rightarrow> restore_sys \<Rightarrow> restore_sys" where
  "advance E now tick started polled s = (case zs_phase s of
     W_Idle \<Rightarrow> claim_restore (we_notify E) now s
   | W_Claimed i adopted \<Rightarrow> s\<lparr>zs_phase := execute_begin (zs_db s) i adopted, zs_task := adopted\<rparr>
   | W_Fetch p \<Rightarrow> s\<lparr>zs_phase := fetch_begin (sc_gdrive (ad_sections (zs_db s))) p started\<rparr>
   | W_Fetching p t since \<Rightarrow> s\<lparr>zs_phase := fetch_poll (we_grace E) tick p t since polled\<rparr>
   | W_Fetched p \<Rightarrow> s\<lparr>zs_db := mark_local_copy_present (rq_backup_id p) (zs_db s), zs_phase := W_Send p\<rparr>
   | W_Send p \<Rightarrow> s\<lparr>zs_sent := rq_restore_id p # zs_sent s, zs_phase := W_Sent p\<rparr>
   | W_Sent p \<Rightarrow> s\<lparr>zs_phase := send_answer p started\<rparr>
   | W_Accepted i t \<Rightarrow> s\<lparr>zs_db := attach_task i t (zs_db s), zs_phase := W_Watch i t None, zs_task := Some t\<rparr>
   | W_Watch i t since \<Rightarrow> s\<lparr>zs_phase := watch_poll (we_grace E) tick i t since polled\<rparr>
   | W_Report i t \<Rightarrow> s\<lparr>zs_db := record_outcome (we_notify E) now i t (zs_db s), zs_phase := W_Idle, zs_task := None\<rparr>
   | W_Closing i status m \<Rightarrow> s\<lparr>zs_db := close_restore (we_notify E) now i status m (zs_db s), zs_phase := W_Idle, zs_task := None\<rparr>)"

text \<open>The restore the executor holds.\<close>

fun held_by :: "phase \<Rightarrow> nat option" where
  "held_by W_Idle = None"
| "held_by (W_Claimed i a) = Some i"
| "held_by (W_Fetch p) = Some (rq_restore_id p)"
| "held_by (W_Fetching p t s) = Some (rq_restore_id p)"
| "held_by (W_Fetched p) = Some (rq_restore_id p)"
| "held_by (W_Send p) = Some (rq_restore_id p)"
| "held_by (W_Sent p) = Some (rq_restore_id p)"
| "held_by (W_Accepted i t) = Some i"
| "held_by (W_Watch i t s) = Some i"
| "held_by (W_Report i t) = Some i"
| "held_by (W_Closing i st m) = Some i"

text \<open>An exception that escapes \<open>_execute\<close> closes the restore as interrupted.\<close>

definition crash :: "restore_sys \<Rightarrow> restore_sys" where
  "crash s = (case held_by (zs_phase s) of None \<Rightarrow> s
     | Some i \<Rightarrow> s\<lparr>zs_phase := W_Closing i RS_INTERRUPTED CRASHED\<rparr>)"

text \<open>\<open>RestoreWorker.cancel\<close>: only the task being followed can be cancelled at the agent.\<close>

definition cancel_asked :: "restore_sys \<Rightarrow> nat \<Rightarrow> app_error + unit \<Rightarrow> app_error + bool" where
  "cancel_asked s i answer =
     (if held_by (zs_phase s) \<noteq> Some i \<or> zs_task s = None then Inr False
      else (case answer of
          Inr _ \<Rightarrow> Inr True
        | Inl (App_AgentUnavailable d) \<Rightarrow> Inr False
        | Inl (App_AgentError d st) \<Rightarrow> Inr False
        | Inl e \<Rightarrow> Inl e))"

text \<open>\<open>recover\<close>: what the last process left running is adopted, or closed when no task is known.\<close>

definition recover :: "notify_config \<Rightarrow> datetime \<Rightarrow> restore_sys \<Rightarrow> restore_sys" where
  "recover C now s =
     (let rs = running_restores (zs_db s);
          unconfirmed = map rh_id (filter (\<lambda>r. rh_agent_task_id r = None) rs);
          adoptable = List.map_filter (\<lambda>r. map_option (Pair (rh_id r)) (rh_agent_task_id r)) rs in
      s\<lparr>zs_db := fold (\<lambda>i. close_restore C now i RS_INTERRUPTED
            ''The dashboard restarted before the agent confirmed this restore.'') unconfirmed (zs_db s),
        zs_resume := adoptable, zs_phase := W_Idle, zs_task := None\<rparr>)"

text \<open>
  Everything that happens to restores. \<open>z_other\<close> is any other component: it may write every table but
  this one. A restart may come at any moment, also with the start of a restore on the wire.
\<close>

inductive restore_step :: "worker_env \<Rightarrow> restore_sys \<Rightarrow> restore_sys \<Rightarrow> bool" for E where
  z_create: "validate_ask a = Some a' \<Longrightarrow> create_route c V a' (zs_db s) = (out, db') \<Longrightarrow>
    restore_step E s (s\<lparr>zs_db := db'\<rparr>)"
| z_confirm: "confirm_route c V i token vmid (zs_db s) = (out, db') \<Longrightarrow> restore_step E s (s\<lparr>zs_db := db'\<rparr>)"
| z_cancel: "cancel_asked s i answer = Inr asked \<Longrightarrow>
    cancel_route c asked i (zs_db s) = (out, db') \<Longrightarrow> restore_step E s (s\<lparr>zs_db := db'\<rparr>)"
| z_expire: "restore_step E s (s\<lparr>zs_db := snd (expire_pending now (zs_db s))\<rparr>)"
| z_work: "restore_step E s (advance E now tick started polled s)"
| z_crash: "restore_step E s (crash s)"
| z_restart: "restore_step E s (recover (we_notify E) now s)"
| z_other: "ad_restores db' = ad_restores (zs_db s) \<Longrightarrow> restore_step E s (s\<lparr>zs_db := db'\<rparr>)"

definition restore_start :: "app_db \<Rightarrow> restore_sys" where
  "restore_start db = \<lparr>zs_db = db\<lparr>ad_restores := []\<rparr>, zs_resume = [], zs_phase = W_Idle, zs_task = None, zs_sent = []\<rparr>"

inductive restore_reachable :: "worker_env \<Rightarrow> restore_sys \<Rightarrow> bool" for E where
  zr_start: "restore_reachable E (restore_start db)"
| zr_step: "restore_reachable E s \<Longrightarrow> restore_step E s s' \<Longrightarrow> restore_reachable E s'"

section \<open>How a row may move\<close>

text \<open>The documented life of a restore; a terminal status has no successor.\<close>

fun next_statuses :: "restore_status \<Rightarrow> restore_status list" where
  "next_statuses PENDING_CONFIRMATION = [CONFIRMED, RS_EXPIRED, RS_CANCELLED]"
| "next_statuses CONFIRMED = [RS_RUNNING, RS_CANCELLED]"
| "next_statuses RS_RUNNING = [RS_SUCCESS, RS_FAILED, RS_CANCELLED, RS_INTERRUPTED]"
| "next_statuses _ = []"

definition same_target :: "restore_row \<Rightarrow> restore_row \<Rightarrow> bool" where
  "same_target r r' = (rh_id r' = rh_id r \<and> rh_backup_id r' = rh_backup_id r \<and> rh_target_vmid r' = rh_target_vmid r
     \<and> rh_target_type r' = rh_target_type r \<and> rh_target_storage r' = rh_target_storage r
     \<and> rh_target_node r' = rh_target_node r \<and> rh_mode r' = rh_mode r
     \<and> rh_requested_by r' = rh_requested_by r \<and> rh_created_at r' = rh_created_at r
     \<and> rh_overwrite r' = rh_overwrite r \<and> rh_force_stop r' = rh_force_stop r \<and> rh_start_after r' = rh_start_after r)"

text \<open>What the columns of a row say together.\<close>

definition row_typed :: "restore_row \<Rightarrow> bool" where
  "row_typed r =
     ((rh_token_hash r = None \<longleftrightarrow> rh_status r \<noteq> PENDING_CONFIRMATION)
      \<and> (rh_finished_at r = None \<longleftrightarrow> \<not> restore_is_terminal (rh_status r))
      \<and> (rh_status r \<in> {CONFIRMED, RS_RUNNING, RS_SUCCESS, RS_FAILED, RS_INTERRUPTED} \<longrightarrow> rh_confirmed_at r \<noteq> None)
      \<and> (rh_status r \<in> {RS_RUNNING, RS_SUCCESS, RS_FAILED, RS_INTERRUPTED} \<longrightarrow> rh_started_at r \<noteq> None)
      \<and> (rh_started_at r \<noteq> None \<longrightarrow> rh_confirmed_at r \<noteq> None
           \<and> rh_status r \<in> {RS_RUNNING, RS_SUCCESS, RS_FAILED, RS_CANCELLED, RS_INTERRUPTED})
      \<and> (rh_agent_task_id r \<noteq> None \<longrightarrow> rh_started_at r \<noteq> None))"

definition restore_move :: "restore_row \<Rightarrow> restore_row \<Rightarrow> bool" where
  "restore_move r r' = (same_target r r' \<and> (rh_status r' = rh_status r \<or> rh_status r' \<in> set (next_statuses (rh_status r)))
     \<and> (rh_started_at r \<noteq> None \<longrightarrow> rh_started_at r' \<noteq> None) \<and> (row_typed r \<longrightarrow> row_typed r'))"

definition fresh_restore :: "restore_row \<Rightarrow> bool" where
  "fresh_restore r = (rh_status r = PENDING_CONFIRMATION \<and> row_typed r \<and> rh_started_at r = None)"

lemma restore_move_refl: "restore_move r r"
  by (simp add: restore_move_def same_target_def)

interpretation restores: row_table rh_id restore_move fresh_restore
  by unfold_locales (auto simp: restore_move_refl restore_move_def same_target_def)

text \<open>The row functions are moves from the statuses the code applies them in.\<close>

lemmas row_defs = restore_move_def same_target_def row_typed_def restore_is_terminal_def

lemma expire_move: "rh_status r = PENDING_CONFIRMATION \<Longrightarrow> restore_move r (expire_row now r)"
  by (auto simp: row_defs expire_row_def)

lemma confirm_move: "rh_status r = PENDING_CONFIRMATION \<Longrightarrow> restore_move r (confirm_row now src r)"
  by (auto simp: row_defs confirm_row_def)

lemma cancel_move:
  "rh_status r \<noteq> RS_RUNNING \<Longrightarrow> \<not> restore_is_terminal (rh_status r) \<Longrightarrow> restore_move r (cancel_row now r)"
  by (auto simp: row_defs cancel_row_def)

lemma claim_move: "rh_status r = CONFIRMED \<Longrightarrow> restore_move r (claim_row now r)"
  by (auto simp: row_defs claim_row_def)

lemma restore_status_of_cases: "restore_status_of s \<in> {RS_SUCCESS, RS_FAILED, RS_CANCELLED, RS_INTERRUPTED}"
  by (simp add: restore_status_of_def)

lemma outcome_move:
  assumes "rh_status r = RS_RUNNING"
  shows "restore_move r (outcome_row now t r)"
  using assms restore_status_of_cases [of "at_state t"]
  by (auto simp: row_defs outcome_row_def split: if_splits)

lemma close_move:
  assumes "rh_status r = RS_RUNNING" "status \<in> {RS_FAILED, RS_INTERRUPTED}"
  shows "restore_move r (close_row now status m r)"
  using assms by (auto simp: row_defs close_row_def)

lemma attach_move: "rh_status r = RS_RUNNING \<Longrightarrow> restore_move r (r\<lparr>rh_agent_task_id := Some t\<rparr>)"
  by (auto simp: row_defs)

section \<open>The invariant\<close>

definition has_status :: "app_db \<Rightarrow> nat \<Rightarrow> restore_status \<Rightarrow> bool" where
  "has_status db i st = (\<exists>r \<in> set (ad_restores db). rh_id r = i \<and> rh_status r = st)"

definition before_send :: "phase \<Rightarrow> bool" where
  "before_send ph = (case ph of W_Claimed i None \<Rightarrow> True | W_Fetch p \<Rightarrow> True | W_Fetching p t s \<Rightarrow> True
     | W_Fetched p \<Rightarrow> True | W_Send p \<Rightarrow> True | _ \<Rightarrow> False)"

definition closing_ok :: "phase \<Rightarrow> bool" where
  "closing_ok ph = (case ph of W_Closing i st m \<Rightarrow> st \<in> {RS_FAILED, RS_INTERRUPTED} | _ \<Rightarrow> True)"

definition held_ids :: "restore_sys \<Rightarrow> nat list" where
  "held_ids s = (case held_by (zs_phase s) of None \<Rightarrow> [] | Some i \<Rightarrow> [i]) @ map fst (zs_resume s)"

definition exec_inv :: "restore_sys \<Rightarrow> bool" where
  "exec_inv s = (distinct (map rh_id (ad_restores (zs_db s)))
     \<and> length (filter authorised (ad_restores (zs_db s))) \<le> 1
     \<and> (\<forall>r \<in> set (ad_restores (zs_db s)). row_typed r)
     \<and> (\<forall>i \<in> set (held_ids s). has_status (zs_db s) i RS_RUNNING) \<and> distinct (held_ids s)
     \<and> closing_ok (zs_phase s)
     \<and> distinct (zs_sent s)
     \<and> (\<forall>i \<in> set (zs_sent s). \<exists>r \<in> set (ad_restores (zs_db s)). rh_id r = i \<and> rh_started_at r \<noteq> None)
     \<and> (before_send (zs_phase s) \<longrightarrow> the (held_by (zs_phase s)) \<notin> set (zs_sent s)))"

lemma exec_invD:
  assumes "exec_inv s"
  shows "distinct (map rh_id (ad_restores (zs_db s)))" "length (filter authorised (ad_restores (zs_db s))) \<le> 1"
    "r \<in> set (ad_restores (zs_db s)) \<Longrightarrow> row_typed r"
    "i \<in> set (held_ids s) \<Longrightarrow> has_status (zs_db s) i RS_RUNNING" "distinct (held_ids s)"
    "distinct (zs_sent s)" "closing_ok (zs_phase s)"
    "i \<in> set (zs_sent s) \<Longrightarrow> \<exists>r \<in> set (ad_restores (zs_db s)). rh_id r = i \<and> rh_started_at r \<noteq> None"
    "before_send (zs_phase s) \<Longrightarrow> the (held_by (zs_phase s)) \<notin> set (zs_sent s)"
  using assms unfolding exec_inv_def by blast+

section \<open>The rows each request leaves\<close>

lemma fresh_restore_row_of: "fresh_restore ((restore_row_of c a rp)\<lparr>rh_id := i\<rparr>)"
  by (simp add: fresh_restore_def restore_row_of_def row_typed_def restore_is_terminal_def)

lemma create_route_rows:
  assumes "create_route c V a db = (out, db')"
  shows "ad_restores db' = ad_restores db \<or>
    (\<exists>r. ad_restores db' = ad_restores db @ [r] \<and> fresh_restore r \<and> rh_id r = next_id (map rh_id (ad_restores db)))"
  using assms fresh_restore_row_of
  by (auto simp: create_route_def create_restore_def restore_create_def session_def Let_def
      split: sum.splits prod.splits if_splits)

lemma confirm_route_rows:
  assumes "confirm_route c V i token vmid db = (out, db')"
  shows "(ad_restores db' = ad_restores db \<and> \<not> is_ok out) \<or>
    (\<exists>r a rp. restore_get db i = Some r \<and> rh_status r = PENDING_CONFIRMATION \<and> \<not> window_closed (rm_now c) r
      \<and> token_matches c token (rh_token_hash r) \<and> vmid = rh_target_vmid r \<and> ask_of r = Inr a
      \<and> preflight V a db = Inr rp \<and> \<not> rp_blocking rp \<and> is_ok out
      \<and> ad_restores db' = upd_where (\<lambda>r. rh_id r = i) (confirm_row (rm_now c) (rp_source rp)) (ad_restores db))"
  using assms
  by (simp add: confirm_route_def confirm_restore_def session_def bindR_def split: option.splits sum.splits if_splits) auto

lemma cancel_route_rows:
  assumes "cancel_route c asked i db = (out, db')"
  shows "ad_restores db' = ad_restores db \<or>
    (\<exists>r. restore_get db i = Some r \<and> rh_status r \<noteq> RS_RUNNING \<and> \<not> restore_is_terminal (rh_status r)
      \<and> ad_restores db' = upd_where (\<lambda>r. rh_id r = i) (cancel_row (rm_now c)) (ad_restores db))"
  using assms
  by (simp add: cancel_route_def cancel_restore_def session_def split: option.splits sum.splits if_splits) auto

lemma notify_rows [simp]:
  "ad_restores (notify_started C now r db) = ad_restores db"
  "ad_restores (notify_finished C now r db) = ad_restores db"
  by (simp_all add: notify_started_def notify_finished_def Let_def)

lemma with_restore_rows:
  "(\<And>r db. ad_restores (announce r db) = ad_restores db) \<Longrightarrow>
   ad_restores (with_restore i f announce db) = upd_where (\<lambda>r. rh_id r = i) f (ad_restores db)"
  by (auto simp: with_restore_def restore_get_def split: option.split intro!: upd_where_cong_key [symmetric]
      dest: find_None_notin)

lemma worker_rows [simp]:
  "ad_restores (record_outcome C now i t db) = upd_where (\<lambda>r. rh_id r = i) (outcome_row now t) (ad_restores db)"
  "ad_restores (close_restore C now i st m db) = upd_where (\<lambda>r. rh_id r = i) (close_row now st m) (ad_restores db)"
  "ad_restores (attach_task i tk db) = upd_where (\<lambda>r. rh_id r = i) (\<lambda>r. r\<lparr>rh_agent_task_id := Some tk\<rparr>) (ad_restores db)"
  "ad_restores (mark_local_copy_present b db) = ad_restores db"
  by (simp_all add: record_outcome_def close_restore_def with_restore_rows attach_task_def
      mark_local_copy_present_def set_backup_def)

section \<open>Preservation\<close>

lemma row_of_id:
  "distinct (map rh_id rows) \<Longrightarrow> r \<in> set rows \<Longrightarrow> r' \<in> set rows \<Longrightarrow> rh_id r' = rh_id r \<Longrightarrow> r' = r"
  using distinct_key_eq [of rh_id rows r' r] by blast

lemma has_status_upd:
  assumes "has_status db i RS_RUNNING" "\<And>r. r \<in> set (ad_restores db) \<Longrightarrow> P r \<Longrightarrow> rh_status r \<noteq> RS_RUNNING"
    "ad_restores db' = upd_where P f (ad_restores db)"
  shows "has_status db' i RS_RUNNING"
proof -
  obtain r where r: "r \<in> set (ad_restores db)" "rh_id r = i" "rh_status r = RS_RUNNING"
    using assms(1) by (auto simp: has_status_def)
  then have "r \<in> set (ad_restores db')" using assms(2) [of r] by (auto simp: assms(3) set_upd_where image_iff)
  with r show ?thesis by (auto simp: has_status_def)
qed

lemma has_status_kept:
  assumes "ad_restores db' = upd_where P f (ad_restores db)"
    and "has_status db i st" "\<And>r. rh_id (f r) = rh_id r" "\<And>r. rh_status (f r) = rh_status r"
  shows "has_status db' i st"
proof -
  obtain r where r: "r \<in> set (ad_restores db)" "rh_id r = i" "rh_status r = st"
    using assms(2) by (auto simp: has_status_def)
  then have "(if P r then f r else r) \<in> set (ad_restores db')" by (simp add: assms(1) set_upd_where)
  then show ?thesis
    unfolding has_status_def by (rule bexI [rotated]) (simp add: r assms(3,4))
qed

lemma has_status_cong: "ad_restores db' = ad_restores db \<Longrightarrow> has_status db' i st = has_status db i st"
  by (simp add: has_status_def)

text \<open>A write to the table that leaves the running rows alone.\<close>

lemma exec_inv_write:
  assumes inv: "exec_inv s"
    and grows: "table_grows rh_id restore_move fresh_restore (ad_restores (zs_db s)) (ad_restores db')"
    and one: "length (filter authorised (ad_restores db')) \<le> 1"
    and held: "\<And>i. i \<in> set (held_ids s) \<Longrightarrow> has_status (zs_db s) i RS_RUNNING \<Longrightarrow> has_status db' i RS_RUNNING"
  shows "exec_inv (s\<lparr>zs_db := db'\<rparr>)"
proof -
  note i = inv [unfolded exec_inv_def]
  have "held_ids (s\<lparr>zs_db := db'\<rparr>) = held_ids s" by (simp add: held_ids_def)
  moreover have "row_typed r" if "r \<in> set (ad_restores db')" for r
    using restores.grows_all [OF grows, of row_typed r] i that
    by (auto simp: fresh_restore_def restore_move_def)
  moreover have "\<exists>r \<in> set (ad_restores db'). rh_id r = j \<and> rh_started_at r \<noteq> None" if j: "j \<in> set (zs_sent s)" for j
  proof -
    obtain r where r: "r \<in> set (ad_restores (zs_db s))" "rh_id r = j" "rh_started_at r \<noteq> None" using i j by blast
    obtain r' where r': "r' \<in> set (ad_restores db')" "restore_move r r'" using restores.grows_old [OF grows r(1)] by blast
    then have "rh_id r' = j" "rh_started_at r' \<noteq> None" using r(2,3) unfolding restore_move_def same_target_def by auto
    with r' show ?thesis by blast
  qed
  ultimately show ?thesis
    using i one held restores.grows_distinct [OF grows] by (simp add: exec_inv_def)
qed

lemma exec_inv_frame:
  assumes inv: "exec_inv s" and rows: "ad_restores db' = ad_restores (zs_db s)"
  shows "exec_inv (s\<lparr>zs_db := db'\<rparr>)"
proof (rule exec_inv_write [OF inv])
  show "table_grows rh_id restore_move fresh_restore (ad_restores (zs_db s)) (ad_restores db')"
    unfolding rows by (rule restores.grows_same)
  show "length (filter authorised (ad_restores db')) \<le> 1"
    using inv unfolding rows exec_inv_def by (elim conjE)
  show "has_status db' i RS_RUNNING" if "has_status (zs_db s) i RS_RUNNING" for i
    using that by (simp add: has_status_cong [OF rows])
qed

lemma exec_inv_upd:
  assumes inv: "exec_inv s" and rows: "ad_restores db' = upd_where P f (ad_restores (zs_db s))"
    and moves: "\<And>r. r \<in> set (ad_restores (zs_db s)) \<Longrightarrow> P r \<Longrightarrow> restore_move r (f r)"
    and idle: "\<And>r. r \<in> set (ad_restores (zs_db s)) \<Longrightarrow> P r \<Longrightarrow> rh_status r \<noteq> RS_RUNNING"
    and one: "length (filter authorised (ad_restores db')) \<le> 1"
  shows "exec_inv (s\<lparr>zs_db := db'\<rparr>)"
proof (rule exec_inv_write [OF inv _ one])
  show "table_grows rh_id restore_move fresh_restore (ad_restores (zs_db s)) (ad_restores db')"
    unfolding rows by (rule restores.grows_updated) (rule moves)
  show "has_status db' i RS_RUNNING" if "has_status (zs_db s) i RS_RUNNING" for i
    using has_status_upd [OF that idle rows] .
qed

lemma upd_id_row:
  assumes "distinct (map rh_id (ad_restores db))" "restore_get db i = Some r" "r' \<in> set (ad_restores db)" "rh_id r' = i"
  shows "r' = r"
  using row_of_id [OF assms(1), of r r'] restore_get_Some [OF assms(2)] assms(3,4) by simp

definition good_step :: "restore_sys \<Rightarrow> restore_sys \<Rightarrow> bool" where
  "good_step s s' = (exec_inv s'
     \<and> table_grows rh_id restore_move fresh_restore (ad_restores (zs_db s)) (ad_restores (zs_db s')))"

text \<open>The task the executor may cancel plays no part in the invariant.\<close>

lemma good_task [simp]: "good_step s (s'\<lparr>zs_task := t\<rparr>) = good_step s s'" "exec_inv (s'\<lparr>zs_task := t\<rparr>) = exec_inv s'"
  by (simp_all add: good_step_def exec_inv_def held_ids_def)

lemma good_write:
  assumes "exec_inv s" "table_grows rh_id restore_move fresh_restore (ad_restores (zs_db s)) (ad_restores db')"
    "length (filter authorised (ad_restores db')) \<le> 1"
    "\<And>i. i \<in> set (held_ids s) \<Longrightarrow> has_status (zs_db s) i RS_RUNNING \<Longrightarrow> has_status db' i RS_RUNNING"
  shows "good_step s (s\<lparr>zs_db := db'\<rparr>)"
  using exec_inv_write [OF assms] assms(2) by (simp add: good_step_def)

lemma good_frame:
  assumes "exec_inv s" "ad_restores db' = ad_restores (zs_db s)"
  shows "good_step s (s\<lparr>zs_db := db'\<rparr>)"
  using exec_inv_frame [OF assms] by (simp add: good_step_def assms(2) restores.grows_same)

lemma good_upd:
  assumes "exec_inv s" "ad_restores db' = upd_where P f (ad_restores (zs_db s))"
    "\<And>r. r \<in> set (ad_restores (zs_db s)) \<Longrightarrow> P r \<Longrightarrow> restore_move r (f r)"
    "\<And>r. r \<in> set (ad_restores (zs_db s)) \<Longrightarrow> P r \<Longrightarrow> rh_status r \<noteq> RS_RUNNING"
    "length (filter authorised (ad_restores db')) \<le> 1"
  shows "good_step s (s\<lparr>zs_db := db'\<rparr>)"
proof -
  have "table_grows rh_id restore_move fresh_restore (ad_restores (zs_db s)) (ad_restores db')"
    unfolding assms(2) by (rule restores.grows_updated) (rule assms(3))
  with exec_inv_upd [OF assms] show ?thesis by (simp add: good_step_def)
qed

text \<open>Writes that authorise nothing new.\<close>

lemma good_upd_le:
  assumes inv: "exec_inv s" and rows: "ad_restores db' = upd_where P f (ad_restores (zs_db s))"
    and moves: "\<And>r. r \<in> set (ad_restores (zs_db s)) \<Longrightarrow> P r \<Longrightarrow> restore_move r (f r)"
    and idle: "\<And>r. r \<in> set (ad_restores (zs_db s)) \<Longrightarrow> P r \<Longrightarrow> rh_status r \<noteq> RS_RUNNING"
    and le: "\<And>r. r \<in> set (ad_restores (zs_db s)) \<Longrightarrow> P r \<Longrightarrow> authorised (f r) \<Longrightarrow> authorised r"
  shows "good_step s (s\<lparr>zs_db := db'\<rparr>)"
proof (rule good_upd [OF inv rows moves idle])
  have "length (filter authorised (ad_restores db')) \<le> length (filter authorised (ad_restores (zs_db s)))"
    unfolding rows by (rule count_upd_where_le) (rule le)
  moreover have "length (filter authorised (ad_restores (zs_db s))) \<le> 1" using inv unfolding exec_inv_def by (elim conjE)
  ultimately show "length (filter authorised (ad_restores db')) \<le> 1" by simp
qed

lemma good_create:
  assumes inv: "exec_inv s" and r: "create_route c V a (zs_db s) = (out, db')"
  shows "good_step s (s\<lparr>zs_db := db'\<rparr>)"
  using create_route_rows [OF r]
proof (elim disjE exE conjE)
  assume "ad_restores db' = ad_restores (zs_db s)"
  with inv show ?thesis by (rule good_frame)
next
  fix r
  assume rows: "ad_restores db' = ad_restores (zs_db s) @ [r]" and fr: "fresh_restore r"
    and id: "rh_id r = next_id (map rh_id (ad_restores (zs_db s)))"
  show ?thesis
  proof (rule good_write [OF inv])
    have "rh_id r \<notin> rh_id ` set (ad_restores (zs_db s))"
      using next_id_fresh [of "map rh_id (ad_restores (zs_db s))"] id by auto
    then show "table_grows rh_id restore_move fresh_restore (ad_restores (zs_db s)) (ad_restores db')"
      unfolding rows by (rule restores.grows_appended [OF fr])
    have "\<not> authorised r" using fr by (simp add: fresh_restore_def authorised_def)
    then show "length (filter authorised (ad_restores db')) \<le> 1" using inv by (simp add: rows exec_inv_def)
  qed (auto simp: rows has_status_def)
qed

lemma good_confirm:
  assumes inv: "exec_inv s" and r: "confirm_route c V i token vmid (zs_db s) = (out, db')"
  shows "good_step s (s\<lparr>zs_db := db'\<rparr>)"
  using confirm_route_rows [OF r]
proof (elim disjE exE conjE)
  assume "ad_restores db' = ad_restores (zs_db s)"
  with inv show ?thesis by (rule good_frame)
next
  fix r a rp
  assume g: "restore_get (zs_db s) i = Some r" "rh_status r = PENDING_CONFIRMATION"
    and pf: "preflight V a (zs_db s) = Inr rp" "\<not> rp_blocking rp"
    and rows: "ad_restores db' = upd_where (\<lambda>r. rh_id r = i) (confirm_row (rm_now c) (rp_source rp)) (ad_restores (zs_db s))"
  have d: "distinct (map rh_id (ad_restores (zs_db s)))" using inv by (simp add: exec_inv_def)
  note only = upd_id_row [OF d g(1)]
  have "in_flight (zs_db s) = None"
    using pf by (blast elim: preflight_clear)
  then have none: "\<And>r. r \<in> set (ad_restores (zs_db s)) \<Longrightarrow> \<not> authorised r"
    by (simp add: in_flight_def first_restore_None)
  show ?thesis
  proof (rule good_upd [OF inv rows])
    fix x assume "x \<in> set (ad_restores (zs_db s))" "rh_id x = i"
    from only [OF this] g(2) show "restore_move x (confirm_row (rm_now c) (rp_source rp) x)" "rh_status x \<noteq> RS_RUNNING"
      by (simp_all add: confirm_move)
  next
    have "length (filter authorised (upd_where (\<lambda>r. rh_id r = i) f xs)) \<le> length (filter (\<lambda>r. rh_id r = i) xs)"
      if "\<And>r. r \<in> set xs \<Longrightarrow> \<not> authorised r" for f xs
      using that by (induction xs) auto
    then show "length (filter authorised (ad_restores db')) \<le> 1"
      unfolding rows using none length_filter_key_le1 [OF d] le_trans by blast
  qed
qed

lemma good_cancel:
  assumes inv: "exec_inv s" and r: "cancel_route c asked i (zs_db s) = (out, db')"
  shows "good_step s (s\<lparr>zs_db := db'\<rparr>)"
  using cancel_route_rows [OF r]
proof (elim disjE exE conjE)
  assume "ad_restores db' = ad_restores (zs_db s)"
  with inv show ?thesis by (rule good_frame)
next
  fix r
  assume g: "restore_get (zs_db s) i = Some r" "rh_status r \<noteq> RS_RUNNING" "\<not> restore_is_terminal (rh_status r)"
    and rows: "ad_restores db' = upd_where (\<lambda>r. rh_id r = i) (cancel_row (rm_now c)) (ad_restores (zs_db s))"
  have d: "distinct (map rh_id (ad_restores (zs_db s)))" using inv by (simp add: exec_inv_def)
  show ?thesis
  proof (rule good_upd_le [OF inv rows])
    fix x assume "x \<in> set (ad_restores (zs_db s))" "rh_id x = i"
    from upd_id_row [OF d g(1) this] g show "restore_move x (cancel_row (rm_now c) x)" "rh_status x \<noteq> RS_RUNNING"
      by (simp_all add: cancel_move)
  qed (simp add: authorised_def cancel_row_def)
qed

lemma good_expire: "exec_inv s \<Longrightarrow> good_step s (s\<lparr>zs_db := snd (expire_pending now (zs_db s))\<rparr>)"
  by (rule good_upd_le [where f = "expire_row now"
        and P = "\<lambda>r. rh_status r = PENDING_CONFIRMATION \<and> window_closed now r"])
    (auto simp: expire_pending_def expire_move, simp add: authorised_def expire_row_def)

text \<open>Phase changes: what is held stays held or is let go.\<close>

lemma good_phase:
  assumes inv: "exec_inv s" and held: "held_by ph = held_by (zs_phase s) \<or> held_by ph = None"
    and before: "before_send ph \<Longrightarrow> before_send (zs_phase s) \<and> held_by ph = held_by (zs_phase s)" and close: "closing_ok ph"
  shows "good_step s (s\<lparr>zs_phase := ph\<rparr>)"
proof -
  have "set (held_ids (s\<lparr>zs_phase := ph\<rparr>)) \<subseteq> set (held_ids s)" "distinct (held_ids s) \<Longrightarrow> distinct (held_ids (s\<lparr>zs_phase := ph\<rparr>))"
    using held by (force simp: held_ids_def split: option.splits)+
  then show ?thesis
    using inv before close by (auto simp: good_step_def exec_inv_def restores.grows_same)
qed

lemma good_then_phase:
  assumes "good_step s s1" "exec_inv s1 \<Longrightarrow> good_step s1 s2" "ad_restores (zs_db s2) = ad_restores (zs_db s1)"
  shows "good_step s s2"
  using assms by (simp add: good_step_def)

text \<open>The executor ends the restore it holds.\<close>

lemma good_finish:
  assumes inv: "exec_inv s" and held: "held_by (zs_phase s) = Some i"
    and rows: "ad_restores db' = upd_where (\<lambda>r. rh_id r = i) f (ad_restores (zs_db s))"
    and move: "\<And>r. rh_status r = RS_RUNNING \<Longrightarrow> restore_move r (f r)"
    and le: "\<And>r. rh_status r = RS_RUNNING \<Longrightarrow> authorised (f r) \<Longrightarrow> authorised r"
  shows "good_step s (s\<lparr>zs_db := db', zs_phase := W_Idle\<rparr>)"
proof -
  let ?s1 = "s\<lparr>zs_phase := W_Idle\<rparr>"
  have s1: "good_step s ?s1" by (rule good_phase [OF inv]) (simp_all add: before_send_def closing_ok_def)
  have d: "distinct (map rh_id (ad_restores (zs_db s)))" using inv by (simp add: exec_inv_def)
  have "has_status (zs_db s) i RS_RUNNING" using inv held by (auto simp: exec_inv_def held_ids_def)
  then obtain r0 where r0: "r0 \<in> set (ad_restores (zs_db s))" "rh_id r0 = i" "rh_status r0 = RS_RUNNING"
    by (auto simp: has_status_def)
  have only: "rh_status x = RS_RUNNING" if "x \<in> set (ad_restores (zs_db s))" "rh_id x = i" for x
    using row_of_id [OF d r0(1) that(1)] r0 that by simp
  have "good_step ?s1 (?s1\<lparr>zs_db := db'\<rparr>)"
  proof (rule good_write)
    show "exec_inv ?s1" using s1 by (simp add: good_step_def)
    show "table_grows rh_id restore_move fresh_restore (ad_restores (zs_db ?s1)) (ad_restores db')"
      unfolding rows by simp (rule restores.grows_updated, simp add: only move)
    have "length (filter authorised (ad_restores db')) \<le> length (filter authorised (ad_restores (zs_db s)))"
      unfolding rows by (rule count_upd_where_le) (simp add: only le)
    then show "length (filter authorised (ad_restores db')) \<le> 1" using inv by (simp add: exec_inv_def)
    fix j assume j: "j \<in> set (held_ids ?s1)" "has_status (zs_db ?s1) j RS_RUNNING"
    have "distinct (held_ids s)" using inv unfolding exec_inv_def by (elim conjE)
    with j(1) held have "j \<noteq> i" by (auto simp: held_ids_def)
    with j(2) show "has_status db' j RS_RUNNING"
      by (auto simp: has_status_def rows set_upd_where image_iff)
  qed
  moreover have e: "s\<lparr>zs_db := db', zs_phase := W_Idle\<rparr> = ?s1\<lparr>zs_db := db'\<rparr>" by simp
  ultimately show ?thesis unfolding e good_step_def by simp
qed

lemma good_hold:
  assumes inv: "exec_inv s" and none: "held_by (zs_phase s) = None" "zs_resume s = []"
    and ph: "held_by ph = Some i" "has_status (zs_db s) i RS_RUNNING" "i \<notin> set (zs_sent s)" "closing_ok ph"
  shows "good_step s (s\<lparr>zs_phase := ph\<rparr>)"
proof -
  have "held_ids (s\<lparr>zs_phase := ph\<rparr>) = [i]" by (simp add: held_ids_def none ph)
  then show ?thesis
    using exec_invD [OF inv] ph unfolding good_step_def exec_inv_def by (simp add: restores.grows_same)
qed

lemma good_claim:
  assumes inv: "exec_inv s" and idle: "zs_phase s = W_Idle"
  shows "good_step s (claim_restore C now s)"
proof (cases "zs_resume s")
  case (Cons it rest)
  have "held_ids (claim_restore C now s) = held_ids s"
    by (simp add: claim_restore_def Cons held_ids_def idle split: prod.split)
  then show ?thesis
    using inv Cons by (auto simp: good_step_def exec_inv_def claim_restore_def before_send_def closing_ok_def
        restores.grows_same split: prod.splits)
next
  case Nil
  show ?thesis
  proof (cases "next_confirmed (zs_db s)")
    case None
    with Nil inv show ?thesis by (simp add: claim_restore_def good_step_def restores.grows_same)
  next
    case (Some r)
    then have r: "r \<in> set (ad_restores (zs_db s))" "rh_status r = CONFIRMED"
      using first_restore_Some by (auto simp: next_confirmed_def)
    let ?db = "notify_started C now (claim_row now r) (set_restore (rh_id r) (claim_row now) (zs_db s))"
    let ?s1 = "s\<lparr>zs_db := ?db\<rparr>"
    have d: "distinct (map rh_id (ad_restores (zs_db s)))" using inv by (simp add: exec_inv_def)
    have rows: "ad_restores ?db = upd_where (\<lambda>x. rh_id x = rh_id r) (claim_row now) (ad_restores (zs_db s))" by simp
    have s1: "good_step s ?s1"
    proof (rule good_upd_le [OF inv rows])
      fix x assume "x \<in> set (ad_restores (zs_db s))" "rh_id x = rh_id r"
      from row_of_id [OF d r(1) this] r(2)
      show "restore_move x (claim_row now x)" "rh_status x \<noteq> RS_RUNNING" "authorised x"
        by (simp_all add: claim_move authorised_def)
    qed
    have "claim_row now r \<in> set (ad_restores ?db)" using r(1) by (auto simp: set_upd_where image_iff)
    then have run: "has_status ?db (rh_id r) RS_RUNNING" 
      unfolding has_status_def by (rule bexI [rotated]) (simp add: claim_row_def)
    have "rh_started_at r = None" using exec_invD(3) [OF inv r(1)] r(2) by (auto simp: row_typed_def)
    have "rh_id r \<notin> set (zs_sent s)"
    proof
      assume "rh_id r \<in> set (zs_sent s)"
      from exec_invD(8) [OF inv this] obtain r' where
        "r' \<in> set (ad_restores (zs_db s))" "rh_id r' = rh_id r" "rh_started_at r' \<noteq> None" by blast
      with row_of_id [OF d r(1), of r'] \<open>rh_started_at r = None\<close> show False by simp
    qed
    then have "good_step ?s1 (?s1\<lparr>zs_phase := W_Claimed (rh_id r) None\<rparr>)" if "exec_inv ?s1"
      using run by (intro good_hold [OF that, of _ "rh_id r"]) (simp_all add: idle Nil closing_ok_def)
    from good_then_phase [OF s1 this] show ?thesis by (simp add: claim_restore_def Nil Some)
  qed
qed

lemma load_plan_id: "load_plan db i = (Some p, x) \<Longrightarrow> rq_restore_id p = i"
  by (auto simp: load_plan_def split: option.splits dest!: restore_get_Some)

text \<open>The phases that wait for an answer keep what they hold, and none of them goes back before the send.\<close>

lemma execute_begin_phase:
  "held_by (execute_begin db i a) \<in> {Some i, None}" "closing_ok (execute_begin db i a)"
  "before_send (execute_begin db i a) \<Longrightarrow> a = None \<and> held_by (execute_begin db i a) = Some i"
  by (auto simp: execute_begin_def before_send_def closing_ok_def dest: load_plan_id split: option.splits prod.splits if_splits)

lemma fetch_begin_phase:
  "held_by (fetch_begin g p a) = Some (rq_restore_id p)" "closing_ok (fetch_begin g p a)"
  by (auto simp: fetch_begin_def closing_ok_def split: sum.split app_error.split)

lemma fetch_poll_phase:
  "held_by (fetch_poll gr n p t since a) = Some (rq_restore_id p)" "closing_ok (fetch_poll gr n p t since a)"
  by (auto simp: fetch_poll_def closing_ok_def split: poll_result.split)

lemma send_answer_phase:
  "held_by (send_answer p a) = Some (rq_restore_id p)" "closing_ok (send_answer p a)" "\<not> before_send (send_answer p a)"
  by (auto simp: send_answer_def closing_ok_def before_send_def split: sum.split app_error.split)

lemma watch_poll_phase:
  "held_by (watch_poll gr n i t since a) = Some i" "closing_ok (watch_poll gr n i t since a)"
  "\<not> before_send (watch_poll gr n i t since a)"
  by (auto simp: watch_poll_def closing_ok_def before_send_def split: poll_result.split)

lemmas phase_facts = execute_begin_phase fetch_begin_phase fetch_poll_phase send_answer_phase watch_poll_phase

lemma good_send:
  assumes inv: "exec_inv s" and ph: "zs_phase s = W_Send p"
  shows "good_step s (s\<lparr>zs_sent := rq_restore_id p # zs_sent s, zs_phase := W_Sent p\<rparr>)"
proof -
  let ?i = "rq_restore_id p"
  have "?i \<notin> set (zs_sent s)" using exec_invD(9) [OF inv] by (simp add: ph before_send_def)
  moreover obtain r where r: "r \<in> set (ad_restores (zs_db s))" "rh_id r = ?i" "rh_status r = RS_RUNNING"
    using exec_invD(4) [OF inv, of ?i] by (auto simp: ph held_ids_def has_status_def)
  moreover have "rh_started_at r \<noteq> None" using exec_invD(3) [OF inv r(1)] r(3) by (auto simp: row_typed_def)
  moreover have "held_ids (s\<lparr>zs_sent := ?i # zs_sent s, zs_phase := W_Sent p\<rparr>) = held_ids s"
    by (simp add: held_ids_def ph)
  ultimately show ?thesis
    using inv by (auto simp: good_step_def exec_inv_def before_send_def closing_ok_def restores.grows_same)
qed

lemma good_attach:
  assumes inv: "exec_inv s" and ph: "zs_phase s = W_Accepted i t"
  shows "good_step s (s\<lparr>zs_db := attach_task i t (zs_db s), zs_phase := W_Watch i t None\<rparr>)"
proof -
  let ?s1 = "s\<lparr>zs_db := attach_task i t (zs_db s)\<rparr>"
  obtain r where r: "r \<in> set (ad_restores (zs_db s))" "rh_id r = i" "rh_status r = RS_RUNNING"
    using exec_invD(4) [OF inv, of i] by (auto simp: ph held_ids_def has_status_def)
  have only: "rh_status x = RS_RUNNING" if "x \<in> set (ad_restores (zs_db s))" "rh_id x = i" for x
    using row_of_id [OF exec_invD(1) [OF inv] r(1) that(1)] r that by simp
  have s1: "good_step s ?s1"
  proof (rule good_write [OF inv])
    show "table_grows rh_id restore_move fresh_restore (ad_restores (zs_db s)) (ad_restores (attach_task i t (zs_db s)))"
      by simp (rule restores.grows_updated, simp add: only attach_move)
    have "length (filter authorised (ad_restores (attach_task i t (zs_db s)))) \<le> length (filter authorised (ad_restores (zs_db s)))"
      by simp (rule count_upd_where_le, simp add: authorised_def)
    then show "length (filter authorised (ad_restores (attach_task i t (zs_db s)))) \<le> 1"
      using exec_invD(2) [OF inv] by simp
    show "has_status (zs_db s) j RS_RUNNING \<Longrightarrow> has_status (attach_task i t (zs_db s)) j RS_RUNNING" for j
      by (rule has_status_kept [OF worker_rows(3)]) simp_all
  qed
  moreover have "good_step ?s1 (?s1\<lparr>zs_phase := W_Watch i t None\<rparr>)" if "exec_inv ?s1"
    by (rule good_phase [OF that]) (simp_all add: ph before_send_def closing_ok_def)
  ultimately have "good_step s (?s1\<lparr>zs_phase := W_Watch i t None\<rparr>)" by (rule good_then_phase) simp_all
  then show ?thesis by simp
qed

lemma good_advance:
  assumes inv: "exec_inv s"
  shows "good_step s (advance E now tick started polled s)"
proof (cases "zs_phase s")
  case W_Idle
  with good_claim [OF inv W_Idle] show ?thesis by (simp add: advance_def)
next
  case (W_Claimed i a)
  have "good_step s (s\<lparr>zs_phase := execute_begin (zs_db s) i a\<rparr>)"
    using phase_facts(1-3) [of "zs_db s" i a] by (intro good_phase [OF inv]) (auto simp: W_Claimed before_send_def)
  with W_Claimed show ?thesis by (simp add: advance_def)
next
  case (W_Fetch p)
  then show ?thesis by (simp add: advance_def good_phase [OF inv] phase_facts before_send_def)
next
  case (W_Fetching p t since)
  then show ?thesis by (simp add: advance_def good_phase [OF inv] phase_facts before_send_def)
next
  case (W_Fetched p)
  let ?s1 = "s\<lparr>zs_db := mark_local_copy_present (rq_backup_id p) (zs_db s)\<rparr>"
  have "good_step s ?s1" by (rule good_frame [OF inv]) simp
  moreover have "good_step ?s1 (?s1\<lparr>zs_phase := W_Send p\<rparr>)" if "exec_inv ?s1"
    by (rule good_phase [OF that]) (simp_all add: W_Fetched before_send_def closing_ok_def)
  ultimately have "good_step s (?s1\<lparr>zs_phase := W_Send p\<rparr>)" by (rule good_then_phase) simp_all
  with W_Fetched show ?thesis by (simp add: advance_def)
next
  case (W_Send p)
  with good_send [OF inv W_Send] show ?thesis by (simp add: advance_def)
next
  case (W_Sent p)
  then show ?thesis by (simp add: advance_def) (rule good_phase [OF inv], simp_all add: phase_facts)
next
  case (W_Accepted i t)
  with good_attach [OF inv W_Accepted] show ?thesis by (simp add: advance_def)
next
  case (W_Watch i t since)
  then show ?thesis by (simp add: advance_def) (rule good_phase [OF inv], simp_all add: phase_facts)
next
  case (W_Report i t)
  have "good_step s (s\<lparr>zs_db := record_outcome (we_notify E) now i t (zs_db s), zs_phase := W_Idle\<rparr>)"
    by (rule good_finish [OF inv, of i _ "outcome_row now t"]) (simp_all add: W_Report outcome_move authorised_def)
  with W_Report show ?thesis by (simp add: advance_def)
next
  case (W_Closing i st m)
  have "st \<in> {RS_FAILED, RS_INTERRUPTED}" using exec_invD(7) [OF inv] by (simp add: W_Closing closing_ok_def)
  then have "good_step s (s\<lparr>zs_db := close_restore (we_notify E) now i st m (zs_db s), zs_phase := W_Idle\<rparr>)"
    by (intro good_finish [OF inv, of i _ "close_row now st m"])
      (simp_all add: W_Closing close_move authorised_def)
  with W_Closing show ?thesis by (simp add: advance_def)
qed

lemma good_crash: "exec_inv s \<Longrightarrow> good_step s (crash s)"
  by (cases "held_by (zs_phase s)")
    (auto simp: crash_def before_send_def closing_ok_def good_step_def restores.grows_same
      intro: good_phase [unfolded good_step_def, simplified])

text \<open>A restart forgets what the process held and finds it again in the table.\<close>

lemma good_resume:
  assumes inv: "exec_inv s" and ids: "distinct (map fst rs)" "\<And>i. i \<in> fst ` set rs \<Longrightarrow> has_status (zs_db s) i RS_RUNNING"
  shows "good_step s (s\<lparr>zs_resume := rs, zs_phase := W_Idle\<rparr>)"
proof -
  have "held_ids (s\<lparr>zs_resume := rs, zs_phase := W_Idle\<rparr>) = map fst rs" by (simp add: held_ids_def)
  then show ?thesis
    using exec_invD [OF inv] ids unfolding good_step_def exec_inv_def
    by (simp add: restores.grows_same before_send_def closing_ok_def)
qed

lemma good_close_unheld:
  assumes inv: "exec_inv s" and none: "held_ids s = []"
    and r: "r \<in> set (ad_restores (zs_db s))" "rh_status r = RS_RUNNING"
  shows "good_step s (s\<lparr>zs_db := close_restore C now (rh_id r) RS_INTERRUPTED m (zs_db s)\<rparr>)"
proof (rule good_write [OF inv])
  have only: "x = r" if "x \<in> set (ad_restores (zs_db s))" "rh_id x = rh_id r" for x
    using row_of_id [OF exec_invD(1) [OF inv] r(1) that] .
  let ?db = "close_restore C now (rh_id r) RS_INTERRUPTED m (zs_db s)"
  show "table_grows rh_id restore_move fresh_restore (ad_restores (zs_db s)) (ad_restores ?db)"
    by simp (rule restores.grows_updated, auto dest!: only simp: close_move r)
  have "length (filter authorised (ad_restores ?db)) \<le> length (filter authorised (ad_restores (zs_db s)))"
    by simp (rule count_upd_where_le, simp add: authorised_def close_row_def)
  then show "length (filter authorised (ad_restores ?db)) \<le> 1" using exec_invD(2) [OF inv] by simp
qed (simp add: none)

lemma running_restores_le1: "exec_inv s \<Longrightarrow> length (running_restores (zs_db s)) \<le> 1"
proof -
  assume "exec_inv s"
  then have "length (filter authorised (ad_restores (zs_db s))) \<le> 1" by (rule exec_invD)
  moreover have "length (filter (\<lambda>r. rh_status r = RS_RUNNING) xs) \<le> length (filter authorised xs)" for xs
    by (induction xs) (auto simp: authorised_def)
  ultimately show ?thesis using le_trans by (fastforce simp: running_restores_def)
qed

lemma good_recover:
  assumes inv: "exec_inv s"
  shows "good_step s (recover C now s)"
proof -
  let ?s0 = "s\<lparr>zs_resume := [], zs_phase := W_Idle\<rparr>"
  have s0: "good_step s ?s0" by (rule good_resume [OF inv]) simp_all
  consider (none) "running_restores (zs_db s) = []" | (one) r where "running_restores (zs_db s) = [r]"
    using running_restores_le1 [OF inv] by (cases "running_restores (zs_db s)") auto
  then show ?thesis
  proof cases
    case none
    then show ?thesis using s0 by (simp add: recover_def List.map_filter_def)
  next
    case (one r)
    then have "r \<in> set (running_restores (zs_db s))" by simp
    then have r: "r \<in> set (ad_restores (zs_db s))" "rh_status r = RS_RUNNING" by (auto simp: running_restores_def)
    show ?thesis
    proof (cases "rh_agent_task_id r")
      case None
      let ?m = "''The dashboard restarted before the agent confirmed this restore.''"
      have "good_step ?s0 (?s0\<lparr>zs_db := close_restore C now (rh_id r) RS_INTERRUPTED ?m (zs_db ?s0)\<rparr>)"
        using s0 r by (intro good_close_unheld) (simp_all add: good_step_def held_ids_def)
      then have g: "good_step s (?s0\<lparr>zs_db := close_restore C now (rh_id r) RS_INTERRUPTED ?m (zs_db ?s0)\<rparr>)"
        by (simp add: good_step_def)
      have e: "recover C now s = (?s0\<lparr>zs_db := close_restore C now (rh_id r) RS_INTERRUPTED ?m (zs_db ?s0)\<rparr>)\<lparr>zs_task := None\<rparr>"
        by (simp add: recover_def one None List.map_filter_def)
      show ?thesis unfolding e good_task by (rule g)
    next
      case (Some t)
      have "good_step s (s\<lparr>zs_resume := [(rh_id r, t)], zs_phase := W_Idle\<rparr>)"
        using r by (intro good_resume [OF inv]) (auto simp: has_status_def)
      then show ?thesis by (simp add: recover_def one Some List.map_filter_def)
    qed
  qed
qed

lemma restore_step_good:
  assumes "restore_step E s s'" "exec_inv s"
  shows "good_step s s'"
  using assms
proof (induction rule: restore_step.induct)
  case (z_create a a' c V s out db')
  then show ?case by (intro good_create)
next
  case (z_confirm c V i token vmid s out db')
  then show ?case by (intro good_confirm)
next
  case (z_cancel s i answer asked c out db')
  then show ?case by (intro good_cancel)
qed (simp_all add: good_expire good_advance good_crash good_recover good_frame)

lemma exec_inv_start: "exec_inv (restore_start db)"
  by (simp add: exec_inv_def restore_start_def held_ids_def closing_ok_def before_send_def)

lemma reachable_inv: "restore_reachable E s \<Longrightarrow> exec_inv s"
  by (induction rule: restore_reachable.induct)
    (auto simp: exec_inv_start dest: restore_step_good simp: good_step_def)

section \<open>Properties\<close>

text \<open>
  C9. At most one restore is authorised to touch the host: in every state that requests, expiry, the
  executor, crashes and restarts can lead to, at most one row is confirmed or running.
\<close>

theorem one_restore_in_flight:
  assumes "restore_reachable E s"
  shows "length (filter authorised (ad_restores (zs_db s))) \<le> 1"
  by (rule exec_invD(2) [OF reachable_inv [OF assms]])

text \<open>
  C2. The start of a restore is sent to the agent at most once, and only for one that was confirmed:
  whatever fails or restarts in between, no restore is ever issued twice.
\<close>

theorem restore_sent_once_and_confirmed:
  assumes "restore_reachable E s"
  shows "distinct (zs_sent s) \<and> (\<forall>i \<in> set (zs_sent s). \<exists>r \<in> set (ad_restores (zs_db s)).
    rh_id r = i \<and> rh_confirmed_at r \<noteq> None \<and> rh_token_hash r = None
    \<and> rh_status r \<in> {RS_RUNNING, RS_SUCCESS, RS_FAILED, RS_CANCELLED, RS_INTERRUPTED})"
proof -
  note inv = reachable_inv [OF assms]
  show ?thesis
  proof (intro conjI ballI exec_invD(6) [OF inv])
    fix i assume "i \<in> set (zs_sent s)"
    from exec_invD(8) [OF inv this] obtain r where r: "r \<in> set (ad_restores (zs_db s))" "rh_id r = i" "rh_started_at r \<noteq> None"
      by blast
    from exec_invD(3) [OF inv r(1)] r(3)
    show "\<exists>r \<in> set (ad_restores (zs_db s)). rh_id r = i \<and> rh_confirmed_at r \<noteq> None \<and> rh_token_hash r = None
        \<and> rh_status r \<in> {RS_RUNNING, RS_SUCCESS, RS_FAILED, RS_CANCELLED, RS_INTERRUPTED}"
      by (intro bexI [OF _ r(1)]) (auto simp: row_typed_def r(2))
  qed
qed

text \<open>
  C18. Restores implement their documented life: every step leaves each row its target and options and
  moves its status along \<open>next_statuses\<close> at most once; a finished restore never changes again.
\<close>

theorem restores_follow_their_life:
  assumes "restore_reachable E s" and "restore_step E s s'" and "r \<in> set (ad_restores (zs_db s))"
  shows "\<exists>r' \<in> set (ad_restores (zs_db s')). same_target r r'
    \<and> (rh_status r' = rh_status r \<or> rh_status r' \<in> set (next_statuses (rh_status r)))
    \<and> (if restore_is_terminal (rh_status r) then rh_status r' = rh_status r else True)"
proof -
  have "good_step s s'" by (rule restore_step_good [OF assms(2) reachable_inv [OF assms(1)]])
  then obtain r' where r': "r' \<in> set (ad_restores (zs_db s'))" "restore_move r r'"
    using restores.grows_old [OF _ assms(3)] by (auto simp: good_step_def)
  moreover have "restore_is_terminal st \<Longrightarrow> next_statuses st = []" for st
    by (cases st) (simp_all add: restore_is_terminal_def)
  ultimately show ?thesis by (intro bexI [OF _ r'(1)]) (auto simp: restore_move_def)
qed

text \<open>
  C19. The columns of a restore agree in every reachable state: a confirmation token exists exactly
  while it is awaited, an end exactly when the status is final, a start only after a confirmation, an
  agent task only after a start.
\<close>

theorem restore_rows_typed:
  assumes "restore_reachable E s" and "r \<in> set (ad_restores (zs_db s))"
  shows "row_typed r"
  by (rule exec_invD(3) [OF reachable_inv [OF assms(1)] assms(2)])

text \<open>
  What the preflight is there to establish for row \<open>r\<close> and backup \<open>b\<close>, without its checks: the backup
  succeeded; its archive is listed on the host with no other digest than the recorded one, or is absent
  there and held by the remote; the target is free, or may be replaced by a guest of its type that does
  not run; the node is the agent's; the storage is active and has room; no other restore is in flight.
\<close>

definition archive_sound :: "restore_view \<Rightarrow> backup_row \<Rightarrow> bool" where
  "archive_sound V b = (\<exists>f items. bh_filename b = Some f \<and> rv_listing V (bh_vmid b) (bh_guest_type b) = Inr items
     \<and> (case find (\<lambda>x. aa_filename x = f) items of
         None \<Rightarrow> remote_usable b
       | Some x \<Rightarrow> (\<forall>expected actual. bh_checksum_sha256 b = Some expected \<longrightarrow> aa_checksum x = Some actual
           \<longrightarrow> py_lower actual = py_lower expected)))"

definition safe_to_restore :: "restore_view \<Rightarrow> app_db \<Rightarrow> restore_row \<Rightarrow> backup_row \<Rightarrow> bool" where
  "safe_to_restore V db r b =
     (let vmid = (case rh_mode r of ORIGINAL_ID \<Rightarrow> bh_vmid b | NEW_ID \<Rightarrow> rh_target_vmid r) in
      backup_get db (rh_backup_id r) = Some b \<and> bh_status b = B_SUCCESS \<and> archive_sound V b
      \<and> (case existing_guest db vmid of None \<Rightarrow> True
         | Some g \<Rightarrow> rh_overwrite r \<and> gu_type g = bh_guest_type b \<and> (gu_status g = G_RUNNING \<longrightarrow> rh_force_stop r))
      \<and> py_strip (rh_target_node r) = sc_node (ad_sections db)
      \<and> (\<exists>items st. rv_storages V = Inr items \<and> st \<in> set items \<and> as_name st = py_strip (rh_target_storage r)
           \<and> as_active st \<and> (case bh_size_bytes b of None \<Rightarrow> True | Some n \<Rightarrow> n = 0 \<or> required_bytes n \<le> as_available st))
      \<and> (\<forall>x \<in> set (ad_restores db). \<not> authorised x))"

lemma ask_of_fields:
  "ask_of r = Inr a \<Longrightarrow> ra_backup_id a = rh_backup_id r \<and> ra_mode a = rh_mode r \<and> ra_vmid a = Some (rh_target_vmid r)
    \<and> ra_storage a = Some (py_strip (rh_target_storage r)) \<and> ra_node a = Some (py_strip (rh_target_node r))
    \<and> ra_overwrite a = rh_overwrite r \<and> ra_force_stop a = rh_force_stop r"
  by (auto simp: ask_of_def validate_ask_def Let_def split: if_splits)

lemma free_space_clear:
  "free_space_check V b st = Inr (True, w) \<Longrightarrow> \<exists>items x. rv_storages V = Inr items \<and> x \<in> set items \<and> as_name x = st
    \<and> as_active x \<and> (case bh_size_bytes b of None \<Rightarrow> True | Some n \<Rightarrow> n = 0 \<or> required_bytes n \<le> as_available x)"
  by (auto simp: free_space_check_def split: sum.splits app_error.splits option.splits if_splits dest!: find_Some_mem)

lemma archive_clear:
  assumes "local_artifact_of V b = Inr (artifact, error)" "fst (snd (artifact_presence b artifact error))"
    "checksum_check b artifact (fst (artifact_presence b artifact error)) = Inr (True, w)" "bh_filename b = Some f"
  shows "archive_sound V b"
proof -
  from assms(1,2,4) obtain items where items: "rv_listing V (bh_vmid b) (bh_guest_type b) = Inr items"
    "artifact = find (\<lambda>a. aa_filename a = f) items" "error = None"
    by (auto simp: local_artifact_of_def artifact_presence_def split: sum.splits app_error.splits)
  show ?thesis
  proof (cases artifact)
    case None
    then show ?thesis using assms(2,4) items by (auto simp: archive_sound_def artifact_presence_def split: if_splits)
  next
    case (Some x)
    then show ?thesis
      using assms(3,4) items
      by (auto simp: archive_sound_def artifact_presence_def checksum_check_def split: if_splits)
  qed
qed

lemma confirmed_is_safe:
  assumes "confirm_route c V i token vmid db = (Inr (), db')"
  shows "\<exists>r b (rp :: report). restore_get db i = Some r \<and> rh_status r = PENDING_CONFIRMATION \<and> \<not> window_closed (rm_now c) r
      \<and> rh_token_hash r = Some (rm_sha c token) \<and> vmid = rh_target_vmid r \<and> safe_to_restore V db r b
      \<and> ad_restores db' = upd_where (\<lambda>r. rh_id r = i) (confirm_row (rm_now c) (rp_source rp)) (ad_restores db)"
proof -
  from confirm_route_rows [OF assms(1)] obtain r a rp where
    r: "restore_get db i = Some r" "rh_status r = PENDING_CONFIRMATION" "\<not> window_closed (rm_now c) r"
      "token_matches c token (rh_token_hash r)" "vmid = rh_target_vmid r"
    and a: "ask_of r = Inr a" and pf: "preflight V a db = Inr rp" "\<not> rp_blocking rp"
    and rows: "ad_restores db' = upd_where (\<lambda>r. rh_id r = i) (confirm_row (rm_now c) (rp_source rp)) (ad_restores db)"
    by auto
  note f = ask_of_fields [OF a]
  from pf have "\<exists>b. safe_to_restore V db r b"
  proof (rule preflight_clear)
    fix b artifact error w2 w4
    assume b: "backup_get db (ra_backup_id a) = Some b" "backup_restorable b"
      and la: "local_artifact_of V b = Inr (artifact, error)" "fst (snd (artifact_presence b artifact error))"
        "checksum_check b artifact (fst (artifact_presence b artifact error)) = Inr (True, w2)"
      and t: "fst (target_free_check (existing_guest db (resolve_target_vmid a b)) a)"
        "target_type_check (existing_guest db (resolve_target_vmid a b)) (bh_guest_type b)"
        "target_stopped_check (existing_guest db (resolve_target_vmid a b)) a"
      and nd: "node_of a db = sc_node (ad_sections db)"
      and fs: "free_space_check V b (storage_of a db) = Inr (True, w4)" and fl: "in_flight db = None"
    have "resolve_target_vmid a b = (case rh_mode r of ORIGINAL_ID \<Rightarrow> bh_vmid b | NEW_ID \<Rightarrow> rh_target_vmid r)"
      using f by (simp add: resolve_target_vmid_def split: restore_mode.split)
    moreover have "storage_of a db = py_strip (rh_target_storage r)" using f by (simp add: storage_of_def)
    moreover have "py_strip (rh_target_node r) = sc_node (ad_sections db)" using f nd by (simp add: node_of_def)
    moreover obtain fn where "bh_filename b = Some fn" using b(2) by (auto simp: backup_restorable_def)
    ultimately have "safe_to_restore V db r b"
      using b t f fl free_space_clear [OF fs] archive_clear [OF la]
      by (auto simp: safe_to_restore_def Let_def backup_restorable_def target_free_check_def target_type_check_def
          target_stopped_check_def in_flight_def first_restore_None split: option.splits if_splits)
    then show ?thesis by blast
  qed
  moreover have "rh_token_hash r = Some (rm_sha c token)" using r(4) by (auto simp: token_matches_def split: option.splits)
  ultimately obtain b where "safe_to_restore V db r b" "rh_token_hash r = Some (rm_sha c token)" by blast
  with r rows show ?thesis by (intro exI [of _ r] exI [of _ b] exI [of _ rp]) simp
qed

text \<open>A row that no longer awaits confirmation never awaits it again, whatever steps follow.\<close>

lemma never_awaited_again:
  assumes "rtranclp (restore_step E) s s'" and "restore_reachable E s"
    and "\<exists>r \<in> set (ad_restores (zs_db s)). rh_id r = i \<and> rh_status r \<noteq> PENDING_CONFIRMATION"
  shows "restore_reachable E s' \<and> (\<exists>r \<in> set (ad_restores (zs_db s')). rh_id r = i \<and> rh_status r \<noteq> PENDING_CONFIRMATION)"
  using assms(1)
proof induction
  case base
  from assms(2,3) show ?case by blast
next
  case (step y z)
  from step.IH obtain r where y: "restore_reachable E y"
    and r: "r \<in> set (ad_restores (zs_db y))" "rh_id r = i" "rh_status r \<noteq> PENDING_CONFIRMATION" by blast
  have "good_step y z" by (rule restore_step_good [OF step.hyps(2) reachable_inv [OF y]])
  then obtain r' where r': "r' \<in> set (ad_restores (zs_db z))" "restore_move r r'"
    using restores.grows_old [OF _ r(1)] by (auto simp: good_step_def)
  then have "rh_id r' = i \<and> rh_status r' \<noteq> PENDING_CONFIRMATION"
    using r by (cases "rh_status r") (auto simp: restore_move_def same_target_def)
  with r'(1) zr_step [OF y step.hyps(2)] show ?case by blast
qed

lemma awaited_no_more_refused:
  assumes "restore_reachable E s"
    and "\<exists>r \<in> set (ad_restores (zs_db s)). rh_id r = i \<and> rh_status r \<noteq> PENDING_CONFIRMATION"
  shows "\<not> is_ok (fst (confirm_route c V i token vmid (zs_db s)))"
proof -
  from assms(2) obtain r where r: "r \<in> set (ad_restores (zs_db s))" "rh_id r = i" "rh_status r \<noteq> PENDING_CONFIRMATION"
    by blast
  obtain r0 where r0: "restore_get (zs_db s) i = Some r0"
    using r by (cases "restore_get (zs_db s) i") (auto simp: restore_get_def dest: find_None_notin)
  from restore_get_Some [OF r0] r exec_invD(1) [OF reachable_inv [OF assms(1)]] have "r0 = r"
    by (metis distinct_map inj_on_def)
  with r r0 show ?thesis by (simp add: confirm_route_def confirm_restore_def session_def)
qed

text \<open>
  C7. A confirmation is accepted only when everything is still safe, and only once: the row awaited it,
  its window was open, token and VMID were the right ones, and the backup, the archive and its digest,
  the target, the node, the storage and the queue are as \<open>safe_to_restore\<close> says at that moment. In no state
  the program goes on to, after any requests, worker steps, crashes and restarts, is that restore
  confirmed again, with this token or another.
\<close>

theorem confirmation_is_safe_and_single_use:
  assumes "restore_reachable E s" and "confirm_route c V i token vmid (zs_db s) = (Inr (), db')"
    and "rtranclp (restore_step E) (s\<lparr>zs_db := db'\<rparr>) later"
  shows "(\<exists>r b. restore_get (zs_db s) i = Some r \<and> rh_status r = PENDING_CONFIRMATION \<and> \<not> window_closed (rm_now c) r
      \<and> rh_token_hash r = Some (rm_sha c token) \<and> vmid = rh_target_vmid r \<and> safe_to_restore V (zs_db s) r b)
    \<and> \<not> is_ok (fst (confirm_route c' V' i token' vmid' (zs_db later)))"
proof -
  from confirmed_is_safe [OF assms(2)] obtain r b and rp :: report where
    safe: "restore_get (zs_db s) i = Some r" "rh_status r = PENDING_CONFIRMATION" "\<not> window_closed (rm_now c) r"
      "rh_token_hash r = Some (rm_sha c token)" "vmid = rh_target_vmid r" "safe_to_restore V (zs_db s) r b"
    and rows: "ad_restores db' = upd_where (\<lambda>r. rh_id r = i) (confirm_row (rm_now c) (rp_source rp)) (ad_restores (zs_db s))"
    by blast
  have "restore_reachable E (s\<lparr>zs_db := db'\<rparr>)" by (rule zr_step [OF assms(1) z_confirm [OF assms(2)]])
  moreover have "\<exists>r \<in> set (ad_restores (zs_db (s\<lparr>zs_db := db'\<rparr>))). rh_id r = i \<and> rh_status r \<noteq> PENDING_CONFIRMATION"
    using restore_get_Some [OF safe(1)]
    by (intro bexI [of _ "confirm_row (rm_now c) (rp_source rp) r"]) (auto simp: rows set_upd_where, simp_all add: confirm_row_def)
  ultimately have "\<not> is_ok (fst (confirm_route c' V' i token' vmid' (zs_db later)))"
    using never_awaited_again [OF assms(3)] awaited_no_more_refused by blast
  with safe show ?thesis by blast
qed

section \<open>A concrete restore\<close>

definition demo_archive :: backup_row where
  "demo_archive = \<lparr>bh_id = 7, bh_run_id = None, bh_vmid = 101, bh_guest_type = VM, bh_guest_name = ''web'',
     bh_node = ''pve'', bh_storage = ''backup-hdd'', bh_filename = Some ''a'', bh_local_path = None,
     bh_size_bytes = Some 100, bh_mode = SNAPSHOT, bh_compression = ZSTD, bh_checksum_sha256 = Some ''ab'',
     bh_status = B_SUCCESS, bh_agent_task_id = None, bh_started_at = Some 5, bh_finished_at = Some 6,
     bh_duration_seconds = None, bh_error_message = None, bh_warnings = None, bh_upload_status = NOT_REQUIRED,
     bh_uploaded_at = None, bh_remote_path = None, bh_remote_size_bytes = None,
     bh_remote_checksum = None, bh_retention_locked = False, bh_local_deleted_at = None,
     bh_remote_deleted_at = None, bh_correlation_id = None\<rparr>"

definition demo_view :: restore_view where
  "demo_view = \<lparr>rv_listing = (\<lambda>_ _. Inr [\<lparr>aa_filename = ''a'', aa_checksum = Some ''ab''\<rparr>]),
     rv_storages = Inr [\<lparr>as_name = ''backup-hdd'', as_active = True, as_available = 115\<rparr>]\<rparr>"

definition demo_ask :: restore_ask where
  "demo_ask = \<lparr>ra_backup_id = 7, ra_mode = NEW_ID, ra_vmid = Some 300, ra_storage = None, ra_node = None,
     ra_overwrite = False, ra_force_stop = False, ra_start_after = False\<rparr>"

definition demo_moment :: restore_moment where
  "demo_moment = \<lparr>rm_now = 50, rm_ttl = 300, rm_token = ''t'', rm_sha = (\<lambda>t. t), rm_user = (1, ''op'')\<rparr>"

definition demo_requested :: restore_sys where
  "demo_requested = (let s = restore_start ((empty_db default_sections)\<lparr>ad_backups := [demo_archive]\<rparr>)
     in s\<lparr>zs_db := snd (create_route demo_moment demo_view demo_ask (zs_db s))\<rparr>)"

definition demo_confirmed :: restore_sys where
  "demo_confirmed = demo_requested\<lparr>zs_db := snd (confirm_route demo_moment demo_view 1 ''rst_t'' 300 (zs_db demo_requested))\<rparr>"

definition demo_worker :: worker_env where
  "demo_worker = \<lparr>we_notify = demo_notify, we_grace = 60\<rparr>"

text \<open>Claimed, loaded, sent.\<close>

definition demo_advance :: "restore_sys \<Rightarrow> restore_sys" where
  "demo_advance s = advance demo_worker 60 0 (Inr ''task'') (Inl (App_AgentUnavailable [])) s"

definition demo_issued :: restore_sys where
  "demo_issued = demo_advance (demo_advance (demo_advance demo_confirmed))"

lemma demo_reachable: "restore_reachable demo_worker demo_requested" "restore_reachable demo_worker demo_confirmed"
  "restore_reachable demo_worker demo_issued"
proof -
  have v: "validate_ask demo_ask = Some demo_ask"
    by (simp add: validate_ask_def demo_ask_def short_text_def)
  show r: "restore_reachable demo_worker demo_requested"
    unfolding demo_requested_def Let_def by (rule zr_step [OF zr_start z_create [OF v surjective_pairing]])
  show c: "restore_reachable demo_worker demo_confirmed"
    unfolding demo_confirmed_def by (rule zr_step [OF r z_confirm [OF surjective_pairing]])
  show "restore_reachable demo_worker demo_issued"
    unfolding demo_issued_def demo_advance_def by (intro zr_step [OF _ z_work] c)
qed

lemma demo_required: "required_bytes 100 = 115"
  by (simp add: required_bytes_def)

lemma demo_preflight:
  assumes "backup_get db 7 = Some demo_archive" "ad_sections db = default_sections" "in_flight db = None"
      "ad_guests db = []"
    and "ra_backup_id a = 7" "ra_mode a = NEW_ID" "ra_vmid a = Some 300" "ra_storage a \<in> {None, Some ''backup-hdd''}"
    "ra_node a \<in> {None, Some ''pve''}"
  shows "\<exists>w. preflight demo_view a db = Inr \<lparr>rp_checks = map (\<lambda>n. (n, True)) [''backup_restorable'',
      ''backup_present_locally'', ''checksum_matches'', ''target_vmid_free'', ''target_type_matches'',
      ''target_guest_stopped'', ''target_node_supported'', ''storage_free_space'', ''no_restore_in_flight''],
    rp_blocking = False, rp_warnings = w, rp_source = SRC_LOCAL, rp_target_vmid = 300, rp_target_type = VM,
    rp_target_storage = ''backup-hdd'', rp_target_node = ''pve''\<rparr>"
proof -
  have "storage_of a db = ''backup-hdd''" "node_of a db = ''pve''"
    using assms(2,8,9) by (auto simp: storage_of_def node_of_def default_sections_def)
  moreover have "sc_node default_sections = ''pve''" by (simp add: default_sections_def)
  moreover have "py_lower ''ab'' = ''ab''" by code_simp
  ultimately show ?thesis
    using assms
    by (simp add: preflight_def resolve_target_vmid_def existing_guest_def get_by_vmid_def demo_view_def
        local_artifact_of_def demo_archive_def artifact_presence_def checksum_check_def target_free_check_def
        target_type_check_def target_stopped_check_def free_space_check_def backup_restorable_def demo_required
        Let_def code_def)
qed
lemma demo_requested_rows: "ad_restores (zs_db demo_requested) =
    [(restore_row_of demo_moment demo_ask \<lparr>rp_checks = [], rp_blocking = False, rp_warnings = [], rp_source = SRC_LOCAL,
       rp_target_vmid = 300, rp_target_type = VM, rp_target_storage = ''backup-hdd'', rp_target_node = ''pve''\<rparr>)\<lparr>rh_id := 1\<rparr>]"
  "ad_backups (zs_db demo_requested) = [demo_archive]" "ad_sections (zs_db demo_requested) = default_sections"
  "ad_guests (zs_db demo_requested) = []"
  "zs_phase demo_requested = W_Idle" "zs_resume demo_requested = []" "zs_sent demo_requested = []"
proof -
  let ?db = "zs_db (restore_start ((empty_db default_sections)\<lparr>ad_backups := [demo_archive]\<rparr>))"
  have g: "backup_get ?db 7 = Some demo_archive" "ad_sections ?db = default_sections" "in_flight ?db = None" "ad_guests ?db = []"
    by (simp_all add: backup_get_def restore_start_def in_flight_def first_restore_def) (simp add: demo_archive_def)
  obtain w where pf: "preflight demo_view demo_ask ?db = Inr \<lparr>rp_checks = map (\<lambda>n. (n, True)) [''backup_restorable'',
      ''backup_present_locally'', ''checksum_matches'', ''target_vmid_free'', ''target_type_matches'',
      ''target_guest_stopped'', ''target_node_supported'', ''storage_free_space'', ''no_restore_in_flight''],
    rp_blocking = False, rp_warnings = w, rp_source = SRC_LOCAL, rp_target_vmid = 300, rp_target_type = VM,
    rp_target_storage = ''backup-hdd'', rp_target_node = ''pve''\<rparr>"
    using demo_preflight [OF g, of demo_ask] by (auto simp: demo_ask_def)
  show "ad_restores (zs_db demo_requested) = [(restore_row_of demo_moment demo_ask \<lparr>rp_checks = [], rp_blocking = False, rp_warnings = [], rp_source = SRC_LOCAL,
       rp_target_vmid = 300, rp_target_type = VM, rp_target_storage = ''backup-hdd'', rp_target_node = ''pve''\<rparr>)\<lparr>rh_id := 1\<rparr>]"
    "ad_backups (zs_db demo_requested) = [demo_archive]" "ad_sections (zs_db demo_requested) = default_sections"
  "ad_guests (zs_db demo_requested) = []"
    "zs_phase demo_requested = W_Idle" "zs_resume demo_requested = []" "zs_sent demo_requested = []"
    by (simp_all add: demo_requested_def Let_def create_route_def create_restore_def pf restore_create_def)
      (simp_all add: restore_start_def next_id_def restore_row_of_def restore_audit_def record_app_audit_def)
qed


definition demo_row :: restore_row where
  "demo_row = (restore_row_of demo_moment demo_ask \<lparr>rp_checks = [], rp_blocking = False, rp_warnings = [], rp_source = SRC_LOCAL,
       rp_target_vmid = 300, rp_target_type = VM, rp_target_storage = ''backup-hdd'', rp_target_node = ''pve''\<rparr>)\<lparr>rh_id := 1\<rparr>"

lemmas demo_rows = demo_requested_rows [folded demo_row_def]

lemma demo_row_fields:
  "rh_id demo_row = 1" "rh_status demo_row = PENDING_CONFIRMATION" "rh_expires_at demo_row = Some (50 + seconds 300)"
  "rh_token_hash demo_row = Some ''rst_t''" "rh_target_vmid demo_row = 300" "rh_backup_id demo_row = 7"
  "rh_source demo_row = SRC_LOCAL"
  by (simp_all add: demo_row_def restore_row_of_def demo_moment_def demo_ask_def CONFIRMATION_TOKEN_PREFIX_def)

lemma demo_ask_of: "ask_of demo_row = Inr (demo_ask\<lparr>ra_storage := Some ''backup-hdd'', ra_node := Some ''pve''\<rparr>)"
proof -
  have "py_strip ''backup-hdd'' = ''backup-hdd''" "py_strip ''pve'' = ''pve''" by code_simp+
  then show ?thesis
    by (simp add: ask_of_def validate_ask_def short_text_def demo_row_def restore_row_of_def demo_ask_def demo_moment_def)
qed

lemma demo_confirmation:
  "\<exists>db'. confirm_route demo_moment demo_view 1 ''rst_t'' 300 (zs_db demo_requested) = (Inr (), db')
     \<and> ad_restores db' = [confirm_row 50 SRC_LOCAL demo_row] \<and> ad_backups db' = [demo_archive]"
proof -
  let ?db = "zs_db demo_requested" and ?a = "demo_ask\<lparr>ra_storage := Some ''backup-hdd'', ra_node := Some ''pve''\<rparr>"
  have g: "backup_get ?db 7 = Some demo_archive" "in_flight ?db = None"
    by (simp_all add: backup_get_def demo_rows in_flight_def first_restore_def demo_row_fields authorised_def)
      (simp add: demo_archive_def)
  obtain rp where "preflight demo_view ?a ?db = Inr rp" "\<not> rp_blocking rp" "rp_source rp = SRC_LOCAL"
    using demo_preflight [OF g(1) demo_rows(3) g(2) demo_rows(4), of ?a] by (auto simp: demo_ask_def)
  then show ?thesis
    by (simp add: confirm_route_def confirm_restore_def restore_get_def demo_rows demo_row_fields window_closed_def
        token_matches_def demo_moment_def demo_ask_of session_def seconds_def)
qed


lemma demo_confirmed_facts:
  "ad_restores (zs_db demo_confirmed) = [confirm_row 50 SRC_LOCAL demo_row]" "ad_backups (zs_db demo_confirmed) = [demo_archive]"
  "zs_phase demo_confirmed = W_Idle" "zs_resume demo_confirmed = []" "zs_sent demo_confirmed = []"
  using demo_confirmation by (auto simp: demo_confirmed_def demo_rows)

lemma demo_issued_facts:
  "ad_restores (zs_db demo_issued) = [claim_row 60 (confirm_row 50 SRC_LOCAL demo_row)]" "zs_sent demo_issued = [1]"
proof -
  let ?s1 = "demo_advance demo_confirmed" and ?r = "claim_row 60 (confirm_row 50 SRC_LOCAL demo_row)"
  have n: "next_confirmed (zs_db demo_confirmed) = Some (confirm_row 50 SRC_LOCAL demo_row)"
    by (simp add: next_confirmed_def first_restore_def demo_confirmed_facts confirm_row_def)
  have id1: "rh_id (confirm_row 50 SRC_LOCAL demo_row) = 1" by (simp add: confirm_row_def demo_row_fields)
  have s1: "ad_restores (zs_db ?s1) = [?r]" "ad_backups (zs_db ?s1) = [demo_archive]" "zs_phase ?s1 = W_Claimed 1 None"
    "zs_sent ?s1 = []"
    by (simp_all add: demo_advance_def advance_def demo_confirmed_facts claim_restore_def n id1 notify_started_def)
  let ?s2 = "demo_advance ?s1"
  have r: "rh_id ?r = 1" "rh_backup_id ?r = 7" "rh_source ?r = SRC_LOCAL"
    by (simp_all add: claim_row_def confirm_row_def demo_row_fields)
  have "load_plan (zs_db ?s1) 1 = (Some \<lparr>rq_restore_id = 1, rq_filename = ''a'', rq_guest_type = rh_target_type ?r,
           rq_target_vmid = rh_target_vmid ?r, rq_storage = rh_target_storage ?r, rq_overwrite = rh_overwrite ?r,
           rq_force_stop = rh_force_stop ?r, rq_start_after = rh_start_after ?r, rq_source = SRC_LOCAL,
           rq_expected_sha256 = Some ''ab'', rq_backup_id = 7\<rparr>, None)"
    by (simp add: load_plan_def restore_get_def s1 r backup_get_def) (simp add: demo_archive_def r [simplified])
  then obtain q where q: "zs_phase ?s2 = W_Send q" "rq_restore_id q = 1" "ad_restores (zs_db ?s2) = [?r]" "zs_sent ?s2 = []"
    by (simp add: demo_advance_def [of ?s1] advance_def s1 execute_begin_def)
  then show "ad_restores (zs_db demo_issued) = [?r]" "zs_sent demo_issued = [1]"
    by (simp_all add: demo_issued_def demo_advance_def [of ?s2] advance_def)
qed

theorem one_restore_in_flight_witness:
  "length (filter authorised (ad_restores (zs_db demo_issued))) \<le> 1 \<and> filter authorised (ad_restores (zs_db demo_issued)) \<noteq> []"
  using one_restore_in_flight [OF demo_reachable(3)]
  by (simp add: demo_issued_facts authorised_def claim_row_def)

theorem restore_sent_once_witness:
  "zs_sent demo_issued = [1] \<and> (\<exists>r \<in> set (ad_restores (zs_db demo_issued)). rh_id r = 1 \<and> rh_confirmed_at r \<noteq> None)"
  using restore_sent_once_and_confirmed [OF demo_reachable(3)] by (auto simp: demo_issued_facts(2))

theorem restores_follow_their_life_witness:
  "\<exists>r' \<in> set (ad_restores (zs_db (demo_advance demo_confirmed))). same_target (confirm_row 50 SRC_LOCAL demo_row) r'"
proof -
  have "restore_step demo_worker demo_confirmed (demo_advance demo_confirmed)"
    unfolding demo_advance_def by (rule z_work)
  from restores_follow_their_life [OF demo_reachable(2) this, of "confirm_row 50 SRC_LOCAL demo_row"]
  show ?thesis by (auto simp: demo_confirmed_facts)
qed

theorem restore_rows_typed_witness: "row_typed (claim_row 60 (confirm_row 50 SRC_LOCAL demo_row))"
  using restore_rows_typed [OF demo_reachable(3), of "claim_row 60 (confirm_row 50 SRC_LOCAL demo_row)"]
  by (simp add: demo_issued_facts)

theorem confirmation_witness:
  "is_ok (fst (confirm_route demo_moment demo_view 1 ''rst_t'' 300 (zs_db demo_requested)))
    \<and> \<not> is_ok (fst (confirm_route demo_moment demo_view 1 ''rst_t'' 300 (zs_db demo_issued)))"
proof -
  obtain db' where db': "confirm_route demo_moment demo_view 1 ''rst_t'' 300 (zs_db demo_requested) = (Inr (), db')"
    using demo_confirmation by auto
  have "restore_step demo_worker x (demo_advance x)" for x unfolding demo_advance_def by (rule z_work)
  then have "rtranclp (restore_step demo_worker) demo_confirmed demo_issued"
    unfolding demo_issued_def by (blast intro: rtranclp.rtrancl_into_rtrancl)
  then have "rtranclp (restore_step demo_worker) (demo_requested\<lparr>zs_db := db'\<rparr>) demo_issued"
    using db' by (simp add: demo_confirmed_def)
  from confirmation_is_safe_and_single_use [OF demo_reachable(1) db' this, of demo_moment demo_view "''rst_t''" 300] db'
  show ?thesis by simp
qed

end
