(* ===== verification/Backup_Runner.thy ===== *)
theory Backup_Runner
  imports Backups Restore_Exec
begin

text \<open>
  The run executor, \<open>backend/app/workers/backup_runner.py\<close>, as a state machine: a phase is where
  \<open>_loop\<close>, \<open>_execute_run\<close> and \<open>_backup_guest\<close> are between two awaits, so that requests, other components,
  a crash of the executor and a restart of the dashboard can fall between any two of them. The answers of
  the agent are arguments of the steps. \<open>us_sent\<close> records, for the proofs, the backups whose start
  was sent to the agent. Progress snapshots, events and log lines are left out.
\<close>

section \<open>Writes\<close>

definition backup_status_of :: "string \<Rightarrow> backup_status" where
  "backup_status_of s = (if s = ''success'' then B_SUCCESS else if s = ''failed'' then B_FAILED
     else if s = ''cancelled'' then B_CANCELLED else if s = ''interrupted'' then B_INTERRUPTED else B_FAILED)"

definition apply_artifact :: "agent_task \<Rightarrow> backup_row \<Rightarrow> backup_row" where
  "apply_artifact t b = b\<lparr>
     bh_filename := (if at_filename t \<noteq> None then at_filename t else bh_filename b),
     bh_local_path := (if at_path t \<noteq> None then at_path t else bh_local_path b),
     bh_size_bytes := (if at_size_bytes t \<noteq> None then at_size_bytes t else bh_size_bytes b),
     bh_checksum_sha256 := (if at_checksum t \<noteq> None then at_checksum t else bh_checksum_sha256 b),
     bh_warnings := (if at_warnings t \<noteq> None then at_warnings t else bh_warnings b)\<rparr>"

definition backup_outcome_row :: "datetime \<Rightarrow> bool \<Rightarrow> agent_task \<Rightarrow> backup_row \<Rightarrow> backup_row" where
  "backup_outcome_row now upload t b =
     (let status = backup_status_of (at_state t);
          b1 = b\<lparr>bh_status := status,
            bh_finished_at := (if at_finished_at t = None then Some now else at_finished_at t),
            bh_duration_seconds := at_duration_seconds t, bh_error_message := at_error t\<rparr> in
      if status = B_SUCCESS
      then (let b2 = apply_artifact t b1 in if upload then b2 else b2\<lparr>bh_upload_status := NOT_REQUIRED\<rparr>)
      else b1\<lparr>bh_upload_status := NOT_REQUIRED\<rparr>)"

definition backup_close_row :: "datetime \<Rightarrow> backup_status \<Rightarrow> string \<Rightarrow> backup_row \<Rightarrow> backup_row" where
  "backup_close_row now status message b = b\<lparr>bh_status := status, bh_error_message := Some message,
     bh_finished_at := Some now, bh_upload_status := NOT_REQUIRED,
     bh_duration_seconds := (case bh_started_at b of None \<Rightarrow> bh_duration_seconds b
        | Some t \<Rightarrow> Some (py_round (seconds_between t now) 2))\<rparr>"

definition bump_row :: "bool \<Rightarrow> run_row \<Rightarrow> run_row" where
  "bump_row succeeded r = (if succeeded then r\<lparr>rn_succeeded := Suc (rn_succeeded r)\<rparr>
     else r\<lparr>rn_failed := Suc (rn_failed r)\<rparr>)"

definition bump_counters :: "nat \<Rightarrow> bool \<Rightarrow> app_db \<Rightarrow> app_db" where
  "bump_counters i succeeded db = set_run i (bump_row succeeded) db"

definition record_backup_outcome :: "datetime \<Rightarrow> nat \<Rightarrow> nat \<Rightarrow> agent_task \<Rightarrow> bool \<Rightarrow> app_db \<Rightarrow> app_db" where
  "record_backup_outcome now b i t upload db = (case backup_get db b of None \<Rightarrow> db
     | Some _ \<Rightarrow> bump_counters i (backup_status_of (at_state t) = B_SUCCESS)
         (set_backup b (backup_outcome_row now upload t) db))"

definition close_backup :: "datetime \<Rightarrow> nat \<Rightarrow> backup_status \<Rightarrow> string \<Rightarrow> app_db \<Rightarrow> app_db" where
  "close_backup now b status message db = (case backup_get db b of None \<Rightarrow> db
     | Some r \<Rightarrow> (let db1 = set_backup b (backup_close_row now status message) db in
         case bh_run_id r of None \<Rightarrow> db1 | Some i \<Rightarrow> bump_counters i False db1))"

definition attach_backup_task :: "nat \<Rightarrow> string \<Rightarrow> string option \<Rightarrow> app_db \<Rightarrow> app_db" where
  "attach_backup_task b t correlation db =
     set_backup b (\<lambda>r. r\<lparr>bh_agent_task_id := Some t, bh_correlation_id := correlation\<rparr>) db"

text \<open>\<open>_notify_run_finished\<close>: a cancelled run is silent, a partial one is a failure.\<close>

definition failed_guest :: "backup_row \<Rightarrow> json" where
  "failed_guest b = J_obj [(''guest_name'', J_str (bh_guest_name b)), (''vmid'', J_int (int (bh_vmid b))),
     (''guest_type'', J_str (guest_type_value (bh_guest_type b)))]"

definition first_error :: "backup_row list \<Rightarrow> string option \<Rightarrow> string option" where
  "first_error failed run_error = (case find (\<lambda>b. bh_error_message b \<notin> {None, Some []}) failed of
     Some b \<Rightarrow> bh_error_message b | None \<Rightarrow> run_error)"

definition notify_run_finished :: "notify_config \<Rightarrow> datetime \<Rightarrow> run_row \<Rightarrow> run_status \<Rightarrow> backup_row list \<Rightarrow> app_db \<Rightarrow> app_db" where
  "notify_run_finished C now r status records db =
     (if status = R_CANCELLED then db
      else let succeeded = filter (\<lambda>b. bh_status b = B_SUCCESS) records;
               failed = filter (\<lambda>b. bh_status b \<noteq> B_SUCCESS) records;
               ok = (status = R_SUCCESS) in
       snd (enqueue C now (if ok then BACKUP_SUCCESS else BACKUP_FAILED)
         [(''run_id'', J_int (int (rn_id r))), (''guest_total'', J_int (int (rn_total r))),
          (''succeeded'', J_int (int (length succeeded))),
          (''duration_seconds'', json_opt J_num (rn_duration_seconds r)),
          (''total_bytes'', J_int (sum_list (map (\<lambda>b. given_or (bh_size_bytes b) 0) succeeded))),
          (''failed_guests'', J_list (map failed_guest failed)),
          (''error'', json_opt J_str (first_error failed (rn_error_message r)))]
         (Some (''run:'' @ show_nat (rn_id r) @ (if ok then '':backup_success'' else '':backup_failed'')))
         True None None db))"

definition final_status :: "bool \<Rightarrow> string option \<Rightarrow> run_row \<Rightarrow> backup_row list \<Rightarrow> run_status" where
  "final_status cancelled error r records =
     (if cancelled then R_CANCELLED else if error \<noteq> None then R_FAILED else summarise_run r records)"

definition final_row :: "datetime \<Rightarrow> run_status \<Rightarrow> string option \<Rightarrow> run_row \<Rightarrow> run_row" where
  "final_row now status error r = r\<lparr>rn_status := status, rn_finished_at := Some now,
     rn_duration_seconds := (case rn_started_at r of None \<Rightarrow> rn_duration_seconds r
        | Some t \<Rightarrow> Some (py_round (seconds_between t now) 2)),
     rn_error_message := or_else error (rn_error_message r)\<rparr>"

definition finalise_run :: "notify_config \<Rightarrow> datetime \<Rightarrow> bool \<Rightarrow> nat \<Rightarrow> string option \<Rightarrow> app_db \<Rightarrow> app_db" where
  "finalise_run C now cancelled i error db = (case run_get db i of None \<Rightarrow> db
     | Some r \<Rightarrow> (let records = for_run db i; status = final_status cancelled error r records in
         notify_run_finished C now (final_row now status error r) status records
           (set_run i (final_row now status error) db)))"

section \<open>Plans\<close>

record run_plan =
  up_options :: run_options
  up_targets :: "resolved_target list" \<comment> \<open>those not yet reached\<close>
  up_completed :: "guest_key list"
  up_adoptable :: "(guest_key \<times> nat) list"

datatype run_phase =
    U_Down \<comment> \<open>the last start failed\<close>
  | U_Idle
  | U_Claimed nat
  | U_Loop nat run_plan
  | U_Start nat run_plan nat resolved_target \<comment> \<open>the history row is open\<close>
  | U_Sent nat run_plan nat
  | U_Accepted nat run_plan nat string "string option"
  | U_Poll nat run_plan nat string "clock option"
  | U_Report nat run_plan nat agent_task
  | U_Close nat run_plan nat backup_status string
  | U_Final nat "string option"

record run_sys =
  us_db :: app_db
  us_cancelled :: "nat list"
  us_phase :: run_phase
  us_task :: "string option" \<comment> \<open>\<open>_current_task_id\<close>\<close>
  us_sent :: "nat list"

record runner_env =
  ue_notify :: notify_config
  ue_grace :: rat

definition claim_run_row :: "datetime \<Rightarrow> run_row \<Rightarrow> run_row" where
  "claim_run_row now r = r\<lparr>rn_status := R_RUNNING,
     rn_started_at := (if rn_started_at r = None then Some now else rn_started_at r)\<rparr>"

definition claim_next_run :: "datetime \<Rightarrow> run_sys \<Rightarrow> run_sys" where
  "claim_next_run now s = (case next_queued_run (us_db s) of None \<Rightarrow> s
     | Some r \<Rightarrow> s\<lparr>us_db := set_run (rn_id r) (claim_run_row now) (us_db s), us_phase := U_Claimed (rn_id r)\<rparr>)"

definition plan_from :: "run_row \<Rightarrow> backup_row list \<Rightarrow> run_plan option" where
  "plan_from r records =
     Option.bind (read_options (case rn_options r of None \<Rightarrow> [] | Some d \<Rightarrow> d)) (\<lambda>o'.
     Option.bind (read_targets (case rn_targets r of None \<Rightarrow> [] | Some ts \<Rightarrow> ts)) (\<lambda>ts.
       Some \<lparr>up_options = o', up_targets = ts,
         up_completed = map guest_of (filter (\<lambda>b. backup_is_terminal (bh_status b)) records),
         up_adoptable = fold (\<lambda>b. dict_put (guest_of b) (bh_id b)) (filter (\<lambda>b. bh_status b = B_RUNNING) records) []\<rparr>))"

definition started_target :: "resolved_target \<Rightarrow> json" where
  "started_target t = J_obj [(''guest_name'', J_str (rt_name t)), (''vmid'', J_int (int (rt_vmid t))),
     (''guest_type'', J_str (guest_type_value (rt_type t)))]"

fun trigger_value :: "trigger_type \<Rightarrow> string" where
  "trigger_value SCHEDULE = ''schedule''"
| "trigger_value MANUAL = ''manual''"
| "trigger_value API = ''api''"

definition notify_run_started :: "notify_config \<Rightarrow> datetime \<Rightarrow> run_row \<Rightarrow> run_plan \<Rightarrow> app_db \<Rightarrow> app_db" where
  "notify_run_started C now r p db = snd (enqueue C now BACKUP_STARTED
     [(''run_id'', J_int (int (rn_id r))), (''guest_total'', J_int (int (length (up_targets p)))),
      (''trigger'', J_str (trigger_value (rn_trigger r))), (''storage'', J_str (ro_storage (up_options p))),
      (''guests'', J_list (map started_target (up_targets p)))]
     (Some (''run:'' @ show_nat (rn_id r) @ '':started'')) True None None db)"

text \<open>\<open>_load_plan\<close> and the head of \<open>_execute_run\<close>; options that do not validate raise.\<close>

definition load_run :: "notify_config \<Rightarrow> datetime \<Rightarrow> nat \<Rightarrow> run_sys \<Rightarrow> run_sys" where
  "load_run C now i s = (case run_get (us_db s) i of None \<Rightarrow> s\<lparr>us_phase := U_Idle\<rparr>
     | Some r \<Rightarrow> (case plan_from r (for_run (us_db s) i) of
         None \<Rightarrow> s\<lparr>us_phase := U_Final i (Some ''The run executor failed unexpectedly'')\<rparr>
       | Some p \<Rightarrow> s\<lparr>us_db := notify_run_started C now r p (set_run i (\<lambda>x. x\<lparr>rn_started_at :=
              (if rn_started_at x = None then Some now else rn_started_at x)\<rparr>) (us_db s)),
            us_cancelled := removeAll i (us_cancelled s), us_phase := U_Loop i p\<rparr>))"

definition opened_row :: "datetime \<Rightarrow> nat \<Rightarrow> resolved_target \<Rightarrow> run_options \<Rightarrow> backup_row" where
  "opened_row now i t o' = \<lparr>bh_id = 0, bh_run_id = Some i, bh_vmid = rt_vmid t, bh_guest_type = rt_type t,
     bh_guest_name = rt_name t, bh_node = rt_node t, bh_storage = ro_storage o', bh_filename = None,
     bh_local_path = None, bh_size_bytes = None, bh_mode = ro_mode o', bh_compression = ro_compression o',
     bh_checksum_sha256 = None, bh_status = B_RUNNING, bh_agent_task_id = None, bh_started_at = Some now,
     bh_finished_at = None, bh_duration_seconds = None, bh_error_message = None, bh_warnings = None,
     bh_upload_status = (if ro_upload o' then PENDING else NOT_REQUIRED), bh_uploaded_at = None,
     bh_remote_path = None, bh_remote_size_bytes = None, bh_remote_checksum = None,
     bh_retention_locked = False, bh_local_deleted_at = None, bh_remote_deleted_at = None,
     bh_correlation_id = None\<rparr>"

text \<open>\<open>_open_backup\<close>: adopt the row a previous process left, or open one.\<close>

definition open_backup :: "datetime \<Rightarrow> nat \<Rightarrow> run_plan \<Rightarrow> resolved_target \<Rightarrow> run_sys \<Rightarrow> run_sys" where
  "open_backup now i p t s =
     (case Option.bind (map_of (up_adoptable p) (target_key t)) (backup_get (us_db s)) of
        Some b \<Rightarrow> (case bh_agent_task_id b of
            Some task \<Rightarrow> s\<lparr>us_phase := U_Poll i p (bh_id b) task None, us_task := Some task\<rparr>
          | None \<Rightarrow> s\<lparr>us_phase := U_Start i p (bh_id b) t\<rparr>)
      | None \<Rightarrow> (let (b, db') = history_create (opened_row now i t (up_options p)) (us_db s)
          in s\<lparr>us_db := db', us_phase := U_Start i p (bh_id b) t\<rparr>))"

text \<open>The loop over the targets.\<close>

definition next_target :: "datetime \<Rightarrow> nat \<Rightarrow> run_plan \<Rightarrow> run_sys \<Rightarrow> run_sys" where
  "next_target now i p s = (case up_targets p of
     [] \<Rightarrow> s\<lparr>us_phase := U_Final i None\<rparr>
   | t # ts \<Rightarrow>
       if i \<in> set (us_cancelled s) then s\<lparr>us_phase := U_Final i None\<rparr>
       else let p' = p\<lparr>up_targets := ts\<rparr> in
         if target_key t \<in> set (up_completed p) then s\<lparr>us_phase := U_Loop i p'\<rparr>
         else open_backup now i p' t s)"

definition start_answer :: "nat \<Rightarrow> run_plan \<Rightarrow> nat \<Rightarrow> app_error + string \<times> string option \<Rightarrow> run_phase" where
  "start_answer i p b answer = (case answer of
     Inr (task, correlation) \<Rightarrow> U_Accepted i p b task correlation
   | Inl (App_Internal d) \<Rightarrow> U_Final i (Some ''The run executor failed unexpectedly'')
   | Inl e \<Rightarrow> U_Close i p b B_FAILED (app_detail e))"

text \<open>One round of \<open>_poll_to_terminal\<close>: every refusal of the agent counts as silence, a 404 too.\<close>

definition backup_poll :: "rat \<Rightarrow> clock \<Rightarrow> nat \<Rightarrow> run_plan \<Rightarrow> nat \<Rightarrow> string \<Rightarrow> clock option
    \<Rightarrow> app_error + agent_task \<Rightarrow> run_phase" where
  "backup_poll grace now i p b task since answer =
     (let since' = (case since of None \<Rightarrow> now | Some t \<Rightarrow> if t = 0 then now else t);
          retry = (if now - since' > grace
            then U_Close i p b B_INTERRUPTED ''The agent stopped answering while this backup was running''
            else U_Poll i p b task (Some since')) in
      case answer of
        Inr t \<Rightarrow> if at_terminal t then U_Report i p b t else U_Poll i p b task None
      | Inl (App_AgentUnavailable d) \<Rightarrow> retry
      | Inl (App_AgentError d st) \<Rightarrow> retry
      | Inl e \<Rightarrow> U_Final i (Some ''The run executor failed unexpectedly''))"

text \<open>One step of the executor; each phase reads the input it waits for.\<close>

definition run_advance :: "runner_env \<Rightarrow> datetime \<Rightarrow> clock \<Rightarrow> app_error + string \<times> string option \<Rightarrow> app_error + agent_task
    \<Rightarrow> run_sys \<Rightarrow> run_sys" where
  "run_advance E now tick started polled s = (case us_phase s of
     U_Down \<Rightarrow> s
   | U_Idle \<Rightarrow> claim_next_run now s
   | U_Claimed i \<Rightarrow> load_run (ue_notify E) now i s
   | U_Loop i p \<Rightarrow> next_target now i p s
   | U_Start i p b t \<Rightarrow> s\<lparr>us_sent := b # us_sent s, us_phase := U_Sent i p b\<rparr>
   | U_Sent i p b \<Rightarrow> s\<lparr>us_phase := start_answer i p b started\<rparr>
   | U_Accepted i p b task c \<Rightarrow> s\<lparr>us_db := attach_backup_task b task c (us_db s), us_phase := U_Poll i p b task None,
       us_task := Some task\<rparr>
   | U_Poll i p b task since \<Rightarrow> (let ph = backup_poll (ue_grace E) tick i p b task since polled
       in s\<lparr>us_phase := ph, us_task := (case ph of U_Report _ _ _ _ \<Rightarrow> None | _ \<Rightarrow> us_task s)\<rparr>)
   | U_Report i p b t \<Rightarrow> s\<lparr>us_db := record_backup_outcome now b i t (ro_upload (up_options p)) (us_db s),
       us_phase := U_Loop i p\<rparr>
   | U_Close i p b status m \<Rightarrow> s\<lparr>us_db := close_backup now b status m (us_db s), us_phase := U_Loop i p, us_task := None\<rparr>
   | U_Final i error \<Rightarrow> s\<lparr>us_db := finalise_run (ue_notify E) now (i \<in> set (us_cancelled s)) i error (us_db s),
       us_cancelled := removeAll i (us_cancelled s), us_phase := U_Idle, us_task := None\<rparr>)"

fun run_held :: "run_phase \<Rightarrow> nat option" where
  "run_held U_Down = None"
| "run_held U_Idle = None"
| "run_held (U_Claimed i) = Some i"
| "run_held (U_Loop i p) = Some i"
| "run_held (U_Start i p b t) = Some i"
| "run_held (U_Sent i p b) = Some i"
| "run_held (U_Accepted i p b t c) = Some i"
| "run_held (U_Poll i p b t s) = Some i"
| "run_held (U_Report i p b t) = Some i"
| "run_held (U_Close i p b st m) = Some i"
| "run_held (U_Final i e) = Some i"

text \<open>An exception that escapes \<open>_execute_run\<close>.\<close>

definition run_crash :: "run_sys \<Rightarrow> run_sys" where
  "run_crash s = (case run_held (us_phase s) of None \<Rightarrow> s
     | Some i \<Rightarrow> s\<lparr>us_phase := U_Final i (Some ''The run executor failed unexpectedly'')\<rparr>)"

text \<open>\<open>BackupRunner.cancel\<close>: the run is marked; the guest being polled is cancelled at the agent.\<close>

definition runner_cancel :: "nat \<Rightarrow> app_error + unit \<Rightarrow> run_sys \<Rightarrow> (app_error + bool) \<times> run_sys" where
  "runner_cancel i answer s =
     (let s' = s\<lparr>us_cancelled := List.insert i (us_cancelled s)\<rparr> in
      (if run_held (us_phase s) \<noteq> Some i \<or> us_task s = None then Inr False
       else (case answer of
           Inr _ \<Rightarrow> Inr True
         | Inl (App_AgentUnavailable d) \<Rightarrow> Inr False
         | Inl (App_AgentError d st) \<Rightarrow> Inr False
         | Inl e \<Rightarrow> Inl e), s'))"

text \<open>The route: a queued run is cancelled in the table, a running one through the executor.\<close>

definition cancel_run_route :: "datetime \<Rightarrow> nat \<times> string \<Rightarrow> nat \<Rightarrow> app_error + unit \<Rightarrow> run_sys
    \<Rightarrow> (app_error + unit) \<times> run_sys" where
  "cancel_run_route now user i answer s =
     (let audit = audit_as now user AUD_BACKUP_STARTED ''backup_run'' i [(''cancelled'', J_bool True)] in
      case run_get (us_db s) i of
        None \<Rightarrow> (Inl (App_NotFound ''No such run''), s)
      | Some r \<Rightarrow>
          if rn_status r = R_QUEUED then
            (case cancel_queued_run now i (us_db s) of
               (Inl e, db) \<Rightarrow> (Inl e, s)
             | (Inr _, db) \<Rightarrow> (Inr (), s\<lparr>us_db := audit db\<rparr>))
          else if rn_status r = R_RUNNING then
            (case runner_cancel i answer s of
               (Inl e, s') \<Rightarrow> (Inl e, s')
             | (Inr _, s') \<Rightarrow> (Inr (), s'\<lparr>us_db := audit (us_db s')\<rparr>))
          else (Inl (App_Conflict ''The run cannot be cancelled any more''), s))"


section \<open>Recovery\<close>

definition RECOVERY_SCAN_LIMIT :: nat where "RECOVERY_SCAN_LIMIT = 1000"

definition running_rows :: "app_db \<Rightarrow> backup_row list" where
  "running_rows db = page RECOVERY_SCAN_LIMIT 0
     (order_desc (\<lambda>b. (bh_started_at b, bh_id b)) (filter (\<lambda>b. bh_status b = B_RUNNING) (ad_backups db)))"

definition orphaned_backups :: "app_db \<Rightarrow> nat list \<times> (nat \<times> string) list" where
  "orphaned_backups db = (let records = running_rows db in
     (map bh_id (filter (\<lambda>b. bh_agent_task_id b = None) records),
      List.map_filter (\<lambda>b. map_option (Pair (bh_id b)) (bh_agent_task_id b)) records))"

definition context_for :: "app_db \<Rightarrow> nat \<Rightarrow> app_error + nat \<times> bool" where
  "context_for db b = (case Option.bind (Option.bind (backup_get db b) bh_run_id) (run_get db) of
     None \<Rightarrow> Inr (0, False)
   | Some r \<Rightarrow> (case read_options (case rn_options r of None \<Rightarrow> [] | Some d \<Rightarrow> d) of
       None \<Rightarrow> Inl (App_Internal ''ValidationError'') | Some o' \<Rightarrow> Inr (rn_id r, ro_upload o')))"

text \<open>The outer \<open>Inl\<close> is an exception that stops the start of the dashboard.\<close>

definition recover_task :: "datetime \<Rightarrow> (string \<Rightarrow> app_error + agent_task) \<Rightarrow> nat \<times> string \<Rightarrow> app_db
    \<Rightarrow> (app_error + unit) \<times> app_db" where
  "recover_task now answers bt db = (case answers (snd bt) of
     Inl (App_AgentError d status) \<Rightarrow> (Inr (), if status = Some 404
       then close_backup now (fst bt) B_INTERRUPTED ''The agent no longer has a record of this task'' db else db)
   | Inl (App_AgentUnavailable d) \<Rightarrow> (Inr (), db)
   | Inl e \<Rightarrow> (Inl e, db)
   | Inr t \<Rightarrow> if \<not> at_terminal t then (Inr (), db)
       else (case context_for db (fst bt) of
           Inl e \<Rightarrow> (Inl e, db)
         | Inr (i, upload) \<Rightarrow> (Inr (), record_backup_outcome now (fst bt) i t upload db)))"

fun recover_tasks :: "datetime \<Rightarrow> (string \<Rightarrow> app_error + agent_task) \<Rightarrow> (nat \<times> string) list \<Rightarrow> app_db
    \<Rightarrow> (app_error + unit) \<times> app_db" where
  "recover_tasks now answers [] db = (Inr (), db)"
| "recover_tasks now answers (bt # bts) db = (case recover_task now answers bt db of
     (Inl e, db1) \<Rightarrow> (Inl e, db1) | (Inr _, db1) \<Rightarrow> recover_tasks now answers bts db1)"

definition requeue_runs :: "app_db \<Rightarrow> app_db" where
  "requeue_runs db = db\<lparr>ad_runs := upd_where (\<lambda>r. rn_status r = R_RUNNING) (\<lambda>r. r\<lparr>rn_status := R_QUEUED\<rparr>) (ad_runs db)\<rparr>"

text \<open>A restart: what the last process kept in memory is gone, the marks of cancelled runs too.\<close>

definition recover_runs :: "datetime \<Rightarrow> (string \<Rightarrow> app_error + agent_task) \<Rightarrow> run_sys \<Rightarrow> run_sys" where
  "recover_runs now answers s =
     (let (pending, adoptable) = orphaned_backups (us_db s);
          db1 = fold (\<lambda>b. close_backup now b B_INTERRUPTED
            ''The dashboard restarted before the agent confirmed this backup.'') pending (us_db s) in
      case recover_tasks now answers adoptable db1 of
        (Inl e, db2) \<Rightarrow> s\<lparr>us_db := db2, us_cancelled := [], us_phase := U_Down, us_task := None\<rparr>
      | (Inr _, db2) \<Rightarrow> s\<lparr>us_db := requeue_runs db2, us_cancelled := [], us_phase := U_Idle, us_task := None\<rparr>)"

section \<open>What can happen to a run\<close>

text \<open>
  \<open>elsewhere\<close> is what the other components may do to these tables: a deleted job leaves its runs without
  one, copies of finished backups come and go, archives found on disk are entered without a run.
\<close>

definition kept :: "backup_row \<Rightarrow> bool" where
  "kept b = (bh_status b \<in> {B_SUCCESS, B_DELETED})"

definition lost :: "backup_row \<Rightarrow> bool" where
  "lost b = (bh_status b \<in> {B_FAILED, B_CANCELLED, B_INTERRUPTED})"

definition quiet_row :: "backup_row \<Rightarrow> backup_row \<Rightarrow> bool" where
  "quiet_row b b' = (bh_id b' = bh_id b \<and> bh_run_id b' = bh_run_id b \<and> guest_of b' = guest_of b
     \<and> bh_agent_task_id b' = bh_agent_task_id b \<and> bh_filename b' = bh_filename b
     \<and> kept b' = kept b \<and> lost b' = lost b)"

definition imported_row :: "backup_row \<Rightarrow> bool" where
  "imported_row b = (bh_run_id b = None \<and> kept b)"

definition orphaned_run :: "run_row \<Rightarrow> run_row \<Rightarrow> bool" where
  "orphaned_run r r' = (r' \<in> {r, r\<lparr>rn_job_id := None\<rparr>})"

definition elsewhere :: "app_db \<Rightarrow> app_db \<Rightarrow> bool" where
  "elsewhere db db' = (list_all2 orphaned_run (ad_runs db) (ad_runs db')
     \<and> table_grows bh_id quiet_row imported_row (ad_backups db) (ad_backups db')
     \<and> (\<forall>j \<in> set (ad_jobs db'). distinct (named_targets j)))"

inductive run_step :: "runner_env \<Rightarrow> run_sys \<Rightarrow> run_sys \<Rightarrow> bool" for E where
  u_request: "manual_request_ok m \<Longrightarrow> run_backup_route now user m (us_db s) = (out, db') \<Longrightarrow>
    run_step E s (s\<lparr>us_db := db'\<rparr>)"
| u_job: "j \<in> set (ad_jobs (us_db s)) \<Longrightarrow> request_job_run now j trigger by (us_db s) = (out, db') \<Longrightarrow>
    run_step E s (s\<lparr>us_db := db'\<rparr>)"
| u_cancel: "cancel_run_route now user i answer s = (out, s') \<Longrightarrow> run_step E s s'"
| u_delete: "delete_backup_route now user agent i (us_db s) = (out, db') \<Longrightarrow> run_step E s (s\<lparr>us_db := db'\<rparr>)"
| u_work: "run_step E s (run_advance E now tick started polled s)"
| u_crash: "run_step E s (run_crash s)"
| u_restart: "length (filter (\<lambda>b. bh_status b = B_RUNNING) (ad_backups (us_db s))) \<le> RECOVERY_SCAN_LIMIT \<Longrightarrow>
    run_step E s (recover_runs now answers s)"
| u_other: "elsewhere (us_db s) db' \<Longrightarrow> run_step E s (s\<lparr>us_db := db'\<rparr>)"

definition runs_start :: "app_db \<Rightarrow> run_sys" where
  "runs_start db = \<lparr>us_db = db\<lparr>ad_runs := [], ad_backups := [], ad_jobs := []\<rparr>, us_cancelled = [],
     us_phase = U_Idle, us_task = None, us_sent = []\<rparr>"

inductive runs_reachable :: "runner_env \<Rightarrow> run_sys \<Rightarrow> bool" for E where
  ur_start: "runs_reachable E (runs_start db)"
| ur_step: "runs_reachable E s \<Longrightarrow> run_step E s s' \<Longrightarrow> runs_reachable E s'"

end
