(* ===== verification/Backup_Runs.thy ===== *)
theory Backup_Runs
  imports Backup_Runner
begin

text \<open>
  What holds of runs and their backups in every state that requests, other components, the executor,
  crashes and restarts can lead to. \<open>data_inv\<close> speaks of the tables, \<open>flow_inv\<close> of the executor's place in
  them; each write is shown to keep both.
\<close>

section \<open>Counting rows\<close>

lemma filter_upd_one:
  assumes "distinct (map k xs)" "x \<in> set xs" "\<not> Q x" "Q (f x)"
  shows "length (filter Q (upd_where (\<lambda>y. k y = k x) f xs)) = Suc (length (filter Q xs))"
  using assms(1,2)
proof (induction xs)
  case (Cons y ys)
  have none: "upd_where (\<lambda>z. k z = k y) f ys = ys" if "k y \<notin> k ` set ys"
    by (rule upd_where_cong_key) (use that in \<open>metis imageI\<close>)
  show ?case
  proof (cases "k y = k x")
    case True
    then have "y = x" using Cons.prems distinct_key_eq [of k "y # ys" y x] by auto
    with Cons.prems none assms(3,4) show ?thesis by simp
  next
    case False
    with Cons show ?thesis by auto
  qed
qed simp

lemma filter_upd_same:
  "(\<And>y. y \<in> set xs \<Longrightarrow> P y \<Longrightarrow> Q (f y) = Q y) \<Longrightarrow> length (filter Q (upd_where P f xs)) = length (filter Q xs)"
  by (induction xs) auto

lemma filter_moved_same:
  "list_all2 R xs ys \<Longrightarrow> (\<And>x y. R x y \<Longrightarrow> Q y = Q x) \<Longrightarrow> length (filter Q ys) = length (filter Q xs)"
  by (induction xs ys rule: list_all2_induct) auto

lemma filter_upd_where_commute:
  "(\<And>y. Q (f y) = Q y) \<Longrightarrow> filter Q (upd_where P f xs) = upd_where P f (filter Q xs)"
  by (induction xs) auto

lemma find_key: "distinct (map k xs) \<Longrightarrow> x \<in> set xs \<Longrightarrow> find (\<lambda>y. k y = k x) xs = Some x"
  by (induction xs) (auto simp: rev_image_eqI)

section \<open>The tables\<close>

definition rows_of :: "app_db \<Rightarrow> nat \<Rightarrow> backup_row list" where
  "rows_of db i = filter (\<lambda>b. bh_run_id b = Some i) (ad_backups db)"

definition active_count :: "app_db \<Rightarrow> nat \<Rightarrow> nat" where
  "active_count db j = length (filter (\<lambda>r. rn_job_id r = Some j \<and> run_active r) (ad_runs db))"

definition data_inv :: "app_db \<Rightarrow> bool" where
  "data_inv db = (distinct (map rn_id (ad_runs db)) \<and> distinct (map bh_id (ad_backups db))
     \<and> (\<forall>r \<in> set (ad_runs db). run_typed r)
     \<and> (\<forall>j \<in> set (ad_jobs db). distinct (named_targets j))
     \<and> (\<forall>i. distinct (map guest_of (rows_of db i)))
     \<and> (\<forall>b \<in> set (ad_backups db). \<forall>i. bh_run_id b = Some i \<longrightarrow> i \<in> rn_id ` set (ad_runs db))
     \<and> (\<forall>b \<in> set (ad_backups db). \<not> kept b \<longrightarrow> bh_filename b = None \<and> bh_run_id b \<noteq> None)
     \<and> (\<forall>r \<in> set (ad_runs db). rn_succeeded r = length (filter kept (rows_of db (rn_id r)))
          \<and> rn_failed r = length (filter lost (rows_of db (rn_id r))))
     \<and> (\<forall>j. active_count db j \<le> 1))"

lemma data_invD:
  assumes "data_inv db"
  shows "distinct (map rn_id (ad_runs db))" "distinct (map bh_id (ad_backups db))"
    "r \<in> set (ad_runs db) \<Longrightarrow> run_typed r" "j \<in> set (ad_jobs db) \<Longrightarrow> distinct (named_targets j)"
    "distinct (map guest_of (rows_of db i))"
    "b \<in> set (ad_backups db) \<Longrightarrow> bh_run_id b = Some i \<Longrightarrow> i \<in> rn_id ` set (ad_runs db)"
    "b \<in> set (ad_backups db) \<Longrightarrow> \<not> kept b \<Longrightarrow> bh_filename b = None \<and> bh_run_id b \<noteq> None"
    "r \<in> set (ad_runs db) \<Longrightarrow> rn_succeeded r = length (filter kept (rows_of db (rn_id r)))"
    "r \<in> set (ad_runs db) \<Longrightarrow> rn_failed r = length (filter lost (rows_of db (rn_id r)))"
    "active_count db k \<le> 1"
  using assms unfolding data_inv_def by blast+

lemma backup_get_of: "data_inv db \<Longrightarrow> x \<in> set (ad_backups db) \<Longrightarrow> backup_get db (bh_id x) = Some x"
  unfolding backup_get_def by (rule find_key) (simp_all add: data_invD(2))

lemma data_inv_cong:
  "ad_runs db' = ad_runs db \<Longrightarrow> ad_backups db' = ad_backups db \<Longrightarrow> ad_jobs db' = ad_jobs db \<Longrightarrow> data_inv db' = data_inv db"
  by (simp add: data_inv_def rows_of_def active_count_def)

lemma kept_lost: "bh_status b = B_RUNNING \<longleftrightarrow> \<not> kept b \<and> \<not> lost b"
  by (cases "bh_status b") (simp_all add: kept_def lost_def)

lemma quiet_running: "quiet_row b b' \<Longrightarrow> bh_status b' = B_RUNNING \<longleftrightarrow> bh_status b = B_RUNNING"
  by (auto simp: kept_lost quiet_row_def)

lemma quiet_refl: "quiet_row b b"
  by (simp add: quiet_row_def)

text \<open>Writes to the run table that keep the frozen plan, the counters and the number of active runs.\<close>

definition same_plan :: "run_row \<Rightarrow> run_row \<Rightarrow> bool" where
  "same_plan r r' = (rn_id r' = rn_id r \<and> rn_targets r' = rn_targets r \<and> rn_options r' = rn_options r
     \<and> rn_total r' = rn_total r \<and> rn_succeeded r' = rn_succeeded r \<and> rn_failed r' = rn_failed r)"

lemma moved_ids: "list_all2 R xs ys \<Longrightarrow> (\<And>x y. R x y \<Longrightarrow> k y = k x) \<Longrightarrow> map k ys = map k xs"
  by (induction xs ys rule: list_all2_induct) auto

lemma data_inv_runs:
  assumes inv: "data_inv db" and mv: "list_all2 same_plan (ad_runs db) (ad_runs db')"
    and fr: "ad_backups db' = ad_backups db" "\<And>j. j \<in> set (ad_jobs db') \<Longrightarrow> distinct (named_targets j)"
    and act: "\<And>j. active_count db' j \<le> 1"
  shows "data_inv db'"
proof -
  have ids: "map rn_id (ad_runs db') = map rn_id (ad_runs db)" by (rule moved_ids [OF mv]) (simp add: same_plan_def)
  then have set_ids: "rn_id ` set (ad_runs db') = rn_id ` set (ad_runs db)" by (metis set_map)
  have rows: "rows_of db' i = rows_of db i" for i by (simp add: rows_of_def fr(1))
  have r: "run_typed r \<and> rn_succeeded r = length (filter kept (rows_of db (rn_id r)))
      \<and> rn_failed r = length (filter lost (rows_of db (rn_id r)))" if "r \<in> set (ad_runs db')" for r
  proof -
    from list_all2_mem2 [OF mv that] obtain q where "q \<in> set (ad_runs db)" "same_plan q r" by blast
    with data_invD(3,8,9) [OF inv] show ?thesis by (auto simp: same_plan_def run_typed_def)
  qed
  show ?thesis
    using data_invD [OF inv] fr(2) act r unfolding data_inv_def by (simp add: ids set_ids rows fr(1))
qed

lemma data_inv_set_run:
  assumes inv: "data_inv db" and f: "\<And>r. same_plan r (f r)" "\<And>r. rn_job_id (f r) = rn_job_id r"
    and P: "\<And>r. r \<in> set (ad_runs db) \<Longrightarrow> P r \<Longrightarrow> run_active (f r) \<Longrightarrow> run_active r"
    and db': "ad_runs db' = upd_where P f (ad_runs db)" "ad_backups db' = ad_backups db" "ad_jobs db' = ad_jobs db"
  shows "data_inv db'"
proof (rule data_inv_runs [OF inv])
  show "list_all2 same_plan (ad_runs db) (ad_runs db')"
    unfolding db' by (rule list_all2_upd_where) (simp_all add: f, simp add: same_plan_def)
  show "active_count db' j \<le> 1" for j
  proof -
    have "active_count db' j \<le> active_count db j"
      unfolding active_count_def db' by (rule count_upd_where_le) (auto simp: f P)
    with data_invD(10) [OF inv, of j] show ?thesis by simp
  qed
qed (use data_invD(4) [OF inv] db' in auto)

lemma data_inv_new_run:
  assumes inv: "data_inv db" and r: "fresh_run r" "rn_id r = next_id (map rn_id (ad_runs db))"
    and job: "\<And>j. rn_job_id r = Some j \<Longrightarrow> active_for_job db j = None"
    and db': "ad_runs db' = ad_runs db @ [r]" "ad_backups db' = ad_backups db" "ad_jobs db' = ad_jobs db"
  shows "data_inv db'"
proof -
  have new: "rn_id r \<notin> rn_id ` set (ad_runs db)"
    using next_id_fresh [of "map rn_id (ad_runs db)"] r(2) by auto
  have "b \<notin> set (ad_backups db)" if "bh_run_id b = Some (rn_id r)" for b
    using data_invD(6) [OF inv, of b] that new by blast
  then have rows: "rows_of db (rn_id r) = []" by (auto simp: rows_of_def filter_empty_conv)
  have none: "filter (\<lambda>x. rn_job_id x = Some j \<and> run_active x) (ad_runs db) = []" if "rn_job_id r = Some j" for j
  proof -
    have "set (sort_key rn_id (filter (\<lambda>x. rn_job_id x = Some j \<and> run_active x) (ad_runs db))) = {}"
      using job [OF that] by (simp add: active_for_job_def first_run_def del: set_sort split: list.splits)
    then show ?thesis by simp
  qed
  have act: "active_count db' j \<le> 1" for j
    using data_invD(10) [OF inv, of j] none [of j] by (auto simp: active_count_def db')
  have rows': "rows_of db' i = rows_of db i" for i by (simp add: rows_of_def db')
  show ?thesis
    using data_invD [OF inv] r(1) new rows act unfolding data_inv_def
    by (auto simp: db' rows' fresh_run_def)
qed

text \<open>Writes to the backup table.\<close>

lemma rows_of_upd:
  assumes "\<And>b. bh_run_id (f b) = bh_run_id b" "ad_backups db' = upd_where P f (ad_backups db)"
  shows "rows_of db' i = upd_where P f (rows_of db i)"
  unfolding rows_of_def assms(2) by (rule filter_upd_where_commute) (simp add: assms(1))

lemma map_guest_upd: "(\<And>b. guest_of (f b) = guest_of b) \<Longrightarrow> map guest_of (upd_where P f xs) = map guest_of xs"
  by (rule map_upd_where) simp


definition calm_row :: "backup_row \<Rightarrow> backup_row \<Rightarrow> bool" where
  "calm_row b b' = (bh_id b' = bh_id b \<and> bh_run_id b' = bh_run_id b \<and> guest_of b' = guest_of b
     \<and> bh_filename b' = bh_filename b \<and> kept b' = kept b \<and> lost b' = lost b)"

lemma quiet_calm: "quiet_row b b' \<longleftrightarrow> calm_row b b' \<and> bh_agent_task_id b' = bh_agent_task_id b"
  by (auto simp: quiet_row_def calm_row_def)

interpretation calm: row_table bh_id calm_row imported_row
  by unfold_locales (auto simp: calm_row_def)

interpretation quiet: row_table bh_id quiet_row imported_row
  by unfold_locales (auto simp: quiet_row_def)

lemma table_grows_mono:
  "table_grows key R fresh xs ys \<Longrightarrow> (\<And>x y. R x y \<Longrightarrow> S x y) \<Longrightarrow> table_grows key S fresh xs ys"
  unfolding table_grows_def by (metis list_all2_mono)

lemma list_all2_filter:
  "list_all2 R xs ys \<Longrightarrow> (\<And>x y. R x y \<Longrightarrow> Q y = Q x) \<Longrightarrow> list_all2 R (filter Q xs) (filter Q ys)"
  by (induction xs ys rule: list_all2_induct) auto

text \<open>Imported rows belong to no run.\<close>

lemma rows_of_grows:
  assumes "table_grows bh_id R imported_row (ad_backups db) (ad_backups db')" "\<And>x y. R x y \<Longrightarrow> bh_run_id y = bh_run_id x"
  shows "list_all2 R (rows_of db i) (rows_of db' i)"
proof -
  obtain olds new where o: "ad_backups db' = olds @ new" "list_all2 R (ad_backups db) olds" "\<forall>r \<in> set new. imported_row r"
    using assms(1) by (auto simp: table_grows_def)
  have "filter (\<lambda>b. bh_run_id b = Some i) new = []" using o(3) by (auto simp: filter_empty_conv imported_row_def)
  then show ?thesis
    using list_all2_filter [OF o(2), of "\<lambda>b. bh_run_id b = Some i"] assms(2) by (simp add: rows_of_def o(1))
qed

lemma data_inv_calm:
  assumes inv: "data_inv db" and runs: "list_all2 orphaned_run (ad_runs db) (ad_runs db')"
    and bs: "table_grows bh_id calm_row imported_row (ad_backups db) (ad_backups db')"
    and jobs: "\<And>j. j \<in> set (ad_jobs db') \<Longrightarrow> distinct (named_targets j)"
  shows "data_inv db'"
proof -
  let ?db = "db\<lparr>ad_backups := ad_backups db'\<rparr>"
  have rows: "list_all2 calm_row (rows_of db i) (rows_of ?db i)" for i
    by (rule rows_of_grows) (use bs in \<open>simp_all add: calm_row_def\<close>)
  have keys: "map guest_of (rows_of ?db i) = map guest_of (rows_of db i)" for i
    by (rule moved_ids [OF rows]) (simp add: calm_row_def)
  have cnt: "length (filter kept (rows_of ?db i)) = length (filter kept (rows_of db i))"
    "length (filter lost (rows_of ?db i)) = length (filter lost (rows_of db i))" for i
    by (rule filter_moved_same [OF rows], simp add: calm_row_def)+
  have new: "(\<exists>q \<in> set (ad_backups db). calm_row q b) \<or> imported_row b" if "b \<in> set (ad_backups db')" for b
    using calm.grows_new [OF bs that] by blast
  have ref: "i \<in> rn_id ` set (ad_runs db)" if "b \<in> set (ad_backups db')" "bh_run_id b = Some i" for b i
    using new [OF that(1)] data_invD(6) [OF inv] that(2) by (auto simp: calm_row_def imported_row_def)
  have named: "bh_filename b = None \<and> bh_run_id b \<noteq> None" if "b \<in> set (ad_backups db')" "\<not> kept b" for b
    using new [OF that(1)] data_invD(7) [OF inv] that(2) by (auto simp: calm_row_def imported_row_def)
  have inv1: "data_inv ?db"
    using data_invD [OF inv] calm.grows_distinct [OF bs] keys cnt ref named unfolding data_inv_def
    by (simp add: active_count_def)
  have act: "active_count db' j \<le> 1" for j
  proof -
    have "length (filter (\<lambda>r. rn_job_id r = Some j \<and> run_active r) ys) \<le> length (filter (\<lambda>r. rn_job_id r = Some j \<and> run_active r) xs)"
      if "list_all2 orphaned_run xs ys" for xs ys
      using that by (induction xs ys rule: list_all2_induct) (auto simp: orphaned_run_def)
    from this [OF runs] show ?thesis using data_invD(10) [OF inv, of j] by (simp add: active_count_def)
  qed
  show ?thesis
  proof (rule data_inv_runs [OF inv1 _ _ _ act])
    show "list_all2 same_plan (ad_runs ?db) (ad_runs db')"
      using runs by (auto simp: orphaned_run_def same_plan_def elim!: list_all2_mono)
  qed (simp_all add: jobs)
qed

lemma data_inv_upd_calm:
  assumes "data_inv db" "\<And>b. b \<in> set (ad_backups db) \<Longrightarrow> P b \<Longrightarrow> calm_row b (f b)"
    "ad_backups db' = upd_where P f (ad_backups db)" "ad_runs db' = ad_runs db" "ad_jobs db' = ad_jobs db"
  shows "data_inv db'"
proof (rule data_inv_calm [OF assms(1)])
  show "list_all2 orphaned_run (ad_runs db) (ad_runs db')"
    by (simp add: assms(4) list_all2_refl orphaned_run_def)
  show "table_grows bh_id calm_row imported_row (ad_backups db) (ad_backups db')"
    unfolding assms(3) by (rule calm.grows_updated) (rule assms(2))
qed (use data_invD(4) [OF assms(1)] assms(5) in auto)

lemma data_inv_opened:
  assumes inv: "data_inv db" and b: "bh_id b = next_id (map bh_id (ad_backups db))" "bh_run_id b = Some i"
      "bh_status b = B_RUNNING" "bh_filename b = None"
    and i: "i \<in> rn_id ` set (ad_runs db)" and key: "guest_of b \<notin> guest_of ` set (rows_of db i)"
  shows "data_inv (db\<lparr>ad_backups := ad_backups db @ [b]\<rparr>)"
proof -
  let ?db = "db\<lparr>ad_backups := ad_backups db @ [b]\<rparr>"
  have "bh_id b \<notin> bh_id ` set (ad_backups db)" using next_id_fresh [of "map bh_id (ad_backups db)"] b(1) by auto
  moreover have rows: "rows_of ?db j = (if j = i then rows_of db i @ [b] else rows_of db j)" for j
    by (simp add: rows_of_def b(2))
  moreover have "\<not> kept b" "\<not> lost b" using b(3) by (simp_all add: kept_def lost_def)
  ultimately show ?thesis
    using data_invD [OF inv] i key b unfolding data_inv_def by (simp add: active_count_def)
qed

lemma data_inv_settled:
  assumes inv: "data_inv db" and x: "x \<in> set (rows_of db i)" "bh_status x = B_RUNNING"
    and f: "\<And>y. bh_id (f y) = bh_id y" "\<And>y. bh_run_id (f y) = bh_run_id y" "\<And>y. guest_of (f y) = guest_of y"
      "if ok then kept (f x) else lost (f x) \<and> bh_filename (f x) = bh_filename x"
    and db': "ad_backups db' = upd_where (\<lambda>y. bh_id y = bh_id x) f (ad_backups db)"
      "ad_runs db' = upd_where (\<lambda>r. rn_id r = i) (bump_row ok) (ad_runs db)" "ad_jobs db' = ad_jobs db"
  shows "data_inv db'"
proof -
  have xi: "x \<in> set (ad_backups db)" "bh_run_id x = Some i" using x(1) by (auto simp: rows_of_def)
  have only: "y = x" if "y \<in> set (ad_backups db)" "bh_id y = bh_id x" for y
    using distinct_key_eq [OF data_invD(2) [OF inv] that(1) xi(1) that(2)] .
  have rows: "rows_of db' j = upd_where (\<lambda>y. bh_id y = bh_id x) f (rows_of db j)" for j
    by (rule rows_of_upd [OF f(2) db'(1)])
  have others: "rows_of db' j = rows_of db j" if "j \<noteq> i" for j
    unfolding rows by (rule upd_where_cong_key) (use xi(2) that in \<open>auto simp: rows_of_def dest: only\<close>)
  have nx: "\<not> kept x" "\<not> lost x" using x(2) by (simp_all add: kept_def lost_def)
  have d: "distinct (map bh_id (rows_of db i))"
    using data_invD(2) [OF inv] by (auto simp: rows_of_def intro: distinct_map_filter)
  have excl: "kept y \<Longrightarrow> \<not> lost y" for y by (auto simp: kept_def lost_def)
  have one: "length (filter kept (rows_of db' i)) = length (filter kept (rows_of db i)) + (if ok then 1 else 0)"
    "length (filter lost (rows_of db' i)) = length (filter lost (rows_of db i)) + (if ok then 0 else 1)"
  proof -
    have other: "length (filter Q (upd_where (\<lambda>y. bh_id y = bh_id x) f (rows_of db i))) = length (filter Q (rows_of db i))"
      if "Q (f x) = Q x" for Q
      by (rule filter_upd_same) (use only that in \<open>auto simp: rows_of_def\<close>)
    show "length (filter kept (rows_of db' i)) = length (filter kept (rows_of db i)) + (if ok then 1 else 0)"
      using filter_upd_one [OF d x(1), of kept f] other [of kept] f(4) nx excl [of "f x"] unfolding rows by (cases ok) auto
    show "length (filter lost (rows_of db' i)) = length (filter lost (rows_of db i)) + (if ok then 0 else 1)"
      using filter_upd_one [OF d x(1), of lost f] other [of lost] f(4) nx excl [of "f x"] unfolding rows by (cases ok) auto
  qed
  have ids: "map rn_id (ad_runs db') = map rn_id (ad_runs db)" "map bh_id (ad_backups db') = map bh_id (ad_backups db)"
    unfolding db' by (rule map_upd_where, simp add: bump_row_def f)+
  have set_ids: "rn_id ` set (ad_runs db') = rn_id ` set (ad_runs db)" by (metis ids(1) set_map)
  have keys: "map guest_of (rows_of db' j) = map guest_of (rows_of db j)" for j
    unfolding rows by (rule map_guest_upd [OF f(3)])
  have run: "run_typed r \<and> rn_succeeded r = length (filter kept (rows_of db' (rn_id r)))
      \<and> rn_failed r = length (filter lost (rows_of db' (rn_id r)))" if r: "r \<in> set (ad_runs db')" for r
  proof -
    obtain q where q: "q \<in> set (ad_runs db)" "r = (if rn_id q = i then bump_row ok q else q)"
      using r by (auto simp: db' set_upd_where)
    show ?thesis
      using data_invD(3,8,9) [OF inv q(1)] q(2) one others by (auto simp: bump_row_def run_typed_def)
  qed
  have src: "(\<exists>q \<in> set (ad_backups db). b = (if bh_id q = bh_id x then f q else q))" if "b \<in> set (ad_backups db')" for b
    using that by (auto simp: db' set_upd_where)
  have ref: "j \<in> rn_id ` set (ad_runs db)" if "b \<in> set (ad_backups db')" "bh_run_id b = Some j" for b j
    using src [OF that(1)] data_invD(6) [OF inv] that(2) by (auto simp: f split: if_splits)
  have named: "bh_filename b = None \<and> bh_run_id b \<noteq> None" if m: "b \<in> set (ad_backups db')" "\<not> kept b" for b
  proof -
    obtain q where q: "q \<in> set (ad_backups db)" "b = (if bh_id q = bh_id x then f q else q)" using src [OF m(1)] by blast
    show ?thesis
    proof (cases "bh_id q = bh_id x")
      case True
      then have "q = x" using only q(1) by blast
      then show ?thesis using data_invD(7) [OF inv xi(1)] xi(2) nx f(2,4) q(2) m(2) by (auto split: if_splits)
    next
      case False
      then show ?thesis using data_invD(7) [OF inv q(1)] q(2) m(2) by simp
    qed
  qed
  have act: "active_count db' j = active_count db j" for j
    unfolding active_count_def db' by (rule filter_upd_same) (simp add: bump_row_def run_active_def)
  show ?thesis
    using data_invD [OF inv] run ref named act unfolding data_inv_def by (simp add: ids set_ids keys db'(3))
qed


section \<open>The executor\<close>

definition is_running :: "app_db \<Rightarrow> nat \<Rightarrow> bool" where
  "is_running db i = (\<exists>r \<in> set (ad_runs db). rn_id r = i \<and> rn_status r = R_RUNNING)"

definition is_active :: "app_db \<Rightarrow> nat \<Rightarrow> bool" where
  "is_active db i = (\<exists>r \<in> set (ad_runs db). rn_id r = i \<and> run_active r)"

fun phase_plan :: "run_phase \<Rightarrow> (nat \<times> run_plan) option" where
  "phase_plan (U_Loop i p) = Some (i, p)"
| "phase_plan (U_Start i p b t) = Some (i, p)"
| "phase_plan (U_Sent i p b) = Some (i, p)"
| "phase_plan (U_Accepted i p b t c) = Some (i, p)"
| "phase_plan (U_Poll i p b t s) = Some (i, p)"
| "phase_plan (U_Report i p b t) = Some (i, p)"
| "phase_plan (U_Close i p b st m) = Some (i, p)"
| "phase_plan _ = None"

fun phase_backup :: "run_phase \<Rightarrow> (nat \<times> run_plan \<times> nat) option" where
  "phase_backup (U_Start i p b t) = Some (i, p, b)"
| "phase_backup (U_Sent i p b) = Some (i, p, b)"
| "phase_backup (U_Accepted i p b t c) = Some (i, p, b)"
| "phase_backup (U_Poll i p b t s) = Some (i, p, b)"
| "phase_backup (U_Report i p b t) = Some (i, p, b)"
| "phase_backup (U_Close i p b st m) = Some (i, p, b)"
| "phase_backup _ = None"

text \<open>A guest still ahead is done, or waits to be adopted, or has no row in this run.\<close>

definition adoptable_row :: "app_db \<Rightarrow> nat \<Rightarrow> run_plan \<Rightarrow> guest_key \<Rightarrow> backup_row \<Rightarrow> bool" where
  "adoptable_row db i p k x = (x \<in> set (rows_of db i) \<and> guest_of x = k \<and> bh_status x = B_RUNNING
     \<and> bh_agent_task_id x \<noteq> None \<and> map_of (up_adoptable p) k = Some (bh_id x))"

definition target_ok :: "app_db \<Rightarrow> nat \<Rightarrow> run_plan \<Rightarrow> guest_key \<Rightarrow> bool" where
  "target_ok db i p k = (k \<in> set (up_completed p) \<or> (\<exists>x. adoptable_row db i p k x)
     \<or> (map_of (up_adoptable p) k = None \<and> k \<notin> set (map guest_of (rows_of db i))))"

definition plan_ok :: "app_db \<Rightarrow> nat \<Rightarrow> run_plan \<Rightarrow> bool" where
  "plan_ok db i p = (distinct (map target_key (up_targets p))
     \<and> (\<forall>k \<in> set (map target_key (up_targets p)). target_ok db i p k))"

definition held_row :: "app_db \<Rightarrow> nat \<Rightarrow> run_plan \<Rightarrow> nat \<Rightarrow> backup_row \<Rightarrow> bool" where
  "held_row db i p b x = (x \<in> set (rows_of db i) \<and> bh_id x = b \<and> bh_status x = B_RUNNING
     \<and> guest_of x \<notin> set (map target_key (up_targets p)))"

definition close_ok :: "run_phase \<Rightarrow> bool" where
  "close_ok ph = (case ph of U_Close i p b st m \<Rightarrow> st \<in> {B_FAILED, B_INTERRUPTED} | _ \<Rightarrow> True)"

definition unconfirmed :: "app_db \<Rightarrow> nat \<Rightarrow> backup_row \<Rightarrow> bool" where
  "unconfirmed db i b = (b \<in> set (rows_of db i) \<and> bh_status b = B_RUNNING \<and> bh_agent_task_id b = None \<and> is_active db i)"

definition covers :: "run_phase \<Rightarrow> nat \<Rightarrow> nat \<Rightarrow> bool" where
  "covers ph i b = ((\<exists>p. phase_backup ph = Some (i, p, b)) \<or> (\<exists>e. ph = U_Final i e))"

definition flow_inv :: "run_sys \<Rightarrow> bool" where
  "flow_inv s = ((\<forall>i. run_held (us_phase s) = Some i \<longrightarrow> is_running (us_db s) i)
     \<and> (\<forall>i p. phase_plan (us_phase s) = Some (i, p) \<longrightarrow> plan_ok (us_db s) i p)
     \<and> (\<forall>i p b. phase_backup (us_phase s) = Some (i, p, b) \<longrightarrow> (\<exists>x. held_row (us_db s) i p b x))
     \<and> close_ok (us_phase s)
     \<and> (\<forall>i. is_running (us_db s) i \<longrightarrow> run_held (us_phase s) = Some i \<or> us_phase s = U_Down)
     \<and> (\<forall>i b. unconfirmed (us_db s) i b \<longrightarrow> covers (us_phase s) i (bh_id b))
     \<and> distinct (us_sent s) \<and> set (us_sent s) \<subseteq> bh_id ` set (ad_backups (us_db s))
     \<and> (\<forall>i p b t. us_phase s = U_Start i p b t \<longrightarrow> b \<notin> set (us_sent s)))"

lemma flow_invD:
  assumes "flow_inv s"
  shows "run_held (us_phase s) = Some i \<Longrightarrow> is_running (us_db s) i"
    "phase_plan (us_phase s) = Some (i, p) \<Longrightarrow> plan_ok (us_db s) i p"
    "phase_backup (us_phase s) = Some (i, p, b) \<Longrightarrow> \<exists>x. held_row (us_db s) i p b x" "close_ok (us_phase s)"
    "is_running (us_db s) i \<Longrightarrow> run_held (us_phase s) = Some i \<or> us_phase s = U_Down"
    "unconfirmed (us_db s) i c \<Longrightarrow> covers (us_phase s) i (bh_id c)"
    "distinct (us_sent s)" "set (us_sent s) \<subseteq> bh_id ` set (ad_backups (us_db s))"
    "us_phase s = U_Start i p b t \<Longrightarrow> b \<notin> set (us_sent s)"
  using assms unfolding flow_inv_def by blast+

lemma flow_invI:
  assumes "\<And>i. run_held (us_phase s) = Some i \<Longrightarrow> is_running (us_db s) i"
    "\<And>i p. phase_plan (us_phase s) = Some (i, p) \<Longrightarrow> plan_ok (us_db s) i p"
    "\<And>i p b. phase_backup (us_phase s) = Some (i, p, b) \<Longrightarrow> \<exists>x. held_row (us_db s) i p b x" "close_ok (us_phase s)"
    "\<And>i. is_running (us_db s) i \<Longrightarrow> run_held (us_phase s) = Some i \<or> us_phase s = U_Down"
    "\<And>i c. unconfirmed (us_db s) i c \<Longrightarrow> covers (us_phase s) i (bh_id c)"
    "distinct (us_sent s)" "set (us_sent s) \<subseteq> bh_id ` set (ad_backups (us_db s))"
    "\<And>i p b t. us_phase s = U_Start i p b t \<Longrightarrow> b \<notin> set (us_sent s)"
  shows "flow_inv s"
  unfolding flow_inv_def using assms by blast

definition run_inv :: "run_sys \<Rightarrow> bool" where
  "run_inv s = (data_inv (us_db s) \<and> flow_inv s)"

text \<open>Memory the invariant does not speak of.\<close>

lemma run_inv_memory [simp]:
  "run_inv (s\<lparr>us_task := t\<rparr>) = run_inv s" "run_inv (s\<lparr>us_cancelled := c\<rparr>) = run_inv s"
  by (simp_all add: run_inv_def flow_inv_def)

text \<open>Writes of others, and of the executor when they leave the running rows alone.\<close>

lemma list_all2_iff_mem:
  "list_all2 R xs ys \<Longrightarrow> (\<And>x y. R x y \<Longrightarrow> P x \<longleftrightarrow> Q y) \<Longrightarrow> (\<exists>x \<in> set xs. P x) \<longleftrightarrow> (\<exists>y \<in> set ys. Q y)"
  by (induction xs ys rule: list_all2_induct) auto

lemma flow_quiet:
  assumes inv: "flow_inv s" and data: "data_inv (us_db s)"
    and bs: "table_grows bh_id quiet_row imported_row (ad_backups (us_db s)) (ad_backups db')"
    and run: "\<And>i. is_running db' i \<longleftrightarrow> is_running (us_db s) i"
    and act: "\<And>i. i \<in> rn_id ` set (ad_runs (us_db s)) \<Longrightarrow> is_active db' i \<Longrightarrow> is_active (us_db s) i"
  shows "flow_inv (s\<lparr>us_db := db'\<rparr>)"
proof -
  have rows: "list_all2 quiet_row (rows_of (us_db s) i) (rows_of db' i)" for i
    by (rule rows_of_grows [OF bs]) (simp add: quiet_row_def)
  have keys: "map guest_of (rows_of db' i) = map guest_of (rows_of (us_db s) i)" for i
    by (rule moved_ids [OF rows]) (simp add: quiet_row_def)
  have plan: "plan_ok db' i p" if "plan_ok (us_db s) i p" for i p
  proof -
    have ad: "(\<exists>x. adoptable_row (us_db s) i p k x) \<longleftrightarrow> (\<exists>x. adoptable_row db' i p k x)" for k
      using list_all2_iff_mem [OF rows, of "\<lambda>x. guest_of x = k \<and> bh_status x = B_RUNNING \<and> bh_agent_task_id x \<noteq> None
          \<and> map_of (up_adoptable p) k = Some (bh_id x)" "\<lambda>x. guest_of x = k \<and> bh_status x = B_RUNNING \<and> bh_agent_task_id x \<noteq> None
          \<and> map_of (up_adoptable p) k = Some (bh_id x)" i]
      by (simp add: adoptable_row_def Bex_def quiet_running) (simp add: quiet_row_def)
    show ?thesis using that by (simp add: plan_ok_def target_ok_def ad keys)
  qed
  have held: "\<exists>x. held_row db' i p b x" if h: "held_row (us_db s) i p b x" for i p b x
  proof -
    have "x \<in> set (rows_of (us_db s) i)" using h by (simp add: held_row_def)
    from list_all2_mem1 [OF rows this] obtain y where y: "y \<in> set (rows_of db' i)" "quiet_row x y" by blast
    have "held_row db' i p b y" using h y quiet_running [OF y(2)] by (auto simp: held_row_def quiet_row_def)
    then show ?thesis by blast
  qed
  have unc: "\<exists>c. unconfirmed (us_db s) i c \<and> bh_id c = bh_id b" if u: "unconfirmed db' i b" for i b
  proof -
    have "b \<in> set (rows_of db' i)" using u by (simp add: unconfirmed_def)
    from list_all2_mem2 [OF rows this] obtain c where c: "c \<in> set (rows_of (us_db s) i)" "quiet_row c b" by blast
    moreover have "i \<in> rn_id ` set (ad_runs (us_db s))" using data_invD(6) [OF data, of c i] c(1) by (simp add: rows_of_def)
    ultimately show ?thesis
      using u act [of i] quiet_running [OF c(2)] by (intro exI [of _ c]) (auto simp: unconfirmed_def quiet_row_def)
  qed
  have "bh_id ` set (ad_backups (us_db s)) \<subseteq> bh_id ` set (ad_backups db')"
  proof
    fix i assume "i \<in> bh_id ` set (ad_backups (us_db s))"
    then obtain x where x: "x \<in> set (ad_backups (us_db s))" "i = bh_id x" by blast
    from quiet.grows_old [OF bs x(1)] obtain y where "y \<in> set (ad_backups db')" "quiet_row x y" by blast
    then show "i \<in> bh_id ` set (ad_backups db')" using x(2) by (auto simp: quiet_row_def intro: rev_image_eqI)
  qed
  moreover note d = flow_invD [OF inv]
  ultimately show ?thesis
    unfolding flow_inv_def using d(1-5,7,9) run plan held unc d(6) d(8) by simp (metis (no_types, lifting) subset_trans)
qed


section \<open>Requests\<close>

lemma run_inv_quiet:
  assumes "run_inv s" "data_inv db'"
    "table_grows bh_id quiet_row imported_row (ad_backups (us_db s)) (ad_backups db')"
    "\<And>i. is_running db' i \<longleftrightarrow> is_running (us_db s) i"
    "\<And>i. i \<in> rn_id ` set (ad_runs (us_db s)) \<Longrightarrow> is_active db' i \<Longrightarrow> is_active (us_db s) i"
  shows "run_inv (s\<lparr>us_db := db'\<rparr>)"
  using flow_quiet [of s db'] assms by (simp add: run_inv_def)

lemma run_inv_new:
  assumes inv: "run_inv s" and r: "fresh_run r" "rn_id r = next_id (map rn_id (ad_runs (us_db s)))"
    and job: "\<And>j. rn_job_id r = Some j \<Longrightarrow> active_for_job (us_db s) j = None"
    and db': "ad_runs db' = ad_runs (us_db s) @ [r]" "ad_backups db' = ad_backups (us_db s)" "ad_jobs db' = ad_jobs (us_db s)"
  shows "run_inv (s\<lparr>us_db := db'\<rparr>)"
proof (rule run_inv_quiet [OF inv])
  have "data_inv (us_db s)" using inv by (simp add: run_inv_def)
  from data_inv_new_run [OF this r job db'] show "data_inv db'" .
  show "table_grows bh_id quiet_row imported_row (ad_backups (us_db s)) (ad_backups db')"
    unfolding db' by (rule quiet.grows_same)
  have "rn_id r \<notin> rn_id ` set (ad_runs (us_db s))"
    using next_id_fresh [of "map rn_id (ad_runs (us_db s))"] r(2) by auto
  then show "is_active db' i \<Longrightarrow> is_active (us_db s) i" if "i \<in> rn_id ` set (ad_runs (us_db s))" for i
    using that by (auto simp: is_active_def db')
  show "is_running db' i \<longleftrightarrow> is_running (us_db s) i" for i
    using r(1) by (auto simp: is_running_def db' fresh_run_def)
qed

lemma run_inv_frame:
  assumes "run_inv s" "ad_runs db' = ad_runs (us_db s)" "ad_backups db' = ad_backups (us_db s)" "ad_jobs db' = ad_jobs (us_db s)"
  shows "run_inv (s\<lparr>us_db := db'\<rparr>)"
  using assms data_inv_cong [OF assms(2-4)]
  by (intro run_inv_quiet) (simp_all add: run_inv_def quiet.grows_same is_running_def is_active_def)

text \<open>A request either changes nothing or queues one fresh run.\<close>

definition queued_run :: "run_row \<Rightarrow> app_db \<Rightarrow> app_db \<Rightarrow> bool" where
  "queued_run r db db' = (fresh_run r \<and> rn_id r = next_id (map rn_id (ad_runs db)) \<and> ad_runs db' = ad_runs db @ [r]
     \<and> ad_backups db' = ad_backups db \<and> ad_jobs db' = ad_jobs db
     \<and> (case rn_job_id r of None \<Rightarrow> True | Some j \<Rightarrow> active_for_job db j = None))"

lemma request_queues:
  assumes m: "manual_request_ok m" and r: "run_backup_route now user m db = (out, db')"
  shows "case out of Inl e \<Rightarrow> db' = db | Inr x \<Rightarrow> queued_run x db db'"
proof (cases "request_manual_run now m (Some (fst user)) db")
  case (Pair res db1)
  show ?thesis
  proof (cases res)
    case (Inl e)
    then show ?thesis
      using r Pair by (auto simp: run_backup_route_def request_manual_run_def split: sum.splits prod.splits if_splits)
  next
    case (Inr x)
    obtain ts o' where c: "create_run now None MANUAL (Some (fst user)) ts o' db = (x, db1)" "options_ok o'"
      "distinct (map target_key ts)"
      using manual_run [OF Pair [unfolded Inr] m] by metis
    have "out = Inr x" "ad_runs db' = ad_runs db1" "ad_backups db' = ad_backups db1" "ad_jobs db' = ad_jobs db1"
      using r Pair Inr by (auto simp: run_backup_route_def)
    then show ?thesis using fresh_created [OF c] create_run_row [OF c(1)] by (simp add: queued_run_def)
  qed
qed

lemma job_queues:
  assumes j: "distinct (named_targets j)" and r: "request_job_run now j trigger by db = (out, db')"
  shows "case out of Inl e \<Rightarrow> db' = db | Inr x \<Rightarrow> queued_run x db db'"
proof (cases out)
  case (Inl e)
  then show ?thesis using r by (auto simp: request_job_run_def Let_def split: if_splits prod.splits sum.splits)
next
  case (Inr x)
  obtain ts o' where c: "create_run now (Some (jb_id j)) trigger by ts o' db = (x, db')" "job_options j = Inr o'"
    "distinct (map target_key ts)" "active_for_job db (jb_id j) = None"
    using job_run [OF r [unfolded Inr]] j by metis
  then show ?thesis
    using fresh_created [OF c(1) _ c(3)] job_options_Inr [OF c(2)] create_run_row [OF c(1)] Inr by (simp add: queued_run_def)
qed

lemma run_inv_queues:
  assumes inv: "run_inv s" and q: "case out of Inl e \<Rightarrow> db' = us_db s | Inr x \<Rightarrow> queued_run x (us_db s) db'"
  shows "run_inv (s\<lparr>us_db := db'\<rparr>)"
proof (cases out)
  case (Inl e)
  with inv q show ?thesis by simp
next
  case (Inr x)
  with q have x: "queued_run x (us_db s) db'" by simp
  show ?thesis by (rule run_inv_new [OF inv, of x]) (use x in \<open>auto simp: queued_run_def\<close>)
qed

lemma run_inv_job:
  assumes inv: "run_inv s" and j: "j \<in> set (ad_jobs (us_db s))"
    and r: "request_job_run now j trigger by (us_db s) = (out, db')"
  shows "run_inv (s\<lparr>us_db := db'\<rparr>)"
  using inv data_invD(4) [OF _ j] by (intro run_inv_queues [OF inv job_queues [OF _ r]]) (simp add: run_inv_def)

text \<open>The run table alone.\<close>

lemma upd_ex: "(\<exists>r \<in> set (upd_where P f xs). Q r) \<longleftrightarrow> (\<exists>r \<in> set xs. if P r then Q (f r) else Q r)"
  by (induction xs) auto

lemma upd_ex_iff:
  "(\<And>r. r \<in> set xs \<Longrightarrow> P r \<Longrightarrow> Q (f r) \<longleftrightarrow> Q r) \<Longrightarrow> (\<exists>r \<in> set (upd_where P f xs). Q r) \<longleftrightarrow> (\<exists>r \<in> set xs. Q r)"
  by (induction xs) auto

lemma run_inv_set_run:
  assumes inv: "run_inv s" and f: "\<And>r. same_plan r (f r)" "\<And>r. rn_job_id (f r) = rn_job_id r"
    and act: "\<And>r. r \<in> set (ad_runs (us_db s)) \<Longrightarrow> P r \<Longrightarrow> run_active (f r) \<Longrightarrow> run_active r"
    and run: "\<And>r. r \<in> set (ad_runs (us_db s)) \<Longrightarrow> P r \<Longrightarrow> rn_status (f r) = R_RUNNING \<longleftrightarrow> rn_status r = R_RUNNING"
    and db': "ad_runs db' = upd_where P f (ad_runs (us_db s))" "ad_backups db' = ad_backups (us_db s)" "ad_jobs db' = ad_jobs (us_db s)"
  shows "run_inv (s\<lparr>us_db := db'\<rparr>)"
proof (rule run_inv_quiet [OF inv])
  have "data_inv (us_db s)" using inv by (simp add: run_inv_def)
  from data_inv_set_run [OF this f act db'] show "data_inv db'" .
  show "table_grows bh_id quiet_row imported_row (ad_backups (us_db s)) (ad_backups db')"
    unfolding db' by (rule quiet.grows_same)
  have id: "rn_id (f r) = rn_id r" for r using f(1) by (simp add: same_plan_def)
  show "is_active db' i \<Longrightarrow> is_active (us_db s) i" for i
    using act by (auto simp: is_active_def db' set_upd_where id split: if_splits)
  show "is_running db' i \<longleftrightarrow> is_running (us_db s) i" for i
    unfolding is_running_def db' by (rule upd_ex_iff) (simp add: id run)
qed

lemma run_get_Some: "run_get db i = Some r \<Longrightarrow> r \<in> set (ad_runs db) \<and> rn_id r = i"
  unfolding run_get_def by (rule find_Some_mem)

lemma run_of_id: "data_inv db \<Longrightarrow> r \<in> set (ad_runs db) \<Longrightarrow> q \<in> set (ad_runs db) \<Longrightarrow> rn_id q = rn_id r \<Longrightarrow> q = r"
  using distinct_key_eq [of rn_id "ad_runs db" q r] data_invD(1) by blast

lemma run_inv_cancel:
  assumes inv: "run_inv s" and r: "cancel_run_route now user i answer s = (out, s')"
  shows "run_inv s'"
proof -
  have keep: "run_inv (s\<lparr>us_db := audit_as now user a k n d (us_db s)\<rparr>)" for a k n d
    by (rule run_inv_frame [OF inv]) simp_all
  show ?thesis
  proof (cases "\<exists>q. run_get (us_db s) i = Some q \<and> rn_status q = R_QUEUED")
    case True
    then obtain q where q: "run_get (us_db s) i = Some q" "rn_status q = R_QUEUED" by blast
    let ?db = "audit_as now user AUD_BACKUP_STARTED ''backup_run'' i [(''cancelled'', J_bool True)]
      (set_run i (cancel_queued_row now) (us_db s))"
    have "run_inv (s\<lparr>us_db := ?db\<rparr>)"
    proof (rule run_inv_set_run [OF inv, where P = "\<lambda>x. rn_id x = i" and f = "cancel_queued_row now"])
      show "rn_status (cancel_queued_row now x) = R_RUNNING \<longleftrightarrow> rn_status x = R_RUNNING"
        if "x \<in> set (ad_runs (us_db s))" "rn_id x = i" for x
        using run_of_id [of "us_db s" q x] run_get_Some [OF q(1)] that q(2) inv by (simp add: run_inv_def cancel_queued_row_def)
    qed (simp_all add: same_plan_def cancel_queued_row_def run_active_def set_run_def)
    moreover have "s' = s\<lparr>us_db := ?db\<rparr>"
      using r q by (simp add: cancel_run_route_def cancel_queued_run_def Let_def)
    ultimately show ?thesis by simp
  next
    case False
    let ?c = "List.insert i (us_cancelled s)"
      and ?db = "audit_as now user AUD_BACKUP_STARTED ''backup_run'' i [(''cancelled'', J_bool True)] (us_db s)"
    have "s' \<in> {s, s\<lparr>us_cancelled := ?c\<rparr>, (s\<lparr>us_db := ?db\<rparr>)\<lparr>us_cancelled := ?c\<rparr>}"
      using r False by (auto simp: cancel_run_route_def runner_cancel_def Let_def split: option.splits if_splits sum.splits app_error.splits)
    with inv keep show ?thesis by auto
  qed
qed

lemma run_inv_elsewhere:
  assumes inv: "run_inv s" and e: "elsewhere (us_db s) db'"
  shows "run_inv (s\<lparr>us_db := db'\<rparr>)"
proof (rule run_inv_quiet [OF inv])
  have d: "data_inv (us_db s)" using inv by (simp add: run_inv_def)
  have runs: "list_all2 orphaned_run (ad_runs (us_db s)) (ad_runs db')" using e by (simp add: elsewhere_def)
  show q: "table_grows bh_id quiet_row imported_row (ad_backups (us_db s)) (ad_backups db')" using e by (simp add: elsewhere_def)
  show "data_inv db'"
    by (rule data_inv_calm [OF d runs table_grows_mono [OF q]]) (use e in \<open>auto simp: quiet_calm elsewhere_def\<close>)
  show "is_running db' i \<longleftrightarrow> is_running (us_db s) i" for i
    unfolding is_running_def by (rule list_all2_iff_mem [OF runs, symmetric]) (auto simp: orphaned_run_def)
  have "is_active db' i \<longleftrightarrow> is_active (us_db s) i" for i
    unfolding is_active_def by (rule list_all2_iff_mem [OF runs, symmetric]) (auto simp: orphaned_run_def run_active_def)
  then show "is_active db' i \<Longrightarrow> is_active (us_db s) i" for i by simp
qed

lemma run_inv_delete:
  assumes inv: "run_inv s" and r: "delete_backup_route now user agent i (us_db s) = (out, db')"
  shows "run_inv (s\<lparr>us_db := db'\<rparr>)"
proof (cases "is_ok out")
  case False
  then have "db' = us_db s"
    using r by (auto simp: delete_backup_route_def is_ok_def split: sum.splits prod.splits)
  with inv show ?thesis by simp
next
  case True
  obtain b where b: "backup_get (us_db s) i = Some b" "bh_filename b \<noteq> None" "bh_status b \<noteq> B_RUNNING"
    and bs: "ad_backups db' = upd_where (\<lambda>x. bh_id x = i) (deleted_row now) (ad_backups (us_db s))"
      "ad_runs db' = ad_runs (us_db s)" "ad_jobs db' = ad_jobs (us_db s)"
    using r True by (auto simp: delete_backup_route_def delete_local_artifact_def is_ok_def session_def set_backup_def
        split: sum.splits prod.splits option.splits if_splits)
  have d: "data_inv (us_db s)" using inv by (simp add: run_inv_def)
  have bm: "b \<in> set (ad_backups (us_db s))" "bh_id b = i"
    using b(1) unfolding backup_get_def by (auto dest: find_Some_mem)
  have q: "quiet_row x (deleted_row now x)" if "x \<in> set (ad_backups (us_db s))" "bh_id x = i" for x
  proof -
    have "x = b" using distinct_key_eq [OF data_invD(2) [OF d] that(1) bm(1)] that(2) bm(2) by simp
    moreover have "kept b" using data_invD(7) [OF d bm(1)] b(2) by blast
    ultimately show ?thesis by (auto simp: quiet_row_def deleted_row_def kept_def lost_def guest_of_def)
  qed
  have g: "table_grows bh_id quiet_row imported_row (ad_backups (us_db s)) (ad_backups db')"
    unfolding bs by (rule quiet.grows_updated) (rule q)
  have "elsewhere (us_db s) db'"
    using g data_invD(4) [OF d] bs by (simp add: elsewhere_def list_all2_refl orphaned_run_def)
  then show ?thesis by (rule run_inv_elsewhere [OF inv])
qed


section \<open>Steps of the executor\<close>

text \<open>A step keeps the invariant and lets both tables grow as their life allows.\<close>

lemma phase_run: "phase_plan ph = Some (i, p) \<Longrightarrow> run_held ph = Some i" "phase_backup ph = Some (i, p, b) \<Longrightarrow> phase_plan ph = Some (i, p)"
  by (cases ph; simp)+

lemma run_inv_final:
  assumes inv: "run_inv s" and h: "run_held (us_phase s) = Some i"
  shows "run_inv (s\<lparr>us_phase := U_Final i e\<rparr>)"
proof -
  have f: "flow_inv s" using inv by (simp add: run_inv_def)
  note d = flow_invD [OF f]
  have "us_phase s \<noteq> U_Down" using h by auto
  then have r: "j = i" if "is_running (us_db s) j" for j using d(5) [OF that] h by auto
  have u: "covers (U_Final i e) j (bh_id c)" if "unconfirmed (us_db s) j c" for j c
    using d(6) [OF that] h phase_run by (fastforce simp: covers_def)
  have "flow_inv (s\<lparr>us_phase := U_Final i e\<rparr>)"
  proof (rule flow_invI)
    show "run_held (us_phase (s\<lparr>us_phase := U_Final i e\<rparr>)) = Some j \<or> us_phase (s\<lparr>us_phase := U_Final i e\<rparr>) = U_Down"
      if "is_running (us_db (s\<lparr>us_phase := U_Final i e\<rparr>)) j" for j using r [of j] that by simp
  qed (use d(1) [OF h] d(7,8) u in \<open>simp_all add: close_ok_def\<close>)
  with inv show ?thesis by (simp add: run_inv_def)
qed

text \<open>The executor moves on with the run, the plan and the backup it holds.\<close>

lemma run_inv_same_hold:
  assumes inv: "run_inv s" and ph: "run_held ph = run_held (us_phase s)" "phase_plan ph = phase_plan (us_phase s)"
    "phase_backup ph = phase_backup (us_phase s)" "close_ok ph" "phase_backup ph \<noteq> None" "\<And>i p b t. ph \<noteq> U_Start i p b t"
  shows "run_inv (s\<lparr>us_phase := ph\<rparr>)"
proof -
  have nf: "us_phase s \<noteq> U_Final i e" "us_phase s \<noteq> U_Down" for i e using ph(3,5) by auto
  have f: "flow_inv s" using inv by (simp add: run_inv_def)
  note d = flow_invD [OF f]
  have u: "covers ph j (bh_id c)" if "unconfirmed (us_db s) j c" for j c
    using d(6) [OF that] ph(3) nf by (auto simp: covers_def)
  have "flow_inv (s\<lparr>us_phase := ph\<rparr>)"
  proof (rule flow_invI)
    show "run_held (us_phase (s\<lparr>us_phase := ph\<rparr>)) = Some i \<or> us_phase (s\<lparr>us_phase := ph\<rparr>) = U_Down"
      if "is_running (us_db (s\<lparr>us_phase := ph\<rparr>)) i" for i using d(5) [of i] that ph(1) nf(2) by simp
  qed (use ph d(1-3,7,8) u in simp_all)
  with inv show ?thesis by (simp add: run_inv_def)
qed

lemma covers_none: "phase_backup ph = None \<Longrightarrow> (\<And>i e. ph \<noteq> U_Final i e) \<Longrightarrow> \<not> covers ph i b"
  by (simp add: covers_def)

lemma run_inv_loop:
  assumes inv: "run_inv s" and ph: "run_held (us_phase s) = Some i" "phase_backup (us_phase s) = None"
    "\<And>i e. us_phase s \<noteq> U_Final i e" and p: "plan_ok (us_db s) i p"
  shows "run_inv (s\<lparr>us_phase := U_Loop i p\<rparr>)"
proof -
  have f: "flow_inv s" using inv by (simp add: run_inv_def)
  note d = flow_invD [OF f]
  have "us_phase s \<noteq> U_Down" using ph by auto
  then have r: "j = i" if "is_running (us_db s) j" for j using d(5) [OF that] ph by auto
  have "\<not> unconfirmed (us_db s) j c" for j c using d(6) [of j c] covers_none [OF ph(2,3)] by blast
  then have "flow_inv (s\<lparr>us_phase := U_Loop i p\<rparr>)"
  proof (intro flow_invI)
    show "run_held (us_phase (s\<lparr>us_phase := U_Loop i p\<rparr>)) = Some j \<or> us_phase (s\<lparr>us_phase := U_Loop i p\<rparr>) = U_Down"
      if "is_running (us_db (s\<lparr>us_phase := U_Loop i p\<rparr>)) j" for j using r [of j] that by simp
  qed (use d(1) [OF ph(1)] d(7,8) p in \<open>auto simp: close_ok_def\<close>)
  with inv show ?thesis by (simp add: run_inv_def)
qed

lemma run_inv_claim:
  assumes inv: "run_inv s" and idle: "us_phase s = U_Idle"
  shows "run_inv (claim_next_run now s)"
proof (cases "next_queued_run (us_db s)")
  case None
  with inv show ?thesis by (simp add: claim_next_run_def)
next
  case (Some r)
  have "r \<in> set (sort_key rn_id (filter (\<lambda>r. rn_status r = R_QUEUED) (ad_runs (us_db s))))"
    using Some by (auto simp: next_queued_run_def first_run_def simp del: set_sort split: list.splits)
  then have r: "r \<in> set (ad_runs (us_db s))" "rn_status r = R_QUEUED" by auto
  have d: "data_inv (us_db s)" and f: "flow_inv s" using inv by (simp_all add: run_inv_def)
  note fd = flow_invD [OF f]
  let ?db = "set_run (rn_id r) (claim_run_row now) (us_db s)"
  have only: "x = r" if "x \<in> set (ad_runs (us_db s))" "rn_id x = rn_id r" for x using run_of_id [OF d r(1) that] .
  have data: "data_inv ?db"
  proof (rule data_inv_set_run [OF d])
    show "run_active x" if "x \<in> set (ad_runs (us_db s))" "rn_id x = rn_id r" for x
      using only [OF that] r(2) by (simp add: run_active_def)
  qed (simp_all add: set_run_def same_plan_def claim_run_row_def)
  have none: "\<not> is_running (us_db s) i" for i using fd(5) [of i] idle by auto
  have run: "is_running ?db i \<longleftrightarrow> i = rn_id r" for i
  proof -
    have "is_running ?db i \<longleftrightarrow> (\<exists>x \<in> set (ad_runs (us_db s)). rn_id x = i \<and> (rn_id x = rn_id r \<or> rn_status x = R_RUNNING))"
      unfolding is_running_def set_run_def by (simp add: upd_ex) (rule bex_cong, auto simp: claim_run_row_def)
    with none [of i] r(1) show ?thesis by (auto simp: is_running_def)
  qed
  have act: "is_active ?db i \<longleftrightarrow> is_active (us_db s) i" for i
    unfolding is_active_def set_run_def using only r(2)
    by (simp, intro upd_ex_iff) (auto simp: claim_run_row_def run_active_def)
  have "\<not> unconfirmed (us_db s) i c" for i c using fd(6) [of i c] idle by (auto simp: covers_def)
  then have unc: "\<not> unconfirmed ?db i c" for i c by (simp add: unconfirmed_def act) (simp add: rows_of_def set_run_def)
  show ?thesis
    using data run unc fd(7,8) unfolding run_inv_def claim_next_run_def Some
    by (simp add: flow_inv_def close_ok_def) (simp add: set_run_def)
qed

lemma dict_put_new: "k \<notin> set (map fst d) \<Longrightarrow> dict_put k v d = d @ [(k, v)]"
  by (induction k v d rule: dict_put.induct) auto

lemma fold_dict_new:
  "distinct (map f xs) \<Longrightarrow> set (map f xs) \<inter> set (map fst d) = {} \<Longrightarrow>
   fold (\<lambda>x. dict_put (f x) (g x)) xs d = d @ map (\<lambda>x. (f x, g x)) xs"
  by (induction xs arbitrary: d) (auto simp: dict_put_new)

lemma map_of_keyed: "distinct (map f xs) \<Longrightarrow> x \<in> set xs \<Longrightarrow> map_of (map (\<lambda>x. (f x, g x)) xs) (f x) = Some (g x)"
  by (induction xs) (auto simp: image_iff)

lemma map_of_keyed_None: "map_of (map (\<lambda>x. (f x, g x)) xs) k = None \<longleftrightarrow> k \<notin> set (map f xs)"
  by (induction xs) auto

lemma set_for_run: "set (for_run db i) = set (rows_of db i)"
  by (simp add: for_run_def rows_of_def)

lemma plan_from_ok:
  assumes data: "data_inv db" and r: "r \<in> set (ad_runs db)" "rn_id r = i" "plan_from r (for_run db i) = Some p"
    and task: "\<And>x. x \<in> set (rows_of db i) \<Longrightarrow> bh_status x = B_RUNNING \<Longrightarrow> bh_agent_task_id x \<noteq> None"
  shows "plan_ok db i p"
proof -
  let ?run = "filter (\<lambda>b. bh_status b = B_RUNNING) (for_run db i)"
  obtain ts o' where t: "rn_targets r = Some (map dump_target ts)" "rn_options r = Some (dump_options o')" "options_ok o'"
    "distinct (map target_key ts)"
    using data_invD(3) [OF data r(1)] by (auto simp: run_typed_def)
  have d: "distinct (map guest_of (for_run db i))"
  proof -
    have dr: "distinct (map guest_of (rows_of db i))" using data_invD(5) [OF data] .
    have "distinct (for_run db i)" using dr by (simp add: for_run_def rows_of_def distinct_map)
    moreover have "inj_on guest_of (set (for_run db i))" using dr by (simp add: set_for_run distinct_map)
    ultimately show ?thesis by (simp add: distinct_map)
  qed
  then have dr: "distinct (map guest_of ?run)" by (rule distinct_map_filter)
  have p: "up_targets p = ts" "up_completed p = map guest_of (filter (\<lambda>b. backup_is_terminal (bh_status b)) (for_run db i))"
    "up_adoptable p = map (\<lambda>b. (guest_of b, bh_id b)) ?run"
    using r(3) t fold_dict_new [OF dr, of "[]" bh_id] by (auto simp: plan_from_def read_dump_options read_dump_targets)
  have "target_ok db i p k" for k
  proof (cases "k \<in> set (map guest_of (rows_of db i))")
    case True
    then obtain x where x: "x \<in> set (rows_of db i)" "guest_of x = k" by auto
    show ?thesis
    proof (cases "bh_status x = B_RUNNING")
      case True
      then have "x \<in> set ?run" using x(1) by (simp add: set_for_run)
      from map_of_keyed [OF dr this, of bh_id] have "adoptable_row db i p k x"
        using x True task [OF x(1)] by (simp add: adoptable_row_def p)
      then show ?thesis by (auto simp: target_ok_def)
    next
      case False
      then show ?thesis using x by (auto simp: target_ok_def p set_for_run backup_is_terminal_def)
    qed
  next
    case False
    then show ?thesis by (auto simp: target_ok_def p map_of_keyed_None set_for_run)
  qed
  then show ?thesis using t(4) by (simp add: plan_ok_def p)
qed

lemma run_inv_load:
  assumes inv: "run_inv s" and ph: "us_phase s = U_Claimed i"
  shows "run_inv (load_run C now i s)"
proof -
  have d: "data_inv (us_db s)" and f: "flow_inv s" using inv by (simp_all add: run_inv_def)
  have "is_running (us_db s) i" using flow_invD(1) [OF f] ph by simp
  then obtain r0 where "r0 \<in> set (ad_runs (us_db s))" "rn_id r0 = i" by (auto simp: is_running_def)
  then obtain r where r: "run_get (us_db s) i = Some r"
    unfolding run_get_def using find_None_notin [of "\<lambda>r. rn_id r = i"] by (cases "find (\<lambda>r. rn_id r = i) (ad_runs (us_db s))") auto
  note rm = run_get_Some [OF r]
  show ?thesis
  proof (cases "plan_from r (for_run (us_db s) i)")
    case None
    with r run_inv_final [OF inv, of i] ph show ?thesis by (simp add: load_run_def)
  next
    case (Some p)
    let ?f = "\<lambda>x. x\<lparr>rn_started_at := (if rn_started_at x = None then Some now else rn_started_at x)\<rparr>"
    let ?db = "notify_run_started C now r p (set_run i ?f (us_db s))"
    have fr: "ad_runs ?db = upd_where (\<lambda>x. rn_id x = i) ?f (ad_runs (us_db s))" "ad_backups ?db = ad_backups (us_db s)"
      "ad_jobs ?db = ad_jobs (us_db s)"
      by (simp_all add: notify_run_started_def set_run_def)
    have "run_inv (s\<lparr>us_db := ?db\<rparr>)"
      by (rule run_inv_set_run [OF inv _ _ _ _ fr]) (simp_all add: same_plan_def run_active_def)
    moreover have "plan_ok ?db i p"
    proof -
      have tk: "bh_agent_task_id x \<noteq> None" if "x \<in> set (rows_of (us_db s) i)" "bh_status x = B_RUNNING" for x
      proof
        assume "bh_agent_task_id x = None"
        moreover have "is_active (us_db s) i" using \<open>is_running (us_db s) i\<close> by (auto simp: is_running_def is_active_def run_active_def)
        ultimately have "covers (us_phase s) i (bh_id x)" using that flow_invD(6) [OF f, of i x] by (simp add: unconfirmed_def)
        then show False by (simp add: ph covers_def)
      qed
      have "plan_ok (us_db s) i p" by (rule plan_from_ok [OF d _ _ Some tk]) (use rm in auto)
      then show ?thesis by (simp add: plan_ok_def target_ok_def adoptable_row_def rows_of_def fr)
    qed
    ultimately have "run_inv (s\<lparr>us_db := ?db, us_phase := U_Loop i p\<rparr>)"
      using run_inv_loop [of "s\<lparr>us_db := ?db\<rparr>" i p] ph by simp
    moreover have "load_run C now i s = (s\<lparr>us_db := ?db, us_phase := U_Loop i p\<rparr>)\<lparr>us_cancelled := removeAll i (us_cancelled s)\<rparr>"
      by (simp add: load_run_def r Some)
    ultimately show ?thesis by (simp only: run_inv_memory)
  qed
qed


lemma plan_ok_tail:
  assumes "plan_ok db i p" "up_targets p = t # ts"
  shows "plan_ok db i (p\<lparr>up_targets := ts\<rparr>)" "target_ok db i p (target_key t)"
    "target_key t \<notin> set (map target_key ts)"
  using assms by (auto simp: plan_ok_def target_ok_def adoptable_row_def)

lemma run_inv_hold:
  assumes inv: "run_inv s" and ph: "us_phase s = U_Loop i p0" and p: "plan_ok (us_db s) i p"
    and x: "held_row (us_db s) i p b x" and ph': "phase_backup ph = Some (i, p, b)" "run_held ph = Some i"
      "phase_plan ph = Some (i, p)" "close_ok ph" "\<And>i p b t. ph = U_Start i p b t \<Longrightarrow> b \<notin> set (us_sent s)"
  shows "run_inv (s\<lparr>us_phase := ph\<rparr>)"
proof -
  have f: "flow_inv s" using inv by (simp add: run_inv_def)
  note d = flow_invD [OF f]
  have r: "j = i" if "is_running (us_db s) j" for j using d(5) [OF that] ph by auto
  have u: "\<not> unconfirmed (us_db s) j c" for j c using d(6) [of j c] ph by (auto simp: covers_def)
  have "flow_inv (s\<lparr>us_phase := ph\<rparr>)"
  proof (rule flow_invI)
    show "run_held (us_phase (s\<lparr>us_phase := ph\<rparr>)) = Some j \<or> us_phase (s\<lparr>us_phase := ph\<rparr>) = U_Down"
      if "is_running (us_db (s\<lparr>us_phase := ph\<rparr>)) j" for j using r [of j] that ph'(2) by simp
  qed (use ph ph' p x u d(1) [of i] d(7,8) in auto)
  with inv show ?thesis by (simp add: run_inv_def)
qed

lemma run_inv_opened:
  assumes inv: "run_inv s" and ph: "us_phase s = U_Loop i p0" and p: "plan_ok (us_db s) i p"
    and key: "target_key t \<notin> set (map guest_of (rows_of (us_db s) i))" "target_key t \<notin> set (map target_key (up_targets p))"
    and h: "history_create (opened_row now i t o') (us_db s) = (b, db')"
  shows "run_inv (s\<lparr>us_db := db', us_phase := U_Start i p (bh_id b) t\<rparr>)"
proof -
  have d: "data_inv (us_db s)" and f: "flow_inv s" using inv by (simp_all add: run_inv_def)
  note fd = flow_invD [OF f]
  have b: "bh_id b = next_id (map bh_id (ad_backups (us_db s)))" "bh_run_id b = Some i" "bh_status b = B_RUNNING"
    "bh_filename b = None" "guest_of b = target_key t" and db': "db' = us_db s\<lparr>ad_backups := ad_backups (us_db s) @ [b]\<rparr>"
    using h by (auto simp: history_create_def opened_row_def guest_of_def target_key_def Let_def)
  have i: "i \<in> rn_id ` set (ad_runs (us_db s))" using fd(1) [of i] ph by (auto simp: is_running_def)
  have data: "data_inv db'"
    unfolding db' by (rule data_inv_opened [OF d b(1-4) i]) (use key(1) b(5) in auto)
  have new: "bh_id b \<notin> bh_id ` set (ad_backups (us_db s))"
    using next_id_fresh [of "map bh_id (ad_backups (us_db s))"] b(1) by auto
  have rows: "rows_of db' j = (if j = i then rows_of (us_db s) i @ [b] else rows_of (us_db s) j)" for j
    by (simp add: rows_of_def db' b(2))
  have run: "is_running db' j \<longleftrightarrow> is_running (us_db s) j" "is_active db' j \<longleftrightarrow> is_active (us_db s) j" for j
    by (simp_all add: is_running_def is_active_def db')
  have r: "j = i" if "is_running (us_db s) j" for j using fd(5) [OF that] ph by auto
  have plan: "plan_ok db' i p"
  proof -
    have "target_ok db' i p k" if "target_ok (us_db s) i p k" "k \<noteq> target_key t" for k
      using that b(5) by (auto simp: target_ok_def adoptable_row_def rows)
    moreover have "k \<noteq> target_key t" if "k \<in> set (map target_key (up_targets p))" for k using key(2) that by blast
    ultimately show ?thesis using p unfolding plan_ok_def by blast
  qed
  have held: "held_row db' i p (bh_id b) b" using b key(2) by (simp add: held_row_def rows)
  have none: "\<not> unconfirmed (us_db s) j c" for j c using fd(6) [of j c] ph by (auto simp: covers_def)
  have unc: "j = i \<and> c = b" if "unconfirmed db' j c" for j c
    using that none [of j c] by (auto simp: unconfirmed_def rows run split: if_splits)
  let ?s = "s\<lparr>us_db := db', us_phase := U_Start i p (bh_id b) t\<rparr>"
  have "flow_inv ?s"
  proof (rule flow_invI)
    show "run_held (us_phase ?s) = Some j \<or> us_phase ?s = U_Down" if "is_running (us_db ?s) j" for j
      using r [of j] that run by simp
    show "covers (us_phase ?s) j (bh_id c)" if "unconfirmed (us_db ?s) j c" for j c
      using unc [of j c] that by (simp add: covers_def)
    show "set (us_sent ?s) \<subseteq> bh_id ` set (ad_backups (us_db ?s))" using fd(8) by (auto simp: db')
    show "c \<notin> set (us_sent ?s)" if "us_phase ?s = U_Start j q c u" for j q c u
      using fd(8) new that by auto
    show "\<exists>x. held_row (us_db ?s) j q c x" if "phase_backup (us_phase ?s) = Some (j, q, c)" for j q c
      using that held by auto
  qed (use ph plan fd(1) [of i] fd(7) in \<open>auto simp: run close_ok_def\<close>)
  with data show ?thesis by (simp add: run_inv_def)
qed

lemma run_inv_next_target:
  assumes inv: "run_inv s" and ph: "us_phase s = U_Loop i p"
  shows "run_inv (next_target now i p s)"
proof (cases "up_targets p")
  case Nil
  with run_inv_final [OF inv, of i] ph show ?thesis by (simp add: next_target_def)
next
  case (Cons t ts)
  have d: "data_inv (us_db s)" and f: "flow_inv s" using inv by (simp_all add: run_inv_def)
  have p: "plan_ok (us_db s) i p" using flow_invD(2) [OF f] ph by simp
  note tl = plan_ok_tail [OF p Cons]
  let ?p = "p\<lparr>up_targets := ts\<rparr>"
  consider (stop) "i \<in> set (us_cancelled s)" | (past) "i \<notin> set (us_cancelled s)" "target_key t \<in> set (up_completed p)"
    | (go) "i \<notin> set (us_cancelled s)" "target_key t \<notin> set (up_completed p)" by blast
  then show ?thesis
  proof cases
    case stop
    with run_inv_final [OF inv, of i] ph Cons show ?thesis by (simp add: next_target_def)
  next
    case past
    with run_inv_loop [OF inv, of i ?p] ph tl(1) Cons show ?thesis by (simp add: next_target_def Let_def)
  next
    case go
    then have nt: "next_target now i p s = open_backup now i ?p t s" using Cons by (simp add: next_target_def Let_def)
    show ?thesis
    proof (cases "map_of (up_adoptable p) (target_key t)")
      case None
      then have "target_key t \<notin> set (map guest_of (rows_of (us_db s) i))"
        using tl(2) go by (auto simp: target_ok_def adoptable_row_def)
      from run_inv_opened [OF inv ph tl(1) this] show ?thesis
        using tl(3) None by (simp add: nt open_backup_def split: prod.split)
    next
      case (Some b)
      then obtain x where x: "adoptable_row (us_db s) i p (target_key t) x" "b = bh_id x"
        using tl(2) go by (auto simp: target_ok_def adoptable_row_def)
      then have xm: "x \<in> set (ad_backups (us_db s))" "x \<in> set (rows_of (us_db s) i)" by (auto simp: adoptable_row_def rows_of_def)
      have "backup_get (us_db s) (bh_id x) = Some x"
        by (rule backup_get_of [OF d xm(1)])
      moreover obtain task where task: "bh_agent_task_id x = Some task" using x by (auto simp: adoptable_row_def)
      moreover have "held_row (us_db s) i ?p (bh_id x) x" using x tl(3) xm by (auto simp: held_row_def adoptable_row_def)
      then have "run_inv (s\<lparr>us_phase := U_Poll i ?p (bh_id x) task None\<rparr>)"
        by (rule run_inv_hold [OF inv ph tl(1)]) (simp_all add: close_ok_def)
      then have "run_inv (s\<lparr>us_phase := U_Poll i ?p (bh_id x) task None\<rparr>\<lparr>us_task := Some task\<rparr>)" by (simp only: run_inv_memory)
      ultimately show ?thesis using Some x by (simp add: nt open_backup_def)
    qed
  qed
qed

lemma run_inv_send:
  assumes inv: "run_inv s" and ph: "us_phase s = U_Start i p b t"
  shows "run_inv (s\<lparr>us_sent := b # us_sent s, us_phase := U_Sent i p b\<rparr>)"
proof -
  have f: "flow_inv s" using inv by (simp add: run_inv_def)
  note d = flow_invD [OF f]
  obtain x where x: "held_row (us_db s) i p b x" using d(3) [of i p b] ph by auto
  then have "b \<in> bh_id ` set (ad_backups (us_db s))" by (auto simp: held_row_def rows_of_def)
  let ?s = "s\<lparr>us_sent := b # us_sent s, us_phase := U_Sent i p b\<rparr>"
  have "flow_inv ?s"
  proof (rule flow_invI)
    show "run_held (us_phase ?s) = Some j \<or> us_phase ?s = U_Down" if "is_running (us_db ?s) j" for j
      using d(5) [of j] that ph by simp
    show "covers (us_phase ?s) j (bh_id c)" if "unconfirmed (us_db ?s) j c" for j c
      using d(6) [of j c] that ph by (simp add: covers_def)
    show "distinct (us_sent ?s)" using d(7,9) ph by simp
  qed (use d(1) [of i] d(2) [of i p] d(8) ph x \<open>b \<in> bh_id ` _\<close> in \<open>auto simp: close_ok_def\<close>)
  with inv show ?thesis by (simp add: run_inv_def)
qed


text \<open>Writes to the row the executor holds.\<close>

lemma held_update:
  assumes data: "data_inv db" and x: "held_row db i p b x"
    and f: "\<And>y. bh_id (f y) = bh_id y" "\<And>y. bh_run_id (f y) = bh_run_id y" "\<And>y. guest_of (f y) = guest_of y"
    and db': "ad_backups db' = upd_where (\<lambda>y. bh_id y = b) f (ad_backups db)"
  shows "plan_ok db i p \<Longrightarrow> plan_ok db' i p" "f x \<in> set (rows_of db' i)"
    "y \<in> set (rows_of db' j) \<Longrightarrow> (y = f x \<and> j = i) \<or> (y \<in> set (rows_of db j) \<and> bh_id y \<noteq> b)"
    "bh_id ` set (ad_backups db') = bh_id ` set (ad_backups db)"
proof -
  have xm: "x \<in> set (ad_backups db)" "bh_run_id x = Some i" "bh_id x = b" using x by (auto simp: held_row_def rows_of_def)
  have only: "y = x" if "y \<in> set (ad_backups db)" "bh_id y = b" for y
    using distinct_key_eq [OF data_invD(2) [OF data] that(1) xm(1)] that(2) xm(3) by simp
  have rows: "rows_of db' j = upd_where (\<lambda>y. bh_id y = b) f (rows_of db j)" for j by (rule rows_of_upd [OF f(2) db'])
  show "f x \<in> set (rows_of db' i)"
    using x by (auto simp: rows set_upd_where held_row_def image_iff)
  show "(y = f x \<and> j = i) \<or> (y \<in> set (rows_of db j) \<and> bh_id y \<noteq> b)" if y: "y \<in> set (rows_of db' j)" for y j
  proof -
    obtain z where z: "z \<in> set (rows_of db j)" "y = (if bh_id z = b then f z else z)"
      using y by (auto simp: rows set_upd_where)
    show ?thesis
    proof (cases "bh_id z = b")
      case True
      then have "z = x" using only z(1) by (auto simp: rows_of_def)
      then show ?thesis using z True xm(2) by (auto simp: rows_of_def)
    qed (use z in auto)
  qed
  have ids: "map bh_id (ad_backups db') = map bh_id (ad_backups db)" unfolding db' by (rule map_upd_where) (simp add: f(1))
  then show "bh_id ` set (ad_backups db') = bh_id ` set (ad_backups db)" by (metis set_map)
  have keys: "map guest_of (rows_of db' i) = map guest_of (rows_of db i)"
    unfolding rows by (rule map_guest_upd [OF f(3)])
  have adopt: "adoptable_row db' i p k z" if z: "adoptable_row db i p k z" "k \<in> set (map target_key (up_targets p))" for k z
  proof -
    have zm: "z \<in> set (rows_of db i)" using z(1) by (simp add: adoptable_row_def)
    have "bh_id z \<noteq> b"
    proof
      assume "bh_id z = b"
      then have "z = x" using only [of z] zm by (simp add: rows_of_def)
      then show False using z x by (auto simp: adoptable_row_def held_row_def)
    qed
    then have "z \<in> set (rows_of db' i)" using zm by (auto simp: rows set_upd_where image_iff)
    with z(1) show ?thesis by (simp add: adoptable_row_def)
  qed
  show "plan_ok db' i p" if "plan_ok db i p"
  proof -
    have "target_ok db' i p k" if "k \<in> set (map target_key (up_targets p))" "target_ok db i p k" for k
      using that adopt unfolding target_ok_def keys by blast
    with that show ?thesis unfolding plan_ok_def by blast
  qed
qed

lemma run_inv_attach:
  assumes inv: "run_inv s" and ph: "us_phase s = U_Accepted i p b task c"
  shows "run_inv (s\<lparr>us_db := attach_backup_task b task c (us_db s), us_phase := U_Poll i p b task None\<rparr>)"
proof -
  have d: "data_inv (us_db s)" and f: "flow_inv s" using inv by (simp_all add: run_inv_def)
  note fd = flow_invD [OF f]
  obtain x where x: "held_row (us_db s) i p b x" using fd(3) [of i p b] ph by auto
  let ?f = "\<lambda>r. r\<lparr>bh_agent_task_id := Some task, bh_correlation_id := c\<rparr>"
  let ?db = "attach_backup_task b task c (us_db s)"
  have bs: "ad_backups ?db = upd_where (\<lambda>y. bh_id y = b) ?f (ad_backups (us_db s))" "ad_runs ?db = ad_runs (us_db s)"
    "ad_jobs ?db = ad_jobs (us_db s)"
    by (simp_all add: attach_backup_task_def set_backup_def)
  have data: "data_inv ?db"
    by (rule data_inv_upd_calm [OF d _ bs]) (simp add: calm_row_def guest_of_def kept_def lost_def)
  note up = held_update [OF d x _ _ _ bs(1)]
  have plan: "plan_ok ?db i p" by (rule up(1)) (use fd(2) [of i p] ph in \<open>simp_all add: guest_of_def\<close>)
  have hx: "?f x \<in> set (rows_of ?db i)" by (rule up(2)) (simp_all add: guest_of_def)
  have held: "held_row ?db i p b (?f x)" using hx x by (simp add: held_row_def guest_of_def)
  have run: "is_running ?db j \<longleftrightarrow> is_running (us_db s) j" "is_active ?db j \<longleftrightarrow> is_active (us_db s) j" for j
    by (simp_all add: is_running_def is_active_def bs)
  have unc: "\<not> unconfirmed ?db j y" for j y
  proof
    assume u: "unconfirmed ?db j y"
    then have "y \<in> set (rows_of ?db j)" by (simp add: unconfirmed_def)
    then have "(y = ?f x \<and> j = i) \<or> (y \<in> set (rows_of (us_db s) j) \<and> bh_id y \<noteq> b)"
      by (rule up(3) [rotated 3]) (simp_all add: guest_of_def)
    with u run have "unconfirmed (us_db s) j y \<and> bh_id y \<noteq> b" by (auto simp: unconfirmed_def)
    with fd(6) [of j y] ph show False by (auto simp: covers_def)
  qed
  let ?s = "s\<lparr>us_db := ?db, us_phase := U_Poll i p b task None\<rparr>"
  have "flow_inv ?s"
  proof (rule flow_invI)
    show "run_held (us_phase ?s) = Some j \<or> us_phase ?s = U_Down" if "is_running (us_db ?s) j" for j
      using fd(5) [of j] that ph run by simp
    show "set (us_sent ?s) \<subseteq> bh_id ` set (ad_backups (us_db ?s))"
      using fd(8) up(4) by (simp add: guest_of_def)
    show "\<exists>x. held_row (us_db ?s) j q c x" if "phase_backup (us_phase ?s) = Some (j, q, c)" for j q c
      using that held by auto
  qed (use fd(1) [of i] fd(7) ph plan unc in \<open>auto simp: run close_ok_def\<close>)
  with data show ?thesis by (simp add: run_inv_def)
qed

text \<open>A running row ends: its run's counters go with it.\<close>

lemma run_inv_settled:
  assumes inv: "run_inv s" and ph: "phase_backup (us_phase s) = Some (i, p, b)"
    and x: "\<And>x. held_row (us_db s) i p b x \<Longrightarrow> bh_run_id x = Some i \<Longrightarrow> if ok then kept (f x) else lost (f x) \<and> bh_filename (f x) = bh_filename x"
    and f: "\<And>y. bh_id (f y) = bh_id y" "\<And>y. bh_run_id (f y) = bh_run_id y" "\<And>y. guest_of (f y) = guest_of y"
    and db': "ad_backups db' = upd_where (\<lambda>y. bh_id y = b) f (ad_backups (us_db s))"
      "ad_runs db' = upd_where (\<lambda>r. rn_id r = i) (bump_row ok) (ad_runs (us_db s))" "ad_jobs db' = ad_jobs (us_db s)"
  shows "run_inv (s\<lparr>us_db := db', us_phase := U_Loop i p\<rparr>)"
proof -
  have d: "data_inv (us_db s)" and fl: "flow_inv s" using inv by (simp_all add: run_inv_def)
  note fd = flow_invD [OF fl]
  have pp: "phase_plan (us_phase s) = Some (i, p)" "run_held (us_phase s) = Some i" using phase_run ph by auto
  have nd: "us_phase s \<noteq> U_Down" "us_phase s \<noteq> U_Final j e" for j e using ph by auto
  obtain x where h: "held_row (us_db s) i p b x" using fd(3) [OF ph] by blast
  then have xm: "x \<in> set (rows_of (us_db s) i)" "bh_status x = B_RUNNING" "bh_id x = b" "bh_run_id x = Some i"
    by (auto simp: held_row_def rows_of_def)
  note fx = x [OF h xm(4)]
  have data: "data_inv db'"
    using db' by (intro data_inv_settled [OF d xm(1,2) f, of ok]) (simp_all add: fx xm(3) split: if_splits)
  note up = held_update [OF d h f db'(1)]
  have run: "is_running db' j \<longleftrightarrow> is_running (us_db s) j" "is_active db' j \<longleftrightarrow> is_active (us_db s) j" for j
    unfolding is_running_def is_active_def db' by (rule upd_ex_iff, simp add: bump_row_def run_active_def)+
  have "bh_status (f x) \<noteq> B_RUNNING" using fx by (auto simp: kept_lost split: if_splits)
  then have unc: "\<not> unconfirmed db' j y" for j y
    using up(3) [of y j] fd(6) [of j y] run ph nd by (auto simp: unconfirmed_def covers_def)
  let ?s = "s\<lparr>us_db := db', us_phase := U_Loop i p\<rparr>"
  have "flow_inv ?s"
  proof (rule flow_invI)
    show "run_held (us_phase ?s) = Some j \<or> us_phase ?s = U_Down" if "is_running (us_db ?s) j" for j
      using fd(5) [of j] that pp nd run by simp
    show "set (us_sent ?s) \<subseteq> bh_id ` set (ad_backups (us_db ?s))" using fd(8) up(4) by simp
  qed (use fd(1) [OF pp(2)] fd(2) [OF pp(1)] up(1) fd(7) unc in \<open>auto simp: run close_ok_def\<close>)
  with data show ?thesis by (simp add: run_inv_def)
qed

lemma backup_status_of_cases: "backup_status_of st \<in> {B_SUCCESS, B_FAILED, B_CANCELLED, B_INTERRUPTED}"
  by (simp add: backup_status_of_def)

lemma outcome_row_facts:
  "bh_id (backup_outcome_row now u t y) = bh_id y" "bh_run_id (backup_outcome_row now u t y) = bh_run_id y"
  "guest_of (backup_outcome_row now u t y) = guest_of y"
  "if backup_status_of (at_state t) = B_SUCCESS then kept (backup_outcome_row now u t y)
   else lost (backup_outcome_row now u t y) \<and> bh_filename (backup_outcome_row now u t y) = bh_filename y"
  using backup_status_of_cases [of "at_state t"]
  by (auto simp: backup_outcome_row_def Let_def apply_artifact_def guest_of_def kept_def lost_def)

lemma close_row_facts:
  "bh_id (backup_close_row now st m y) = bh_id y" "bh_run_id (backup_close_row now st m y) = bh_run_id y"
  "guest_of (backup_close_row now st m y) = guest_of y" "bh_filename (backup_close_row now st m y) = bh_filename y"
  "st \<in> {B_FAILED, B_INTERRUPTED} \<Longrightarrow> lost (backup_close_row now st m y)"
  by (auto simp: backup_close_row_def guest_of_def lost_def)

lemma run_inv_report:
  assumes inv: "run_inv s" and ph: "us_phase s = U_Report i p b t"
  shows "run_inv (s\<lparr>us_db := record_backup_outcome now b i t u (us_db s), us_phase := U_Loop i p\<rparr>)"
proof -
  have d: "data_inv (us_db s)" and f: "flow_inv s" using inv by (simp_all add: run_inv_def)
  obtain x where x: "held_row (us_db s) i p b x" using flow_invD(3) [OF f, of i p b] ph by auto
  then have "backup_get (us_db s) b = Some x" using backup_get_of [OF d, of x] by (auto simp: held_row_def rows_of_def)
  then have db: "record_backup_outcome now b i t u (us_db s) = bump_counters i (backup_status_of (at_state t) = B_SUCCESS)
      (set_backup b (backup_outcome_row now u t) (us_db s))"
    by (simp add: record_backup_outcome_def)
  show ?thesis
    unfolding db by (rule run_inv_settled [OF inv, where ok = "backup_status_of (at_state t) = B_SUCCESS" and f = "backup_outcome_row now u t"])
      (use ph outcome_row_facts in \<open>simp_all add: bump_counters_def set_run_def set_backup_def\<close>)
qed

lemma run_inv_close:
  assumes inv: "run_inv s" and ph: "us_phase s = U_Close i p b st m"
  shows "run_inv (s\<lparr>us_db := close_backup now b st m (us_db s), us_phase := U_Loop i p\<rparr>)"
proof -
  have d: "data_inv (us_db s)" and f: "flow_inv s" using inv by (simp_all add: run_inv_def)
  obtain x where x: "held_row (us_db s) i p b x" using flow_invD(3) [OF f, of i p b] ph by auto
  then have g: "backup_get (us_db s) b = Some x" "bh_run_id x = Some i"
    using backup_get_of [OF d, of x] by (auto simp: held_row_def rows_of_def)
  have st: "st \<in> {B_FAILED, B_INTERRUPTED}" using flow_invD(4) [OF f] ph by (simp add: close_ok_def)
  have db: "close_backup now b st m (us_db s) = bump_counters i False (set_backup b (backup_close_row now st m) (us_db s))"
    by (simp add: close_backup_def g Let_def)
  show ?thesis
    unfolding db by (rule run_inv_settled [OF inv, where ok = False and f = "backup_close_row now st m"])
      (use ph close_row_facts st in \<open>simp_all add: bump_counters_def set_run_def set_backup_def\<close>)
qed


lemma final_status_inactive: "final_status c e r rs \<notin> {R_QUEUED, R_RUNNING}"
  by (auto simp: final_status_def summarise_run_def Let_def)

lemma finalise_rows:
  assumes "run_get db i = Some r"
  shows "ad_runs (finalise_run C now c i e db) = upd_where (\<lambda>x. rn_id x = i) (final_row now (final_status c e r (for_run db i)) e) (ad_runs db)"
    "ad_backups (finalise_run C now c i e db) = ad_backups db" "ad_jobs (finalise_run C now c i e db) = ad_jobs db"
  using assms by (simp_all add: finalise_run_def Let_def notify_run_finished_def set_run_def)

lemma run_inv_finalise:
  assumes inv: "run_inv s" and ph: "us_phase s = U_Final i e"
  shows "run_inv (s\<lparr>us_db := finalise_run C now c i e (us_db s), us_phase := U_Idle\<rparr>)"
proof -
  have d: "data_inv (us_db s)" and f: "flow_inv s" using inv by (simp_all add: run_inv_def)
  note fd = flow_invD [OF f]
  obtain r0 where "r0 \<in> set (ad_runs (us_db s))" "rn_id r0 = i" using fd(1) [of i] ph by (auto simp: is_running_def)
  then obtain r where r: "run_get (us_db s) i = Some r"
    unfolding run_get_def using find_key [OF data_invD(1) [OF d]] by blast
  let ?st = "final_status c e r (for_run (us_db s) i)"
  let ?db = "finalise_run C now c i e (us_db s)"
  note rows = finalise_rows [OF r, of C now c e]
  have st: "?st \<noteq> R_QUEUED" "?st \<noteq> R_RUNNING" using final_status_inactive [of c e r] by auto
  have data: "data_inv ?db"
    by (rule data_inv_set_run [OF d _ _ _ rows]) (use st in \<open>simp_all add: same_plan_def final_row_def run_active_def\<close>)
  have run: "\<not> is_running ?db j" for j
  proof
    assume "is_running ?db j"
    then have "is_running (us_db s) j \<and> j \<noteq> i"
      unfolding is_running_def rows upd_ex using st by (auto simp: final_row_def split: if_splits)
    with fd(5) [of j] ph show False by auto
  qed
  have act: "is_active (us_db s) j \<and> j \<noteq> i" if "is_active ?db j" for j
    using that unfolding is_active_def rows upd_ex using st by (auto simp: final_row_def run_active_def split: if_splits)
  have unc: "\<not> unconfirmed ?db j y" for j y
  proof
    assume u: "unconfirmed ?db j y"
    then have "unconfirmed (us_db s) j y \<and> j \<noteq> i" using act [of j] by (auto simp: unconfirmed_def rows_of_def rows)
    with fd(6) [of j y] ph show False by (auto simp: covers_def)
  qed
  let ?s = "s\<lparr>us_db := ?db, us_phase := U_Idle\<rparr>"
  have "flow_inv ?s"
    by (rule flow_invI) (use fd(7,8) run unc in \<open>auto simp: close_ok_def rows\<close>)
  with data show ?thesis by (simp add: run_inv_def)
qed

lemma start_answer_phase:
  "start_answer i p b a \<noteq> U_Final i e \<Longrightarrow> phase_backup (start_answer i p b a) = Some (i, p, b) \<or> (\<exists>e. start_answer i p b a = U_Final i e)"
  "close_ok (start_answer i p b a)" "start_answer i p b a \<noteq> U_Start j q c t"
  by (auto simp: start_answer_def close_ok_def split: sum.split app_error.split prod.split)

lemma backup_poll_phase:
  "phase_backup (backup_poll g n i p b t s a) = Some (i, p, b) \<or> (\<exists>e. backup_poll g n i p b t s a = U_Final i e)"
  "close_ok (backup_poll g n i p b t s a)" "backup_poll g n i p b t s a \<noteq> U_Start j q c u"
  by (auto simp: backup_poll_def close_ok_def Let_def split: sum.split app_error.split)

text \<open>An answer either keeps what is held or ends in \<open>U_Final\<close>.\<close>

lemma run_inv_answer:
  assumes inv: "run_inv s" and ph: "phase_backup (us_phase s) = Some (i, p, b)"
    and ans: "phase_backup ph = Some (i, p, b) \<or> (\<exists>e. ph = U_Final i e)" "close_ok ph" "\<And>j q c t. ph \<noteq> U_Start j q c t"
  shows "run_inv (s\<lparr>us_phase := ph\<rparr>)"
  using ans(1)
proof
  assume h: "phase_backup ph = Some (i, p, b)"
  then show ?thesis
    using ph ans(2,3) phase_run(1) [OF phase_run(2) [OF h]] phase_run(2) [OF h]
      phase_run(1) [OF phase_run(2) [OF ph]] phase_run(2) [OF ph]
    by (intro run_inv_same_hold [OF inv]) auto
next
  assume "\<exists>e. ph = U_Final i e"
  then show ?thesis using run_inv_final [OF inv] phase_run(1) [OF phase_run(2) [OF ph]] by auto
qed

lemma run_inv_advance:
  assumes inv: "run_inv s"
  shows "run_inv (run_advance E now tick started polled s)"
proof (cases "us_phase s")
  case (U_Sent i p b)
  have "start_answer i p b started \<noteq> U_Start j q c t" for j q c t by (rule start_answer_phase(3))
  then show ?thesis
    using start_answer_phase(1,2) [of i p b started]
    by (simp add: run_advance_def U_Sent) (intro run_inv_answer [OF inv], auto simp: U_Sent)
next
  case (U_Poll i p b t since)
  let ?ph = "backup_poll (ue_grace E) tick i p b t since polled"
  have "run_inv (s\<lparr>us_phase := ?ph\<rparr>)"
    using backup_poll_phase [of "ue_grace E" tick i p b t since polled] by (intro run_inv_answer [OF inv, of i p b]) (auto simp: U_Poll)
  then have "run_inv (s\<lparr>us_phase := ?ph\<rparr>\<lparr>us_task := (case ?ph of U_Report _ _ _ _ \<Rightarrow> None | _ \<Rightarrow> us_task s)\<rparr>)"
    by (simp only: run_inv_memory)
  then show ?thesis by (simp add: run_advance_def U_Poll Let_def)
next
  case (U_Accepted i p b t c)
  from run_inv_attach [OF inv U_Accepted]
  have "run_inv (s\<lparr>us_db := attach_backup_task b t c (us_db s), us_phase := U_Poll i p b t None\<rparr>\<lparr>us_task := Some t\<rparr>)"
    by (simp only: run_inv_memory)
  then show ?thesis by (simp add: run_advance_def U_Accepted)
next
  case (U_Close i p b st m)
  from run_inv_close [OF inv U_Close]
  have "run_inv (s\<lparr>us_db := close_backup now b st m (us_db s), us_phase := U_Loop i p\<rparr>\<lparr>us_task := None\<rparr>)"
    by (simp only: run_inv_memory)
  then show ?thesis by (simp add: run_advance_def U_Close)
next
  case (U_Final i e)
  let ?db = "finalise_run (ue_notify E) now (i \<in> set (us_cancelled s)) i e (us_db s)"
  have "run_inv (s\<lparr>us_db := ?db, us_phase := U_Idle\<rparr>\<lparr>us_cancelled := removeAll i (us_cancelled s)\<rparr>\<lparr>us_task := None\<rparr>)"
    unfolding run_inv_memory by (rule run_inv_finalise [OF inv U_Final])
  moreover have "run_advance E now tick started polled s
      = s\<lparr>us_db := ?db, us_phase := U_Idle\<rparr>\<lparr>us_cancelled := removeAll i (us_cancelled s)\<rparr>\<lparr>us_task := None\<rparr>"
    by (simp add: run_advance_def U_Final)
  ultimately show ?thesis by simp
qed (use inv in \<open>simp_all add: run_advance_def run_inv_claim run_inv_load run_inv_next_target run_inv_send run_inv_report\<close>)

lemma run_inv_crash: "run_inv s \<Longrightarrow> run_inv (run_crash s)"
  by (auto simp: run_crash_def run_inv_final split: option.split)

section \<open>Recovery\<close>

text \<open>Ending a running row that the executor does not hold.\<close>

lemma end_row:
  assumes d: "data_inv db" and x: "x \<in> set (ad_backups db)" "bh_status x = B_RUNNING"
  obtains i r where "bh_run_id x = Some i" "run_get db i = Some r" "x \<in> set (rows_of db i)" "rn_id r = i" "run_typed r"
proof -
  have "\<not> kept x" using x(2) by (simp add: kept_def)
  then obtain i where i: "bh_run_id x = Some i" using data_invD(7) [OF d x(1)] by auto
  then obtain r where r: "r \<in> set (ad_runs db)" "rn_id r = i" using data_invD(6) [OF d x(1)] by auto
  have "run_get db i = Some r" unfolding run_get_def using find_key [OF data_invD(1) [OF d] r(1)] r(2) by simp
  then show thesis using i r x(1) data_invD(3) [OF d r(1)] by (intro that) (auto simp: rows_of_def)
qed

text \<open>The table after some running rows were ended: the others are untouched.\<close>

definition ended :: "nat list \<Rightarrow> app_db \<Rightarrow> app_db \<Rightarrow> bool" where
  "ended is db db' = (data_inv db' \<and> map bh_id (ad_backups db') = map bh_id (ad_backups db)
     \<and> (\<forall>y \<in> set (ad_backups db'). bh_status y = B_RUNNING \<longrightarrow> y \<in> set (ad_backups db) \<and> bh_id y \<notin> set is)
     \<and> (\<forall>y \<in> set (ad_backups db). bh_id y \<notin> set is \<longrightarrow> y \<in> set (ad_backups db')))"

lemma ended_refl: "data_inv db \<Longrightarrow> ended [] db db"
  by (simp add: ended_def)

lemma ended_upd:
  assumes d: "data_inv db'" and e: "ad_backups db' = upd_where (\<lambda>y. bh_id y = b) f (ad_backups db)"
    and f: "\<And>y. bh_id (f y) = bh_id y" "\<And>y. kept (f y) \<or> lost (f y)"
  shows "ended [b] db db'"
  unfolding ended_def
proof (intro conjI ballI impI d)
  show "map bh_id (ad_backups db') = map bh_id (ad_backups db)" unfolding e by (rule map_upd_where) (simp add: f(1))
  show "y \<in> set (ad_backups db)" "bh_id y \<notin> set [b]" if "y \<in> set (ad_backups db')" "bh_status y = B_RUNNING" for y
  proof -
    have "bh_status (f z) \<noteq> B_RUNNING" for z using f(2) [of z] kept_lost by blast
    then show "y \<in> set (ad_backups db)" "bh_id y \<notin> set [b]" using that by (auto simp: e set_upd_where split: if_splits)
  qed
  show "y \<in> set (ad_backups db')" if "y \<in> set (ad_backups db)" "bh_id y \<notin> set [b]" for y
    using that by (auto simp: e set_upd_where image_iff)
qed

lemma ended_trans:
  assumes "ended xs db db1" "ended ys db1 db2"
  shows "ended (xs @ ys) db db2"
  unfolding ended_def
proof (intro conjI ballI impI)
  show "data_inv db2" "map bh_id (ad_backups db2) = map bh_id (ad_backups db)" using assms by (simp_all add: ended_def)
  show "y \<in> set (ad_backups db)" "bh_id y \<notin> set (xs @ ys)" if y: "y \<in> set (ad_backups db2)" "bh_status y = B_RUNNING" for y
  proof -
    have "y \<in> set (ad_backups db1)" "bh_id y \<notin> set ys" using assms(2) [unfolded ended_def] y by blast+
    then show "y \<in> set (ad_backups db)" "bh_id y \<notin> set (xs @ ys)" using assms(1) [unfolded ended_def] y(2) by auto
  qed
  show "y \<in> set (ad_backups db2)" if "y \<in> set (ad_backups db)" "bh_id y \<notin> set (xs @ ys)" for y
  proof -
    have "y \<in> set (ad_backups db1)" using assms(1) that by (simp add: ended_def)
    then show ?thesis using assms(2) that(2) by (simp add: ended_def)
  qed
qed

lemma close_ended:
  assumes d: "data_inv db" and x: "x \<in> set (ad_backups db)" "bh_status x = B_RUNNING"
  shows "ended [bh_id x] db (close_backup now (bh_id x) B_INTERRUPTED m db)"
proof -
  obtain i r where i: "bh_run_id x = Some i" "x \<in> set (rows_of db i)" by (rule end_row [OF d x])
  have e: "close_backup now (bh_id x) B_INTERRUPTED m db = bump_counters i False (set_backup (bh_id x) (backup_close_row now B_INTERRUPTED m) db)"
    by (simp add: close_backup_def backup_get_of [OF d x(1)] i Let_def)
  show ?thesis
  proof (rule ended_upd [where f = "backup_close_row now B_INTERRUPTED m"])
    show "data_inv (close_backup now (bh_id x) B_INTERRUPTED m db)"
      unfolding e by (rule data_inv_settled [OF d i(2) x(2), where ok = False and f = "backup_close_row now B_INTERRUPTED m"])
        (simp_all add: close_row_facts bump_counters_def set_run_def set_backup_def)
  qed (simp_all add: e bump_counters_def set_run_def set_backup_def close_row_facts)
qed

lemma outcome_ended:
  assumes d: "data_inv db" and x: "x \<in> set (ad_backups db)" "bh_status x = B_RUNNING" "bh_run_id x = Some i"
  shows "ended [bh_id x] db (record_backup_outcome now (bh_id x) i t u db)"
proof -
  let ?ok = "backup_status_of (at_state t) = B_SUCCESS"
  have i: "x \<in> set (rows_of db i)" using x by (simp add: rows_of_def)
  have e: "record_backup_outcome now (bh_id x) i t u db = bump_counters i ?ok (set_backup (bh_id x) (backup_outcome_row now u t) db)"
    by (simp add: record_backup_outcome_def backup_get_of [OF d x(1)])
  show ?thesis
  proof (rule ended_upd [where f = "backup_outcome_row now u t"])
    show "data_inv (record_backup_outcome now (bh_id x) i t u db)"
      unfolding e by (rule data_inv_settled [OF d i x(2), where ok = ?ok and f = "backup_outcome_row now u t"])
        (use outcome_row_facts in \<open>simp_all add: bump_counters_def set_run_def set_backup_def\<close>)
    show "kept (backup_outcome_row now u t y) \<or> lost (backup_outcome_row now u t y)" for y
      using outcome_row_facts(4) [of t now u y] by (auto split: if_splits)
  qed (simp_all add: e bump_counters_def set_run_def set_backup_def outcome_row_facts)
qed

lemma closes_ended:
  assumes "data_inv db" "distinct is"
    and "\<And>i. i \<in> set is \<Longrightarrow> \<exists>x \<in> set (ad_backups db). bh_id x = i \<and> bh_status x = B_RUNNING"
  shows "ended is db (fold (\<lambda>b. close_backup now b B_INTERRUPTED m) is db)"
  using assms
proof (induction "is" arbitrary: db)
  case Nil
  then show ?case by (simp add: ended_refl)
next
  case (Cons i "is")
  obtain x where x: "x \<in> set (ad_backups db)" "bh_id x = i" "bh_status x = B_RUNNING" using Cons.prems(3) [of i] by auto
  let ?db = "close_backup now i B_INTERRUPTED m db"
  have e: "ended [i] db ?db" using close_ended [OF Cons.prems(1) x(1,3), of now m] x(2) by simp
  have "\<exists>y \<in> set (ad_backups ?db). bh_id y = j \<and> bh_status y = B_RUNNING" if j: "j \<in> set is" for j
  proof -
    obtain y where y: "y \<in> set (ad_backups db)" "bh_id y = j" "bh_status y = B_RUNNING" using Cons.prems(3) [of j] j by auto
    have "j \<noteq> i" using Cons.prems(2) j by auto
    then have "y \<in> set (ad_backups ?db)" using e y(1,2) unfolding ended_def by auto
    then show ?thesis using y(2,3) by blast
  qed
  then have "ended is ?db (fold (\<lambda>b. close_backup now b B_INTERRUPTED m) is ?db)"
    using Cons.prems(2) e by (intro Cons.IH) (simp_all add: ended_def)
  from ended_trans [OF e this] show ?case by simp
qed

lemma context_of:
  assumes d: "data_inv db" and x: "x \<in> set (ad_backups db)" "bh_status x = B_RUNNING" and c: "context_for db (bh_id x) = Inr (i, u)"
  shows "bh_run_id x = Some i"
proof -
  obtain j r where j: "bh_run_id x = Some j" "run_get db j = Some r" "rn_id r = j" by (rule end_row [OF d x])
  with c show ?thesis by (auto simp: context_for_def backup_get_of [OF d x(1)] split: option.splits)
qed

lemma recover_task_ended:
  assumes d: "data_inv db" and x: "x \<in> set (ad_backups db)" "bh_status x = B_RUNNING"
  shows "\<exists>is. set is \<subseteq> {bh_id x} \<and> ended is db (snd (recover_task now answers (bh_id x, t) db))"
proof -
  note none = exI [of _ "[] :: nat list"] and one = exI [of _ "[bh_id x]"]
  have "ended [bh_id x] db (record_backup_outcome now (bh_id x) i tk u db)" if "context_for db (bh_id x) = Inr (i, u)" for i u tk
    by (rule outcome_ended [OF d x context_of [OF d x that]])
  then have "snd (recover_task now answers (bh_id x, t) db) = db \<or> ended [bh_id x] db (snd (recover_task now answers (bh_id x, t) db))"
    using close_ended [OF d x] by (auto simp: recover_task_def split: sum.split app_error.split)
  then show ?thesis using none [of "\<lambda>is. set is \<subseteq> {bh_id x} \<and> ended is db db"] ended_refl [OF d] by (metis empty_subsetI empty_set list.simps(15) subset_refl)
qed

lemma recover_tasks_ended:
  assumes "data_inv db" "distinct (map fst bts)"
    and "\<And>i. i \<in> fst ` set bts \<Longrightarrow> \<exists>x \<in> set (ad_backups db). bh_id x = i \<and> bh_status x = B_RUNNING"
  shows "\<exists>is. set is \<subseteq> fst ` set bts \<and> ended is db (snd (recover_tasks now answers bts db))"
  using assms
proof (induction bts arbitrary: db)
  case Nil
  then show ?case using ended_refl [OF Nil(1)] by (intro exI [of _ "[]"]) simp
next
  case (Cons bt bts)
  obtain x where x: "x \<in> set (ad_backups db)" "bh_id x = fst bt" "bh_status x = B_RUNNING" using Cons.prems(3) [of "fst bt"] by auto
  obtain out db1 where r: "recover_task now answers bt db = (out, db1)" by force
  from recover_task_ended [OF Cons.prems(1) x(1,3), of now answers "snd bt"] r x(2)
  obtain js where js: "set js \<subseteq> {fst bt}" "ended js db db1" by auto
  show ?case
  proof (cases out)
    case (Inl e)
    then show ?thesis using js r by (intro exI [of _ js]) auto
  next
    case (Inr u)
    have "\<exists>y \<in> set (ad_backups db1). bh_id y = j \<and> bh_status y = B_RUNNING" if j: "j \<in> fst ` set bts" for j
    proof -
      obtain y where y: "y \<in> set (ad_backups db)" "bh_id y = j" "bh_status y = B_RUNNING" using Cons.prems(3) [of j] j by auto
      have "j \<noteq> fst bt" using Cons.prems(2) j by (metis distinct.simps(2) list.map(2) set_map)
      then have "bh_id y \<notin> set js" using js(1) y(2) by auto
      then have "y \<in> set (ad_backups db1)" using js(2) y(1) unfolding ended_def by blast
      then show ?thesis using y(2,3) by blast
    qed
    moreover have "data_inv db1" using js(2) by (simp add: ended_def)
    ultimately obtain ks where ks: "set ks \<subseteq> fst ` set bts" "ended ks db1 (snd (recover_tasks now answers bts db1))"
      using Cons.IH [of db1] Cons.prems(2) by auto
    from ended_trans [OF js(2) ks(2)] js(1) ks(1) Inr r show ?thesis by (intro exI [of _ "js @ ks"]) auto
  qed
qed

text \<open>What a restart finds: the rows left running, while they fit the scan.\<close>

definition scan_fits :: "app_db \<Rightarrow> bool" where
  "scan_fits db = (length (filter (\<lambda>b. bh_status b = B_RUNNING) (ad_backups db)) \<le> RECOVERY_SCAN_LIMIT)"

lemma running_rows_all:
  assumes "scan_fits db"
  shows "set (running_rows db) = {b \<in> set (ad_backups db). bh_status b = B_RUNNING}"
  using assms by (auto simp: running_rows_def scan_fits_def page_def order_desc_def)

lemma running_rows_distinct:
  assumes "data_inv db"
  shows "distinct (map bh_id (running_rows db))"
proof -
  have "distinct (map bh_id (order_desc (\<lambda>b. (bh_started_at b, bh_id b)) (filter (\<lambda>b. bh_status b = B_RUNNING) (ad_backups db))))"
    using distinct_map_filter [OF data_invD(2) [OF assms]]
    by (simp add: order_desc_def distinct_map rev_map)
  then show ?thesis unfolding running_rows_def page_def by (metis distinct_take drop_map distinct_drop take_map)
qed

lemma run_inv_recover:
  assumes inv: "run_inv s" and fits: "scan_fits (us_db s)"
  shows "run_inv (recover_runs now answers s)"
proof -
  let ?db = "us_db s" and ?m = "''The dashboard restarted before the agent confirmed this backup.''"
  have d: "data_inv ?db" and fl: "flow_inv s" using inv by (simp_all add: run_inv_def)
  note all = running_rows_all [OF fits] and dist = running_rows_distinct [OF d]
  obtain pend adopt where o: "orphaned_backups ?db = (pend, adopt)" by force
  have pend: "pend = map bh_id (filter (\<lambda>b. bh_agent_task_id b = None) (running_rows ?db))"
    and adopt: "adopt = List.map_filter (\<lambda>b. map_option (Pair (bh_id b)) (bh_agent_task_id b)) (running_rows ?db)"
    using o by (simp_all add: orphaned_backups_def Let_def)
  let ?db1 = "fold (\<lambda>b. close_backup now b B_INTERRUPTED ?m) pend ?db"
  have e1: "ended pend ?db ?db1"
    by (rule closes_ended [OF d]) (use all dist in \<open>auto simp: pend distinct_map_filter\<close>)
  have left: "bh_agent_task_id y \<noteq> None" if "y \<in> set (ad_backups ?db1)" "bh_status y = B_RUNNING" for y
  proof -
    have "y \<in> set (running_rows ?db)" "bh_id y \<notin> set pend" using e1 that all by (auto simp: ended_def)
    then show ?thesis by (auto simp: pend)
  qed
  have dist_adopt: "distinct (map fst adopt)"
    unfolding adopt using dist by (induction "running_rows ?db" rule: rev_induct)
      (auto simp: List.map_filter_def comp_def distinct_map inj_on_def)
  have adopts: "\<exists>x \<in> set (ad_backups ?db1). bh_id x = i \<and> bh_status x = B_RUNNING" if i: "i \<in> fst ` set adopt" for i
  proof -
    obtain x t where x: "x \<in> set (running_rows ?db)" "bh_id x = i" "bh_agent_task_id x = Some t"
      using i by (auto simp: adopt set_map_filter)
    have "bh_id x \<notin> set pend"
      using distinct_key_eq [OF dist x(1)] x(3) by (fastforce simp: pend)
    then have "x \<in> set (ad_backups ?db1)" using e1 x(1) all by (simp add: ended_def)
    then show ?thesis using x(1,2) all by auto
  qed
  obtain out db2 where r: "recover_tasks now answers adopt ?db1 = (out, db2)" by force
  have d1: "data_inv ?db1" using e1 by (simp add: ended_def)
  obtain js where e2: "ended js ?db1 db2" using recover_tasks_ended [OF d1 dist_adopt adopts, of now answers] r by auto
  have d2: "data_inv db2" and ids: "map bh_id (ad_backups db2) = map bh_id (ad_backups ?db)" using e1 e2 by (simp_all add: ended_def)
  have none: "\<not> unconfirmed db2 i c" for i c using e2 left by (auto simp: unconfirmed_def rows_of_def ended_def)
  have sent: "distinct (us_sent s)" "set (us_sent s) \<subseteq> bh_id ` set (ad_backups db2)"
    using flow_invD(7,8) [OF fl] ids by (metis, metis set_map)
  show ?thesis
  proof (cases out)
    case (Inl e)
    then show ?thesis using d2 none sent by (simp add: recover_runs_def o r run_inv_def flow_inv_def close_ok_def)
  next
    case (Inr u)
    have d3: "data_inv (requeue_runs db2)"
      by (rule data_inv_set_run [OF d2, where P = "\<lambda>r. rn_status r = R_RUNNING" and f = "\<lambda>r. r\<lparr>rn_status := R_QUEUED\<rparr>"])
        (simp_all add: same_plan_def run_active_def requeue_runs_def)
    have act: "is_active (requeue_runs db2) i \<longleftrightarrow> is_active db2 i" for i
      unfolding is_active_def requeue_runs_def by (simp, intro upd_ex_iff) (simp add: run_active_def)
    have unc: "\<not> unconfirmed (requeue_runs db2) i c" for i c
      using none [of i c] by (simp add: unconfirmed_def act) (simp add: rows_of_def requeue_runs_def)
    have run: "\<not> is_running (requeue_runs db2) i" for i
      by (auto simp: is_running_def requeue_runs_def set_upd_where split: if_splits)
    show ?thesis using d3 unc run sent
      by (simp add: recover_runs_def o r Inr run_inv_def flow_inv_def close_ok_def) (simp add: requeue_runs_def)
  qed
qed

lemma run_step_inv: "run_step E s s' \<Longrightarrow> run_inv s \<Longrightarrow> run_inv s'"
  by (induction rule: run_step.induct)
    (simp_all add: run_inv_queues [OF _ request_queues] run_inv_job run_inv_cancel run_inv_delete run_inv_advance run_inv_crash
      run_inv_recover run_inv_elsewhere scan_fits_def)

lemma run_inv_start: "run_inv (runs_start db)"
  by (simp add: runs_start_def run_inv_def data_inv_def flow_inv_def rows_of_def active_count_def
      is_running_def unconfirmed_def close_ok_def)

lemma runs_inv: "runs_reachable E s \<Longrightarrow> run_inv s"
  by (induction rule: runs_reachable.induct) (simp_all only: run_inv_start run_step_inv)

lemmas run_dataD = data_invD [OF conjunct1 [OF runs_inv [unfolded run_inv_def]]]

lemmas run_flowD = flow_invD [OF conjunct2 [OF runs_inv [unfolded run_inv_def]]]

end
