(* ===== verification/Run_Properties.thy ===== *)
theory Run_Properties
  imports Backup_Runs Retention_Safety
begin

text \<open>
  What the invariants of runs mean for the operator: no guest is backed up twice in a run, the
  counters tell the rows, a run keeps the plan it was requested with, and retention reads that plan.
\<close>

section \<open>The life of a run\<close>

fun next_run_statuses :: "run_status \<Rightarrow> run_status list" where
  "next_run_statuses R_QUEUED = [R_RUNNING, R_CANCELLED]"
| "next_run_statuses R_RUNNING = [R_SUCCESS, R_PARTIAL, R_FAILED, R_CANCELLED, R_QUEUED]"
| "next_run_statuses _ = []"

definition frozen :: "run_row \<Rightarrow> run_row \<Rightarrow> bool" where
  "frozen r r' = (rn_id r' = rn_id r \<and> rn_targets r' = rn_targets r \<and> rn_options r' = rn_options r
     \<and> rn_total r' = rn_total r \<and> rn_trigger r' = rn_trigger r \<and> rn_requested_by r' = rn_requested_by r
     \<and> rn_created_at r' = rn_created_at r)"

definition run_life :: "run_row \<Rightarrow> run_row \<Rightarrow> bool" where
  "run_life r r' = (frozen r r' \<and> (rn_status r' = rn_status r \<or> rn_status r' \<in> set (next_run_statuses (rn_status r))))"

definition run_settled :: "run_row \<Rightarrow> run_row \<Rightarrow> bool" where
  "run_settled r r' = (frozen r r' \<and> rn_status r' = rn_status r)"

lemma run_settled_refl: "run_settled r r"
  by (simp add: run_settled_def frozen_def)

lemma settled_life: "run_settled r r' \<Longrightarrow> run_life r r'"
  by (simp add: run_settled_def run_life_def)

lemma settled_trans: "run_settled r r' \<Longrightarrow> run_settled r' r'' \<Longrightarrow> run_settled r r''"
  by (simp add: run_settled_def frozen_def)

lemma settled_bump: "run_settled r (bump_row ok r)"
  by (simp add: run_settled_def frozen_def bump_row_def)

interpretation lives: row_table rn_id run_life fresh_run
  by unfold_locales (auto simp: run_life_def frozen_def)

definition runs_grow :: "app_db \<Rightarrow> app_db \<Rightarrow> bool" where
  "runs_grow db db' = table_grows rn_id run_life fresh_run (ad_runs db) (ad_runs db')"

lemma runs_grow_same: "ad_runs db' = ad_runs db \<Longrightarrow> runs_grow db db'"
  by (simp add: runs_grow_def lives.grows_same)

lemma runs_grow_upd:
  "ad_runs db' = upd_where P f (ad_runs db) \<Longrightarrow> (\<And>r. r \<in> set (ad_runs db) \<Longrightarrow> P r \<Longrightarrow> run_life r (f r)) \<Longrightarrow> runs_grow db db'"
  by (simp add: runs_grow_def lives.grows_updated)

lemma runs_grow_new:
  "fresh_run r \<Longrightarrow> rn_id r = next_id (map rn_id (ad_runs db)) \<Longrightarrow> ad_runs db' = ad_runs db @ [r] \<Longrightarrow> runs_grow db db'"
  unfolding runs_grow_def using next_id_fresh [of "map rn_id (ad_runs db)"] by (simp add: lives.grows_appended)

lemma grow_queues:
  "case out of Inl e \<Rightarrow> db' = db | Inr x \<Rightarrow> queued_run x db db' \<Longrightarrow> runs_grow db db'"
  by (auto simp: queued_run_def intro: runs_grow_new runs_grow_same split: sum.splits)

lemma grow_cancel:
  assumes d: "data_inv (us_db s)" and r: "cancel_run_route now user i answer s = (out, s')"
  shows "runs_grow (us_db s) (us_db s')"
proof (cases "\<exists>q. run_get (us_db s) i = Some q \<and> rn_status q = R_QUEUED")
  case True
  then obtain q where q: "run_get (us_db s) i = Some q" "rn_status q = R_QUEUED" by blast
  have "ad_runs (us_db s') = upd_where (\<lambda>x. rn_id x = i) (cancel_queued_row now) (ad_runs (us_db s))"
    using r q by (auto simp: cancel_run_route_def cancel_queued_run_def Let_def set_run_def)
  then show ?thesis
  proof (rule runs_grow_upd)
    show "run_life x (cancel_queued_row now x)" if "x \<in> set (ad_runs (us_db s))" "rn_id x = i" for x
      using run_of_id [OF d _ that(1), of q] run_get_Some [OF q(1)] that q(2)
      by (simp add: run_life_def frozen_def cancel_queued_row_def)
  qed
next
  case False
  then have "ad_runs (us_db s') = ad_runs (us_db s)"
    using r by (auto simp: cancel_run_route_def runner_cancel_def Let_def split: option.splits if_splits sum.splits app_error.splits)
  then show ?thesis by (rule runs_grow_same)
qed

lemma run_of_running:
  assumes "data_inv db" "is_running db i" "x \<in> set (ad_runs db)" "rn_id x = i"
  shows "rn_status x = R_RUNNING"
proof -
  obtain r where r: "r \<in> set (ad_runs db)" "rn_id r = i" "rn_status r = R_RUNNING" using assms(2) by (auto simp: is_running_def)
  have "r = x" by (rule run_of_id [OF assms(1,3) r(1)]) (simp add: r(2) assms(4))
  with r(3) show ?thesis by simp
qed

definition runs_settled :: "app_db \<Rightarrow> app_db \<Rightarrow> bool" where
  "runs_settled db db' = list_all2 run_settled (ad_runs db) (ad_runs db')"

lemma runs_settled_refl: "ad_runs db' = ad_runs db \<Longrightarrow> runs_settled db db'"
  by (simp add: runs_settled_def list_all2_refl run_settled_refl)

lemma runs_settled_trans: "runs_settled db db1 \<Longrightarrow> runs_settled db1 db2 \<Longrightarrow> runs_settled db db2"
  unfolding runs_settled_def by (rule list_all2_trans [where ?P1.0 = run_settled and ?P2.0 = run_settled]) (erule (1) settled_trans)

lemma runs_settled_grow: "runs_settled db db' \<Longrightarrow> runs_grow db db'"
  unfolding runs_settled_def runs_grow_def by (rule lives.grows_moved) (erule list_all2_mono, rule settled_life)

lemma settled_counters: "ad_runs db1 = ad_runs db \<Longrightarrow> runs_settled db (bump_counters i ok db1)"
  unfolding runs_settled_def bump_counters_def set_run_def
  by (simp add: list_all2_upd_where run_settled_refl settled_bump)

lemma settled_outcome: "runs_settled db (record_backup_outcome now b i t u db)"
  by (auto simp: record_backup_outcome_def set_backup_def split: option.split
      intro!: runs_settled_refl settled_counters)

lemma settled_close: "runs_settled db (close_backup now b st m db)"
  by (auto simp: close_backup_def Let_def set_backup_def split: option.split
      intro!: runs_settled_refl settled_counters)

lemma settled_closes: "runs_settled db (fold (\<lambda>b. close_backup now b st m) is db)"
  by (induction "is" arbitrary: db) (auto intro: runs_settled_refl runs_settled_trans [OF settled_close])

lemma settled_task: "runs_settled db (snd (recover_task now answers bt db))"
  by (auto simp: recover_task_def runs_settled_refl settled_outcome settled_close split: sum.split app_error.split)

lemma settled_tasks: "runs_settled db (snd (recover_tasks now answers bts db))"
proof (induction bts arbitrary: db)
  case (Cons bt bts)
  obtain out db1 where r: "recover_task now answers bt db = (out, db1)" by force
  then have "runs_settled db db1" using settled_task [of db now answers bt] by simp
  with Cons.IH [of db1] r show ?case by (auto intro: runs_settled_trans split: sum.split)
qed (simp add: runs_settled_refl)

lemma grow_recover: "runs_grow (us_db s) (us_db (recover_runs now answers s))"
proof -
  obtain pend adopt where o: "orphaned_backups (us_db s) = (pend, adopt)" by force
  let ?db1 = "fold (\<lambda>b. close_backup now b B_INTERRUPTED ''The dashboard restarted before the agent confirmed this backup.'') pend (us_db s)"
  obtain out db2 where r: "recover_tasks now answers adopt ?db1 = (out, db2)" by force
  have s: "runs_settled (us_db s) db2"
    using runs_settled_trans [OF settled_closes settled_tasks [of ?db1 now answers adopt]] r by simp
  show ?thesis
  proof (cases out)
    case (Inl e)
    then show ?thesis using s by (simp add: recover_runs_def o r runs_settled_grow)
  next
    case (Inr u)
    let ?f = "\<lambda>r. if rn_status r = R_RUNNING then r\<lparr>rn_status := R_QUEUED\<rparr> else r"
    have "list_all2 run_life (ad_runs (us_db s)) (map ?f (ad_runs db2))"
      using s unfolding runs_settled_def
      by (simp add: list_all2_conv_all_nth) (auto simp: run_settled_def run_life_def frozen_def)
    moreover have "ad_runs (us_db (recover_runs now answers s)) = map ?f (ad_runs db2)"
      by (simp add: recover_runs_def o r Inr requeue_runs_def upd_where_def)
    ultimately show ?thesis by (simp add: runs_grow_def lives.grows_moved)
  qed
qed

lemma final_status_ends: "final_status c e r rs \<in> {R_SUCCESS, R_PARTIAL, R_FAILED, R_CANCELLED}"
  by (simp add: final_status_def summarise_run_def Let_def)

lemma grow_advance:
  assumes inv: "run_inv s"
  shows "runs_grow (us_db s) (us_db (run_advance E now tick started polled s))"
proof -
  have d: "data_inv (us_db s)" and f: "flow_inv s" using inv by (simp_all add: run_inv_def)
  show ?thesis
  proof (cases "us_phase s")
    case U_Idle
    show ?thesis
    proof (cases "next_queued_run (us_db s)")
      case (Some r)
      then have "r \<in> set (sort_key rn_id (filter (\<lambda>r. rn_status r = R_QUEUED) (ad_runs (us_db s))))"
        by (auto simp: next_queued_run_def first_run_def simp del: set_sort split: list.splits)
      then have r: "r \<in> set (ad_runs (us_db s))" "rn_status r = R_QUEUED" by auto
      have "runs_grow (us_db s) (set_run (rn_id r) (claim_run_row now) (us_db s))"
      proof (rule runs_grow_upd [where P = "\<lambda>x. rn_id x = rn_id r" and f = "claim_run_row now"])
        show "run_life x (claim_run_row now x)" if "x \<in> set (ad_runs (us_db s))" "rn_id x = rn_id r" for x
          using run_of_id [OF d r(1) that] r(2) by (simp add: run_life_def frozen_def claim_run_row_def)
      qed (simp add: set_run_def)
      then show ?thesis by (simp add: run_advance_def U_Idle claim_next_run_def Some)
    qed (simp add: run_advance_def U_Idle claim_next_run_def runs_grow_same)
  next
    case (U_Claimed i)
    have "runs_settled (us_db s) (us_db (load_run (ue_notify E) now i s))"
      unfolding runs_settled_def
      by (auto simp: load_run_def notify_run_started_def list_all2_refl run_settled_refl list_all2_upd_where set_run_def
          run_settled_def frozen_def split: option.split)
    then show ?thesis by (simp add: run_advance_def U_Claimed runs_settled_grow)
  next
    case (U_Loop i p)
    have "ad_runs (us_db (next_target now i p s)) = ad_runs (us_db s)"
      by (auto simp: next_target_def open_backup_def Let_def history_create_def split: list.split option.split prod.split)
    then show ?thesis by (simp add: run_advance_def U_Loop runs_grow_same)
  next
    case (U_Final i e)
    have run: "is_running (us_db s) i" using flow_invD(1) [OF f] U_Final by simp
    have "runs_grow (us_db s) (finalise_run (ue_notify E) now c i e (us_db s))" for c
    proof (cases "run_get (us_db s) i")
      case (Some r)
      show ?thesis
      proof (rule runs_grow_upd [OF finalise_rows(1) [OF Some]])
        show "run_life x (final_row now (final_status c e r (for_run (us_db s) i)) e x)"
          if "x \<in> set (ad_runs (us_db s))" "rn_id x = i" for x
          using run_of_running [OF d run that]
            final_status_ends [of c e r "for_run (us_db s) i"]
          by (auto simp: run_life_def frozen_def final_row_def)
      qed
    qed (simp add: finalise_run_def runs_grow_same)
    then show ?thesis by (simp add: run_advance_def U_Final)
  qed (simp_all add: run_advance_def runs_grow_same attach_backup_task_def set_backup_def
      runs_settled_grow settled_outcome settled_close Let_def)
qed

lemma run_step_grows: "run_step E s s' \<Longrightarrow> run_inv s \<Longrightarrow> runs_grow (us_db s) (us_db s')"
proof (induction rule: run_step.induct)
  case (u_job j s now trigger _ out db')
  have "data_inv (us_db s)" using u_job(3) by (simp add: run_inv_def)
  from grow_queues [OF job_queues [OF data_invD(4) [OF this u_job(1)] u_job(2)]] show ?case by simp
next
  case (u_cancel now user i answer s out s')
  then show ?case by (auto simp: run_inv_def intro: grow_cancel)
next
  case (u_delete now user agent i s out db')
  then have "ad_runs db' = ad_runs (us_db s)"
    by (auto simp: delete_backup_route_def delete_local_artifact_def session_def set_backup_def
        split: sum.splits prod.splits option.splits if_splits)
  then show ?case by (simp add: runs_grow_same)
next
  case (u_crash s)
  then show ?case by (simp add: run_crash_def runs_grow_same split: option.split)
next
  case (u_other s db')
  then have "list_all2 orphaned_run (ad_runs (us_db s)) (ad_runs db')" by (simp add: elsewhere_def)
  then show ?case unfolding runs_grow_def
    by (intro lives.grows_moved, simp) (erule list_all2_mono, auto simp: orphaned_run_def run_life_def frozen_def)
qed (simp_all add: grow_queues [OF request_queues] grow_advance grow_recover)

lemma length_filter_imp:
  "(\<And>x. x \<in> set xs \<Longrightarrow> Q x \<Longrightarrow> P x) \<Longrightarrow> length (filter Q xs) \<le> length (filter P xs)"
  by (induction xs) auto

lemma runs_reachable_steps: "(run_step E)\<^sup>*\<^sup>* s s' \<Longrightarrow> runs_reachable E s \<Longrightarrow> runs_reachable E s'"
  by (induction rule: rtranclp_induct) (auto intro: ur_step)

lemma frozen_trans: "frozen r r' \<Longrightarrow> frozen r' r'' \<Longrightarrow> frozen r r''"
  by (simp add: frozen_def)

lemma steps_freeze:
  assumes "(run_step E)\<^sup>*\<^sup>* s s'" "runs_reachable E s" "r \<in> set (ad_runs (us_db s))"
  shows "\<exists>r' \<in> set (ad_runs (us_db s')). frozen r r'"
  using assms
proof (induction rule: rtranclp_induct)
  case base
  then show ?case by (auto simp: frozen_def)
next
  case (step s1 s2)
  then obtain r1 where r1: "r1 \<in> set (ad_runs (us_db s1))" "frozen r r1" by blast
  have "run_inv s1" by (rule runs_inv [OF runs_reachable_steps [OF step(1) step(4)]])
  from lives.grows_old [OF run_step_grows [OF step(2) this, unfolded runs_grow_def] r1(1)]
  obtain r2 where "r2 \<in> set (ad_runs (us_db s2))" "frozen r1 r2" by (auto simp: run_life_def)
  with r1(2) show ?case using frozen_trans by blast
qed

lemma enabled_map_keys: "set (map fst (enabled_map db)) = (\<lambda>g. (gu_vmid g, gu_type g)) ` {g \<in> set (ad_guests db). gu_enabled g}"
proof -
  have "set (map fst (fold (\<lambda>g. dict_put (f g) g) gs d)) = f ` set gs \<union> set (map fst d)" for f :: "guest_row \<Rightarrow> guest_key" and gs d
    by (induction gs arbitrary: d) (auto simp: dict_put_keys simp del: set_map)
  then show ?thesis by (simp add: enabled_map_def enabled_guests_def guests_ordered_def)
qed

lemma job_target_keys:
  assumes "resolve_job_targets db j = (ts, skipped)"
  shows "set (map target_key ts) = {k. (\<exists>g \<in> set (ad_guests db). gu_enabled g \<and> k = (gu_vmid g, gu_type g))
         \<and> (case jb_selector j of SEL_ALL \<Rightarrow> True | SEL_EXCLUDE \<Rightarrow> k \<notin> set (named_targets j)
            | SEL_INCLUDE \<Rightarrow> k \<in> set (named_targets j))}"
proof -
  let ?m = "enabled_map db"
  have keys: "k \<in> set (map fst ?m) \<longleftrightarrow> (\<exists>g \<in> set (ad_guests db). gu_enabled g \<and> k = (gu_vmid g, gu_type g))" for k
    unfolding enabled_map_keys by auto
  have t: "target_key (resolve_guest (snd kg)) = fst kg" if "kg \<in> set ?m" for kg
    using enabled_map_mem [of "fst kg" "snd kg" db] that by simp
  have f: "set (map target_key (map (\<lambda>kg. resolve_guest (snd kg)) (filter P ?m))) = {k \<in> set (map fst ?m). \<exists>g. (k, g) \<in> set ?m \<and> P (k, g)}" for P
    using t by (force simp: image_iff)
  have one: "(k, g) \<in> set ?m \<longleftrightarrow> map_of ?m k = Some g" for k g
    using map_of_eq_Some_iff [OF enabled_map_distinct] by simp
  have n: "set (map target_key (List.map_filter (\<lambda>k. map_option resolve_guest (map_of ?m k)) ks)) = set ks \<inter> set (map fst ?m)" for ks
    using t one by (force simp: set_map_filter image_iff)
  show ?thesis
  proof (cases "jb_selector j")
    case SEL_ALL
    then have "ts = map (\<lambda>kg. resolve_guest (snd kg)) (filter (\<lambda>_. True) ?m)" using assms by (simp add: resolve_job_targets_def Let_def)
    then have "set (map target_key ts) = {k \<in> set (map fst ?m). \<exists>g. (k, g) \<in> set ?m \<and> True}" by (simp only: f)
    then show ?thesis unfolding SEL_ALL target_selector.case keys [symmetric] by force
  next
    case SEL_EXCLUDE
    then have "ts = map (\<lambda>kg. resolve_guest (snd kg)) (filter (\<lambda>kg. fst kg \<notin> set (named_targets j)) ?m)"
      using assms by (simp add: resolve_job_targets_def Let_def)
    then have "set (map target_key ts) = {k \<in> set (map fst ?m). \<exists>g. (k, g) \<in> set ?m \<and> fst (k, g) \<notin> set (named_targets j)}"
      by (simp only: f)
    then show ?thesis unfolding SEL_EXCLUDE target_selector.case keys [symmetric] by force
  next
    case SEL_INCLUDE
    then have "ts = List.map_filter (\<lambda>k. map_option resolve_guest (map_of ?m k)) (named_targets j)"
      using assms by (simp add: resolve_job_targets_def Let_def)
    then have "set (map target_key ts) = set (named_targets j) \<inter> set (map fst ?m)" by (simp only: n)
    then show ?thesis unfolding SEL_INCLUDE target_selector.case keys [symmetric] by auto
  qed
qed

section \<open>Properties\<close>

text \<open>
  C1. The start of a backup reaches the agent at most once, for a row that exists, and no run holds two
  rows of one guest: whatever is requested, cancelled, crashes or restarts in between, no guest is
  backed up twice for the same run.
\<close>

theorem backup_started_at_most_once:
  assumes "runs_reachable E s"
  shows "distinct (us_sent s) \<and> set (us_sent s) \<subseteq> bh_id ` set (ad_backups (us_db s))
    \<and> distinct (map guest_of (filter (\<lambda>b. bh_run_id b = Some i) (ad_backups (us_db s))))"
  using run_flowD(7,8) [OF assms] run_dataD(5) [OF assms, of i] by (simp add: rows_of_def)

text \<open>
  C10. The counters of a run tell its rows in every reachable state: as many guests succeeded as rows of
  the run have or had an artifact, as many failed as rows ended without one.
\<close>

theorem run_counters_tell_the_rows:
  assumes "runs_reachable E s" and "r \<in> set (ad_runs (us_db s))"
  shows "rn_succeeded r = length (filter kept (for_run (us_db s) (rn_id r)))
    \<and> rn_failed r = length (filter lost (for_run (us_db s) (rn_id r)))"
proof -
  have "length (filter P (for_run db i)) = length (filter P (rows_of db i))" for P db i
    by (simp add: for_run_def rows_of_def filter_sort)
  then show ?thesis using run_dataD(8,9) [OF assms] by simp
qed

text \<open>
  C11. One run at a time: while the executor is up (not down after a failed start) at most one run is
  running, and a job never has two runs that are queued or running.
\<close>

theorem one_run_at_a_time:
  assumes "runs_reachable E s" and "us_phase s \<noteq> U_Down"
  shows "length (filter (\<lambda>r. rn_status r = R_RUNNING) (ad_runs (us_db s))) \<le> 1
    \<and> length (filter (\<lambda>r. rn_job_id r = Some j \<and> run_active r) (ad_runs (us_db s))) \<le> 1"
proof
  have held: "run_held (us_phase s) = Some (rn_id r)" if "r \<in> set (ad_runs (us_db s))" "rn_status r = R_RUNNING" for r
    using run_flowD(5) [OF assms(1), of "rn_id r"] assms(2) that by (auto simp: is_running_def)
  have "length (filter (\<lambda>r. rn_status r = R_RUNNING) (ad_runs (us_db s)))
      \<le> length (filter (\<lambda>r. rn_id r = the (run_held (us_phase s))) (ad_runs (us_db s)))"
    by (rule length_filter_imp) (simp add: held)
  with length_filter_key_le1 [OF run_dataD(1) [OF assms(1)]]
  show "length (filter (\<lambda>r. rn_status r = R_RUNNING) (ad_runs (us_db s))) \<le> 1" using le_trans by blast
  show "length (filter (\<lambda>r. rn_job_id r = Some j \<and> run_active r) (ad_runs (us_db s))) \<le> 1"
    using run_dataD(10) [OF assms(1), of j] by (simp add: active_count_def)
qed

text \<open>
  C15. Runs implement their documented life: every step leaves each run its plan (targets, options,
  trigger, requester) and moves its status along \<open>next_run_statuses\<close> at most once; a finished run keeps
  its status.
\<close>

theorem runs_follow_their_life:
  assumes "runs_reachable E s" and "run_step E s s'" and "r \<in> set (ad_runs (us_db s))"
  shows "\<exists>r' \<in> set (ad_runs (us_db s')). frozen r r'
    \<and> (rn_status r' = rn_status r \<or> rn_status r' \<in> set (next_run_statuses (rn_status r)))
    \<and> (if run_active r then True else rn_status r' = rn_status r)"
proof -
  from lives.grows_old [OF run_step_grows [OF assms(2) runs_inv [OF assms(1)], unfolded runs_grow_def] assms(3)]
  obtain r' where r': "r' \<in> set (ad_runs (us_db s'))" "run_life r r'" by blast
  then show ?thesis by (intro bexI [OF _ r'(1)]) (cases "rn_status r"; auto simp: run_life_def run_active_def)
qed

text \<open>
  C21. A job's run backs up exactly the guests its selector means among those enabled at the moment of the
  request: all of them, all but the named, or the named that are enabled; each once, and at least one.
\<close>

theorem job_run_follows_its_selector:
  assumes "request_job_run now j trigger requester db = (Inr r, db')" and "distinct (named_targets j)"
  shows "\<exists>ts. rn_targets r = Some (map dump_target ts) \<and> ts \<noteq> [] \<and> distinct (map target_key ts)
    \<and> (\<forall>t \<in> set ts. allowed_target db t)
    \<and> set (map target_key ts) = {k. (\<exists>g \<in> set (ad_guests db). gu_enabled g \<and> k = (gu_vmid g, gu_type g))
         \<and> (case jb_selector j of SEL_ALL \<Rightarrow> True | SEL_EXCLUDE \<Rightarrow> k \<notin> set (named_targets j)
            | SEL_INCLUDE \<Rightarrow> k \<in> set (named_targets j))}"
proof -
  obtain ts skipped o' where ts: "resolve_job_targets db j = (ts, skipped)" "ts \<noteq> []"
    and c: "create_run now (Some (jb_id j)) trigger requester ts o' db = (r, db')"
    using assms(1) by (auto simp: request_job_run_def Let_def split: if_splits prod.splits sum.splits)
  have "set (map target_key ts) = {k. (\<exists>g \<in> set (ad_guests db). gu_enabled g \<and> k = (gu_vmid g, gu_type g))
         \<and> (case jb_selector j of SEL_ALL \<Rightarrow> True | SEL_EXCLUDE \<Rightarrow> k \<notin> set (named_targets j)
            | SEL_INCLUDE \<Rightarrow> k \<in> set (named_targets j))}"
    using job_target_keys [OF ts(1)] .
  then show ?thesis
    using ts create_run_row(5) [OF c] resolve_job_targets_allowed [OF ts(1)] resolve_job_targets_distinct [OF ts(1) assms(2)]
    by (intro exI [of _ ts]) simp
qed

text \<open>
  C22. A manual request is all or nothing: either the run names exactly the requested guests, in their order
  and all enabled, or the request is refused and nothing is queued.
\<close>

theorem manual_run_is_all_or_nothing:
  assumes "request_manual_run now m requester db = (out, db')" and "manual_request_ok m"
  shows "case out of
      Inr r \<Rightarrow> \<exists>ts. rn_targets r = Some (map dump_target ts) \<and> (\<forall>t \<in> set ts. allowed_target db t)
        \<and> map target_key ts = map (\<lambda>t. (jt_vmid t, jt_guest_type t)) (mr_targets m) \<and> ad_runs db' = ad_runs db @ [r]
    | Inl e \<Rightarrow> db' = db"
proof (cases out)
  case (Inl e)
  then show ?thesis using assms(1) by (auto simp: request_manual_run_def split: sum.splits prod.splits)
next
  case (Inr r)
  obtain ts o' where t: "create_run now None MANUAL requester ts o' db = (r, db')"
    "map target_key ts = map (\<lambda>t. (jt_vmid t, jt_guest_type t)) (mr_targets m)" "\<And>t. t \<in> set ts \<Longrightarrow> allowed_target db t"
    using manual_run [OF assms(1) [unfolded Inr] assms(2)] by metis
  have "ad_runs db' = ad_runs db @ [r]" "rn_targets r = Some (map dump_target ts)"
    using create_run_row(1,5) [OF t(1)] by simp_all
  then show ?thesis using t(2,3) Inr by auto
qed

text \<open>
  C23. Frozen plans read back as they were written: the options of a run exactly when they are within their
  bounds, its targets always.
\<close>

theorem frozen_plan_roundtrip:
  "read_options (dump_options o') = (if options_ok o' then Some o' else None)
   \<and> read_targets (map dump_target ts) = Some ts"
  by (simp add: read_dump_options read_dump_targets)

lemma run_policy_frozen:
  assumes "runs_reachable E s" and "j \<in> set (ad_jobs (us_db s))"
    and "request_job_run now j trigger requester (us_db s) = (Inr r, db')"
    and "(run_step E)\<^sup>*\<^sup>* (s\<lparr>us_db := db'\<rparr>) s'"
    and "b \<in> set (ad_backups (us_db s'))" and "bh_run_id b = Some (rn_id r)"
  shows "resolve_policy (retention_policy_context (us_db s') (bh_id b)) gl gr
    = resolved_policy (jb_keep_local j) (jb_keep_remote j) PS_JOB"
proof -
  have reach: "runs_reachable E (s\<lparr>us_db := db'\<rparr>)" by (rule ur_step [OF assms(1) u_job [OF assms(2,3)]])
  obtain ts o' where c: "create_run now (Some (jb_id j)) trigger requester ts o' (us_db s) = (r, db')" "job_options j = Inr o'"
    using job_run [OF assms(3)] by metis
  note row = create_run_row [OF c(1)]
  have "r \<in> set (ad_runs (us_db (s\<lparr>us_db := db'\<rparr>)))" by (simp add: row(1))
  from steps_freeze [OF assms(4) reach this] obtain r' where r': "r' \<in> set (ad_runs (us_db s'))" "frozen r r'" by blast
  have data: "data_inv (us_db s')" using runs_inv [OF runs_reachable_steps [OF assms(4) reach]] by (simp add: run_inv_def)
  have id: "rn_id r' = rn_id r" "rn_options r' = Some (dump_options o')" using r'(2) row(6) by (simp_all add: frozen_def)
  have "find (\<lambda>x. rn_id x = rn_id r) (ad_runs (us_db s')) = Some r'"
    using find_key [OF data_invD(1) [OF data] r'(1)] id(1) by simp
  moreover have "raw_retention_counts (dump_options o') = Some (jb_keep_local j, jb_keep_remote j)"
    using job_options_Inr [OF c(2)] by (simp add: raw_retention_counts_def dump_option_fields counts_ok_def options_ok_def)
  ultimately show ?thesis
    using job_options_Inr [OF c(2)] backup_get_of [OF data assms(5)] assms(6) id
    by (simp add: retention_policy_context_def resolve_policy_def dump_option_fields Let_def)
qed

section \<open>What the executor does not survive\<close>

lemma claimed_loads:
  assumes "runs_reachable E s" "us_phase s = U_Claimed i"
  obtains r p where "run_get (us_db s) i = Some r" "plan_from r (for_run (us_db s) i) = Some p"
proof -
  obtain r where r: "r \<in> set (ad_runs (us_db s))" "rn_id r = i"
    using run_flowD(1) [OF assms(1), of i] assms(2) by (auto simp: is_running_def)
  obtain ts o' where "rn_targets r = Some (map dump_target ts)" "rn_options r = Some (dump_options o')" "options_ok o'"
    using run_dataD(3) [OF assms(1) r(1)] by (auto simp: run_typed_def)
  then have "plan_from r (for_run (us_db s) i) \<noteq> None"
    by (simp add: plan_from_def read_dump_options read_dump_targets)
  moreover have "run_get (us_db s) i = Some r"
    unfolding run_get_def using find_key [OF run_dataD(1) [OF assms(1)] r(1)] r(2) by simp
  ultimately show thesis using that by blast
qed

text \<open>
  C20. Retention keeps the counts a scheduled run was requested with. However much later a pass is triggered
  by a backup of the run, and whatever became of its job since (edited, deleted), the policy the pass applies
  has the two counts the job had at that moment, and a copy the pass deletes has at least that many
  newer copies of its guest at the same place. (The worker triggers a pass with the newest existing copy of
  the guest, so an older run's counts are not applied once a newer backup exists.)
\<close>

theorem job_policy_is_frozen:
  assumes "runs_reachable E s" and "j \<in> set (ad_jobs (us_db s))"
    and "request_job_run now j trigger requester (us_db s) = (Inr r, db')"
    and "(run_step E)\<^sup>*\<^sup>* (s\<lparr>us_db := db'\<rparr>) s'"
    and "b \<in> set (ad_backups (us_db s'))" and "bh_run_id b = Some (rn_id r)"
    and "apply_retention A C t stamp (Some (bh_id b)) (us_db s', w) = (out, (db2, w2))"
  shows "(case out of Inl _ \<Rightarrow> True | Inr (pol, items, totals) \<Rightarrow> pr_source pol = PS_JOB
        \<and> pr_keep_local pol = jb_keep_local j \<and> pr_keep_remote pol = jb_keep_remote j)
    \<and> (\<forall>c \<in> set (ad_backups (us_db s')). \<forall>c' \<in> set (ad_backups db2). bh_id c' = bh_id c \<longrightarrow>
        (marker LOC_LOCAL c' \<noteq> marker LOC_LOCAL c \<longrightarrow>
          jb_keep_local j \<le> int (card (newer_copies has_local_copy (us_db s') c)))
        \<and> (marker LOC_REMOTE c' \<noteq> marker LOC_REMOTE c \<longrightarrow>
          jb_keep_remote j \<le> int (card (newer_copies has_remote_copy (us_db s') c))))"
proof -
  let ?pol = "apply_policy (us_db s') (Some (bh_id b))"
  have pol: "pr_source ?pol = PS_JOB" "pr_keep_local ?pol = jb_keep_local j" "pr_keep_remote ?pol = jb_keep_remote j"
    by (simp_all add: apply_policy_def policy_for_def run_policy_frozen [OF assms(1-6)] resolved_policy_def
        resolution.defs Let_def)
  have "runs_reachable E (s\<lparr>us_db := db'\<rparr>)" by (rule ur_step [OF assms(1) u_job [OF assms(2,3)]])
  from runs_inv [OF runs_reachable_steps [OF assms(4) this]] have wf: "backups_wf (us_db s')"
    by (simp add: run_inv_def data_inv_def backups_wf_def)
  have "fst x = ?pol" if "out = Inr x" for x
    using assms(7) that by (auto simp: apply_retention_def Let_def split: sum.splits prod.splits)
  then have "case out of Inl _ \<Rightarrow> True | Inr (pol, items, totals) \<Rightarrow> pr_source pol = PS_JOB
        \<and> pr_keep_local pol = jb_keep_local j \<and> pr_keep_remote pol = jb_keep_remote j"
    using pol by (auto split: sum.split)
  moreover have "(marker LOC_LOCAL c' \<noteq> marker LOC_LOCAL c \<longrightarrow>
          jb_keep_local j \<le> int (card (newer_copies has_local_copy (us_db s') c)))
        \<and> (marker LOC_REMOTE c' \<noteq> marker LOC_REMOTE c \<longrightarrow>
          jb_keep_remote j \<le> int (card (newer_copies has_remote_copy (us_db s') c)))"
    if "c \<in> set (ad_backups (us_db s'))" "c' \<in> set (ad_backups db2)" "bh_id c' = bh_id c" for c c'
    using marked_copies_are_expendable [OF wf assms(7) that, of LOC_LOCAL]
      marked_copies_are_expendable [OF wf assms(7) that, of LOC_REMOTE] pol
    by (auto simp: may_delete_def may_delete_local_def may_delete_remote_def)
  ultimately show ?thesis by blast
qed

text \<open>
  A cancellation that arrives between the claim of a run and the reading of its plan is accepted and
  then discarded: the next step of the executor forgets the mark and starts with the first guest.
\<close>

theorem cancel_before_load_is_discarded:
  assumes "runs_reachable E s" and "us_phase s = U_Claimed i" and "cancel_run_route now user i answer s = (Inr (), s')"
  shows "i \<notin> set (us_cancelled (run_advance E now' tick started polled s'))
    \<and> (\<exists>p. us_phase (run_advance E now' tick started polled s') = U_Loop i p)"
proof -
  have ph: "us_phase s' = U_Claimed i"
    using assms(2,3) by (auto simp: cancel_run_route_def runner_cancel_def Let_def split: option.splits if_splits sum.splits prod.splits)
  have "runs_reachable E s'" by (rule ur_step [OF assms(1) u_cancel [OF assms(3)]])
  then obtain r p where "run_get (us_db s') i = Some r" "plan_from r (for_run (us_db s') i) = Some p"
    by (rule claimed_loads [OF _ ph])
  with ph show ?thesis by (simp add: run_advance_def load_run_def)
qed

text \<open>
  A refusal of the poll that is neither the agent's silence nor its answer, such as settings without a
  secret, ends the run and leaves its backup running in the history, although nobody follows it any more.
\<close>

theorem broken_poll_abandons_the_backup:
  assumes "runs_reachable E s" and "us_phase s = U_Poll i p b task since"
    and "s1 = run_advance E now1 tick1 started1 (Inl (App_ConfigurationError d)) s"
    and "s2 = run_advance E now2 tick2 started2 polled2 s1"
  shows "us_phase s2 = U_Idle \<and> (\<forall>r \<in> set (ad_runs (us_db s2)). if rn_id r = i then \<not> run_active r else True)
    \<and> (\<exists>x \<in> set (ad_backups (us_db s2)). bh_id x = b \<and> bh_status x = B_RUNNING)"
proof -
  have s1: "us_phase s1 = U_Final i (Some ''The run executor failed unexpectedly'')" "us_db s1 = us_db s"
    by (simp_all add: assms(2,3) run_advance_def backup_poll_def)
  obtain x where x: "x \<in> set (ad_backups (us_db s))" "bh_id x = b" "bh_status x = B_RUNNING"
    using run_flowD(3) [OF assms(1), of i p b] assms(2) by (auto simp: held_row_def rows_of_def)
  obtain r where r: "run_get (us_db s) i = Some r"
    using run_flowD(1) [OF assms(1), of i] assms(2) find_key [OF run_dataD(1) [OF assms(1)]]
    by (auto simp: is_running_def run_get_def)
  let ?c = "i \<in> set (us_cancelled s1)" and ?e = "Some ''The run executor failed unexpectedly''"
  have db: "us_db s2 = finalise_run (ue_notify E) now2 ?c i ?e (us_db s)" "us_phase s2 = U_Idle"
    by (simp_all add: assms(4) run_advance_def s1)
  let ?st = "final_status ?c ?e r (for_run (us_db s) i)"
  have "?st \<noteq> R_QUEUED" "?st \<noteq> R_RUNNING" using final_status_inactive [of ?c ?e r] by auto
  moreover have "rn_status q = ?st" if "q \<in> set (ad_runs (us_db s2))" "rn_id q = i" for q
  proof -
    obtain y where "q = (if rn_id y = i then final_row now2 ?st ?e y else y)"
      using \<open>q \<in> set (ad_runs (us_db s2))\<close> unfolding db finalise_rows(1) [OF r] set_upd_where by blast
    with \<open>rn_id q = i\<close> show ?thesis by (auto simp: final_row_def split: if_splits)
  qed
  ultimately have "\<not> run_active q" if "q \<in> set (ad_runs (us_db s2))" "rn_id q = i" for q
    using that by (simp add: run_active_def)
  moreover have "x \<in> set (ad_backups (us_db s2))" using x(1) unfolding db finalise_rows(2) [OF r] .
  ultimately show ?thesis using x(2,3) db(2) by auto
qed

section \<open>A concrete run\<close>

definition run_guest :: guest_row where
  "run_guest = \<lparr>gu_id = 1, gu_vmid = 101, gu_type = VM, gu_name = ''web'', gu_node = ''pve'', gu_status = G_RUNNING,
     gu_enabled = True, gu_tags = None, gu_first_seen_at = 1, gu_last_seen_at = 2\<rparr>"

definition run_job :: job_row where
  "run_job = \<lparr>jb_id = 4, jb_name = ''nightly'', jb_enabled = True, jb_cron = ''0 3 * * *'', jb_timezone = ''UTC'',
     jb_mode = SNAPSHOT, jb_compression = ZSTD, jb_zstd_threads = None, jb_storage = ''backup-hdd'',
     jb_selector = SEL_ALL, jb_targets = [], jb_keep_local = 7, jb_keep_remote = 3, jb_upload_enabled = False,
     jb_notify_on_start = False, jb_notify_on_success = False, jb_notify_on_failure = True, jb_bwlimit_kbps = 0,
     jb_max_parallel = 1, jb_last_run_at = None, jb_next_run_at = None\<rparr>"

definition run_env :: runner_env where
  "run_env = \<lparr>ue_notify = demo_notify, ue_grace = 60\<rparr>"

definition run_ready :: run_sys where
  "run_ready = (runs_start ((empty_db default_sections)\<lparr>ad_guests := [run_guest]\<rparr>))
     \<lparr>us_db := ((empty_db default_sections)\<lparr>ad_guests := [run_guest], ad_jobs := [run_job]\<rparr>)\<rparr>"

definition run_queued :: run_sys where
  "run_queued = run_ready\<lparr>us_db := snd (request_job_run 10 run_job SCHEDULE None (us_db run_ready))\<rparr>"

definition run_go :: "run_sys \<Rightarrow> run_sys" where
  "run_go s = run_advance run_env 20 0 (Inr (''task'', None)) (Inl (App_AgentUnavailable [])) s"

abbreviation run_claimed :: run_sys where "run_claimed \<equiv> run_go run_queued"

text \<open>Claimed, loaded, opened, sent, answered, attached.\<close>

definition run_polling :: run_sys where
  "run_polling = (run_go ^^ 6) run_queued"

definition run_target :: resolved_target where
  "run_target = \<lparr>rt_guest_id = 1, rt_vmid = 101, rt_type = VM, rt_name = ''web'', rt_node = ''pve''\<rparr>"

definition run_opts :: run_options where
  "run_opts = \<lparr>ro_mode = SNAPSHOT, ro_compression = ZSTD, ro_zstd_threads = None, ro_storage = ''backup-hdd'',
     ro_bwlimit_kbps = 0, ro_upload = False, ro_job_policy = True, ro_keep_local = 7, ro_keep_remote = 3,
     ro_notes = Some (''proxsync job '' @ [CHR 0x27] @ ''nightly'' @ [CHR 0x27])\<rparr>"

definition run_one :: run_row where
  "run_one = \<lparr>rn_id = 1, rn_job_id = Some 4, rn_trigger = SCHEDULE, rn_status = R_QUEUED, rn_requested_by = None,
     rn_total = 1, rn_succeeded = 0, rn_failed = 0, rn_targets = Some [dump_target run_target],
     rn_options = Some (dump_options run_opts), rn_started_at = None, rn_finished_at = None,
     rn_duration_seconds = None, rn_error_message = None, rn_correlation_id = [], rn_created_at = 10\<rparr>"

lemma run_request: "request_job_run 10 run_job SCHEDULE None (us_db run_ready)
    = (Inr run_one, (us_db run_ready)\<lparr>ad_runs := [run_one]\<rparr>)"
proof -
  have db: "ad_guests (us_db run_ready) = [run_guest]" "ad_runs (us_db run_ready) = []" by (simp_all add: run_ready_def)
  have "resolve_job_targets (us_db run_ready) run_job = ([run_target], [])"
    by (simp add: resolve_job_targets_def enabled_map_def enabled_guests_def guests_ordered_def db)
      (simp add: run_guest_def run_job_def resolve_guest_def run_target_def)
  moreover have "job_options run_job = Inr run_opts"
    by (simp add: job_options_def make_options_def options_ok_def run_opts_def run_job_def)
  moreover have "active_for_job (us_db run_ready) (jb_id run_job) = None"
    by (simp add: active_for_job_def first_run_def db)
  moreover have "create_run 10 (Some 4) SCHEDULE None [run_target] run_opts (us_db run_ready) = (run_one, (us_db run_ready)\<lparr>ad_runs := [run_one]\<rparr>)"
    by (simp add: create_run_def run_create_def next_id_def set_run_def db Let_def run_one_def)
  moreover have "jb_id run_job = 4" by (simp add: run_job_def)
  ultimately show ?thesis by (simp add: request_job_run_def)
qed

lemma run_ready_reachable: "runs_reachable run_env run_ready"
  unfolding run_ready_def
  by (rule ur_step [OF ur_start u_other])
    (simp add: elsewhere_def runs_start_def quiet.grows_same named_targets_def run_job_def)

lemma run_queued_reachable: "runs_reachable run_env run_queued"
  unfolding run_queued_def
  by (rule ur_step [OF run_ready_reachable u_job [where j = run_job, OF _ surjective_pairing]]) (simp add: run_ready_def)

lemma run_go_reachable: "runs_reachable run_env s \<Longrightarrow> runs_reachable run_env (run_go s)"
  unfolding run_go_def by (rule ur_step [OF _ u_work])

lemma run_gone_reachable: "runs_reachable run_env s \<Longrightarrow> runs_reachable run_env ((run_go ^^ n) s)"
  by (induction n) (simp_all add: run_go_reachable)

lemma run_queued_facts: "ad_runs (us_db run_queued) = [run_one]" "ad_backups (us_db run_queued) = []"
  "us_phase run_queued = U_Idle" "us_sent run_queued = []" "us_cancelled run_queued = []"
  by (simp_all add: run_queued_def run_request) (simp_all add: run_ready_def runs_start_def)

lemma run_claimed_facts: "ad_runs (us_db run_claimed) = [claim_run_row 20 run_one]" "ad_backups (us_db run_claimed) = []"
  "us_phase run_claimed = U_Claimed 1" "us_sent run_claimed = []" "us_cancelled run_claimed = []"
proof -
  have "next_queued_run (us_db run_queued) = Some run_one"
    by (simp add: next_queued_run_def first_run_def run_queued_facts) (simp add: run_one_def)
  moreover have "rn_id run_one = 1" by (simp add: run_one_def)
  ultimately show "ad_runs (us_db run_claimed) = [claim_run_row 20 run_one]" "ad_backups (us_db run_claimed) = []"
    "us_phase run_claimed = U_Claimed 1" "us_sent run_claimed = []" "us_cancelled run_claimed = []"
    by (simp_all add: run_go_def run_advance_def run_queued_facts claim_next_run_def set_run_def upd_where_def)
qed

definition run_backup :: backup_row where
  "run_backup = (opened_row 20 1 run_target run_opts)\<lparr>bh_id := 1\<rparr>"

definition run_plan_left :: "resolved_target list \<Rightarrow> run_plan" where
  "run_plan_left ts = \<lparr>up_options = run_opts, up_targets = ts, up_completed = [], up_adoptable = []\<rparr>"

lemma run_loaded_facts:
  "ad_runs (us_db (run_go run_claimed)) = [claim_run_row 20 run_one]" "ad_backups (us_db (run_go run_claimed)) = []"
  "us_phase (run_go run_claimed) = U_Loop 1 (run_plan_left [run_target])" "us_sent (run_go run_claimed) = []"
  "us_cancelled (run_go run_claimed) = []"
proof -
  let ?r = "claim_run_row 20 run_one"
  have r: "rn_id ?r = 1" "rn_options ?r = Some (dump_options run_opts)" "rn_targets ?r = Some (map dump_target [run_target])"
    "rn_started_at ?r = Some 20"
    by (simp_all add: claim_run_row_def run_one_def)
  have "options_ok run_opts" by (simp add: options_ok_def run_opts_def)
  then have "plan_from ?r (for_run (us_db run_claimed) 1) = Some (run_plan_left [run_target])"
    by (simp add: plan_from_def r read_dump_options read_dump_targets for_run_def run_claimed_facts run_plan_left_def
        del: list.map)
  then show "ad_runs (us_db (run_go run_claimed)) = [?r]" "ad_backups (us_db (run_go run_claimed)) = []"
    "us_phase (run_go run_claimed) = U_Loop 1 (run_plan_left [run_target])" "us_sent (run_go run_claimed) = []"
    "us_cancelled (run_go run_claimed) = []"
    by (simp_all add: run_go_def [of run_claimed] run_advance_def run_claimed_facts load_run_def run_get_def r
        notify_run_started_def set_run_def upd_where_def)
qed

lemma run_opened_facts:
  "ad_backups (us_db ((run_go ^^ 3) run_queued)) = [run_backup]" "us_sent ((run_go ^^ 3) run_queued) = []"
  "us_phase ((run_go ^^ 3) run_queued) = U_Start 1 (run_plan_left []) 1 run_target"
  "ad_runs (us_db ((run_go ^^ 3) run_queued)) = [claim_run_row 20 run_one]"
  by (simp_all add: eval_nat_numeral run_go_def [of "run_go run_claimed"] run_advance_def run_loaded_facts [simplified]
      next_target_def run_plan_left_def open_backup_def history_create_def next_id_def Let_def)
    (simp_all add: run_backup_def)

lemma run_polling_facts:
  "ad_backups (us_db run_polling) = [run_backup\<lparr>bh_agent_task_id := Some ''task''\<rparr>]" "us_sent run_polling = [1]"
  "us_phase run_polling = U_Poll 1 (run_plan_left []) 1 ''task'' None"
  "ad_runs (us_db run_polling) = [claim_run_row 20 run_one]"
proof -
  have three: "run_polling = run_go (run_go (run_go ((run_go ^^ 3) run_queued)))"
    by (simp add: run_polling_def eval_nat_numeral)
  have id: "bh_id run_backup = 1" "bh_correlation_id run_backup = None" by (simp_all add: run_backup_def opened_row_def)
  show "ad_backups (us_db run_polling) = [run_backup\<lparr>bh_agent_task_id := Some ''task''\<rparr>]" "us_sent run_polling = [1]"
    "us_phase run_polling = U_Poll 1 (run_plan_left []) 1 ''task'' None"
    "ad_runs (us_db run_polling) = [claim_run_row 20 run_one]"
    using id(2) by (simp_all add: three run_go_def run_advance_def run_opened_facts start_answer_def attach_backup_task_def
        set_backup_def upd_where_def id(1) [simplified])
qed

lemma run_polling_reachable: "runs_reachable run_env run_polling"
  unfolding run_polling_def by (rule run_gone_reachable [OF run_queued_reachable])

theorem backup_started_at_most_once_witness:
  "us_sent run_polling = [1] \<and> distinct (us_sent run_polling) \<and> {1} \<subseteq> bh_id ` set (ad_backups (us_db run_polling))"
  using backup_started_at_most_once [OF run_polling_reachable, of 1] by (simp add: run_polling_facts)

text \<open>The run once its backup was cancelled at the agent.\<close>

definition run_cancelled_task :: agent_task where
  "run_cancelled_task = \<lparr>at_state = ''cancelled'', at_error = None, at_finished_at = None, at_duration_seconds = None,
     at_warnings = None, at_filename = None, at_path = None, at_size_bytes = None, at_checksum = None\<rparr>"

definition run_reported :: run_sys where
  "run_reported = run_go (run_advance run_env 30 0 (Inr (''task'', None)) (Inr run_cancelled_task) run_polling)"

lemma run_reported_runs: "ad_runs (us_db run_reported) = [bump_row False (claim_run_row 20 run_one)]"
proof -
  have id: "bh_id run_backup = 1" "rn_id run_one = 1" by (simp_all add: run_backup_def run_one_def)
  have "at_terminal run_cancelled_task" by (simp add: run_cancelled_task_def at_terminal_def)
  then show ?thesis
    by (simp add: run_reported_def run_go_def run_advance_def run_polling_facts backup_poll_def record_backup_outcome_def
        backup_get_def bump_counters_def set_run_def set_backup_def id [simplified] backup_status_of_def
        run_cancelled_task_def claim_run_row_def upd_where_def)
qed

lemma run_reported_reachable: "runs_reachable run_env run_reported"
  unfolding run_reported_def by (intro run_go_reachable ur_step [OF run_polling_reachable u_work])

theorem run_counters_witness:
  "length (filter lost (for_run (us_db run_reported) 1)) = 1 \<and> length (filter kept (for_run (us_db run_reported) 1)) = 0"
  using run_counters_tell_the_rows [OF run_reported_reachable, of "bump_row False (claim_run_row 20 run_one)"]
  by (simp add: run_reported_runs bump_row_def claim_run_row_def run_one_def)

theorem one_run_at_a_time_witness:
  "filter (\<lambda>r. rn_status r = R_RUNNING) (ad_runs (us_db run_polling)) \<noteq> []
    \<and> length (filter (\<lambda>r. rn_status r = R_RUNNING) (ad_runs (us_db run_polling))) \<le> 1"
  using one_run_at_a_time [OF run_polling_reachable, of 4]
  by (simp add: run_polling_facts claim_run_row_def)

theorem runs_follow_their_life_witness:
  "\<exists>r' \<in> set (ad_runs (us_db run_claimed)). frozen run_one r' \<and> rn_status r' \<in> {R_QUEUED, R_RUNNING, R_CANCELLED}"
proof -
  have "run_step run_env run_queued run_claimed" unfolding run_go_def by (rule u_work)
  from runs_follow_their_life [OF run_queued_reachable this, of run_one]
  have "\<exists>r' \<in> set (ad_runs (us_db run_claimed)). frozen run_one r'
      \<and> (rn_status r' = R_QUEUED \<or> rn_status r' \<in> set (next_run_statuses R_QUEUED))"
    using run_queued_facts(1) by (auto simp: run_one_def)
  then show ?thesis by auto
qed

theorem job_run_follows_its_selector_witness:
  "\<exists>ts. rn_targets run_one = Some (map dump_target ts) \<and> set (map target_key ts) = {(101, VM)}"
proof -
  have "set (map target_key ts) = {(101, VM)}" if "set (map target_key ts) = {k. (\<exists>g \<in> set (ad_guests (us_db run_ready)). gu_enabled g \<and> k = (gu_vmid g, gu_type g))
         \<and> (case jb_selector run_job of SEL_ALL \<Rightarrow> True | SEL_EXCLUDE \<Rightarrow> k \<notin> set (named_targets run_job)
            | SEL_INCLUDE \<Rightarrow> k \<in> set (named_targets run_job))}" for ts
    unfolding that by (auto simp: run_ready_def run_guest_def run_job_def)
  moreover have "distinct (named_targets run_job)" by (simp add: named_targets_def run_job_def)
  ultimately show ?thesis using job_run_follows_its_selector [OF run_request] by blast
qed

definition run_ask :: manual_request where
  "run_ask = \<lparr>mr_targets = [\<lparr>jt_vmid = 999, jt_guest_type = LXC\<rparr>], mr_mode = None, mr_compression = None,
     mr_zstd_threads = None, mr_storage = None, mr_bwlimit_kbps = None, mr_upload = None, mr_notes = None\<rparr>"

theorem manual_run_is_all_or_nothing_witness:
  "snd (request_manual_run 10 run_ask None (us_db run_ready)) = us_db run_ready
    \<and> \<not> is_ok (fst (request_manual_run 10 run_ask None (us_db run_ready)))"
proof -
  have ok: "manual_request_ok run_ask"
    by (simp add: manual_request_ok_def run_ask_def MAX_TARGETS_def guest_target_ok_def in_bounds_def)
  have e: "\<exists>e. fst (request_manual_run 10 run_ask None (us_db run_ready)) = Inl e"
    by (simp add: request_manual_run_def resolve_explicit_targets_def run_ask_def manual_target_def get_by_vmid_def
        run_ready_def run_guest_def is_ok_def bindR_def)
  then show ?thesis
    using manual_run_is_all_or_nothing [OF prod.collapse [symmetric] ok, of 10 None "us_db run_ready"]
    by (auto simp: is_ok_def)
qed

theorem job_policy_is_frozen_witness:
  "\<exists>pol items totals. fst (apply_retention demo_ret_agent demo_notify 9 (\<lambda>_ _. 9) (Some 1) (us_db run_polling, 0))
     = Inr (pol, items, totals) \<and> pr_keep_local pol = 7 \<and> pr_keep_remote pol = 3"
proof -
  let ?b = "run_backup\<lparr>bh_agent_task_id := Some ''task''\<rparr>"
  let ?pass = "apply_retention demo_ret_agent demo_notify 9 (\<lambda>_ _. 9) (Some 1) (us_db run_polling, 0)"
  have "(run_step run_env)\<^sup>*\<^sup>* s ((run_go ^^ n) s)" for s n
    by (induction n) (auto simp: run_go_def intro: rtranclp.rtrancl_into_rtrancl u_work)
  then have steps: "(run_step run_env)\<^sup>*\<^sup>* (run_ready\<lparr>us_db := (us_db run_ready)\<lparr>ad_runs := [run_one]\<rparr>\<rparr>) run_polling"
    unfolding run_polling_def run_queued_def run_request by simp
  have b: "?b \<in> set (ad_backups (us_db run_polling))" "bh_run_id ?b = Some (rn_id run_one)" "bh_id ?b = 1"
    "ad_backups (us_db run_polling) = [?b]" "\<not> has_local_copy ?b" "\<not> has_remote_copy ?b"
    by (simp_all add: run_polling_facts)
      (simp_all add: run_backup_def opened_row_def run_one_def has_local_copy_def has_remote_copy_def)
  have j: "run_job \<in> set (ad_jobs (us_db run_ready))" by (simp add: run_ready_def)
  have "\<exists>g. guest_for_backup (us_db run_polling) 1 = Some g" by (simp add: guest_for_backup_def backup_get_def b)
  then have "plans (us_db run_polling) p (Some 1) = Inr []" for p
    by (auto simp: plans_def guest_plans_def local_for_guest_def remote_for_guest_def b newest_first_def Let_def)
  then obtain x where x: "fst ?pass = Inr x" by (auto simp: apply_retention_def Let_def)
  from job_policy_is_frozen [OF run_ready_reachable j run_request steps b(1,2), of demo_ret_agent demo_notify 9 "\<lambda>_ _. 9" 0
      "fst ?pass" "fst (snd ?pass)" "snd (snd ?pass)"] b(3) x
  show ?thesis by (cases x) (simp add: run_job_def)
qed

theorem cancel_before_load_is_discarded_witness:
  "1 \<notin> set (us_cancelled (run_go (snd (cancel_run_route 21 (1, ''op'') 1 (Inr ()) run_claimed))))
    \<and> fst (cancel_run_route 21 (1, ''op'') 1 (Inr ()) run_claimed) = Inr ()"
proof -
  have "run_get (us_db run_claimed) 1 = Some (claim_run_row 20 run_one)" "rn_status (claim_run_row 20 run_one) = R_RUNNING"
    by (simp_all add: run_get_def run_claimed_facts) (simp_all add: claim_run_row_def run_one_def)
  then have ok: "fst (cancel_run_route 21 (1, ''op'') 1 (Inr ()) run_claimed) = Inr ()"
    by (simp add: cancel_run_route_def runner_cancel_def Let_def split: prod.split)
  obtain s' where c: "cancel_run_route 21 (1, ''op'') 1 (Inr ()) run_claimed = (Inr (), s')"
    using ok by (metis prod.collapse)
  from cancel_before_load_is_discarded [OF run_go_reachable [OF run_queued_reachable] run_claimed_facts(3) c,
      where now' = 20 and tick = 0 and started = "Inr (''task'', None)" and polled = "Inl (App_AgentUnavailable [])"]
  show ?thesis unfolding c snd_conv fst_conv by (simp add: run_go_def)
qed

theorem broken_poll_abandons_the_backup_witness:
  "\<exists>x \<in> set (ad_backups (us_db (run_go (run_advance run_env 30 0 (Inr (''t'', None)) (Inl (App_ConfigurationError [])) run_polling)))).
     bh_id x = 1 \<and> bh_status x = B_RUNNING"
  using broken_poll_abandons_the_backup [OF run_polling_reachable run_polling_facts(3) refl refl, where ?now1.0 = 30 and ?tick1.0 = 0
      and ?started1.0 = "Inr (''t'', None)" and d = "[]" and ?now2.0 = 20 and ?tick2.0 = 0 and ?started2.0 = "Inr (''task'', None)"
      and ?polled2.0 = "Inl (App_AgentUnavailable [])"]
  by (simp add: run_go_def)

end
