(* ===== verification/Sync.thy ===== *)
theory Sync
  imports Backups
begin

text \<open>
  What to copy to the cloud remote, and how the two sides compare:
  \<open>backend/app/services/sync_service.py\<close> over \<open>backend/app/repositories/sync_task_repository.py\<close>, with the
  routes of \<open>sync.py\<close> that change state. The agent's answers are arguments. Of a task's response the
  derived fields \<open>bytes_total\<close> and \<open>percent\<close> are modelled; \<open>detail\<close> texts of listings are left out.
\<close>

section \<open>The queue\<close>

definition sync_get :: "app_db \<Rightarrow> nat \<Rightarrow> sync_row option" where
  "sync_get db i = find (\<lambda>t. sy_id t = i) (ad_syncs db)"

definition sync_create :: "datetime \<Rightarrow> nat option \<Rightarrow> sync_direction \<Rightarrow> string \<Rightarrow> string \<Rightarrow> nat \<Rightarrow> int option \<Rightarrow> app_db
    \<Rightarrow> sync_row \<times> app_db" where
  "sync_create now backup direction remote path max_attempts bytes_total db =
     (let t = \<lparr>sy_id = next_id (map sy_id (ad_syncs db)), sy_backup_id = backup, sy_direction = direction,
        sy_status = S_QUEUED, sy_agent_task_id = None, sy_remote_name = Some remote, sy_remote_path = Some path,
        sy_bytes_total = bytes_total, sy_bytes_transferred = 0, sy_rate_bps = None, sy_attempt = 0,
        sy_max_attempts = max_attempts, sy_next_retry_at = None, sy_started_at = None, sy_finished_at = None,
        sy_error_message = None, sy_created_at = now\<rparr> in (t, db\<lparr>ad_syncs := ad_syncs db @ [t]\<rparr>))"

definition first_sync :: "(sync_row \<Rightarrow> bool) \<Rightarrow> app_db \<Rightarrow> sync_row option" where
  "first_sync P db = (case sort_key sy_id (filter P (ad_syncs db)) of [] \<Rightarrow> None | t # _ \<Rightarrow> Some t)"

definition sync_ready :: "datetime \<Rightarrow> sync_row \<Rightarrow> bool" where
  "sync_ready now t = (sy_status t = S_QUEUED
     \<and> (case sy_next_retry_at t of None \<Rightarrow> True | Some r \<Rightarrow> r \<le> now))"

definition next_ready_sync :: "datetime \<Rightarrow> app_db \<Rightarrow> sync_row option" where
  "next_ready_sync now db = first_sync (sync_ready now) db"

definition sync_active :: "sync_row \<Rightarrow> bool" where
  "sync_active t = (sy_status t \<in> {S_QUEUED, S_RUNNING})"

definition sync_active_for :: "app_db \<Rightarrow> nat \<Rightarrow> sync_row option" where
  "sync_active_for db b = first_sync (\<lambda>t. sy_backup_id t = Some b \<and> sync_active t) db"

definition running_syncs :: "app_db \<Rightarrow> sync_row list" where
  "running_syncs db = sort_key sy_id (filter (\<lambda>t. sy_status t = S_RUNNING) (ad_syncs db))"

definition sync_matches :: "sync_status option \<Rightarrow> sync_row \<Rightarrow> bool" where
  "sync_matches status t = (case status of None \<Rightarrow> True | Some s \<Rightarrow> sy_status t = s)"

definition list_recent_syncs :: "app_db \<Rightarrow> sync_status option \<Rightarrow> nat \<Rightarrow> nat \<Rightarrow> sync_row list" where
  "list_recent_syncs db status limit offset = page limit offset
     (order_desc (\<lambda>t. (sy_created_at t, sy_id t)) (filter (sync_matches status) (ad_syncs db)))"

definition sync_count :: "app_db \<Rightarrow> sync_status option \<Rightarrow> nat" where
  "sync_count db status = length (filter (sync_matches status) (ad_syncs db))"

section \<open>Uploads\<close>

definition sync_config :: "app_db \<Rightarrow> gdrive_settings" where
  "sync_config db = sc_gdrive (ad_sections db)"

definition require_sync :: "app_db \<Rightarrow> app_error + gdrive_settings" where
  "require_sync db = (if gd_enabled (sync_config db) then Inr (sync_config db)
     else Inl (App_ValidationFailed ''Google Drive sync is disabled.''))"

definition attempts_allowed :: "gdrive_settings \<Rightarrow> nat" where
  "attempts_allowed g = nat (gd_upload_retry g + 1)"

definition set_upload :: "nat \<Rightarrow> upload_status \<Rightarrow> app_db \<Rightarrow> app_db" where
  "set_upload b st db = set_backup b (\<lambda>x. x\<lparr>bh_upload_status := st\<rparr>) db"

definition enqueue_upload :: "datetime \<Rightarrow> nat \<Rightarrow> bool \<Rightarrow> app_db \<Rightarrow> (app_error + sync_row) \<times> app_db" where
  "enqueue_upload now b force db = (case require_sync db of
     Inl e \<Rightarrow> (Inl e, db)
   | Inr g \<Rightarrow> (case backup_get db b of
       None \<Rightarrow> (Inl (App_NotFound ''No such backup''), db)
     | Some r \<Rightarrow>
         if bh_status r \<noteq> B_SUCCESS then (Inl (App_ValidationFailed ''There is no artifact to upload''), db)
         else if bh_filename r = None then (Inl (App_ValidationFailed ''The backup produced no artifact''), db)
         else if bh_local_deleted_at r \<noteq> None
         then (Inl (App_ValidationFailed ''The backup has been deleted locally''), db)
         else if sync_active_for db b \<noteq> None then (Inl (App_Conflict ''The backup is already queued for transfer''), db)
         else if bh_upload_status r = UPLOADED \<and> \<not> force
         then (Inl (App_Conflict ''The backup is already uploaded''), db)
         else (let (t, db1) = sync_create now (Some b) UPLOAD_DIR (gd_remote_name g) (gd_folder g)
                 (attempts_allowed g) (bh_size_bytes r) db
           in (Inr t, set_upload b PENDING db1))))"

text \<open>What the agent lists of an archive on the host.\<close>

record host_artifact =
  ha_filename :: string
  ha_path :: string
  ha_vmid :: nat
  ha_type :: guest_type
  ha_size_bytes :: int
  ha_created_at :: datetime
  ha_compression :: compression
  ha_checksum :: "string option"

fun guest_type_upper :: "guest_type \<Rightarrow> string" where
  "guest_type_upper VM = ''VM''"
| "guest_type_upper LXC = ''LXC''"

definition imported_artifact :: "host_artifact \<Rightarrow> backup_row" where
  "imported_artifact a = \<lparr>bh_id = 0, bh_run_id = None, bh_vmid = ha_vmid a, bh_guest_type = ha_type a,
     bh_guest_name = guest_type_upper (ha_type a) @ '' '' @ show_nat (ha_vmid a), bh_node = ''server'',
     bh_storage = ''hdd_3tb'', bh_filename = Some (ha_filename a), bh_local_path = Some (ha_path a),
     bh_size_bytes = Some (ha_size_bytes a), bh_mode = SNAPSHOT, bh_compression = ha_compression a,
     bh_checksum_sha256 = ha_checksum a, bh_status = B_SUCCESS, bh_agent_task_id = None,
     bh_started_at = Some (ha_created_at a), bh_finished_at = Some (ha_created_at a), bh_duration_seconds = None,
     bh_error_message = None, bh_warnings = None, bh_upload_status = NOT_REQUIRED, bh_uploaded_at = None,
     bh_remote_path = None, bh_remote_size_bytes = None, bh_remote_checksum = None, bh_retention_locked = False,
     bh_local_deleted_at = None, bh_remote_deleted_at = None, bh_correlation_id = None\<rparr>"

definition by_filename :: "string \<Rightarrow> history_filters" where
  "by_filename fname = \<lparr>hf_vmid = None, hf_type = None, hf_status = None, hf_upload = None, hf_run_id = None,
     hf_since = None, hf_until = None, hf_query = Some fname, hf_deleted = False\<rparr>"

definition any_backup :: history_filters where
  "any_backup = \<lparr>hf_vmid = None, hf_type = None, hf_status = None, hf_upload = None, hf_run_id = None,
     hf_since = None, hf_until = None, hf_query = None, hf_deleted = False\<rparr>"

definition enqueue_upload_by_filename :: "datetime \<Rightarrow> app_error + host_artifact list \<Rightarrow> string \<Rightarrow> bool \<Rightarrow> app_db
    \<Rightarrow> (app_error + sync_row) \<times> app_db" where
  "enqueue_upload_by_filename now listing fname force db = (case history_search db (by_filename fname) 10 0 of
     Inl e \<Rightarrow> (Inl e, db)
   | Inr rows \<Rightarrow> (case find (\<lambda>r. bh_filename r = Some fname) rows of
       Some r \<Rightarrow> enqueue_upload now (bh_id r) force db
     | None \<Rightarrow> (case listing of
         Inl e \<Rightarrow> (Inl e, db)
       | Inr as \<Rightarrow> (case find (\<lambda>a. ha_filename a = fname) as of
           None \<Rightarrow> (Inl (App_NotFound ''Backup file not found on host agent''), db)
         | Some a \<Rightarrow> (let (r, db1) = history_create (imported_artifact a) db in enqueue_upload now (bh_id r) force db1)))))"

definition enqueue_one :: "datetime \<Rightarrow> gdrive_settings \<Rightarrow> backup_row \<Rightarrow> app_db \<Rightarrow> app_db" where
  "enqueue_one now g r db = (if sync_active_for db (bh_id r) \<noteq> None then db
     else snd (sync_create now (Some (bh_id r)) UPLOAD_DIR (gd_remote_name g) (gd_folder g) (attempts_allowed g) None db))"

definition enqueue_pending :: "datetime \<Rightarrow> app_db \<Rightarrow> app_db" where
  "enqueue_pending now db = (let g = sync_config db in
     if \<not> gd_enabled g then db else fold (enqueue_one now g) (awaiting_upload db 100) db)"

section \<open>Verification\<close>

record remote_check =
  rc_outcome :: verify_outcome
  rc_verified :: bool
  rc_remote_size :: "int option"
  rc_remote_md5 :: "string option"

definition verified_row :: "datetime \<Rightarrow> remote_check \<Rightarrow> backup_row \<Rightarrow> backup_row" where
  "verified_row now v b =
     (if rc_verified v
      then b\<lparr>bh_upload_status := UPLOADED, bh_remote_size_bytes := rc_remote_size v, bh_remote_checksum := rc_remote_md5 v,
          bh_uploaded_at := (if bh_uploaded_at b = None then Some now else bh_uploaded_at b)\<rparr>
      else b\<lparr>bh_remote_size_bytes := rc_remote_size v,
          bh_upload_status := (if bh_upload_status b = UPLOADED then U_FAILED else bh_upload_status b)\<rparr>)"

definition verify_backup :: "datetime \<Rightarrow> (string \<Rightarrow> app_error + remote_check) \<Rightarrow> nat \<Rightarrow> app_db
    \<Rightarrow> (app_error + remote_check) \<times> app_db" where
  "verify_backup now check b db = (case require_sync db of
     Inl e \<Rightarrow> (Inl e, db)
   | Inr g \<Rightarrow> (case backup_get db b of
       None \<Rightarrow> (Inl (App_NotFound ''No such backup''), db)
     | Some r \<Rightarrow> (case bh_filename r of
         None \<Rightarrow> (Inl (App_ValidationFailed ''The backup produced no artifact to verify.''), db)
       | Some f \<Rightarrow> (case check f of
           Inl e \<Rightarrow> (Inl e, db)
         | Inr v \<Rightarrow> (Inr v, set_backup b (verified_row now v) db)))))"

section \<open>Cancelling and retrying\<close>

definition sync_final :: "sync_status \<Rightarrow> bool" where
  "sync_final st = (st \<in> {S_SUCCESS, S_FAILED, S_CANCELLED})"

definition cancelled_sync :: "datetime \<Rightarrow> sync_row \<Rightarrow> sync_row" where
  "cancelled_sync now t = t\<lparr>sy_status := S_CANCELLED, sy_finished_at := Some now,
     sy_error_message := Some ''Cancelled by operator''\<rparr>"

definition mark_of_task :: "sync_row \<Rightarrow> upload_status \<Rightarrow> app_db \<Rightarrow> app_db" where
  "mark_of_task t st db = (case sy_backup_id t of None \<Rightarrow> db | Some b \<Rightarrow> set_upload b st db)"

text \<open>\<open>agent\<close> answers the cancellation of the agent task; its silence and its refusal are ignored.\<close>

definition cancel_transfer :: "datetime \<Rightarrow> app_error + unit \<Rightarrow> nat \<Rightarrow> app_db \<Rightarrow> (app_error + sync_row) \<times> app_db" where
  "cancel_transfer now agent i db = (case sync_get db i of
     None \<Rightarrow> (Inl (App_NotFound ''No such sync task''), db)
   | Some t \<Rightarrow>
       if sync_final (sy_status t) then (Inl (App_Conflict ''The sync task is over''), db)
       else let db1 = mark_of_task t U_FAILED (set_sync i (cancelled_sync now) db) in
         if sy_agent_task_id t \<in> {None, Some []} then (Inr (cancelled_sync now t), db1)
         else (case agent of
             Inl (App_AgentError d st) \<Rightarrow> (Inr (cancelled_sync now t), db1)
           | Inl (App_AgentUnavailable d) \<Rightarrow> (Inr (cancelled_sync now t), db1)
           | Inl e \<Rightarrow> (Inl e, db)
           | Inr _ \<Rightarrow> (Inr (cancelled_sync now t), db1)))"

definition retried_sync :: "sync_row \<Rightarrow> sync_row" where
  "retried_sync t = t\<lparr>sy_status := S_QUEUED, sy_attempt := 1, sy_error_message := None, sy_next_retry_at := None,
     sy_started_at := None, sy_finished_at := None, sy_agent_task_id := None\<rparr>"

definition retry_task :: "nat \<Rightarrow> app_db \<Rightarrow> (app_error + sync_row) \<times> app_db" where
  "retry_task i db = (case sync_get db i of
     None \<Rightarrow> (Inl (App_NotFound ''No such sync task''), db)
   | Some t \<Rightarrow> (Inr (retried_sync t), mark_of_task t PENDING (set_sync i retried_sync db)))"

section \<open>Responses\<close>

definition task_bytes_total :: "app_db \<Rightarrow> sync_row \<Rightarrow> int option" where
  "task_bytes_total db t = (if sy_bytes_total t \<in> {None, Some 0}
     then Option.bind (Option.bind (sy_backup_id t) (backup_get db)) bh_size_bytes else sy_bytes_total t)"

definition task_percent :: "app_db \<Rightarrow> sync_row \<Rightarrow> rat option" where
  "task_percent db t = (case task_bytes_total db t of None \<Rightarrow> None
     | Some n \<Rightarrow> if n = 0 then None else Some (py_round (of_int (sy_bytes_transferred t) / of_int n * 100) 1))"

section \<open>Routes\<close>

definition upload_route :: "datetime \<Rightarrow> nat \<times> string \<Rightarrow> nat \<Rightarrow> bool \<Rightarrow> app_db \<Rightarrow> (app_error + sync_row) \<times> app_db" where
  "upload_route now user b force db = session (case enqueue_upload now b force db of
     (Inl e, db1) \<Rightarrow> (Inl e, db1)
   | (Inr t, db1) \<Rightarrow> (Inr t, audit_as now user SETTINGS_CHANGED ''sync_task'' (sy_id t)
       [(''backup_id'', J_int (int b)), (''force'', J_bool force)] db1)) db"

definition upload_artifact_route :: "datetime \<Rightarrow> nat \<times> string \<Rightarrow> app_error + host_artifact list \<Rightarrow> string \<Rightarrow> bool \<Rightarrow> app_db
    \<Rightarrow> (app_error + sync_row) \<times> app_db" where
  "upload_artifact_route now user listing fname force db = session (case enqueue_upload_by_filename now listing fname force db of
     (Inl e, db1) \<Rightarrow> (Inl e, db1)
   | (Inr t, db1) \<Rightarrow> (Inr t, audit_as now user SETTINGS_CHANGED ''sync_task'' (sy_id t)
       [(''filename'', J_str fname), (''force'', J_bool force)] db1)) db"

definition verify_route :: "datetime \<Rightarrow> (string \<Rightarrow> app_error + remote_check) \<Rightarrow> nat \<Rightarrow> app_db \<Rightarrow> (app_error + remote_check) \<times> app_db" where
  "verify_route now check b db = session (verify_backup now check b db) db"

definition cancel_sync_route :: "datetime \<Rightarrow> nat \<times> string \<Rightarrow> app_error + unit \<Rightarrow> nat \<Rightarrow> app_db \<Rightarrow> (app_error + sync_row) \<times> app_db" where
  "cancel_sync_route now user agent i db = session (case cancel_transfer now agent i db of
     (Inl e, db1) \<Rightarrow> (Inl e, db1)
   | (Inr t, db1) \<Rightarrow> (Inr t, audit_as now user SETTINGS_CHANGED ''sync_task'' (sy_id t)
       [(''action'', J_str ''cancel''), (''task_id'', J_int (int i))] db1)) db"

definition retry_sync_route :: "datetime \<Rightarrow> nat \<times> string \<Rightarrow> nat \<Rightarrow> app_db \<Rightarrow> (app_error + sync_row) \<times> app_db" where
  "retry_sync_route now user i db = session (case retry_task i db of
     (Inl e, db1) \<Rightarrow> (Inl e, db1)
   | (Inr t, db1) \<Rightarrow> (Inr t, audit_as now user SETTINGS_CHANGED ''sync_task'' (sy_id t)
       [(''action'', J_str ''retry''), (''task_id'', J_int (int i))] db1)) db"

section \<open>Local versus remote\<close>

record browser_entry =
  be_filename :: string
  be_vmid :: "nat option"
  be_type :: "guest_type option"
  be_size :: "int option"
  be_created_at :: "datetime option"
  be_sha256 :: "string option"
  be_md5 :: "string option"
  be_backup_id :: "nat option"

definition MAX_BROWSER_ENTRIES :: nat where "MAX_BROWSER_ENTRIES = 2000"

text \<open>A dict built by a comprehension: the last value of a key stays.\<close>

definition last_of :: "('k \<times> 'v) list \<Rightarrow> 'k \<Rightarrow> 'v option" where
  "last_of kvs = map_of (rev kvs)"

definition known_files :: "app_db \<Rightarrow> string \<Rightarrow> backup_row option" where
  "known_files db = last_of (List.map_filter (\<lambda>r. case bh_filename r of None \<Rightarrow> None
       | Some f \<Rightarrow> if f = [] then None else Some (f, r))
     (page MAX_BROWSER_ENTRIES 0 (order_desc (\<lambda>b. (bh_started_at b, bh_id b)) (filter (history_matches any_backup) (ad_backups db)))))"

definition local_entries :: "app_db \<Rightarrow> host_artifact list \<Rightarrow> browser_entry list" where
  "local_entries db as = map (\<lambda>a. \<lparr>be_filename = ha_filename a, be_vmid = Some (ha_vmid a), be_type = Some (ha_type a),
     be_size = Some (ha_size_bytes a), be_created_at = Some (ha_created_at a), be_sha256 = ha_checksum a, be_md5 = None,
     be_backup_id = map_option bh_id (known_files db (ha_filename a))\<rparr>) as"

record remote_item =
  ri_name :: string
  ri_size :: int
  ri_is_dir :: bool
  ri_modified_at :: "datetime option"
  ri_md5 :: "string option"

definition remote_entries :: "app_db \<Rightarrow> remote_item list \<Rightarrow> browser_entry list" where
  "remote_entries db items = map (\<lambda>i. let r = known_files db (ri_name i) in
     \<lparr>be_filename = ri_name i, be_vmid = map_option bh_vmid r, be_type = map_option bh_guest_type r,
      be_size = Some (ri_size i), be_created_at = ri_modified_at i, be_sha256 = None, be_md5 = ri_md5 i,
      be_backup_id = map_option bh_id r\<rparr>) (filter (\<lambda>i. \<not> ri_is_dir i) items)"

datatype copy_state = IN_SYNC | LOCAL_ONLY | REMOTE_ONLY | SIZES_DIFFER

record comparison_state =
  cp_filename :: string
  cp_state :: copy_state
  cp_local_size :: "int option"
  cp_remote_size :: "int option"
  cp_backup_id :: "nat option"

definition entry_id :: "browser_entry option \<Rightarrow> nat option" where
  "entry_id e = Option.bind e be_backup_id"

definition compare_one :: "string \<Rightarrow> browser_entry option \<Rightarrow> browser_entry option \<Rightarrow> comparison_state" where
  "compare_one fname l r =
     (let i = (if entry_id l = None then entry_id r else entry_id l) in
      case l of
        None \<Rightarrow> \<lparr>cp_filename = fname, cp_state = REMOTE_ONLY, cp_local_size = None,
           cp_remote_size = Option.bind r be_size, cp_backup_id = i\<rparr>
      | Some x \<Rightarrow> (case r of
          None \<Rightarrow> \<lparr>cp_filename = fname, cp_state = LOCAL_ONLY, cp_local_size = be_size x, cp_remote_size = None, cp_backup_id = i\<rparr>
        | Some y \<Rightarrow> \<lparr>cp_filename = fname, cp_state = (if be_size x = be_size y then IN_SYNC else SIZES_DIFFER),
            cp_local_size = be_size x, cp_remote_size = be_size y, cp_backup_id = i\<rparr>))"

definition entry_named :: "browser_entry list \<Rightarrow> string \<Rightarrow> browser_entry option" where
  "entry_named es = last_of (map (\<lambda>e. (be_filename e, e)) es)"

definition file_names :: "browser_entry list \<Rightarrow> string list" where
  "file_names es = sort_key (map code) (remdups (map be_filename es))"

record comparison =
  cm_in_sync :: nat
  cm_local_only :: nat
  cm_remote_only :: nat
  cm_size_mismatch :: nat
  cm_entries :: "comparison_state list"
  cm_complete :: bool \<comment> \<open>\<open>detail\<close> is None\<close>

definition local_comparison :: "browser_entry list \<Rightarrow> comparison" where
  "local_comparison ls = (let states = map (\<lambda>f. compare_one f (entry_named ls f) None) (file_names ls) in
     \<lparr>cm_in_sync = 0, cm_local_only = length states, cm_remote_only = 0, cm_size_mismatch = 0,
      cm_entries = states, cm_complete = False\<rparr>)"

definition state_count :: "copy_state \<Rightarrow> comparison_state list \<Rightarrow> nat" where
  "state_count st states = length (filter (\<lambda>c. cp_state c = st) states)"

definition full_comparison :: "browser_entry list \<Rightarrow> browser_entry list \<Rightarrow> comparison" where
  "full_comparison ls rs = (let states = map (\<lambda>f. compare_one f (entry_named ls f) (entry_named rs f)) (file_names (ls @ rs)) in
     \<lparr>cm_in_sync = state_count IN_SYNC states, cm_local_only = state_count LOCAL_ONLY states,
      cm_remote_only = state_count REMOTE_ONLY states, cm_size_mismatch = state_count SIZES_DIFFER states,
      cm_entries = states, cm_complete = True\<rparr>)"

definition compare_copies_of :: "app_error + host_artifact list \<Rightarrow> app_error + remote_item list \<Rightarrow> app_db \<Rightarrow> app_error + comparison" where
  "compare_copies_of listing remote db = (case listing of
     Inl e \<Rightarrow> Inl e
   | Inr as \<Rightarrow> (let ls = local_entries db as in
       if \<not> gd_enabled (sync_config db) then Inr (local_comparison ls)
       else (case remote of
           Inr items \<Rightarrow> Inr (full_comparison ls (remote_entries db items))
         | Inl (App_AgentUnavailable d) \<Rightarrow> Inr (local_comparison ls)
         | Inl (App_AgentError d st) \<Rightarrow> Inr (local_comparison ls)
         | Inl e \<Rightarrow> Inl e)))"

lemma last_of_None: "last_of kvs k = None \<longleftrightarrow> k \<notin> fst ` set kvs"
  by (simp add: last_of_def map_of_eq_None_iff)

lemma entry_named_Some: "(\<exists>e. entry_named es f = Some e) \<longleftrightarrow> f \<in> be_filename ` set es"
  unfolding entry_named_def using last_of_None [of "map (\<lambda>e. (be_filename e, e)) es" f]
  by (cases "last_of (map (\<lambda>e. (be_filename e, e)) es) f") (auto simp: image_image)

lemma set_file_names: "set (file_names es) = be_filename ` set es" "distinct (file_names es)"
  by (simp_all add: file_names_def)

lemma entry_named_size: "(\<And>e. e \<in> set es \<Longrightarrow> be_size e \<noteq> None) \<Longrightarrow> entry_named es f = Some e \<Longrightarrow> be_size e \<noteq> None"
  by (auto simp: entry_named_def last_of_def dest!: map_of_SomeD)

lemma state_counts:
  "state_count IN_SYNC cs + state_count LOCAL_ONLY cs + state_count REMOTE_ONLY cs + state_count SIZES_DIFFER cs = length cs"
proof (induction cs)
  case (Cons c cs)
  then show ?case by (cases "cp_state c") (simp_all add: state_count_def)
qed (simp add: state_count_def)

text \<open>The size a side lists for a name: the last entry of that name counts; folders are not files.\<close>

definition host_size :: "host_artifact list \<Rightarrow> string \<Rightarrow> int option" where
  "host_size as f = map_of (rev (map (\<lambda>a. (ha_filename a, ha_size_bytes a)) as)) f"

definition remote_size :: "remote_item list \<Rightarrow> string \<Rightarrow> int option" where
  "remote_size items f = map_of (rev (map (\<lambda>i. (ri_name i, ri_size i)) (filter (\<lambda>i. \<not> ri_is_dir i) items))) f"

lemma entry_named_map:
  assumes "\<And>x. be_filename (h x) = n x \<and> be_size (h x) = Some (z x)"
  shows "map_option be_size (entry_named (map h xs) f) = map_option Some (map_of (rev (map (\<lambda>x. (n x, z x)) xs)) f)"
proof -
  have "map_option be_size (map_of (map (\<lambda>x. (n x, h x)) ys) f) = map_option Some (map_of (map (\<lambda>x. (n x, z x)) ys) f)" for ys
    using assms by (induction ys) auto
  then show ?thesis using assms by (simp add: entry_named_def last_of_def rev_map comp_def)
qed

lemma local_size_listed: "map_option be_size (entry_named (local_entries db as) f) = map_option Some (host_size as f)"
  unfolding local_entries_def host_size_def by (rule entry_named_map) simp

lemma remote_size_listed: "map_option be_size (entry_named (remote_entries db items) f) = map_option Some (remote_size items f)"
  unfolding remote_entries_def remote_size_def by (rule entry_named_map) (simp add: Let_def)

lemma compare_one_tells:
  assumes "map_option be_size l = map_option Some a" "map_option be_size r = map_option Some b" "a \<noteq> None \<or> b \<noteq> None"
  shows "cp_filename (compare_one f l r) = f \<and> cp_local_size (compare_one f l r) = a \<and> cp_remote_size (compare_one f l r) = b
    \<and> cp_state (compare_one f l r) =
        (if b = None then LOCAL_ONLY else if a = None then REMOTE_ONLY else if a = b then IN_SYNC else SIZES_DIFFER)"
  using assms by (cases a; cases b) (auto simp: compare_one_def Let_def split: option.split)

lemma host_size_None: "host_size as f = None \<longleftrightarrow> f \<notin> ha_filename ` set as"
  by (simp add: host_size_def map_of_eq_None_iff image_image)

lemma remote_size_None: "remote_size items f = None \<longleftrightarrow> f \<notin> ri_name ` {i \<in> set items. \<not> ri_is_dir i}"
  by (simp add: remote_size_def map_of_eq_None_iff image_image)

text \<open>
  C34. A complete comparison tells every file once: each file of either side has exactly one entry, in the
  order of names; the entry holds the sizes the two sides list for that name, none where the side does
  not have it; its state is local only or remote only exactly when the other side does not have it,
  in sync when both list the same size and a size mismatch when they list different ones; and each of
  the four counts is the number of entries in that state, so that together they count all files.
\<close>

theorem comparison_tells_every_file:
  assumes "compare_copies_of (Inr as) (Inr items) db = Inr c" and "gd_enabled (sync_config db)"
  shows "distinct (map cp_filename (cm_entries c)) \<and> sorted (map (map code \<circ> cp_filename) (cm_entries c))
    \<and> set (map cp_filename (cm_entries c)) = ha_filename ` set as \<union> ri_name ` {i \<in> set items. \<not> ri_is_dir i}
    \<and> (\<forall>x \<in> set (cm_entries c).
        cp_local_size x = host_size as (cp_filename x) \<and> cp_remote_size x = remote_size items (cp_filename x)
        \<and> (cp_state x = LOCAL_ONLY \<longleftrightarrow> cp_filename x \<notin> ri_name ` {i \<in> set items. \<not> ri_is_dir i})
        \<and> (cp_state x = REMOTE_ONLY \<longleftrightarrow> cp_filename x \<notin> ha_filename ` set as)
        \<and> (cp_state x = IN_SYNC \<longleftrightarrow> host_size as (cp_filename x) = remote_size items (cp_filename x)))
    \<and> cm_in_sync c = length (filter (\<lambda>x. cp_state x = IN_SYNC) (cm_entries c))
    \<and> cm_local_only c = length (filter (\<lambda>x. cp_state x = LOCAL_ONLY) (cm_entries c))
    \<and> cm_remote_only c = length (filter (\<lambda>x. cp_state x = REMOTE_ONLY) (cm_entries c))
    \<and> cm_size_mismatch c = length (filter (\<lambda>x. cp_state x = SIZES_DIFFER) (cm_entries c))
    \<and> cm_in_sync c + cm_local_only c + cm_remote_only c + cm_size_mismatch c = length (cm_entries c)"
proof -
  let ?ls = "local_entries db as" and ?rs = "remote_entries db items"
  have c: "c = full_comparison ?ls ?rs" using assms by (simp add: compare_copies_of_def Let_def)
  have l: "be_filename ` set ?ls = ha_filename ` set as" by (auto simp: local_entries_def image_iff)
  have r: "be_filename ` set ?rs = ri_name ` {i \<in> set items. \<not> ri_is_dir i}"
    by (auto simp: remote_entries_def Let_def image_iff)
  have entries: "cm_entries c = map (\<lambda>f. compare_one f (entry_named ?ls f) (entry_named ?rs f)) (file_names (?ls @ ?rs))"
    by (simp add: c full_comparison_def Let_def)
  have name: "cp_filename (compare_one f a b) = f" for f a b by (simp add: compare_one_def Let_def split: option.split)
  then have names: "map cp_filename (cm_entries c) = file_names (?ls @ ?rs)" by (simp add: entries comp_def)
  have sort: "sorted (map (map code \<circ> cp_filename) (cm_entries c))"
    unfolding List.map.compositionality [symmetric] names file_names_def by (rule sorted_sort_key)
  have one: "cp_local_size x = host_size as (cp_filename x) \<and> cp_remote_size x = remote_size items (cp_filename x)
      \<and> (cp_state x = LOCAL_ONLY \<longleftrightarrow> cp_filename x \<notin> ri_name ` {i \<in> set items. \<not> ri_is_dir i})
      \<and> (cp_state x = REMOTE_ONLY \<longleftrightarrow> cp_filename x \<notin> ha_filename ` set as)
      \<and> (cp_state x = IN_SYNC \<longleftrightarrow> host_size as (cp_filename x) = remote_size items (cp_filename x))" if x: "x \<in> set (cm_entries c)" for x
  proof -
    obtain f where f: "f \<in> ha_filename ` set as \<union> ri_name ` {i \<in> set items. \<not> ri_is_dir i}"
      "x = compare_one f (entry_named ?ls f) (entry_named ?rs f)"
      using x by (auto simp: entries set_file_names l [symmetric] r [symmetric])
    then have "host_size as f \<noteq> None \<or> remote_size items f \<noteq> None" by (simp only: host_size_None remote_size_None Un_iff not_not)
    note tells = compare_one_tells [OF local_size_listed [of db as f] remote_size_listed [of db items f] this, of f]
    show ?thesis using tells \<open>host_size as f \<noteq> None \<or> remote_size items f \<noteq> None\<close>
      unfolding f(2) [symmetric] host_size_None [symmetric] remote_size_None [symmetric] by auto
  qed
  have "cm_in_sync c + cm_local_only c + cm_remote_only c + cm_size_mismatch c = length (cm_entries c)"
    using state_counts by (simp add: c full_comparison_def Let_def)
  moreover have "set (map cp_filename (cm_entries c)) = ha_filename ` set as \<union> ri_name ` {i \<in> set items. \<not> ri_is_dir i}"
    "distinct (map cp_filename (cm_entries c))"
    by (simp_all add: names set_file_names l r image_Un)
  moreover have "cm_in_sync c = length (filter (\<lambda>x. cp_state x = IN_SYNC) (cm_entries c))"
    "cm_local_only c = length (filter (\<lambda>x. cp_state x = LOCAL_ONLY) (cm_entries c))"
    "cm_remote_only c = length (filter (\<lambda>x. cp_state x = REMOTE_ONLY) (cm_entries c))"
    "cm_size_mismatch c = length (filter (\<lambda>x. cp_state x = SIZES_DIFFER) (cm_entries c))"
    by (simp_all add: c full_comparison_def state_count_def Let_def)
  ultimately show ?thesis using one sort by (intro conjI ballI) (blast | assumption)+
qed

definition cmp_host :: "host_artifact list" where
  "cmp_host = [\<lparr>ha_filename = ''a'', ha_path = ''/a'', ha_vmid = 101, ha_type = VM, ha_size_bytes = 5, ha_created_at = 1,
     ha_compression = ZSTD, ha_checksum = None\<rparr>]"

definition cmp_remote :: "remote_item list" where
  "cmp_remote = [\<lparr>ri_name = ''a'', ri_size = 5, ri_is_dir = False, ri_modified_at = None, ri_md5 = None\<rparr>,
     \<lparr>ri_name = ''b'', ri_size = 6, ri_is_dir = False, ri_modified_at = None, ri_md5 = None\<rparr>]"

definition cloud_sections :: sections where
  "cloud_sections = default_sections\<lparr>sc_gdrive := (sc_gdrive default_sections)\<lparr>gd_enabled := True\<rparr>\<rparr>"

theorem comparison_tells_every_file_witness:
  "\<exists>c. compare_copies_of (Inr cmp_host) (Inr cmp_remote) (empty_db cloud_sections) = Inr c
     \<and> set (map cp_filename (cm_entries c)) = {''a'', ''b''}"
proof -
  have e: "gd_enabled (sync_config (empty_db cloud_sections))"
    by (simp add: sync_config_def cloud_sections_def empty_db_def)
  then obtain c where c: "compare_copies_of (Inr cmp_host) (Inr cmp_remote) (empty_db cloud_sections) = Inr c"
    by (simp add: compare_copies_of_def Let_def)
  have "{i \<in> set cmp_remote. \<not> ri_is_dir i} = set cmp_remote" by (auto simp: cmp_remote_def)
  then have "ha_filename ` set cmp_host \<union> ri_name ` {i \<in> set cmp_remote. \<not> ri_is_dir i} = {''a'', ''b''}"
    by (auto simp: cmp_host_def cmp_remote_def)
  with comparison_tells_every_file [OF c e] c show ?thesis by auto
qed

end
