(* ===== verification/Sync_Worker.thy ===== *)
theory Sync_Worker
  imports Sync Restore_Exec Retention_Safety
begin

text \<open>
  The upload queue, \<open>backend/app/workers/sync_worker.py\<close>, as a state machine in the manner of
  \<open>Backup_Runner\<close>: a phase is where \<open>_loop\<close> and \<open>_execute\<close> are between two awaits. \<open>ys_proofs\<close> records, for
  the proofs, the backups of which the agent said that their copy is on the remote: a transfer that
  succeeded or a verification that matched.
\<close>

section \<open>Writes\<close>

text \<open>What the code reads of \<open>result\<close> and \<open>progress\<close>; a value of another type is \<open>None\<close>.\<close>

record transfer =
  tr_bytes :: "int option"
  tr_verification :: "(string option \<times> int option) option" \<comment> \<open>\<open>remote_md5\<close>, \<open>remote_size_bytes\<close>\<close>
  tr_done :: "int option"
  tr_total :: "int option"
  tr_rate :: "int option"

record sync_env =
  se_notify :: notify_config
  se_grace :: rat
  se_retry_base :: int
  se_retry_max :: int

definition claimed_sync :: "datetime \<Rightarrow> sync_row \<Rightarrow> sync_row" where
  "claimed_sync now t = t\<lparr>sy_status := S_RUNNING, sy_attempt := Suc (sy_attempt t), sy_next_retry_at := None,
     sy_started_at := (if sy_started_at t = None then Some now else sy_started_at t)\<rparr>"

definition lost_sync :: "datetime \<Rightarrow> sync_row \<Rightarrow> sync_row" where
  "lost_sync now t = t\<lparr>sy_status := S_FAILED, sy_finished_at := Some now,
     sy_error_message := Some ''The backup this transfer refers to no longer exists''\<rparr>"

definition truthy_or :: "int option \<Rightarrow> int option \<Rightarrow> int option" where
  "truthy_or a b = (if a \<in> {None, Some 0} then b else a)"

definition progress_sync :: "transfer \<Rightarrow> sync_row \<Rightarrow> sync_row" where
  "progress_sync p t = t\<lparr>
     sy_bytes_transferred := (case truthy_or (tr_done p) None of None \<Rightarrow> sy_bytes_transferred t | Some n \<Rightarrow> n),
     sy_bytes_total := truthy_or (tr_total p) (sy_bytes_total t), sy_rate_bps := tr_rate p\<rparr>"

definition succeeded_sync :: "datetime \<Rightarrow> agent_task \<Rightarrow> transfer \<Rightarrow> sync_row \<Rightarrow> sync_row" where
  "succeeded_sync now a p t = t\<lparr>sy_status := S_SUCCESS,
     sy_finished_at := (if at_finished_at a = None then Some now else at_finished_at a), sy_error_message := None,
     sy_bytes_transferred := (case tr_bytes p of None \<Rightarrow> sy_bytes_transferred t | Some n \<Rightarrow> n)\<rparr>"

definition text_of :: "string option \<Rightarrow> string" where
  "text_of v = (case v of None \<Rightarrow> ''None'' | Some s \<Rightarrow> s)"

definition uploaded_row :: "sync_row \<Rightarrow> transfer \<Rightarrow> backup_row \<Rightarrow> backup_row" where
  "uploaded_row t p b =
     (let b1 = b\<lparr>bh_upload_status := UPLOADED, bh_uploaded_at := sy_finished_at t,
        bh_remote_path := Some (text_of (sy_remote_name t) @ '':'' @ text_of (sy_remote_path t))\<rparr> in
      case tr_verification p of None \<Rightarrow> b1
      | Some (md5, n) \<Rightarrow> b1\<lparr>bh_remote_checksum := md5, bh_remote_size_bytes := n\<rparr>)"

definition record_sync_success :: "datetime \<Rightarrow> nat \<Rightarrow> agent_task \<Rightarrow> transfer \<Rightarrow> app_db \<Rightarrow> app_db" where
  "record_sync_success now i a p db = (case sync_get db i of None \<Rightarrow> db
     | Some t \<Rightarrow> (let t' = succeeded_sync now a p t; db1 = set_sync i (succeeded_sync now a p) db in
         case sy_backup_id t of None \<Rightarrow> db1 | Some b \<Rightarrow> set_backup b (uploaded_row t' p) db1))"

definition sync_retry_delay :: "sync_env \<Rightarrow> nat \<Rightarrow> rat \<Rightarrow> rat" where
  "sync_retry_delay E attempt u = (let base = se_retry_base E; ceiling = min (se_retry_max E) (base * 2 ^ (attempt - 1)) in
     if ceiling > base then of_int base + (of_int ceiling - of_int base) * u else of_int base)"

definition sync_exhausted :: "sync_row \<Rightarrow> bool" where
  "sync_exhausted t = (sy_max_attempts t \<le> sy_attempt t)"

definition failed_sync :: "sync_env \<Rightarrow> datetime \<Rightarrow> rat \<Rightarrow> string \<Rightarrow> sync_row \<Rightarrow> sync_row" where
  "failed_sync E now u message t = (let t1 = t\<lparr>sy_error_message := Some (take 2000 message)\<rparr> in
     if sync_exhausted t then t1\<lparr>sy_status := S_FAILED, sy_finished_at := Some now, sy_next_retry_at := None\<rparr>
     else t1\<lparr>sy_status := S_QUEUED, sy_next_retry_at := Some (after_seconds now (sync_retry_delay E (sy_attempt t) u))\<rparr>)"

definition notify_exhausted :: "notify_config \<Rightarrow> datetime \<Rightarrow> nat \<Rightarrow> backup_row option \<Rightarrow> nat \<Rightarrow> string \<Rightarrow> app_db \<Rightarrow> app_db" where
  "notify_exhausted C now i b attempt message db = snd (enqueue C now UPLOAD_FAILED
     [(''filename'', json_opt J_str (Option.bind b bh_filename)), (''vmid'', json_opt (\<lambda>x. J_int (int (bh_vmid x))) b),
      (''guest_type'', json_opt (\<lambda>x. J_str (guest_type_value (bh_guest_type x))) b),
      (''attempts'', J_int (int attempt)), (''error'', J_str message)]
     (Some (''sync_task:'' @ show_nat i)) True (map_option bh_id b) None db)"

definition record_sync_failure :: "sync_env \<Rightarrow> datetime \<Rightarrow> rat \<Rightarrow> nat \<Rightarrow> string \<Rightarrow> app_db \<Rightarrow> app_db" where
  "record_sync_failure E now u i message db = (case sync_get db i of None \<Rightarrow> db
     | Some t \<Rightarrow>
         (let db1 = set_sync i (failed_sync E now u message) db;
              b = Option.bind (sy_backup_id t) (backup_get db1);
              db2 = mark_of_task t (if sync_exhausted t then U_FAILED else PENDING) db1 in
          if sync_exhausted t then notify_exhausted (se_notify E) now i b (sy_attempt t) message db2 else db2))"

section \<open>The worker\<close>

record sync_plan =
  sp_task :: nat
  sp_filename :: string
  sp_remote :: string
  sp_path :: string

datatype sync_phase =
    Y_Idle
  | Y_Filled \<comment> \<open>pending uploads are queued\<close>
  | Y_Claimed nat
  | Y_Send sync_plan
  | Y_Sent nat
  | Y_Accepted nat string
  | Y_Poll nat string "clock option"
  | Y_Report nat agent_task transfer
  | Y_Failed nat string

record sync_sys =
  ys_db :: app_db
  ys_phase :: sync_phase
  ys_proofs :: "nat list"

definition SYNC_CRASHED :: string where "SYNC_CRASHED = ''The sync worker failed unexpectedly''"

definition claim_sync :: "datetime \<Rightarrow> sync_sys \<Rightarrow> sync_sys" where
  "claim_sync now s = (case next_ready_sync now (ys_db s) of None \<Rightarrow> s\<lparr>ys_phase := Y_Idle\<rparr>
     | Some t \<Rightarrow> s\<lparr>ys_db := set_sync (sy_id t) (claimed_sync now) (ys_db s), ys_phase := Y_Claimed (sy_id t)\<rparr>)"

definition load_sync :: "datetime \<Rightarrow> nat \<Rightarrow> sync_sys \<Rightarrow> sync_sys" where
  "load_sync now i s = (case sync_get (ys_db s) i of None \<Rightarrow> s\<lparr>ys_phase := Y_Idle\<rparr>
     | Some t \<Rightarrow> (case Option.bind (sy_backup_id t) (backup_get (ys_db s)) of
         None \<Rightarrow> s\<lparr>ys_db := set_sync i (lost_sync now) (ys_db s), ys_phase := Y_Idle\<rparr>
       | Some b \<Rightarrow> (case bh_filename b of
           None \<Rightarrow> s\<lparr>ys_db := set_sync i (lost_sync now) (ys_db s), ys_phase := Y_Idle\<rparr>
         | Some f \<Rightarrow> s\<lparr>ys_db := set_upload (bh_id b) UPLOADING (ys_db s),
             ys_phase := Y_Send \<lparr>sp_task = i, sp_filename = f, sp_remote = given_or (sy_remote_name t) [],
               sp_path = given_or (sy_remote_path t) []\<rparr>\<rparr>)))"

definition upload_answer :: "nat \<Rightarrow> app_error + string \<Rightarrow> sync_phase" where
  "upload_answer i answer = (case answer of Inr a \<Rightarrow> Y_Accepted i a
     | Inl (App_Internal d) \<Rightarrow> Y_Failed i SYNC_CRASHED
     | Inl e \<Rightarrow> Y_Failed i (app_detail e))"

definition silent_text :: "rat \<Rightarrow> string \<Rightarrow> string" where
  "silent_text waited detail = ''The agent stopped answering for '' @ show_int (floor waited) @ ''s during the transfer ('' @ detail @ '')''"

definition sync_retry :: "sync_env \<Rightarrow> clock \<Rightarrow> nat \<Rightarrow> string \<Rightarrow> clock option \<Rightarrow> string \<Rightarrow> sync_phase" where
  "sync_retry E tick i a since detail =
     (let since' = (case since of None \<Rightarrow> tick | Some t \<Rightarrow> if t = 0 then tick else t) in
      if tick - since' > se_grace E then Y_Failed i (silent_text (tick - since') detail) else Y_Poll i a (Some since'))"

definition sync_poll :: "sync_env \<Rightarrow> clock \<Rightarrow> nat \<Rightarrow> string \<Rightarrow> clock option \<Rightarrow> app_error + agent_task \<times> transfer
    \<Rightarrow> sync_sys \<Rightarrow> sync_sys" where
  "sync_poll E tick i a since answer s = (case answer of
        Inr (t, p) \<Rightarrow> if at_terminal t then s\<lparr>ys_phase := Y_Report i t p\<rparr>
          else s\<lparr>ys_db := set_sync i (progress_sync p) (ys_db s), ys_phase := Y_Poll i a None\<rparr>
      | Inl (App_AgentUnavailable d) \<Rightarrow> s\<lparr>ys_phase := sync_retry E tick i a since d\<rparr>
      | Inl (App_AgentError d st) \<Rightarrow> s\<lparr>ys_phase := sync_retry E tick i a since d\<rparr>
      | Inl e \<Rightarrow> s\<lparr>ys_phase := Y_Failed i SYNC_CRASHED\<rparr>)"

definition outcome_text :: "agent_task \<Rightarrow> string" where
  "outcome_text t = (if at_error t \<in> {None, Some []} 
     then ''The transfer ended in state '' @ [CHR 0x27] @ at_state t @ [CHR 0x27] else the (at_error t))"

definition proven :: "app_db \<Rightarrow> nat \<Rightarrow> nat list" where
  "proven db i = (case Option.bind (sync_get db i) sy_backup_id of None \<Rightarrow> [] | Some b \<Rightarrow> [b])"

definition sync_advance :: "sync_env \<Rightarrow> datetime \<Rightarrow> clock \<Rightarrow> rat \<Rightarrow> app_error + string \<Rightarrow> app_error + agent_task \<times> transfer
    \<Rightarrow> sync_sys \<Rightarrow> sync_sys" where
  "sync_advance E now tick u started polled s = (case ys_phase s of
     Y_Idle \<Rightarrow> s\<lparr>ys_db := enqueue_pending now (ys_db s), ys_phase := Y_Filled\<rparr>
   | Y_Filled \<Rightarrow> claim_sync now s
   | Y_Claimed i \<Rightarrow> load_sync now i s
   | Y_Send p \<Rightarrow> s\<lparr>ys_phase := Y_Sent (sp_task p)\<rparr>
   | Y_Sent i \<Rightarrow> s\<lparr>ys_phase := upload_answer i started\<rparr>
   | Y_Accepted i a \<Rightarrow> s\<lparr>ys_db := set_sync i (\<lambda>t. t\<lparr>sy_agent_task_id := Some a\<rparr>) (ys_db s), ys_phase := Y_Poll i a None\<rparr>
   | Y_Poll i a since \<Rightarrow> sync_poll E tick i a since polled s
   | Y_Report i t p \<Rightarrow> (if at_state t = ''success''
       then s\<lparr>ys_db := record_sync_success now i t p (ys_db s), ys_phase := Y_Idle,
           ys_proofs := proven (ys_db s) i @ ys_proofs s\<rparr>
       else s\<lparr>ys_db := record_sync_failure E now u i (outcome_text t) (ys_db s), ys_phase := Y_Idle\<rparr>)
   | Y_Failed i m \<Rightarrow> s\<lparr>ys_db := record_sync_failure E now u i m (ys_db s), ys_phase := Y_Idle\<rparr>)"

fun sync_held :: "sync_phase \<Rightarrow> nat option" where
  "sync_held Y_Idle = None"
| "sync_held Y_Filled = None"
| "sync_held (Y_Claimed i) = Some i"
| "sync_held (Y_Send p) = Some (sp_task p)"
| "sync_held (Y_Sent i) = Some i"
| "sync_held (Y_Accepted i a) = Some i"
| "sync_held (Y_Poll i a s) = Some i"
| "sync_held (Y_Report i t p) = Some i"
| "sync_held (Y_Failed i m) = Some i"

definition sync_crash :: "sync_sys \<Rightarrow> sync_sys" where
  "sync_crash s = (case sync_held (ys_phase s) of None \<Rightarrow> s\<lparr>ys_phase := Y_Idle\<rparr>
     | Some i \<Rightarrow> s\<lparr>ys_phase := Y_Failed i SYNC_CRASHED\<rparr>)"

text \<open>A restart re-queues what was running, without counting the attempt.\<close>

definition requeued_sync :: "sync_row \<Rightarrow> sync_row" where
  "requeued_sync t = t\<lparr>sy_status := S_QUEUED, sy_attempt := sy_attempt t - 1, sy_next_retry_at := None,
     sy_error_message := Some ''Re-queued after the dashboard restarted mid-transfer''\<rparr>"

definition recover_syncs :: "sync_sys \<Rightarrow> sync_sys" where
  "recover_syncs s = s\<lparr>ys_db := (ys_db s)\<lparr>ad_syncs := upd_where (\<lambda>t. sy_status t = S_RUNNING) requeued_sync (ad_syncs (ys_db s))\<rparr>,
     ys_phase := Y_Idle\<rparr>"

section \<open>What can happen to a transfer\<close>

text \<open>Other components leave the queue alone and mark nothing uploaded.\<close>

definition no_new_mark :: "app_db \<Rightarrow> app_db \<Rightarrow> bool" where
  "no_new_mark db db' = (ad_syncs db' = ad_syncs db
     \<and> (\<forall>x' \<in> set (ad_backups db'). bh_upload_status x' = UPLOADED \<longrightarrow>
          (\<exists>x \<in> set (ad_backups db). bh_id x = bh_id x' \<and> bh_upload_status x = UPLOADED)))"

definition check_proves :: "app_error + remote_check \<Rightarrow> nat \<Rightarrow> nat list" where
  "check_proves out b = (case out of Inl e \<Rightarrow> [] | Inr v \<Rightarrow> if rc_verified v then [b] else [])"

inductive sync_step :: "sync_env \<Rightarrow> sync_sys \<Rightarrow> sync_sys \<Rightarrow> bool" for E where
  y_upload: "upload_route now user b force (ys_db s) = (out, db') \<Longrightarrow> sync_step E s (s\<lparr>ys_db := db'\<rparr>)"
| y_file: "upload_artifact_route now user listing f force (ys_db s) = (out, db') \<Longrightarrow> sync_step E s (s\<lparr>ys_db := db'\<rparr>)"
| y_verify: "verify_route now check b (ys_db s) = (out, db') \<Longrightarrow>
    sync_step E s (s\<lparr>ys_db := db', ys_proofs := check_proves out b @ ys_proofs s\<rparr>)"
| y_cancel: "cancel_sync_route now user agent i (ys_db s) = (out, db') \<Longrightarrow> sync_step E s (s\<lparr>ys_db := db'\<rparr>)"
| y_retry: "retry_sync_route now user i (ys_db s) = (out, db') \<Longrightarrow> sync_step E s (s\<lparr>ys_db := db'\<rparr>)"
| y_work: "sync_step E s (sync_advance E now tick u started polled s)"
| y_crash: "sync_step E s (sync_crash s)"
| y_restart: "sync_step E s (recover_syncs s)"
| y_other: "no_new_mark (ys_db s) db' \<Longrightarrow> sync_step E s (s\<lparr>ys_db := db'\<rparr>)"

definition sync_start :: "app_db \<Rightarrow> sync_sys" where
  "sync_start db = \<lparr>ys_db = db\<lparr>ad_syncs := [], ad_backups := []\<rparr>, ys_phase = Y_Idle, ys_proofs = []\<rparr>"

inductive sync_reachable :: "sync_env \<Rightarrow> sync_sys \<Rightarrow> bool" for E where
  ys_start: "sync_reachable E (sync_start db)"
| ys_step: "sync_reachable E s \<Longrightarrow> sync_step E s s' \<Longrightarrow> sync_reachable E s'"

section \<open>Marks\<close>

definition marks :: "app_db \<Rightarrow> nat set" where
  "marks db = bh_id ` {x \<in> set (ad_backups db). bh_upload_status x = UPLOADED}"

lemma marks_mono:
  "(\<And>x'. x' \<in> set (ad_backups db') \<Longrightarrow> bh_upload_status x' = UPLOADED \<Longrightarrow>
      \<exists>x \<in> set (ad_backups db). bh_id x = bh_id x' \<and> bh_upload_status x = UPLOADED) \<Longrightarrow> marks db' \<subseteq> marks db"
  unfolding marks_def by (auto simp: image_iff) metis

lemma marks_same: "ad_backups db' = ad_backups db \<Longrightarrow> marks db' = marks db"
  by (simp add: marks_def)

lemma marks_set_backup:
  assumes "\<And>x. bh_id (f x) = bh_id x"
  shows "marks (set_backup b f db) \<subseteq> insert b (marks db)"
  using assms unfolding marks_def set_backup_def by (auto simp: set_upd_where image_iff split: if_splits)

lemma marks_set_backup_none:
  assumes "\<And>x. bh_id (f x) = bh_id x" "\<And>x. bh_upload_status (f x) = UPLOADED \<Longrightarrow> bh_upload_status x = UPLOADED"
  shows "marks (set_backup b f db) \<subseteq> marks db"
  by (rule marks_mono) (use assms in \<open>auto simp: set_backup_def set_upd_where split: if_splits\<close>)

lemma marks_set_upload: "st \<noteq> UPLOADED \<Longrightarrow> marks (set_upload b st db) \<subseteq> marks db"
  unfolding set_upload_def by (rule marks_set_backup_none) simp_all

lemma marks_of_task: "st \<noteq> UPLOADED \<Longrightarrow> marks (mark_of_task t st db) \<subseteq> marks db"
  by (auto simp: mark_of_task_def split: option.splits dest: subsetD [OF marks_set_upload])

lemma marks_sync [simp]: "marks (set_sync i f db) = marks db" "marks (audit_as now u a k n d db) = marks db"
  by (simp_all add: marks_def set_sync_def)

lemma marks_created: "marks (snd (sync_create now b d r p m t db)) = marks db"
  by (simp add: sync_create_def Let_def marks_def)

lemma enqueue_upload_result:
  assumes "enqueue_upload now b force db = (out, db')"
  shows "db' = db \<or> (\<exists>r p n. db' = set_upload b PENDING
    (snd (sync_create now (Some b) UPLOAD_DIR r p (attempts_allowed (sync_config db)) n db)))"
proof (cases "require_sync db")
  case (Inr g)
  then have "g = sync_config db" by (simp add: require_sync_def split: if_splits)
  then show ?thesis
    using assms Inr
    by (auto simp: enqueue_upload_def case_prod_beta split: option.splits if_splits)
qed (use assms in \<open>simp add: enqueue_upload_def\<close>)

lemma marks_enqueue: "enqueue_upload now b force db = (out, db') \<Longrightarrow> marks db' \<subseteq> marks db"
  using enqueue_upload_result [of now b force db out db'] marks_set_upload [of PENDING b] marks_created by fastforce

lemma marks_imported: "bh_upload_status r \<noteq> UPLOADED \<Longrightarrow> marks (snd (history_create r db)) = marks db"
  by (auto simp: history_create_def Let_def marks_def)

lemma by_filename_result:
  assumes "enqueue_upload_by_filename now listing f force db = (out, db')"
  shows "db' = db \<or> (\<exists>i. enqueue_upload now i force db = (out, db'))
    \<or> (\<exists>a i. enqueue_upload now i force (snd (history_create (imported_artifact a) db)) = (out, db'))"
proof -
  have "\<exists>i. enqueue_upload now i force (snd (history_create (imported_artifact a) db)) = (out, db')"
    if "(let (r, db1) = history_create (imported_artifact a) db in enqueue_upload now (bh_id r) force db1) = (out, db')" for a
    using that by (cases "history_create (imported_artifact a) db") auto
  then show ?thesis
    using assms by (auto simp: enqueue_upload_by_filename_def split: sum.splits option.splits)
qed

lemma marks_by_filename:
  assumes "enqueue_upload_by_filename now listing f force db = (out, db')"
  shows "marks db' \<subseteq> marks db"
proof -
  have "marks (snd (history_create (imported_artifact a) db)) = marks db" for a
    by (rule marks_imported) (simp add: imported_artifact_def)
  then show ?thesis using by_filename_result [OF assms] marks_enqueue by (metis order_refl)
qed

lemma marks_pending: "marks (enqueue_pending now db) = marks db"
proof -
  have "marks (fold (enqueue_one now g) rs db) = marks db" for g rs db
    by (induction rs arbitrary: db) (simp_all add: enqueue_one_def marks_created)
  then show ?thesis by (simp add: enqueue_pending_def Let_def)
qed

lemma marks_failure: "marks (record_sync_failure E now u i m db) \<subseteq> marks db"
proof (cases "sync_get db i")
  case (Some t)
  have n: "marks (notify_exhausted C now i b a m db) = marks db" for C b a db
    by (rule marks_same) (simp add: notify_exhausted_def)
  have "marks (mark_of_task t st (set_sync i f db)) \<subseteq> marks db" if "st \<noteq> UPLOADED" for st f
    using marks_of_task [OF that, of t "set_sync i f db"] by simp
  then show ?thesis by (simp add: record_sync_failure_def Some Let_def n)
qed (simp add: record_sync_failure_def)

lemma marks_success: "marks (record_sync_success now i a p db) \<subseteq> set (proven db i) \<union> marks db"
proof (cases "sync_get db i")
  case (Some t)
  have "bh_id (uploaded_row t' p x) = bh_id x" for t' x by (simp add: uploaded_row_def Let_def split: option.split prod.split)
  from marks_set_backup [of "uploaded_row t' p" for t', OF this]
  show ?thesis by (auto simp: record_sync_success_def Some Let_def proven_def split: option.split) (metis insertE marks_sync(1) subsetD)
qed (simp add: record_sync_success_def)

lemma marks_verify:
  assumes "verify_route now check b db = (out, db')"
  shows "marks db' \<subseteq> set (check_proves out b) \<union> marks db"
proof -
  have id: "bh_id (verified_row now v x) = bh_id x" for v x by (simp add: verified_row_def)
  have "marks (set_backup b (verified_row now v) db) \<subseteq> set (if rc_verified v then [b] else []) \<union> marks db" for v
  proof (cases "rc_verified v")
    case True
    then show ?thesis using marks_set_backup [of "verified_row now v" b db] id by simp
  next
    case False
    then have "marks (set_backup b (verified_row now v) db) \<subseteq> marks db"
      by (intro marks_set_backup_none id) (simp add: verified_row_def split: if_splits)
    with False show ?thesis by simp
  qed
  then show ?thesis
    using assms by (auto simp: verify_route_def verify_backup_def session_def check_proves_def split: sum.splits option.splits)
qed

lemma marks_cancel:
  assumes "cancel_sync_route now user agent i db = (out, db')"
  shows "marks db' \<subseteq> marks db"
proof -
  have m: "x \<in> marks db" if "x \<in> marks (mark_of_task t U_FAILED (set_sync i f db))" for t f x
    using marks_of_task [of U_FAILED t "set_sync i f db"] that by auto
  show ?thesis
    using assms by (auto dest!: m simp: cancel_sync_route_def cancel_transfer_def session_def Let_def
        split: sum.splits option.splits if_splits app_error.splits)
qed

lemma marks_retry:
  assumes "retry_sync_route now user i db = (out, db')"
  shows "marks db' \<subseteq> marks db"
proof -
  have m: "x \<in> marks db" if "x \<in> marks (mark_of_task t PENDING (set_sync i f db))" for t f x
    using marks_of_task [of PENDING t "set_sync i f db"] that by auto
  show ?thesis
    using assms by (auto dest!: m simp: retry_sync_route_def retry_task_def session_def split: sum.splits option.splits)
qed

lemma marks_advance:
  "marks (ys_db (sync_advance E now tick u started polled s)) \<subseteq> set (ys_proofs (sync_advance E now tick u started polled s)) \<union> marks (ys_db s)
    \<and> set (ys_proofs s) \<subseteq> set (ys_proofs (sync_advance E now tick u started polled s))"
proof (cases "ys_phase s")
  case Y_Filled
  then show ?thesis by (simp add: sync_advance_def claim_sync_def split: option.split)
next
  case (Y_Claimed i)
  then show ?thesis using marks_set_upload [of UPLOADING] by (auto simp: sync_advance_def load_sync_def split: option.split)
next
  case (Y_Poll i a since)
  have "marks (ys_db (sync_poll E tick i a since polled s)) = marks (ys_db s)" "ys_proofs (sync_poll E tick i a since polled s) = ys_proofs s"
    by (simp_all add: sync_poll_def Let_def split: sum.split app_error.split prod.split)
  then show ?thesis by (simp add: sync_advance_def Y_Poll)
next
  case (Y_Report i t p)
  then show ?thesis using marks_success [of now i t p "ys_db s"] marks_failure [of E now u i "outcome_text t" "ys_db s"]
    by (auto simp: sync_advance_def)
next
  case (Y_Failed i m)
  then show ?thesis using marks_failure [of E now u i m "ys_db s"] by (auto simp: sync_advance_def)
qed (simp_all add: sync_advance_def marks_pending)

lemma step_marks: "sync_step E s s' \<Longrightarrow> marks (ys_db s') \<subseteq> set (ys_proofs s') \<union> marks (ys_db s) \<and> set (ys_proofs s) \<subseteq> set (ys_proofs s')"
proof (induction rule: sync_step.induct)
  case (y_upload now user b force s out db')
  then show ?case by (auto simp: upload_route_def session_def split: sum.splits prod.splits dest!: marks_enqueue)
next
  case (y_file now user listing f force s out db')
  then show ?case by (auto simp: upload_artifact_route_def session_def split: sum.splits prod.splits dest!: marks_by_filename)
next
  case (y_verify now check b s out db')
  then show ?case using marks_verify by fastforce
next
  case (y_cancel now user agent i s out db')
  then show ?case using marks_cancel by fastforce
next
  case (y_retry now user i s out db')
  then show ?case using marks_retry by fastforce
next
  case (y_work s now tick u started polled)
  show ?case by (rule marks_advance)
next
  case (y_crash s)
  then show ?case by (simp add: sync_crash_def split: option.split)
next
  case (y_restart s)
  then show ?case by (simp add: recover_syncs_def marks_def)
next
  case (y_other s db')
  then show ?case using marks_mono [of db' "ys_db s"] by (auto simp: no_new_mark_def)
qed

lemma reachable_marks: "sync_reachable E s \<Longrightarrow> marks (ys_db s) \<subseteq> set (ys_proofs s)"
proof (induction rule: sync_reachable.induct)
  case (ys_start db)
  then show ?case by (simp add: sync_start_def marks_def)
next
  case (ys_step s s')
  then show ?case using step_marks [OF ys_step(2)] by blast
qed

section \<open>Attempts\<close>

text \<open>
  The books of transfer \<open>k\<close>: how often the worker claimed it since it was queued or last retried by an
  operator, how many restarts in that time found it running, and whether it was retried at all. Every
  step of the program has its rule (\<open>ledger_of_reachable\<close>).
\<close>

definition attempt_begins :: "nat \<Rightarrow> sync_sys \<Rightarrow> sync_sys \<Rightarrow> bool" where
  "attempt_begins k s s' = (ys_phase s = Y_Filled \<and> ys_phase s' = Y_Claimed k)"

definition interrupted :: "nat \<Rightarrow> sync_sys \<Rightarrow> bool" where
  "interrupted k s = (\<exists>t \<in> set (ad_syncs (ys_db s)). sy_id t = k \<and> sy_status t = S_RUNNING)"

inductive ledger :: "sync_env \<Rightarrow> nat \<Rightarrow> sync_sys \<Rightarrow> nat \<Rightarrow> nat \<Rightarrow> bool \<Rightarrow> bool" for E k where
  lg_start: "ledger E k (sync_start db) 0 0 False"
| lg_work: "ledger E k s c r p \<Longrightarrow> s' = sync_advance E now tick u started polled s \<Longrightarrow>
    ledger E k s' (if attempt_begins k s s' then Suc c else c) r p"
| lg_restart: "ledger E k s c r p \<Longrightarrow> ledger E k (recover_syncs s) c (if interrupted k s then Suc r else r) p"
| lg_retried: "ledger E k s c r p \<Longrightarrow> retry_sync_route now user k (ys_db s) = (Inr t, db') \<Longrightarrow>
    ledger E k (s\<lparr>ys_db := db'\<rparr>) 0 0 True"
| lg_retry: "ledger E k s c r p \<Longrightarrow> retry_sync_route now user i (ys_db s) = (out, db') \<Longrightarrow> i \<noteq> k \<or> \<not> is_ok out \<Longrightarrow>
    ledger E k (s\<lparr>ys_db := db'\<rparr>) c r p"
| lg_upload: "ledger E k s c r p \<Longrightarrow> upload_route now user b force (ys_db s) = (out, db') \<Longrightarrow>
    ledger E k (s\<lparr>ys_db := db'\<rparr>) c r p"
| lg_file: "ledger E k s c r p \<Longrightarrow> upload_artifact_route now user listing f force (ys_db s) = (out, db') \<Longrightarrow>
    ledger E k (s\<lparr>ys_db := db'\<rparr>) c r p"
| lg_verify: "ledger E k s c r p \<Longrightarrow> verify_route now check b (ys_db s) = (out, db') \<Longrightarrow>
    ledger E k (s\<lparr>ys_db := db', ys_proofs := check_proves out b @ ys_proofs s\<rparr>) c r p"
| lg_cancel: "ledger E k s c r p \<Longrightarrow> cancel_sync_route now user agent i (ys_db s) = (out, db') \<Longrightarrow>
    ledger E k (s\<lparr>ys_db := db'\<rparr>) c r p"
| lg_crash: "ledger E k s c r p \<Longrightarrow> ledger E k (sync_crash s) c r p"
| lg_other: "ledger E k s c r p \<Longrightarrow> no_new_mark (ys_db s) db' \<Longrightarrow> ledger E k (s\<lparr>ys_db := db'\<rparr>) c r p"

lemma ledger_of_reachable: "sync_reachable E s \<Longrightarrow> \<exists>c r p. ledger E k s c r p"
proof (induction rule: sync_reachable.induct)
  case (ys_start db)
  show ?case by (blast intro: lg_start)
next
  case (ys_step s s')
  then obtain c r p where l: "ledger E k s c r p" by blast
  from ys_step(2) show ?case
  proof cases
    case (y_retry now user i out db')
    show ?thesis
    proof (cases "i = k \<and> is_ok out")
      case True
      then obtain t where "retry_sync_route now user k (ys_db s) = (Inr t, db')"
        using y_retry(2) by (auto simp: is_ok_def split: sum.splits)
      from lg_retried [OF l this] show ?thesis unfolding y_retry(1) by blast
    next
      case False
      then have "i \<noteq> k \<or> \<not> is_ok out" by blast
      from lg_retry [OF l y_retry(2) this] show ?thesis unfolding y_retry(1) by blast
    qed
  qed (blast intro: lg_work [OF l refl] lg_restart [OF l] lg_upload [OF l] lg_file [OF l] lg_verify [OF l]
      lg_cancel [OF l] lg_crash [OF l] lg_other [OF l])+
qed

lemma ledger_reachable: "ledger E k s c r p \<Longrightarrow> sync_reachable E s"
  by (induction rule: ledger.induct) (auto intro: sync_reachable.intros sync_step.intros)

text \<open>What the row says of its books: the counter is the claims less the interruptions, one more after a retry.\<close>

definition allowance :: "bool \<Rightarrow> sync_row \<Rightarrow> nat" where
  "allowance p t = (if p then max 2 (sy_max_attempts t) else max 1 (sy_max_attempts t))"


definition tally_ok :: "nat \<Rightarrow> nat \<Rightarrow> bool \<Rightarrow> sync_row \<Rightarrow> bool" where
  "tally_ok c r p t = (sy_attempt t + r = c + (if p then 1 else 0) \<and> sy_attempt t \<le> allowance p t
     \<and> (sy_status t = S_QUEUED \<longrightarrow> sy_attempt t < allowance p t) \<and> (sy_status t = S_RUNNING \<longrightarrow> 0 < sy_attempt t))"

definition tally :: "nat \<Rightarrow> nat \<Rightarrow> nat \<Rightarrow> bool \<Rightarrow> app_db \<Rightarrow> bool" where
  "tally k c r p db = (distinct (map sy_id (ad_syncs db)) \<and> (\<forall>t \<in> set (ad_syncs db). sy_id t = k \<longrightarrow> tally_ok c r p t)
     \<and> (k \<notin> sy_id ` set (ad_syncs db) \<longrightarrow> c = 0 \<and> r = 0 \<and> \<not> p))"

lemma tally_frame: "ad_syncs db' = ad_syncs db \<Longrightarrow> tally k c r p db' = tally k c r p db"
  by (simp add: tally_def)



lemma tally_marks [simp]:
  "tally k c r p (set_upload b st db) = tally k c r p db" "tally k c r p (mark_of_task t st db) = tally k c r p db"
  "tally k c r p (set_backup b f db) = tally k c r p db" "tally k c r p (audit_as now u a n x d db) = tally k c r p db"
  "tally k c r p (notify_exhausted C now i b' j m db) = tally k c r p db"
  by (simp_all add: tally_def set_upload_def mark_of_task_def set_backup_def notify_exhausted_def split: option.split)














section \<open>Properties\<close>

text \<open>
  C5. The dashboard never claims a remote copy without proof: in every reachable state a backup marked
  uploaded is one of which the agent reported a successful transfer or a matching verification.
\<close>

theorem uploaded_only_with_proof:
  assumes "sync_reachable E s" and "x \<in> set (ad_backups (ys_db s))" and "bh_upload_status x = UPLOADED"
  shows "bh_id x \<in> set (ys_proofs s)"
  using reachable_marks [OF assms(1)] assms(2,3) by (auto simp: marks_def)

text \<open>
  C6. Retention trusts only proofs: when a pass over a reachable database gives up the local copy of a backup
  that had to be uploaded, the agent had reported the copy on the remote.
\<close>

theorem local_copy_given_up_only_with_proof:
  assumes "sync_reachable E s" and "backups_wf (ys_db s)"
    and "apply_retention A C now stamp backup_id (ys_db s, w) = (r, (db', w'))"
    and "b \<in> set (ad_backups (ys_db s))" and "b' \<in> set (ad_backups db')" and "bh_id b' = bh_id b"
    and "bh_local_deleted_at b' \<noteq> bh_local_deleted_at b" and "bh_upload_status b \<noteq> NOT_REQUIRED"
  shows "bh_id b \<in> set (ys_proofs s) \<and> bh_remote_path b \<noteq> None"
proof -
  have "marker LOC_LOCAL b' \<noteq> marker LOC_LOCAL b" using assms(7) by (simp add: marker_def)
  from marked_copies_are_expendable [OF assms(2-6) this] have "replicated b"
    by (simp add: may_delete_def may_delete_local_def)
  then have "bh_upload_status b = UPLOADED" "bh_remote_path b \<noteq> None" using assms(8) by (auto simp: replicated_def)
  then show ?thesis using reachable_marks [OF assms(1)] assms(4) by (auto simp: marks_def)
qed


text \<open>
  A cancelled upload comes back: the operator cancels a transfer in flight, the agent stops it, and
  the worker takes the agent's answer \<open>cancelled\<close> for a failure and queues the transfer again.
\<close>

lemma cancelled_upload_is_requeued:
  assumes t: "sync_get (ys_db s) i = Some t" "\<not> sync_exhausted t"
    and ph: "ys_phase s = Y_Poll i a since"
    and c: "cancel_sync_route now user (Inr ()) i (ys_db s) = (Inr t', db')"
    and p: "at_state k = ''cancelled''"
  shows "map_option sy_status (sync_get (ys_db (sync_advance E n2 k2 u2 st2 po2
    (sync_advance E n1 k1 u1 st1 (Inr (k, p)) (s\<lparr>ys_db := db'\<rparr>)))) i) = Some S_QUEUED"
proof -
  let ?db = "set_sync i (cancelled_sync now) (ys_db s)"
  have "db' = audit_as now user SETTINGS_CHANGED ''sync_task'' (sy_id (cancelled_sync now t))
      [(''action'', J_str ''cancel''), (''task_id'', J_int (int i))] (mark_of_task t U_FAILED ?db)"
    using c t(1) by (auto simp: cancel_sync_route_def cancel_transfer_def Let_def session_def split: if_splits)
  then have syncs: "ad_syncs db' = ad_syncs ?db"
    by (simp add: mark_of_task_def set_upload_def set_backup_def split: option.split)
  have id: "sy_id t = i" using t(1) unfolding sync_get_def by (auto dest: find_Some_mem)
  have g: "sync_get db' i = Some (cancelled_sync now t)"
    unfolding sync_get_def syncs using t(1) id
    by (simp add: set_sync_def sync_get_def) (rule find_upd_where_same, simp_all add: cancelled_sync_def)
  let ?f = "failed_sync E n2 u2 (outcome_text k)"
  have m: "ad_syncs (mark_of_task x st (set_sync i ?f db')) = ad_syncs (set_sync i ?f db')" for x st
    by (simp add: mark_of_task_def set_upload_def set_backup_def split: option.split)
  have ne: "\<not> sync_exhausted (cancelled_sync now t)" using t(2) by (simp add: sync_exhausted_def cancelled_sync_def)
  then have "sync_get (record_sync_failure E n2 u2 i (outcome_text k) db') i = Some (?f (cancelled_sync now t))"
    using g by (simp add: record_sync_failure_def Let_def sync_get_def m)
      (simp add: set_sync_def, rule find_upd_where_same, simp_all add: failed_sync_def Let_def id cancelled_sync_def)
  moreover have "at_terminal k" using p by (simp add: at_terminal_def)
  ultimately show ?thesis
    using ne p by (simp add: sync_advance_def ph sync_poll_def Let_def failed_sync_def)
qed

text \<open>
  A verification marks a copy uploaded without writing where it is: a backup never sent by the dashboard
  becomes one whose local copy retention refuses to give up, and whose remote copy it does not see.
\<close>

lemma verified_copy_without_path:
  assumes "bh_remote_path b = None" "rc_verified v"
  shows "bh_upload_status (verified_row now v b) = UPLOADED \<and> \<not> has_remote_copy (verified_row now v b)
    \<and> local_upload_blocker (verified_row now v b) = Some ''blocked_missing_remote_metadata''"
  using assms by (simp add: verified_row_def has_remote_copy_def local_upload_blocker_def)

section \<open>A concrete transfer\<close>

definition up_env :: sync_env where
  "up_env = \<lparr>se_notify = demo_notify, se_grace = 60, se_retry_base = 30, se_retry_max = 3600\<rparr>"

definition up_db :: app_db where
  "up_db = (empty_db cloud_sections)\<lparr>ad_backups := [demo_archive\<lparr>bh_upload_status := PENDING\<rparr>]\<rparr>"

definition up_ready :: sync_sys where
  "up_ready = (sync_start up_db)\<lparr>ys_db := up_db\<rparr>"

definition up_task :: agent_task where
  "up_task = \<lparr>at_state = ''success'', at_error = None, at_finished_at = Some 90, at_duration_seconds = None,
     at_warnings = None, at_filename = None, at_path = None, at_size_bytes = None, at_checksum = None\<rparr>"

definition up_result :: transfer where
  "up_result = \<lparr>tr_bytes = Some 100, tr_verification = Some (Some ''md5'', Some 100), tr_done = None, tr_total = None,
     tr_rate = None\<rparr>"

definition up_go :: "sync_sys \<Rightarrow> sync_sys" where
  "up_go s = sync_advance up_env 50 1 0 (Inr ''task'') (Inr (up_task, up_result)) s"

text \<open>Queued, claimed, loaded, sent, accepted, attached, answered, recorded.\<close>

definition up_done :: sync_sys where
  "up_done = (up_go ^^ 8) up_ready"

lemma up_go_reachable: "sync_reachable up_env s \<Longrightarrow> sync_reachable up_env (up_go s)"
  unfolding up_go_def by (rule ys_step [OF _ y_work])

lemma up_reachable: "sync_reachable up_env ((up_go ^^ n) up_ready)"
proof (induction n)
  case 0
  have "sync_reachable up_env up_ready"
    unfolding up_ready_def
    by (rule ys_step [OF ys_start y_other]) (simp add: no_new_mark_def up_db_def sync_start_def empty_db_def demo_archive_def)
  then show ?case by simp
qed (simp add: up_go_reachable)

definition up_row :: sync_row where
  "up_row = \<lparr>sy_id = 1, sy_backup_id = Some 7, sy_direction = UPLOAD_DIR, sy_status = S_QUEUED, sy_agent_task_id = None,
     sy_remote_name = Some ''gdrive'', sy_remote_path = Some ''proxsync/dump'', sy_bytes_total = None,
     sy_bytes_transferred = 0, sy_rate_bps = None, sy_attempt = 0, sy_max_attempts = 4, sy_next_retry_at = None,
     sy_started_at = None, sy_finished_at = None, sy_error_message = None, sy_created_at = 50\<rparr>"

definition up_backup :: "upload_status \<Rightarrow> backup_row" where
  "up_backup st = demo_archive\<lparr>bh_upload_status := st\<rparr>"

lemma up_backup_fields [simp]: "bh_id (up_backup st) = 7" "bh_filename (up_backup st) = Some ''a''"
  "bh_upload_status (up_backup st) = st" "bh_status (up_backup st) = B_SUCCESS" "bh_local_deleted_at (up_backup st) = None"
  "(up_backup st)\<lparr>bh_upload_status := st'\<rparr> = up_backup st'"
  by (simp_all add: up_backup_def demo_archive_def)

lemma up_ready_facts: "ad_backups (ys_db up_ready) = [up_backup PENDING]" "ad_syncs (ys_db up_ready) = []"
  "ys_phase up_ready = Y_Idle" "ys_proofs up_ready = []" "ad_sections (ys_db up_ready) = cloud_sections"
  by (simp_all add: up_ready_def up_db_def sync_start_def up_backup_def empty_db_def)

lemma up_filled: "ad_backups (ys_db (up_go up_ready)) = [up_backup PENDING]" "ad_syncs (ys_db (up_go up_ready)) = [up_row]"
  "ys_phase (up_go up_ready) = Y_Filled" "ys_proofs (up_go up_ready) = []"
proof -
  have g: "sync_config (ys_db up_ready) = (sc_gdrive default_sections)\<lparr>gd_enabled := True\<rparr>"
    by (simp add: sync_config_def up_ready_facts cloud_sections_def)
  have a: "awaiting_upload (ys_db up_ready) 100 = [up_backup PENDING]"
    by (simp add: awaiting_upload_def up_ready_facts)
  have n: "sync_active_for (ys_db up_ready) 7 = None" by (simp add: sync_active_for_def first_sync_def up_ready_facts)
  have "enqueue_pending 50 (ys_db up_ready) = (ys_db up_ready)\<lparr>ad_syncs := [up_row]\<rparr>"
    by (simp add: enqueue_pending_def g a enqueue_one_def n sync_create_def Let_def up_ready_facts next_id_def)
      (simp add: default_sections_def attempts_allowed_def up_row_def)
  then show "ad_backups (ys_db (up_go up_ready)) = [up_backup PENDING]" "ad_syncs (ys_db (up_go up_ready)) = [up_row]"
    "ys_phase (up_go up_ready) = Y_Filled" "ys_proofs (up_go up_ready) = []"
    by (simp_all add: up_go_def sync_advance_def up_ready_facts)
qed

lemma up_claimed: "ad_backups (ys_db ((up_go ^^ 2) up_ready)) = [up_backup PENDING]"
  "ad_syncs (ys_db ((up_go ^^ 2) up_ready)) = [claimed_sync 50 up_row]"
  "ys_phase ((up_go ^^ 2) up_ready) = Y_Claimed 1" "ys_proofs ((up_go ^^ 2) up_ready) = []"
proof -
  have two: "(up_go ^^ 2) up_ready = up_go (up_go up_ready)" by (simp add: eval_nat_numeral)
  have "next_ready_sync 50 (ys_db (up_go up_ready)) = Some up_row"
    by (simp add: next_ready_sync_def first_sync_def up_filled) (simp add: sync_ready_def up_row_def)
  moreover have "sy_id up_row = 1" by (simp add: up_row_def)
  ultimately show "ad_backups (ys_db ((up_go ^^ 2) up_ready)) = [up_backup PENDING]"
    "ad_syncs (ys_db ((up_go ^^ 2) up_ready)) = [claimed_sync 50 up_row]"
    "ys_phase ((up_go ^^ 2) up_ready) = Y_Claimed 1" "ys_proofs ((up_go ^^ 2) up_ready) = []"
    unfolding two by (simp_all add: up_go_def [of "up_go up_ready"] sync_advance_def up_filled claim_sync_def set_sync_def)
qed

definition up_running :: sync_row where
  "up_running = (claimed_sync 50 up_row)\<lparr>sy_agent_task_id := Some ''task''\<rparr>"

lemma up_go_phases:
  "ys_phase s = Y_Send p \<Longrightarrow> up_go s = s\<lparr>ys_phase := Y_Sent (sp_task p)\<rparr>"
  "ys_phase s = Y_Sent i \<Longrightarrow> up_go s = s\<lparr>ys_phase := Y_Accepted i ''task''\<rparr>"
  "ys_phase s = Y_Accepted i a \<Longrightarrow> up_go s = s\<lparr>ys_db := set_sync i (\<lambda>t. t\<lparr>sy_agent_task_id := Some a\<rparr>) (ys_db s),
     ys_phase := Y_Poll i a None\<rparr>"
  "ys_phase s = Y_Poll i a c \<Longrightarrow> up_go s = s\<lparr>ys_phase := Y_Report i up_task up_result\<rparr>"
  by (simp_all add: up_go_def sync_advance_def upload_answer_def sync_poll_def at_terminal_def up_task_def)

lemma up_polling: "ad_backups (ys_db ((up_go ^^ 6) up_ready)) = [up_backup UPLOADING]"
  "ad_syncs (ys_db ((up_go ^^ 6) up_ready)) = [up_running]"
  "ys_phase ((up_go ^^ 6) up_ready) = Y_Poll 1 ''task'' None" "ys_proofs ((up_go ^^ 6) up_ready) = []"
proof -
  define s2 where "s2 = (up_go ^^ 2) up_ready"
  define s3 where "s3 = up_go s2"
  note claimed = up_claimed [folded s2_def]
  have t: "sy_id (claimed_sync 50 up_row) = 1" "sy_backup_id (claimed_sync 50 up_row) = Some 7"
    by (simp_all add: claimed_sync_def up_row_def)
  obtain p where s3: "ys_phase s3 = Y_Send p" "sp_task p = 1" "ad_syncs (ys_db s3) = [claimed_sync 50 up_row]"
    "ad_backups (ys_db s3) = [up_backup UPLOADING]" "ys_proofs s3 = []"
    by (simp add: s3_def up_go_def [of s2] sync_advance_def claimed load_sync_def sync_get_def backup_get_def t [simplified]
        set_upload_def set_backup_def)
  have six: "(up_go ^^ 6) up_ready = up_go (up_go (up_go s3))" by (simp add: s3_def s2_def eval_nat_numeral)
  have "up_go s3 = s3\<lparr>ys_phase := Y_Sent 1\<rparr>" using up_go_phases(1) [OF s3(1)] s3(2) by simp
  then have "up_go (up_go s3) = s3\<lparr>ys_phase := Y_Accepted 1 ''task''\<rparr>" using up_go_phases(2) [of "s3\<lparr>ys_phase := Y_Sent 1\<rparr>" 1] by simp
  then have "up_go (up_go (up_go s3)) = s3\<lparr>ys_db := set_sync 1 (\<lambda>t. t\<lparr>sy_agent_task_id := Some ''task''\<rparr>) (ys_db s3),
     ys_phase := Y_Poll 1 ''task'' None\<rparr>" using up_go_phases(3) [of "s3\<lparr>ys_phase := Y_Accepted 1 ''task''\<rparr>" 1 "''task''"] by simp
  then show "ad_backups (ys_db ((up_go ^^ 6) up_ready)) = [up_backup UPLOADING]"
    "ad_syncs (ys_db ((up_go ^^ 6) up_ready)) = [up_running]"
    "ys_phase ((up_go ^^ 6) up_ready) = Y_Poll 1 ''task'' None" "ys_proofs ((up_go ^^ 6) up_ready) = []"
    unfolding six by (simp_all add: s3 [simplified] set_sync_def t [simplified] up_running_def)
qed

definition up_finished :: backup_row where
  "up_finished = uploaded_row (succeeded_sync 50 up_task up_result up_running) up_result (up_backup UPLOADING)"

lemma up_done_facts: "ad_backups (ys_db up_done) = [up_finished]" "ys_proofs up_done = [7]"
  "ad_syncs (ys_db up_done) = [succeeded_sync 50 up_task up_result up_running]"
proof -
  let ?s = "(up_go ^^ 6) up_ready"
  have r: "sy_id up_running = 1" "sy_backup_id up_running = Some 7" by (simp_all add: up_running_def claimed_sync_def up_row_def)
  have t: "at_state up_task = ''success''" by (simp add: up_task_def)
  have seven: "up_go ?s = ?s\<lparr>ys_phase := Y_Report 1 up_task up_result\<rparr>" by (rule up_go_phases(4)) (rule up_polling(3))
  have eq: "up_done = up_go (?s\<lparr>ys_phase := Y_Report 1 up_task up_result\<rparr>)"
    unfolding seven [symmetric] by (simp add: up_done_def eval_nat_numeral)
  show "ad_backups (ys_db up_done) = [up_finished]" "ys_proofs up_done = [7]"
    "ad_syncs (ys_db up_done) = [succeeded_sync 50 up_task up_result up_running]"
    unfolding eq by (simp_all add: up_go_def sync_advance_def record_sync_success_def sync_get_def up_polling
        r [simplified] t proven_def set_sync_def set_backup_def Let_def up_finished_def)
qed

lemma up_done_reachable: "sync_reachable up_env up_done"
  unfolding up_done_def by (rule up_reachable)

lemma up_finished_fields: "bh_id up_finished = 7" "bh_upload_status up_finished = UPLOADED"
  "bh_remote_path up_finished = Some ''gdrive:proxsync/dump''" "bh_local_deleted_at up_finished = None"
  by (simp_all add: up_finished_def uploaded_row_def up_result_def Let_def succeeded_sync_def text_of_def up_running_def
      claimed_sync_def up_row_def)

theorem uploaded_only_with_proof_witness: "7 \<in> set (ys_proofs up_done)"
  using uploaded_only_with_proof [OF up_done_reachable, of up_finished] by (simp add: up_done_facts up_finished_fields)



section \<open>A concrete pass over verified copies\<close>

text \<open>Two copies of one guest, both with a remote path, both pending; one local copy is kept.\<close>

definition older_copy :: "upload_status \<Rightarrow> backup_row" where
  "older_copy st = demo_copy\<lparr>bh_upload_status := st\<rparr>"

definition newer_copy :: "upload_status \<Rightarrow> backup_row" where
  "newer_copy st = demo_copy\<lparr>bh_id := 8, bh_filename := Some ''b'', bh_started_at := Some 6,
     bh_upload_status := st\<rparr>"

lemma copy_fields [simp]:
  "bh_id (older_copy st) = 7" "bh_id (newer_copy st) = 8"
  "bh_filename (older_copy st) = Some ''a''" "bh_filename (newer_copy st) = Some ''b''"
  "bh_started_at (older_copy st) = Some 5" "bh_started_at (newer_copy st) = Some 6"
  "bh_upload_status (older_copy st) = st" "bh_upload_status (newer_copy st) = st"
  "\<not> bh_retention_locked (older_copy st)" "\<not> bh_retention_locked (newer_copy st)"
  "bh_remote_path (older_copy st) = Some ''g:d''" "bh_remote_path (newer_copy st) = Some ''g:d''"
  "guest_of (older_copy st) = (101, VM)" "guest_of (newer_copy st) = (101, VM)"
  "has_local_copy (older_copy st)" "has_local_copy (newer_copy st)"
  "has_remote_copy (older_copy UPLOADED)" "has_remote_copy (newer_copy UPLOADED)"
  "bh_local_deleted_at (older_copy st) = None"
  by (simp_all add: older_copy_def newer_copy_def demo_copy_def guest_of_def has_local_copy_def has_remote_copy_def)

definition kept_sections :: sections where
  "kept_sections = cloud_sections\<lparr>sc_retention := (sc_retention default_sections)\<lparr>rs_keep_local := 1\<rparr>\<rparr>"

definition copies_db :: app_db where
  "copies_db = (empty_db kept_sections)\<lparr>ad_backups := [older_copy PENDING, newer_copy PENDING]\<rparr>"

definition same_check :: remote_check where
  "same_check = \<lparr>rc_outcome = MATCH, rc_verified = True, rc_remote_size = Some 10,
     rc_remote_md5 = None\<rparr>"

definition verified_db :: app_db where
  "verified_db = copies_db\<lparr>ad_backups := [older_copy UPLOADED, newer_copy UPLOADED]\<rparr>"

lemma copies_verified:
  "verified_row 9 same_check (older_copy st) = older_copy UPLOADED"
  "verified_row 9 same_check (newer_copy st) = newer_copy UPLOADED"
  by (simp_all add: verified_row_def same_check_def older_copy_def newer_copy_def demo_copy_def)

lemma verify_one:
  assumes "backup_get db i = Some r" "bh_filename r = Some f" "ad_sections db = kept_sections"
  shows "verify_route 9 (\<lambda>_. Inr same_check) i db = (Inr same_check, set_backup i (verified_row 9 same_check) db)"
  using assms by (simp add: verify_route_def verify_backup_def session_def require_sync_def sync_config_def
      kept_sections_def cloud_sections_def)

lemma verified_reachable: "sync_reachable up_env \<lparr>ys_db = verified_db, ys_phase = Y_Idle, ys_proofs = [7, 8]\<rparr>"
proof -
  let ?mid = "copies_db\<lparr>ad_backups := [older_copy PENDING, newer_copy UPLOADED]\<rparr>"
  have start: "sync_start (empty_db kept_sections) = \<lparr>ys_db = empty_db kept_sections, ys_phase = Y_Idle, ys_proofs = []\<rparr>"
    by (simp add: sync_start_def empty_db_def)
  have new: "no_new_mark (empty_db kept_sections) copies_db" by (simp add: no_new_mark_def copies_db_def)
  have one: "sync_reachable up_env \<lparr>ys_db = copies_db, ys_phase = Y_Idle, ys_proofs = []\<rparr>"
    using ys_step [OF ys_start [of up_env "empty_db kept_sections"] y_other, of copies_db] new by (simp add: start)
  have "verify_route 9 (\<lambda>_. Inr same_check) 8 copies_db = (Inr same_check, ?mid)"
    by (subst verify_one [where r = "newer_copy PENDING" and f = "''b''"])
      (simp_all add: backup_get_def copies_db_def set_backup_def copies_verified)
  from ys_step [OF one y_verify, of 9 _ 8, simplified, OF this]
  have two: "sync_reachable up_env \<lparr>ys_db = ?mid, ys_phase = Y_Idle, ys_proofs = [8]\<rparr>"
    by (simp add: check_proves_def same_check_def)
  have "verify_route 9 (\<lambda>_. Inr same_check) 7 ?mid = (Inr same_check, verified_db)"
    by (subst verify_one [where r = "older_copy PENDING" and f = "''a''"])
      (simp_all add: backup_get_def copies_db_def set_backup_def copies_verified verified_db_def)
  from ys_step [OF two y_verify, of 9 _ 7, simplified, OF this] show ?thesis
    by (simp add: check_proves_def same_check_def)
qed


definition kept_policy :: policy where
  "kept_policy = \<lparr>pr_keep_local = 1, pr_keep_remote = 2, pr_source = PS_GLOBAL,
     pr_resolved = True, pr_block_reason = None, po_dry_run = False, po_gdrive_enabled = True, po_delete_remote = True\<rparr>"

lemma verified_policy: "apply_policy verified_db (Some 7) = kept_policy"
  by (simp add: apply_policy_def policy_for_def verified_db_def copies_db_def kept_sections_def cloud_sections_def
      default_sections_def retention_policy_context_def backup_get_def resolve_policy_def resolved_policy_def
      resolution.defs Let_def kept_policy_def)

lemma verified_copies: "local_for_guest verified_db (101, VM) = [newer_copy UPLOADED, older_copy UPLOADED]"
  "remote_for_guest verified_db (101, VM) = [newer_copy UPLOADED, older_copy UPLOADED]"
  by (simp_all add: local_for_guest_def remote_for_guest_def newest_first_def verified_db_def newest_key_def)

definition kept_reason :: "char list" where "kept_reason = ''within_keep_local_'' @ show_int 1"
definition gone_reason :: "char list" where "gone_reason = ''beyond_keep_local_'' @ show_int 1"
definition remote_reason :: "char list" where "remote_reason = ''within_keep_remote_'' @ show_int 2"

abbreviation gone_plan :: plan where
  "gone_plan \<equiv> plan_of (older_copy UPLOADED) LOC_LOCAL DELETED_LOCAL gone_reason True"

lemma verified_plans: "plans verified_db kept_policy (Some 7) = Inr
  [plan_of (newer_copy UPLOADED) LOC_LOCAL KEPT kept_reason False, gone_plan,
   plan_of (newer_copy UPLOADED) LOC_REMOTE KEPT remote_reason False,
   plan_of (older_copy UPLOADED) LOC_REMOTE KEPT remote_reason False]"
proof -
  have g: "guest_for_backup verified_db 7 = Some (101, VM)"
    by (simp add: guest_for_backup_def backup_get_def verified_db_def)
  have r: "rank_of [newer_copy UPLOADED, older_copy UPLOADED] (newer_copy UPLOADED) = 0"
    "rank_of [newer_copy UPLOADED, older_copy UPLOADED] (older_copy UPLOADED) = 1"
    "rankable [newer_copy UPLOADED, older_copy UPLOADED] = [newer_copy UPLOADED, older_copy UPLOADED]"
    by (simp_all add: rank_of_def rankable_def)
  have "ad_restores verified_db = []" by (simp add: verified_db_def copies_db_def empty_db_def)
  with r g show ?thesis
    by (simp add: plans_def guest_plans_def verified_copies local_plan_def remote_plan_def kept_policy_def
        has_active_restore_def local_upload_blocker_def List.map_filter_def kept_reason_def gone_reason_def remote_reason_def Let_def)
qed


definition verified_pass :: "(app_error + policy \<times> decision list \<times> summary) \<times> app_db \<times> nat" where
  "verified_pass = apply_retention demo_ret_agent demo_notify 9 (\<lambda>_ _. 9) (Some 7) (verified_db, 0)"

lemma verified_pass_result: "ad_backups (fst (snd verified_pass)) =
    [refresh_status ((older_copy UPLOADED)\<lparr>bh_local_deleted_at := Some 9\<rparr>), newer_copy UPLOADED]"
proof -
  let ?k1 = "plan_of (newer_copy UPLOADED) LOC_LOCAL KEPT kept_reason False"
  let ?k2 = "plan_of (newer_copy UPLOADED) LOC_REMOTE KEPT remote_reason False"
  let ?k3 = "plan_of (older_copy UPLOADED) LOC_REMOTE KEPT remote_reason False"
  define db1 where "db1 = record_event ?k3 (render ?k3) kept_policy None (record_event ?k2 (render ?k2) kept_policy None
    (record_event ?k1 (render ?k1) kept_policy None verified_db))"
  define dn where "dn = [(plan_key ?k3, render ?k3), (plan_key ?k2, render ?k2), (plan_key ?k1, render ?k1)]"
  have dry: "\<not> po_dry_run kept_policy" by (simp add: kept_policy_def)
  have st: "record_static kept_policy [?k1, gone_plan, ?k2, ?k3] [] verified_db = (dn, [gone_plan], db1)"
    using dry by (simp add: db1_def dn_def)
  have cong: "plans db1 p i = plans verified_db p i" "apply_policy db1 i = apply_policy verified_db i" for p i
    using plans_cong [of db1 verified_db] by (simp_all add: db1_def)
  have rv: "revalidate db1 (Some 7) gone_plan = Inr (kept_policy, gone_plan)"
    by (simp add: revalidate_def cong verified_policy verified_plans Let_def plan_key_def)
  have call: "call_agent demo_ret_agent gone_plan 0 = (Inr 10, 1)"
    by (simp add: call_agent_def demo_ret_agent_def Let_def)
  have b1: "ad_backups db1 = [older_copy UPLOADED, newer_copy UPLOADED]" by (simp add: db1_def verified_db_def)
  have "snd (delete_copy demo_ret_agent (\<lambda>_ _. 9) gone_plan (db1, 0)) = (mark_local_deleted 7 9 db1, 1)"
    by (simp add: delete_copy_def call settle_def mark_deleted_def Let_def)
  then obtain item where dc: "delete_copy demo_ret_agent (\<lambda>_ _. 9) gone_plan (db1, 0) = (item, mark_local_deleted 7 9 db1, 1)"
    by (metis prod.collapse)
  have ac: "apply_candidates demo_ret_agent (\<lambda>_ _. 9) (Some 7) [gone_plan] dn (db1, 0)
      = (Inr ((plan_key gone_plan, item) # dn), (record_event gone_plan item kept_policy None (mark_local_deleted 7 9 db1), 1))"
    using dry by (simp add: rv dc)
  have "ad_backups (fst (snd verified_pass)) = ad_backups (mark_local_deleted 7 9 db1)"
    by (simp add: verified_pass_def apply_retention_def verified_policy verified_plans st ac Let_def
        del: apply_candidates.simps record_static.simps)
  then show ?thesis by (simp add: mark_local_deleted_def set_backup_def b1)
qed

theorem local_copy_given_up_only_with_proof_witness: "7 \<in> set [7, 8 :: nat] \<and> bh_remote_path (older_copy UPLOADED) \<noteq> None"
proof -
  have "apply_retention demo_ret_agent demo_notify 9 (\<lambda>_ _. 9) (Some 7)
      (ys_db \<lparr>ys_db = verified_db, ys_phase = Y_Idle, ys_proofs = [7, 8]\<rparr>, 0)
      = (fst verified_pass, (fst (snd verified_pass), snd (snd verified_pass)))"
    by (simp add: verified_pass_def)
  from local_copy_given_up_only_with_proof [OF verified_reachable _ this, of "older_copy UPLOADED"
      "refresh_status ((older_copy UPLOADED)\<lparr>bh_local_deleted_at := Some 9\<rparr>)"]
  have "bh_id (older_copy UPLOADED) \<in> set [7, 8] \<and> bh_remote_path (older_copy UPLOADED) \<noteq> None"
    by (simp add: verified_pass_result backups_wf_def verified_db_def refresh_status_def)
  then show ?thesis by simp
qed

end
