(* ===== verification/Schedule.thy ===== *)
theory Schedule
  imports Backups Cron
begin

text \<open>
  Backup schedules: \<open>backend/app/services/schedule_service.py\<close> with the routes of \<open>backup_jobs.py\<close>, and
  the worker that fires them, \<open>backend/app/workers/scheduler.py\<close>. APScheduler is a table of registered
  triggers that the worker rebuilds from \<open>backup_jobs\<close>; when it fires one is its own affair, so any
  registered trigger may fire at any time. The inventory refresh it also runs is left out.
\<close>

section \<open>Forms\<close>

text \<open>What a validated \<open>BackupJobCreate\<close> or \<open>BackupJobUpdate\<close> holds.\<close>

record job_form =
  jf_name :: string
  jf_enabled :: bool
  jf_cron :: string
  jf_timezone :: string
  jf_mode :: backup_mode
  jf_compression :: compression
  jf_zstd_threads :: "int option"
  jf_storage :: string
  jf_selector :: target_selector
  jf_targets :: "job_target list"
  jf_keep_local :: int
  jf_keep_remote :: int
  jf_upload_enabled :: bool
  jf_notify_on_start :: bool
  jf_notify_on_success :: bool
  jf_notify_on_failure :: bool
  jf_bwlimit_kbps :: int
  jf_max_parallel :: int

definition text_within :: "nat \<Rightarrow> nat \<Rightarrow> string \<Rightarrow> bool" where
  "text_within lo hi s = (lo \<le> length s \<and> length s \<le> hi \<and> py_strip s = s)"

definition targets_match_selector :: "job_form \<Rightarrow> bool" where
  "targets_match_selector f =
     ((if jf_selector f = SEL_ALL then jf_targets f = [] else jf_targets f \<noteq> []) \<and> assert_distinct_vmids [] (jf_targets f))"

definition job_form_ok :: "job_form \<Rightarrow> bool" where
  "job_form_ok f = (text_within 1 128 (jf_name f) \<and> text_within 1 64 (jf_cron f) \<and> text_within 1 64 (jf_storage f)
     \<and> py_strip (jf_timezone f) = jf_timezone f \<and> in_bounds 0 64 (jf_zstd_threads f)
     \<and> length (jf_targets f) \<le> MAX_TARGETS \<and> list_all guest_target_ok (jf_targets f)
     \<and> in_bounds 1 365 (Some (jf_keep_local f)) \<and> in_bounds 0 365 (Some (jf_keep_remote f))
     \<and> in_bounds 0 10000000 (Some (jf_bwlimit_kbps f)) \<and> in_bounds 1 8 (Some (jf_max_parallel f))
     \<and> targets_match_selector f)"

section \<open>The service\<close>

text \<open>Time zones, APScheduler's triggers and their next moment are parameters, as in \<open>Cron\<close>.\<close>

record 't cron_env =
  ce_zone_known :: "string \<Rightarrow> bool"
  ce_trigger :: "string list \<Rightarrow> string \<Rightarrow> 't option"
  ce_next :: "'t \<Rightarrow> datetime option \<Rightarrow> datetime \<Rightarrow> datetime option"
  ce_grace :: int \<comment> \<open>\<open>scheduler_misfire_grace_seconds\<close>\<close>

definition trigger_of :: "'t cron_env \<Rightarrow> string \<Rightarrow> string \<Rightarrow> app_error + 't" where
  "trigger_of E expression timezone = build_trigger (ce_zone_known E) (ce_trigger E) expression timezone"

definition fire_after :: "'t cron_env \<Rightarrow> datetime \<Rightarrow> string \<Rightarrow> string \<Rightarrow> app_error + datetime option" where
  "fire_after E now expression timezone =
     next_fire_time (ce_zone_known E) (ce_trigger E) (ce_next E) expression timezone now"

definition next_if :: "'t cron_env \<Rightarrow> datetime \<Rightarrow> bool \<Rightarrow> string \<Rightarrow> string \<Rightarrow> app_error + datetime option" where
  "next_if E now enabled expression timezone = (if enabled then fire_after E now expression timezone else Inr None)"

definition schedule_get :: "app_db \<Rightarrow> nat \<Rightarrow> app_error + job_row" where
  "schedule_get db i = (case job_get db i of None \<Rightarrow> Inl (App_NotFound ''No backup job with that id'') | Some j \<Rightarrow> Inr j)"

definition set_job :: "nat \<Rightarrow> (job_row \<Rightarrow> job_row) \<Rightarrow> app_db \<Rightarrow> app_db" where
  "set_job i f db = db\<lparr>ad_jobs := upd_where (\<lambda>j. jb_id j = i) f (ad_jobs db)\<rparr>"

text \<open>The columns \<open>name\<close> and \<open>(job_id, vmid)\<close> are unique; breaking either is an \<open>IntegrityError\<close>.\<close>

definition name_stored :: "app_db \<Rightarrow> nat option \<Rightarrow> string \<Rightarrow> bool" where
  "name_stored db except n = list_ex (\<lambda>j. jb_name j = n \<and> Some (jb_id j) \<noteq> except) (ad_jobs db)"

definition INTEGRITY :: app_error where "INTEGRITY = App_Internal ''IntegrityError''"

definition fill_job :: "job_form \<Rightarrow> string \<Rightarrow> datetime option \<Rightarrow> job_row \<Rightarrow> job_row" where
  "fill_job f expression next j = j\<lparr>jb_name := jf_name f, jb_enabled := jf_enabled f, jb_cron := expression,
     jb_timezone := jf_timezone f, jb_mode := jf_mode f, jb_compression := jf_compression f,
     jb_zstd_threads := jf_zstd_threads f, jb_storage := jf_storage f, jb_selector := jf_selector f,
     jb_targets := jf_targets f, jb_keep_local := jf_keep_local f, jb_keep_remote := jf_keep_remote f,
     jb_upload_enabled := jf_upload_enabled f, jb_notify_on_start := jf_notify_on_start f,
     jb_notify_on_success := jf_notify_on_success f, jb_notify_on_failure := jf_notify_on_failure f,
     jb_bwlimit_kbps := jf_bwlimit_kbps f, jb_max_parallel := jf_max_parallel f, jb_next_run_at := next\<rparr>"

definition new_job :: "job_form \<Rightarrow> string \<Rightarrow> datetime option \<Rightarrow> job_row" where
  "new_job f expression next = \<lparr>jb_id = 0, jb_name = jf_name f, jb_enabled = jf_enabled f, jb_cron = expression,
     jb_timezone = jf_timezone f, jb_mode = jf_mode f, jb_compression = jf_compression f,
     jb_zstd_threads = jf_zstd_threads f, jb_storage = jf_storage f, jb_selector = jf_selector f,
     jb_targets = jf_targets f, jb_keep_local = jf_keep_local f, jb_keep_remote = jf_keep_remote f,
     jb_upload_enabled = jf_upload_enabled f, jb_notify_on_start = jf_notify_on_start f,
     jb_notify_on_success = jf_notify_on_success f, jb_notify_on_failure = jf_notify_on_failure f,
     jb_bwlimit_kbps = jf_bwlimit_kbps f, jb_max_parallel = jf_max_parallel f, jb_last_run_at = None,
     jb_next_run_at = next\<rparr>"

definition timed_form :: "'t cron_env \<Rightarrow> datetime \<Rightarrow> job_form \<Rightarrow> app_error + string \<times> datetime option" where
  "timed_form E now f = bindR (validate_cron (ce_zone_known E) (ce_trigger E) (jf_cron f) (jf_timezone f)) (\<lambda>expression.
     bindR (next_if E now (jf_enabled f) expression (jf_timezone f)) (\<lambda>next. Inr (expression, next)))"

definition create_job :: "'t cron_env \<Rightarrow> datetime \<Rightarrow> job_form \<Rightarrow> app_db \<Rightarrow> (app_error + job_row) \<times> app_db" where
  "create_job E now f db =
     (if job_by_name db (jf_name f) \<noteq> None then (Inl (App_Conflict ''A backup job with that name already exists''), db)
      else (case timed_form E now f of
          Inl e \<Rightarrow> (Inl e, db)
        | Inr (expression, next) \<Rightarrow>
            if name_stored db None (jf_name f) then (Inl INTEGRITY, db)
            else (let (j, db1) = job_add (new_job f expression next) db in (Inr j, db1))))"

text \<open>
  \<open>replace_targets\<close> clears the collection and appends the new rows; with \<open>autoflush\<close> off
  (\<open>db/session.py\<close>) SQLAlchemy's unit of work sends both in one flush, the INSERTs before the DELETEs, so a
  VMID that stays collides with its old row.
\<close>

definition targets_collide :: "job_row \<Rightarrow> job_form \<Rightarrow> bool" where
  "targets_collide j f = list_ex (\<lambda>t. jt_vmid t \<in> jt_vmid ` set (jb_targets j)) (jf_targets f)"

definition update_job :: "'t cron_env \<Rightarrow> datetime \<Rightarrow> nat \<Rightarrow> job_form \<Rightarrow> app_db \<Rightarrow> (app_error + job_row) \<times> app_db" where
  "update_job E now i f db = (case schedule_get db i of
     Inl e \<Rightarrow> (Inl e, db)
   | Inr j \<Rightarrow>
       if (case job_by_name db (jf_name f) of None \<Rightarrow> False | Some clash \<Rightarrow> jb_id clash \<noteq> jb_id j)
       then (Inl (App_Conflict ''A backup job with that name already exists''), db)
       else (case timed_form E now f of
           Inl e \<Rightarrow> (Inl e, db)
         | Inr (expression, next) \<Rightarrow>
             if name_stored db (Some i) (jf_name f) \<or> targets_collide j f then (Inl INTEGRITY, db)
             else (Inr (fill_job f expression next j), set_job i (fill_job f expression next) db)))"

definition set_enabled :: "'t cron_env \<Rightarrow> datetime \<Rightarrow> nat \<Rightarrow> bool \<Rightarrow> app_db \<Rightarrow> (app_error + job_row) \<times> app_db" where
  "set_enabled E now i enabled db = (case schedule_get db i of
     Inl e \<Rightarrow> (Inl e, db)
   | Inr j \<Rightarrow> (case next_if E now enabled (jb_cron j) (jb_timezone j) of
       Inl e \<Rightarrow> (Inl e, db)
     | Inr next \<Rightarrow> (let f = (\<lambda>j. j\<lparr>jb_enabled := enabled, jb_next_run_at := next\<rparr>) in (Inr (f j), set_job i f db))))"

definition run_now :: "datetime \<Rightarrow> nat \<Rightarrow> nat option \<Rightarrow> app_db \<Rightarrow> (app_error + job_row \<times> run_row) \<times> app_db" where
  "run_now now i requester db = (case schedule_get db i of
     Inl e \<Rightarrow> (Inl e, db)
   | Inr j \<Rightarrow> (case request_job_run now j MANUAL requester db of
       (Inl e, db1) \<Rightarrow> (Inl e, db1)
     | (Inr r, db1) \<Rightarrow> (Inr (j, r), db1)))"

definition delete_schedule :: "nat \<Rightarrow> app_db \<Rightarrow> (app_error + unit) \<times> app_db" where
  "delete_schedule i db = (case schedule_get db i of Inl e \<Rightarrow> (Inl e, db) | Inr j \<Rightarrow> (Inr (), job_delete i db))"

definition PREVIEW_FIRE_TIMES :: nat where "PREVIEW_FIRE_TIMES = 5"

definition preview_job :: "'t cron_env \<Rightarrow> datetime \<Rightarrow> nat \<Rightarrow> app_db \<Rightarrow> app_error + datetime list \<times> resolved_target list \<times> string list" where
  "preview_job E now i db = bindR (schedule_get db i) (\<lambda>j.
     bindR (next_fire_times (ce_zone_known E) (ce_trigger E) (ce_next E) (jb_cron j) (jb_timezone j) PREVIEW_FIRE_TIMES now) (\<lambda>ts.
       Inr (ts, resolve_job_targets db j)))"

section \<open>Routes\<close>

definition audit_job :: "datetime \<Rightarrow> nat \<times> string \<Rightarrow> job_row \<Rightarrow> app_db \<Rightarrow> app_db" where
  "audit_job now user j = audit_as now user SETTINGS_CHANGED ''backup_job'' (jb_id j)
     [(''name'', J_str (jb_name j)), (''cron'', J_str (jb_cron j)), (''enabled'', J_bool (jb_enabled j))]"

definition create_job_route :: "'t cron_env \<Rightarrow> datetime \<Rightarrow> nat \<times> string \<Rightarrow> job_form \<Rightarrow> app_db \<Rightarrow> (app_error + job_row) \<times> app_db" where
  "create_job_route E now user f db = get_session (case create_job E now f db of
     (Inl e, db1) \<Rightarrow> (Inl e, db1) | (Inr j, db1) \<Rightarrow> (Inr j, audit_job now user j db1)) db"

definition update_job_route :: "'t cron_env \<Rightarrow> datetime \<Rightarrow> nat \<times> string \<Rightarrow> nat \<Rightarrow> job_form \<Rightarrow> app_db \<Rightarrow> (app_error + job_row) \<times> app_db" where
  "update_job_route E now user i f db = session (case update_job E now i f db of
     (Inl e, db1) \<Rightarrow> (Inl e, db1) | (Inr j, db1) \<Rightarrow> (Inr j, audit_job now user j db1)) db"

definition delete_job_route :: "datetime \<Rightarrow> nat \<times> string \<Rightarrow> nat \<Rightarrow> app_db \<Rightarrow> (app_error + unit) \<times> app_db" where
  "delete_job_route now user i db = session (case delete_schedule i db of
     (Inl e, db1) \<Rightarrow> (Inl e, db1)
   | (Inr u, db1) \<Rightarrow> (Inr u, audit_as now user SETTINGS_CHANGED ''backup_job'' i [(''deleted'', J_bool True)] db1)) db"

definition enable_job_route :: "'t cron_env \<Rightarrow> datetime \<Rightarrow> nat \<Rightarrow> bool \<Rightarrow> app_db \<Rightarrow> (app_error + job_row) \<times> app_db" where
  "enable_job_route E now i enabled db = get_session (set_enabled E now i enabled db) db"

definition run_job_route :: "datetime \<Rightarrow> nat \<times> string \<Rightarrow> nat \<Rightarrow> app_db \<Rightarrow> (app_error + job_row \<times> run_row) \<times> app_db" where
  "run_job_route now user i db = get_session (case run_now now i (Some (fst user)) db of
     (Inl e, db1) \<Rightarrow> (Inl e, db1)
   | (Inr (j, r), db1) \<Rightarrow> (Inr (j, r), audit_as now user AUD_BACKUP_STARTED ''backup_run'' (rn_id r)
       [(''job_id'', J_int (int i)), (''guests'', J_int (int (rn_total r)))] db1)) db"

section \<open>The scheduler\<close>

record 't sched_sys =
  gs_db :: app_db
  gs_registered :: "(nat \<times> 't) list"
  gs_resync :: bool \<comment> \<open>the one-off job \<open>scheduler-resync\<close> is waiting\<close>

definition next_job :: "'t cron_env \<Rightarrow> datetime \<Rightarrow> job_row \<Rightarrow> job_row" where
  "next_job E now j = (case fire_after E now (jb_cron j) (jb_timezone j) of Inl e \<Rightarrow> j | Inr n \<Rightarrow> j\<lparr>jb_next_run_at := n\<rparr>)"

definition register_job :: "'t cron_env \<Rightarrow> job_row \<Rightarrow> (nat \<times> 't) list \<Rightarrow> (nat \<times> 't) list" where
  "register_job E j reg = (case trigger_of E (jb_cron j) (jb_timezone j) of Inl e \<Rightarrow> reg | Inr t \<Rightarrow> dict_put (jb_id j) t reg)"

definition sync_jobs :: "'t cron_env \<Rightarrow> datetime \<Rightarrow> 't sched_sys \<Rightarrow> 't sched_sys" where
  "sync_jobs E now s = (let jobs = jobs_enabled (gs_db s) in
     s\<lparr>gs_db := (gs_db s)\<lparr>ad_jobs := upd_where jb_enabled (next_job E now) (ad_jobs (gs_db s))\<rparr>,
       gs_registered := fold (register_job E) jobs (filter (\<lambda>r. fst r \<in> jb_id ` set jobs) (gs_registered s))\<rparr>)"

definition fired_job :: "datetime \<Rightarrow> datetime option \<Rightarrow> job_row \<Rightarrow> job_row" where
  "fired_job now next j = j\<lparr>jb_last_run_at := Some now, jb_next_run_at := next\<rparr>"

text \<open>A refusal is logged; an exception that is no \<open>AppError\<close>, or one of the last line, rolls back.\<close>

definition fire :: "'t cron_env \<Rightarrow> datetime \<Rightarrow> nat \<Rightarrow> app_db \<Rightarrow> (app_error + nat option) \<times> app_db" where
  "fire E now i db = session (case job_get db i of
     None \<Rightarrow> (Inr None, db)
   | Some j \<Rightarrow>
       if \<not> jb_enabled j then (Inr None, db)
       else (case request_job_run now j SCHEDULE None db of
           (Inl (App_Internal d), db1) \<Rightarrow> (Inl (App_Internal d), db1)
         | (Inl e, db1) \<Rightarrow> (Inr None, db1)
         | (Inr r, db1) \<Rightarrow> (case fire_after E now (jb_cron j) (jb_timezone j) of
             Inl e \<Rightarrow> (Inl e, db1)
           | Inr next \<Rightarrow> (Inr (Some (rn_id r)), set_job i (fired_job now next) db1)))) db"

definition collect_missed :: "datetime \<Rightarrow> app_db \<Rightarrow> (nat \<times> int) list" where
  "collect_missed now db = List.map_filter (\<lambda>j. case jb_next_run_at j of None \<Rightarrow> None
     | Some t \<Rightarrow> if t < now then Some (jb_id j, now - t) else None) (jobs_enabled db)"

fun fire_missed :: "'t cron_env \<Rightarrow> datetime \<Rightarrow> (nat \<times> int) list \<Rightarrow> app_db \<Rightarrow> (app_error + nat list) \<times> app_db" where
  "fire_missed E now [] db = (Inr [], db)"
| "fire_missed E now ((i, late) # ms) db =
     (if late > ce_grace E * 1000000 then fire_missed E now ms db
      else (case fire E now i db of
          (Inl e, db1) \<Rightarrow> (Inl e, db1)
        | (Inr run, db1) \<Rightarrow> (case fire_missed E now ms db1 of
            (Inl e, db2) \<Rightarrow> (Inl e, db2)
          | (Inr runs, db2) \<Rightarrow> (Inr (case run of None \<Rightarrow> runs | Some r \<Rightarrow> r # runs), db2))))"

text \<open>A start of the dashboard: nothing is registered yet.\<close>

definition start_scheduler :: "'t cron_env \<Rightarrow> datetime \<Rightarrow> app_db \<Rightarrow> (app_error + nat list) \<times> 't sched_sys" where
  "start_scheduler E now db =
     (let missed = collect_missed now db;
          s = sync_jobs E now \<lparr>gs_db = db, gs_registered = [], gs_resync = False\<rparr>;
          (out, db1) = fire_missed E now missed (gs_db s) in
      (out, s\<lparr>gs_db := db1\<rparr>))"

section \<open>What the steps keep\<close>

inductive sched_step :: "'t cron_env \<Rightarrow> 't sched_sys \<Rightarrow> 't sched_sys \<Rightarrow> bool" for E where
  g_create: "job_form_ok f \<Longrightarrow> create_job_route E now user f (gs_db s) = (out, db') \<Longrightarrow>
    sched_step E s (s\<lparr>gs_db := db', gs_resync := gs_resync s \<or> is_ok out\<rparr>)"
| g_update: "job_form_ok f \<Longrightarrow> update_job_route E now user i f (gs_db s) = (out, db') \<Longrightarrow>
    sched_step E s (s\<lparr>gs_db := db', gs_resync := gs_resync s \<or> is_ok out\<rparr>)"
| g_delete: "delete_job_route now user i (gs_db s) = (done, db') \<Longrightarrow>
    sched_step E s (s\<lparr>gs_db := db', gs_resync := gs_resync s \<or> is_ok done\<rparr>)"
| g_enable: "enable_job_route E now i enabled (gs_db s) = (out, db') \<Longrightarrow>
    sched_step E s (s\<lparr>gs_db := db', gs_resync := gs_resync s \<or> is_ok out\<rparr>)"
| g_run: "run_job_route now user i (gs_db s) = (started, db') \<Longrightarrow> sched_step E s (s\<lparr>gs_db := db'\<rparr>)"
| g_resync: "gs_resync s \<Longrightarrow> sched_step E s ((sync_jobs E now s)\<lparr>gs_resync := False\<rparr>)"
| g_fire: "i \<in> fst ` set (gs_registered s) \<Longrightarrow> fire E now i (gs_db s) = (fired, db') \<Longrightarrow> sched_step E s (s\<lparr>gs_db := db'\<rparr>)"
| g_restart: "start_scheduler E now (gs_db s) = (begun, s') \<Longrightarrow> sched_step E s s'"
| g_other: "ad_jobs db' = ad_jobs (gs_db s) \<Longrightarrow> sched_step E s (s\<lparr>gs_db := db'\<rparr>)"

definition sched_init :: "app_db \<Rightarrow> 't sched_sys" where
  "sched_init db = \<lparr>gs_db = db\<lparr>ad_jobs := []\<rparr>, gs_registered = [], gs_resync = False\<rparr>"

inductive sched_reachable :: "'t cron_env \<Rightarrow> 't sched_sys \<Rightarrow> bool" for E where
  gs_init: "sched_reachable E (sched_init db)"
| gs_step: "sched_reachable E s \<Longrightarrow> sched_step E s s' \<Longrightarrow> sched_reachable E s'"

text \<open>A stored schedule fires, resolves its guests once each, and gives valid options.\<close>

definition job_ok :: "'t cron_env \<Rightarrow> job_row \<Rightarrow> bool" where
  "job_ok E j = (is_ok (trigger_of E (jb_cron j) (jb_timezone j)) \<and> distinct (named_targets j) \<and> is_ok (job_options j)
     \<and> (jb_enabled j \<or> jb_next_run_at j = None))"

definition jobs_ok :: "'t cron_env \<Rightarrow> app_db \<Rightarrow> bool" where
  "jobs_ok E db = (distinct (map jb_id (ad_jobs db)) \<and> distinct (map jb_name (ad_jobs db)) \<and> (\<forall>j \<in> set (ad_jobs db). job_ok E j))"

definition mirrored :: "'t cron_env \<Rightarrow> 't sched_sys \<Rightarrow> bool" where
  "mirrored E s = (\<forall>i t. map_of (gs_registered s) i = Some t \<longleftrightarrow>
     (\<exists>j \<in> set (ad_jobs (gs_db s)). jb_id j = i \<and> jb_enabled j \<and> trigger_of E (jb_cron j) (jb_timezone j) = Inr t))"

definition sched_inv :: "'t cron_env \<Rightarrow> 't sched_sys \<Rightarrow> bool" where
  "sched_inv E s = (jobs_ok E (gs_db s) \<and> (gs_resync s \<or> mirrored E s))"

lemma jobs_ok_upd:
  assumes "jobs_ok E db" "ad_jobs db' = upd_where P f (ad_jobs db)"
    and "\<And>j. jb_id (f j) = jb_id j" "\<And>j. jb_name (f j) = jb_name j"
    and "\<And>j. j \<in> set (ad_jobs db) \<Longrightarrow> P j \<Longrightarrow> job_ok E j \<Longrightarrow> job_ok E (f j)"
  shows "jobs_ok E db'"
proof -
  have "map jb_id (ad_jobs db') = map jb_id (ad_jobs db)" "map jb_name (ad_jobs db') = map jb_name (ad_jobs db)"
    unfolding assms(2) by (rule map_upd_where, simp add: assms(3,4))+
  then show ?thesis using assms(1,5) by (auto simp: jobs_ok_def assms(2) set_upd_where)
qed

lemma trigger_fires: "trigger_of E c z = Inr t \<Longrightarrow> \<exists>n. fire_after E now c z = Inr n"
  by (simp add: trigger_of_def fire_after_def next_fire_time_def next_fire_times_def)

lemma timed_form_ok:
  "timed_form E now f = Inr (c, n) \<Longrightarrow> is_ok (trigger_of E c (jf_timezone f)) \<and> (jf_enabled f \<or> n = None)"
  by (auto simp: timed_form_def validate_cron_def Let_def trigger_of_def next_if_def bindR_Inr_iff split: if_splits)

lemma form_targets: "job_form_ok f \<Longrightarrow> distinct (map (\<lambda>t. (jt_vmid t, jt_guest_type t)) (jf_targets f))"
  by (auto simp: job_form_ok_def targets_match_selector_def assert_distinct_vmids_iff distinct_map inj_on_def)

lemma form_row_ok:
  assumes "job_form_ok f" "is_ok (trigger_of E c (jf_timezone f))" "jf_enabled f \<or> n = None"
  shows "job_ok E (fill_job f c n j)" "job_ok E (new_job f c n\<lparr>jb_id := i\<rparr>)"
  using assms form_targets [OF assms(1)]
  by (auto simp: job_ok_def fill_job_def new_job_def named_targets_def job_options_def make_options_def options_ok_def
      job_form_ok_def in_bounds_def split: option.splits)

lemma job_get_Some: "job_get db i = Some j \<Longrightarrow> j \<in> set (ad_jobs db) \<and> jb_id j = i"
  unfolding job_get_def by (auto dest: find_Some_mem)

lemma schedule_get_Inr: "schedule_get db i = Inr j \<Longrightarrow> j \<in> set (ad_jobs db) \<and> jb_id j = i"
  by (auto simp: schedule_get_def dest: job_get_Some split: option.splits)

text \<open>A request either changes nothing or adds one queued run of the job.\<close>

lemma job_run_result:
  assumes "request_job_run now j trigger requester db = (out, db')"
  shows "case out of Inl e \<Rightarrow> db' = db
    | Inr r \<Rightarrow> db' = db\<lparr>ad_runs := ad_runs db @ [r]\<rparr> \<and> rn_job_id r = Some (jb_id j) \<and> run_active r
        \<and> active_for_job db (jb_id j) = None"
proof (cases out)
  case (Inl e)
  then show ?thesis using assms by (auto simp: request_job_run_def Let_def case_prod_beta split: if_splits sum.splits)
next
  case (Inr r)
  with assms obtain ts o' where c: "create_run now (Some (jb_id j)) trigger requester ts o' db = (r, db')"
    "active_for_job db (jb_id j) = None" by (auto elim: job_run)
  then show ?thesis using Inr create_run_row [OF c(1)] by (simp add: run_active_def)
qed

lemma job_run_frame [simp]: "ad_jobs (snd (request_job_run now j trigger requester db)) = ad_jobs db"
  using job_run_result [OF prod.collapse [symmetric], of now j trigger requester db] by (simp split: sum.splits)

section \<open>Schedules stay valid\<close>

lemma create_jobs_ok:
  assumes "jobs_ok E db" "job_form_ok f" "create_job E now f db = (out, db')"
  shows "jobs_ok E db'"
proof -
  have "jobs_ok E (snd (job_add (new_job f c n) db))" if "timed_form E now f = Inr (c, n)" "\<not> name_stored db None (jf_name f)" for c n
  proof -
    have "job_ok E (new_job f c n\<lparr>jb_id := i\<rparr>)" for i using form_row_ok(2) [OF assms(2)] timed_form_ok [OF that(1)] by blast
    moreover have "jf_name f \<notin> jb_name ` set (ad_jobs db)" using that(2) by (auto simp: name_stored_def list_ex_iff)
    ultimately show ?thesis
      using assms(1) next_id_fresh [of "map jb_id (ad_jobs db)"] by (auto simp: jobs_ok_def job_add_def Let_def new_job_def)
  qed
  then show ?thesis using assms(1,3) by (auto simp: create_job_def case_prod_beta split: if_splits sum.splits prod.splits)
qed

lemma update_jobs_ok:
  assumes "jobs_ok E db" "job_form_ok f" "update_job E now i f db = (out, db')"
  shows "jobs_ok E db'"
proof -
  have "jobs_ok E (set_job i (fill_job f c n) db)"
    if j: "schedule_get db i = Inr j" and t: "timed_form E now f = Inr (c, n)" and n: "\<not> name_stored db (Some i) (jf_name f)" for j c n
  proof -
    let ?js = "upd_where (\<lambda>j. jb_id j = i) (fill_job f c n) (ad_jobs db)"
    have id: "distinct (map jb_id ?js)"
      using assms(1) map_upd_where [of "\<lambda>j. jb_id j = i" jb_id "fill_job f c n"] by (simp add: jobs_ok_def fill_job_def)
    have nm: "jb_name j \<noteq> jf_name f" if "j \<in> set (ad_jobs db)" "jb_id j \<noteq> i" for j
      using n that by (auto simp: name_stored_def list_ex_iff)
    have "distinct (map jb_name ?js)"
    proof -
      have k: "inj_on jb_name (set (ad_jobs db))" "distinct (ad_jobs db)" "inj_on jb_id (set (ad_jobs db))"
        using assms(1) by (auto simp: jobs_ok_def distinct_map)
      have "distinct ?js" using id by (simp add: distinct_map)
      moreover have "inj_on jb_name (set ?js)"
        using k(1,3) nm by (auto simp: set_upd_where inj_on_def fill_job_def split: if_splits)
          (metis (mono_tags, lifting))+
      ultimately show ?thesis by (simp add: distinct_map)
    qed
    moreover have "job_ok E (fill_job f c n j)" for j using form_row_ok(1) [OF assms(2)] timed_form_ok [OF t] by blast
    ultimately show ?thesis using assms(1) id by (auto simp: jobs_ok_def set_job_def set_upd_where)
  qed
  then show ?thesis using assms(1,3) by (auto simp: update_job_def case_prod_beta split: if_splits sum.splits prod.splits)
qed

lemma enable_jobs_ok:
  assumes "jobs_ok E db" "set_enabled E now i enabled db = (out, db')"
  shows "jobs_ok E db'"
proof -
  have "jobs_ok E (set_job i (\<lambda>j. j\<lparr>jb_enabled := enabled, jb_next_run_at := n\<rparr>) db)" if "enabled \<or> n = None" for n
    by (rule jobs_ok_upd [OF assms(1), where P = "\<lambda>j. jb_id j = i" and f = "\<lambda>j. j\<lparr>jb_enabled := enabled, jb_next_run_at := n\<rparr>"])
      (use that in \<open>auto simp: set_job_def job_ok_def named_targets_def job_options_def\<close>)
  then show ?thesis using assms
    by (auto simp: set_enabled_def next_if_def Let_def split: sum.splits if_splits)
qed

lemma delete_jobs_ok: "jobs_ok E db \<Longrightarrow> jobs_ok E (job_delete i db)"
  by (auto simp: jobs_ok_def job_delete_def intro: distinct_map_filter)

lemma job_ok_timed: "job_ok E j \<Longrightarrow> jb_enabled j \<Longrightarrow> job_ok E (j\<lparr>jb_next_run_at := n\<rparr>)" "job_ok E j \<Longrightarrow> jb_enabled j \<Longrightarrow> job_ok E (fired_job now n j)"
  by (simp_all add: job_ok_def named_targets_def job_options_def fired_job_def)

lemma sync_jobs_ok: "jobs_ok E (gs_db s) \<Longrightarrow> jobs_ok E (gs_db (sync_jobs E now s))"
  by (rule jobs_ok_upd [where P = jb_enabled and f = "next_job E now"])
    (auto simp: sync_jobs_def Let_def next_job_def job_ok_timed split: sum.split)

text \<open>A firing leaves the schedules alone but for the times of the job it fires.\<close>

lemma fire_cases:
  assumes "fire E now i db = (out, db')"
  obtains "db' = db"
  | j r n where "job_get db i = Some j" "jb_enabled j" "out = Inr (Some (rn_id r))" "fire_after E now (jb_cron j) (jb_timezone j) = Inr n"
      "db' = set_job i (fired_job now n) (db\<lparr>ad_runs := ad_runs db @ [r]\<rparr>)" "rn_job_id r = Some i" "run_active r"
      "active_for_job db i = None" "request_job_run now j SCHEDULE None db = (Inr r, db\<lparr>ad_runs := ad_runs db @ [r]\<rparr>)"
proof (cases "job_get db i")
  case (Some j)
  note id = job_get_Some [OF Some]
  obtain o1 db1 where r: "request_job_run now j SCHEDULE None db = (o1, db1)" by fastforce
  note result = job_run_result [OF r]
  show ?thesis
  proof (cases "\<exists>x n. o1 = Inr x \<and> fire_after E now (jb_cron j) (jb_timezone j) = Inr n \<and> jb_enabled j")
    case True
    then obtain x n where x: "o1 = Inr x" "fire_after E now (jb_cron j) (jb_timezone j) = Inr n" "jb_enabled j" by blast
    then show ?thesis using assms Some r result id that(2) [of j x n] by (simp add: fire_def session_def)
  next
    case False
    then have "db' = db" using assms Some r result
      by (auto simp: fire_def session_def split: sum.splits if_splits app_error.splits)
    then show ?thesis by (rule that(1))
  qed
qed (use assms in \<open>auto simp: fire_def session_def intro: that\<close>)

lemma fire_jobs_ok:
  assumes "jobs_ok E db" "fire E now i db = (out, db')"
  shows "jobs_ok E db'"
  using assms(2)
proof (cases rule: fire_cases)
  case (2 j r n)
  have "jb_enabled q" if "q \<in> set (ad_jobs db)" "jb_id q = i" for q
    using that job_get_Some [OF 2(1)] 2(2) assms(1) distinct_key_eq [of jb_id "ad_jobs db" q j] by (simp add: jobs_ok_def)
  then show ?thesis unfolding 2(5)
    by (intro jobs_ok_upd [OF assms(1), where P = "\<lambda>j. jb_id j = i" and f = "fired_job now n"])
      (auto simp: set_job_def job_ok_timed, simp_all add: fired_job_def)
qed (use assms in simp)

lemma fire_missed_jobs_ok: "jobs_ok E db \<Longrightarrow> fire_missed E now ms db = (out, db') \<Longrightarrow> jobs_ok E db'"
proof (induction ms arbitrary: db out db')
  case (Cons m ms)
  obtain i late where m: "m = (i, late)" by fastforce
  obtain o1 db1 where f: "fire E now i db = (o1, db1)" by fastforce
  obtain o2 db2 where r: "fire_missed E now ms db1 = (o2, db2)" by fastforce
  have "jobs_ok E db1" "jobs_ok E db2" using fire_jobs_ok [OF Cons.prems(1) f] Cons.IH [OF _ r] by blast+
  then show ?case using Cons.prems Cons.IH [OF Cons.prems(1)] by (auto simp: m f r split: if_splits sum.splits)
qed simp

section \<open>The schedule in memory\<close>

lemma set_jobs_enabled [simp]: "set (jobs_enabled db) = {j \<in> set (ad_jobs db). jb_enabled j}"
  by (auto simp: jobs_enabled_def)

lemma map_of_dict_put: "map_of (dict_put k v d) = (map_of d)(k \<mapsto> v)"
  by (induction k v d rule: dict_put.induct) auto

lemma registered_fold:
  assumes "distinct (map jb_id js)" "\<And>j. j \<in> set js \<Longrightarrow> is_ok (trigger_of E (jb_cron j) (jb_timezone j))"
  shows "map_of (fold (register_job E) js reg) i = Some t \<longleftrightarrow>
    (\<exists>j \<in> set js. jb_id j = i \<and> trigger_of E (jb_cron j) (jb_timezone j) = Inr t) \<or> (i \<notin> jb_id ` set js \<and> map_of reg i = Some t)"
  using assms
proof (induction js arbitrary: reg)
  case (Cons j js)
  obtain u where u: "trigger_of E (jb_cron j) (jb_timezone j) = Inr u" using Cons.prems(2) [of j] by (auto simp: is_ok_iff)
  then have "map_of (register_job E j reg) = (map_of reg)(jb_id j \<mapsto> u)" by (simp add: register_job_def map_of_dict_put)
  then show ?case using Cons u by (auto split: if_splits)
qed simp

text \<open>The times of a job say nothing about its trigger.\<close>

definition same_trigger :: "(job_row \<Rightarrow> job_row) \<Rightarrow> bool" where
  "same_trigger f = (\<forall>j. jb_id (f j) = jb_id j \<and> jb_enabled (f j) = jb_enabled j \<and> jb_cron (f j) = jb_cron j
     \<and> jb_timezone (f j) = jb_timezone j)"

lemma same_trigger_bex:
  "same_trigger f \<Longrightarrow> (\<exists>j \<in> set (upd_where P f js). Q (jb_id j) (jb_enabled j) (jb_cron j) (jb_timezone j))
    \<longleftrightarrow> (\<exists>j \<in> set js. Q (jb_id j) (jb_enabled j) (jb_cron j) (jb_timezone j))"
  by (induction js) (auto simp: same_trigger_def)

lemma same_trigger_times [simp]: "same_trigger (next_job E now)" "same_trigger (fired_job now n)"
  by (simp_all add: same_trigger_def next_job_def fired_job_def split: sum.split)

lemma sync_mirrors:
  assumes "jobs_ok E (gs_db s)"
  shows "mirrored E (sync_jobs E now s)"
  unfolding mirrored_def
proof (intro allI)
  fix i t
  let ?js = "jobs_enabled (gs_db s)"
  have d: "distinct (map jb_id ?js)"
    using assms by (simp add: jobs_ok_def jobs_enabled_def distinct_map) (auto intro: inj_on_subset)
  have ok: "is_ok (trigger_of E (jb_cron j) (jb_timezone j))" if "j \<in> set ?js" for j
    using assms that by (auto simp: jobs_ok_def job_ok_def)
  have none: "map_of (filter (\<lambda>r. fst r \<in> jb_id ` set ?js) (gs_registered s)) i = None" if "i \<notin> jb_id ` set ?js"
    using that by (auto simp: map_of_eq_None_iff)
  have "map_of (gs_registered (sync_jobs E now s)) i = Some t \<longleftrightarrow>
      (\<exists>j \<in> set ?js. jb_id j = i \<and> trigger_of E (jb_cron j) (jb_timezone j) = Inr t)"
    using registered_fold [OF d ok, where i = i and t = t and reg = "filter (\<lambda>r. fst r \<in> jb_id ` set ?js) (gs_registered s)"] none
    by (auto simp: sync_jobs_def Let_def)
  also have "\<dots> \<longleftrightarrow> (\<exists>j \<in> set (ad_jobs (gs_db (sync_jobs E now s))). jb_id j = i \<and> jb_enabled j \<and> trigger_of E (jb_cron j) (jb_timezone j) = Inr t)"
    using same_trigger_bex [where Q = "\<lambda>k e c z. k = i \<and> e \<and> trigger_of E c z = Inr t" and f = "next_job E now"]
    by (auto simp: sync_jobs_def Let_def)
  finally show "map_of (gs_registered (sync_jobs E now s)) i = Some t \<longleftrightarrow>
    (\<exists>j \<in> set (ad_jobs (gs_db (sync_jobs E now s))). jb_id j = i \<and> jb_enabled j \<and> trigger_of E (jb_cron j) (jb_timezone j) = Inr t)" .
qed

lemma mirrored_times:
  assumes "mirrored E s" "ad_jobs db' = upd_where P f (ad_jobs (gs_db s))" "same_trigger f"
  shows "mirrored E (s\<lparr>gs_db := db'\<rparr>)"
  using assms(1) same_trigger_bex [OF assms(3), where Q = "\<lambda>k e c z. k = i \<and> e \<and> trigger_of E c z = Inr t" for i t]
  by (simp add: mirrored_def assms(2))

lemma fire_mirrored:
  assumes "mirrored E s" "fire E now i (gs_db s) = (out, db')"
  shows "mirrored E (s\<lparr>gs_db := db'\<rparr>)"
  using assms(2)
proof (cases rule: fire_cases)
  case (2 j r n)
  show ?thesis
    by (rule mirrored_times [OF assms(1), where P = "\<lambda>j. jb_id j = i" and f = "fired_job now n"]) (simp_all add: 2(5) set_job_def)
qed (use assms in simp)

lemma fire_missed_mirrored:
  "mirrored E s \<Longrightarrow> fire_missed E now ms (gs_db s) = (out, db') \<Longrightarrow> mirrored E (s\<lparr>gs_db := db'\<rparr>)"
proof (induction ms arbitrary: s out db')
  case (Cons m ms)
  obtain i late where m: "m = (i, late)" by fastforce
  obtain o1 db1 where f: "fire E now i (gs_db s) = (o1, db1)" by fastforce
  obtain o2 db2 where r: "fire_missed E now ms db1 = (o2, db2)" by fastforce
  have "mirrored E (s\<lparr>gs_db := db1\<rparr>)" by (rule fire_mirrored [OF Cons.prems(1) f])
  moreover from Cons.IH [OF this, of o2 db2] have "mirrored E (s\<lparr>gs_db := db2\<rparr>)" using r by simp
  ultimately show ?case using Cons.prems Cons.IH [OF Cons.prems(1)] by (auto simp: m f r split: if_splits sum.splits)
qed simp

lemma start_inv:
  assumes "jobs_ok E db" "start_scheduler E now db = (out, s')"
  shows "sched_inv E s'"
proof -
  let ?s = "sync_jobs E now \<lparr>gs_db = db, gs_registered = [], gs_resync = False\<rparr>"
  obtain o1 db1 where f: "fire_missed E now (collect_missed now db) (gs_db ?s) = (o1, db1)" by fastforce
  have j: "jobs_ok E (gs_db ?s)" by (rule sync_jobs_ok) (use assms(1) in simp)
  have "mirrored E ?s" by (rule sync_mirrors) (use assms(1) in simp)
  from fire_missed_mirrored [OF this f] fire_missed_jobs_ok [OF j f] show ?thesis
    using assms(2) f by (auto simp: start_scheduler_def Let_def sched_inv_def)
qed

text \<open>A request that is refused or rolled back leaves the jobs as they were.\<close>

lemma create_route_result:
  assumes "create_job_route E now user f db = (out, db')" "jobs_ok E db" "job_form_ok f"
  shows "jobs_ok E db' \<and> (is_ok out \<or> ad_jobs db' = ad_jobs db)"
proof -
  obtain o1 db1 where r: "create_job E now f db = (o1, db1)" by fastforce
  have "ad_jobs db1 = ad_jobs db" if "o1 = Inl e" for e
    using r that by (auto simp: create_job_def case_prod_beta split: if_splits sum.splits prod.splits)
  then show ?thesis using assms create_jobs_ok [OF assms(2,3) r]
    by (auto simp: create_job_route_def r get_session_def audit_job_def jobs_ok_def split: sum.splits if_splits)
qed

lemma update_route_result:
  assumes "update_job_route E now user i f db = (out, db')" "jobs_ok E db" "job_form_ok f"
  shows "jobs_ok E db' \<and> (is_ok out \<or> ad_jobs db' = ad_jobs db)"
proof -
  obtain o1 db1 where r: "update_job E now i f db = (o1, db1)" by fastforce
  show ?thesis using assms update_jobs_ok [OF assms(2,3) r]
    by (auto simp: update_job_route_def r session_def audit_job_def jobs_ok_def split: sum.splits)
qed

lemma enable_route_result:
  assumes "enable_job_route E now i enabled db = (out, db')" "jobs_ok E db"
  shows "jobs_ok E db' \<and> (is_ok out \<or> ad_jobs db' = ad_jobs db)"
proof -
  obtain o1 db1 where r: "set_enabled E now i enabled db = (o1, db1)" by fastforce
  have "db1 = db" if "o1 = Inl e" for e using r that by (auto simp: set_enabled_def Let_def split: sum.splits)
  then show ?thesis using assms enable_jobs_ok [OF assms(2) r]
    by (auto simp: enable_job_route_def r get_session_def split: sum.splits if_splits)
qed

lemma delete_route_result:
  assumes "delete_job_route now user i db = (out, db')" "jobs_ok E db"
  shows "jobs_ok E db' \<and> (is_ok out \<or> ad_jobs db' = ad_jobs db)"
  using assms delete_jobs_ok [OF assms(2), of i]
  by (auto simp: delete_job_route_def delete_schedule_def session_def jobs_ok_def split: sum.splits)

lemma run_route_frame: "run_job_route now user i db = (out, db') \<Longrightarrow> ad_jobs db' = ad_jobs db"
  by (auto simp: run_job_route_def run_now_def get_session_def case_prod_beta split: sum.splits if_splits)

lemma sched_step_inv: "sched_step E s s' \<Longrightarrow> sched_inv E s \<Longrightarrow> sched_inv E s'"
proof (induction rule: sched_step.induct)
  case (g_create f now user s out db')
  then show ?case using create_route_result by (fastforce simp: sched_inv_def mirrored_def)
next
  case (g_update f now user i s out db')
  then show ?case using update_route_result by (fastforce simp: sched_inv_def mirrored_def)
next
  case (g_delete now user i s out db')
  then show ?case using delete_route_result [OF g_delete(1), of E] by (auto simp: sched_inv_def mirrored_def)
next
  case (g_enable now i enabled s out db')
  then show ?case using enable_route_result by (fastforce simp: sched_inv_def mirrored_def)
next
  case (g_run now user i s started db')
  then show ?case using run_route_frame [OF g_run(1)] by (simp add: sched_inv_def mirrored_def jobs_ok_def)
next
  case (g_resync s now)
  then show ?case using sync_jobs_ok [of E s now] sync_mirrors [of E s now] by (simp add: sched_inv_def mirrored_def)
next
  case (g_fire i s now fired db')
  then show ?case using fire_jobs_ok [OF _ g_fire(2)] fire_mirrored [OF _ g_fire(2)] by (auto simp: sched_inv_def)
next
  case (g_restart now s begun s')
  then show ?case using start_inv [OF _ g_restart(1)] by (simp add: sched_inv_def)
next
  case (g_other db' s)
  then show ?case by (simp add: sched_inv_def mirrored_def jobs_ok_def)
qed

lemma sched_reachable_inv: "sched_reachable E s \<Longrightarrow> sched_inv E s"
proof (induction rule: sched_reachable.induct)
  case (gs_init db)
  then show ?case by (simp add: sched_init_def sched_inv_def jobs_ok_def mirrored_def)
qed (rule sched_step_inv)

section \<open>Catching up\<close>

definition resolves :: "app_db \<Rightarrow> nat \<Rightarrow> resolved_target list" where
  "resolves db i = (case job_get db i of None \<Rightarrow> [] | Some j \<Rightarrow> fst (resolve_job_targets db j))"

definition job_enabled :: "app_db \<Rightarrow> nat \<Rightarrow> bool" where
  "job_enabled db i = (case job_get db i of None \<Rightarrow> False | Some j \<Rightarrow> jb_enabled j)"

text \<open>No enabled job is due in the past.\<close>

definition on_time :: "datetime \<Rightarrow> app_db \<Rightarrow> bool" where
  "on_time now db = (\<forall>j \<in> set (ad_jobs db). jb_enabled j \<longrightarrow> (case jb_next_run_at j of None \<Rightarrow> True | Some t \<Rightarrow> now \<le> t))"

lemma active_for_job_iff: "active_for_job db i \<noteq> None \<longleftrightarrow> (\<exists>r \<in> set (ad_runs db). rn_job_id r = Some i \<and> run_active r)"
proof -
  have "active_for_job db i \<noteq> None \<longleftrightarrow> set (sort_key rn_id (filter (\<lambda>r. rn_job_id r = Some i \<and> run_active r) (ad_runs db))) \<noteq> {}"
    by (auto simp: active_for_job_def first_run_def simp del: set_sort split: list.splits)
  then show ?thesis by auto
qed

lemma resolve_frame:
  "ad_guests db' = ad_guests db \<Longrightarrow> jb_selector j' = jb_selector j \<Longrightarrow> jb_targets j' = jb_targets j \<Longrightarrow>
   fst (resolve_job_targets db' j') = fst (resolve_job_targets db j)"
  by (simp add: resolve_job_targets_def enabled_map_def enabled_guests_def guests_ordered_def named_targets_def Let_def split: target_selector.split)

lemma job_get_set_job:
  "(\<And>j. jb_id (f j) = jb_id j) \<Longrightarrow> job_get (set_job k f db) i = map_option (\<lambda>j. if jb_id j = k then f j else j) (job_get db i)"
proof -
  assume id: "\<And>j. jb_id (f j) = jb_id j"
  have "find (\<lambda>j. jb_id j = i) (upd_where (\<lambda>j. jb_id j = k) f js) =
      map_option (\<lambda>j. if jb_id j = k then f j else j) (find (\<lambda>j. jb_id j = i) js)" for js
    by (induction js) (auto simp: id)
  then show ?thesis by (simp add: job_get_def set_job_def)
qed

lemma fired_job_fields [simp]: "jb_id (fired_job now n j) = jb_id j" "jb_enabled (fired_job now n j) = jb_enabled j"
  "jb_selector (fired_job now n j) = jb_selector j" "jb_targets (fired_job now n j) = jb_targets j"
  by (simp_all add: fired_job_def)

lemma job_get_runs: "job_get (db\<lparr>ad_runs := rs\<rparr>) i = job_get db i"
  by (simp add: job_get_def)

lemma fire_keeps:
  assumes "fire E now k db = (out, db')"
  shows "resolves db' i = resolves db i" "job_enabled db' i = job_enabled db i" "ad_guests db' = ad_guests db"
    "\<exists>new. ad_runs db' = ad_runs db @ new \<and> (\<forall>r \<in> set new. rn_job_id r = Some k)"
    "\<lbrakk>on_time now db; \<And>t r n. ce_next E t None r = Some n \<Longrightarrow> r \<le> n\<rbrakk> \<Longrightarrow> on_time now db'"
proof -
  from assms have "resolves db' i = resolves db i \<and> job_enabled db' i = job_enabled db i \<and> ad_guests db' = ad_guests db"
  proof (cases rule: fire_cases)
    case (2 j r n)
    have "fst (resolve_job_targets db' (if jb_id q = k then fired_job now n q else q)) = fst (resolve_job_targets db q)" for q
      by (rule resolve_frame) (simp_all add: 2(5) set_job_def)
    then show ?thesis
      by (simp add: resolves_def job_enabled_def 2(5) job_get_set_job job_get_runs split: option.split) (simp add: set_job_def)
  qed simp
  then show "resolves db' i = resolves db i" "job_enabled db' i = job_enabled db i" "ad_guests db' = ad_guests db" by blast+
  from assms show "\<exists>new. ad_runs db' = ad_runs db @ new \<and> (\<forall>r \<in> set new. rn_job_id r = Some k)"
    by (cases rule: fire_cases) (auto simp: set_job_def)
  show "on_time now db'" if t: "on_time now db" and law: "\<And>t r n. ce_next E t None r = Some n \<Longrightarrow> r \<le> n"
    using assms
  proof (cases rule: fire_cases)
    case (2 j r n)
    have "case n of None \<Rightarrow> True | Some u \<Rightarrow> now \<le> u"
      using 2(4) law by (auto simp: fire_after_def next_fire_time_def next_fire_times_def bindR_Inr_iff split: option.splits)
    then show ?thesis using t by (auto simp: on_time_def 2(5) set_job_def set_upd_where fired_job_def)
  qed (use t in simp)
qed

lemma fire_catches:
  assumes "jobs_ok E db" "job_enabled db i"
  obtains run db' where "fire E now i db = (Inr run, db')" "resolves db i = [] \<or> active_for_job db' i \<noteq> None"
proof -
  obtain j where j: "job_get db i = Some j" "jb_enabled j" using assms(2) by (auto simp: job_enabled_def split: option.splits)
  have ok: "job_ok E j" and id: "jb_id j = i" using job_get_Some [OF j(1)] assms(1) by (simp_all add: jobs_ok_def)
  obtain o' where o': "job_options j = Inr o'" using ok by (auto simp: job_ok_def is_ok_iff)
  obtain n where n: "fire_after E now (jb_cron j) (jb_timezone j) = Inr n"
    using ok trigger_fires [of E "jb_cron j" "jb_timezone j" _ now] by (auto simp: job_ok_def is_ok_iff)
  obtain o1 db1 where r: "request_job_run now j SCHEDULE None db = (o1, db1)" by fastforce
  show thesis
  proof (cases o1)
    case (Inr x)
    have "db1 = db\<lparr>ad_runs := ad_runs db @ [x]\<rparr>" "rn_job_id x = Some i" "run_active x"
      using job_run_result [OF r] Inr id by simp_all
    moreover have "fire E now i db = (Inr (Some (rn_id x)), set_job i (fired_job now n) db1)"
      using j r Inr n by (simp add: fire_def session_def)
    ultimately show thesis by (intro that) (auto simp: active_for_job_iff [simplified] set_job_def)
  next
    case (Inl e)
    have "active_for_job db i \<noteq> None \<or> resolves db i = []" "\<exists>d. e = App_Conflict d \<or> e = App_ValidationFailed d"
      using r Inl o' j id by (auto simp: request_job_run_def resolves_def Let_def case_prod_beta split: if_splits prod.splits)
    moreover have "db1 = db" using job_run_result [OF r] Inl by simp
    ultimately show thesis using j r Inl by (intro that [of None db]) (auto simp: fire_def session_def)
  qed
qed

lemma fire_missed_catches:
  assumes "jobs_ok E db" "\<And>m. m \<in> set ms \<Longrightarrow> job_enabled db (fst m)" "fire_missed E now ms db = (out, db')"
  shows "(\<exists>runs. out = Inr runs)
    \<and> (\<forall>m \<in> set ms. snd m \<le> ce_grace E * 1000000 \<longrightarrow> resolves db (fst m) = [] \<or> active_for_job db' (fst m) \<noteq> None)
    \<and> (\<exists>new. ad_runs db' = ad_runs db @ new
        \<and> (\<forall>r \<in> set new. \<exists>m \<in> set ms. rn_job_id r = Some (fst m) \<and> snd m \<le> ce_grace E * 1000000))
    \<and> (on_time now db \<longrightarrow> (\<forall>t r n. ce_next E t None r = Some n \<longrightarrow> r \<le> n) \<longrightarrow> on_time now db')"
  using assms
proof (induction ms arbitrary: db out)
  case (Cons m ms)
  obtain i late where m: "m = (i, late)" by fastforce
  show ?case
  proof (cases "late > ce_grace E * 1000000")
    case True
    then have "fire_missed E now ms db = (out, db')" using Cons.prems(3) by (simp add: m)
    from Cons.IH [OF Cons.prems(1) _ this] Cons.prems(2) True show ?thesis by (fastforce simp: m)
  next
    case False
    have e: "job_enabled db i" using Cons.prems(2) [of m] by (simp add: m)
    obtain run db1 where f: "fire E now i db = (Inr run, db1)" "resolves db i = [] \<or> active_for_job db1 i \<noteq> None"
      by (rule fire_catches [OF Cons.prems(1) e])
    note k = fire_keeps [OF f(1)]
    obtain o2 where r: "fire_missed E now ms db1 = (o2, db')" "is_ok o2 \<longrightarrow> is_ok out"
      using Cons.prems(3) False f(1) by (auto simp: m split: prod.splits sum.splits)
    from Cons.IH [OF fire_jobs_ok [OF Cons.prems(1) f(1)] _ r(1)] Cons.prems(2)
    have ih: "is_ok o2" "\<forall>m \<in> set ms. snd m \<le> ce_grace E * 1000000 \<longrightarrow> resolves db (fst m) = [] \<or> active_for_job db' (fst m) \<noteq> None"
      "\<exists>new. ad_runs db' = ad_runs db1 @ new
        \<and> (\<forall>r \<in> set new. \<exists>m \<in> set ms. rn_job_id r = Some (fst m) \<and> snd m \<le> ce_grace E * 1000000)"
      "on_time now db1 \<Longrightarrow> (\<And>t r n. ce_next E t None r = Some n \<Longrightarrow> r \<le> n) \<Longrightarrow> on_time now db'"
      by (auto simp: k(1,2) is_ok_iff)
    obtain n1 n2 where n: "ad_runs db1 = ad_runs db @ n1" "\<forall>r \<in> set n1. rn_job_id r = Some i" "ad_runs db' = ad_runs db1 @ n2"
      "\<forall>r \<in> set n2. \<exists>m \<in> set ms. rn_job_id r = Some (fst m) \<and> snd m \<le> ce_grace E * 1000000"
      using k(4) ih(3) by blast
    have "active_for_job db1 i \<noteq> None \<Longrightarrow> active_for_job db' i \<noteq> None" unfolding active_for_job_iff using n(3) by auto
    moreover have "\<exists>new. ad_runs db' = ad_runs db @ new
        \<and> (\<forall>r \<in> set new. \<exists>m' \<in> set (m # ms). rn_job_id r = Some (fst m') \<and> snd m' \<le> ce_grace E * 1000000)"
      using n False by (intro exI [of _ "n1 @ n2"]) (auto simp: m)
    ultimately show ?thesis using ih(1,2,4) r(2) f(2) k(5) by (auto simp: m is_ok_iff)
  qed
qed simp


text \<open>The schedules missed while the dashboard was down: enabled, due before now.\<close>

definition missed_by :: "datetime \<Rightarrow> job_row \<Rightarrow> int option" where
  "missed_by now j = (case jb_next_run_at j of Some t \<Rightarrow> if jb_enabled j \<and> t < now then Some (now - t) else None | None \<Rightarrow> None)"

lemma set_collect_missed:
  "set (collect_missed now db) = {(jb_id j, late) | j late. j \<in> set (ad_jobs db) \<and> missed_by now j = Some late}"
proof -
  let ?f = "\<lambda>j. case jb_next_run_at j of None \<Rightarrow> None | Some t \<Rightarrow> if t < now then Some (jb_id j, now - t) else None"
  have "?f j = Some m \<and> jb_enabled j \<longleftrightarrow> (\<exists>late. m = (jb_id j, late) \<and> missed_by now j = Some late)" for j m
    by (auto simp: missed_by_def split: option.splits)
  then show ?thesis unfolding collect_missed_def by (auto simp: set_map_filter) blast+
qed

lemma on_time_missed: "on_time now db \<Longrightarrow> collect_missed now db = []"
proof -
  assume t: "on_time now db"
  have "missed_by now j = None" if "j \<in> set (ad_jobs db)" for j
    using t that by (auto simp: on_time_def missed_by_def split: option.split)
  then have "set (collect_missed now db) = {}" by (auto simp: set_collect_missed)
  then show ?thesis by simp
qed

lemma synced_on_time:
  assumes "jobs_ok E (gs_db s)" "\<And>t r n. ce_next E t None r = Some n \<Longrightarrow> r \<le> n"
  shows "on_time now (gs_db (sync_jobs E now s))"
proof -
  have "case jb_next_run_at (next_job E now j) of None \<Rightarrow> True | Some u \<Rightarrow> now \<le> u" if jm: "j \<in> set (ad_jobs (gs_db s))" for j
  proof -
    obtain t where t: "trigger_of E (jb_cron j) (jb_timezone j) = Inr t" using assms(1) jm by (auto simp: jobs_ok_def job_ok_def is_ok_iff)
    obtain n where "fire_after E now (jb_cron j) (jb_timezone j) = Inr n"
      using trigger_fires [OF t, of now] by blast
    then show ?thesis using assms(2)
      by (auto simp: next_job_def fire_after_def next_fire_time_def next_fire_times_def bindR_Inr_iff split: option.splits)
  qed
  then show ?thesis by (auto simp: on_time_def sync_jobs_def Let_def set_upd_where)
qed

lemma sync_keeps:
  "resolves (gs_db (sync_jobs E now s)) i = resolves (gs_db s) i" "job_enabled (gs_db (sync_jobs E now s)) i = job_enabled (gs_db s) i"
  "ad_runs (gs_db (sync_jobs E now s)) = ad_runs (gs_db s)"
proof -
  let ?db = "gs_db (sync_jobs E now s)"
  have f: "jb_id (next_job E now j) = jb_id j" "jb_enabled (next_job E now j) = jb_enabled j"
    "jb_selector (next_job E now j) = jb_selector j" "jb_targets (next_job E now j) = jb_targets j" for j
    by (simp_all add: next_job_def split: sum.split)
  have "find (\<lambda>j. jb_id j = i) (upd_where jb_enabled (next_job E now) js) =
      map_option (\<lambda>j. if jb_enabled j then next_job E now j else j) (find (\<lambda>j. jb_id j = i) js)" for js
    by (induction js) (auto simp: f)
  then have g: "job_get ?db i = map_option (\<lambda>j. if jb_enabled j then next_job E now j else j) (job_get (gs_db s) i)"
    by (simp add: job_get_def sync_jobs_def Let_def)
  have "fst (resolve_job_targets ?db (if jb_enabled j then next_job E now j else j)) = fst (resolve_job_targets (gs_db s) j)" for j
    by (rule resolve_frame) (simp_all add: f sync_jobs_def Let_def)
  then show "resolves ?db i = resolves (gs_db s) i" "job_enabled ?db i = job_enabled (gs_db s) i"
    by (simp_all add: resolves_def job_enabled_def g f split: option.split)
  show "ad_runs ?db = ad_runs (gs_db s)" by (simp add: sync_jobs_def Let_def)
qed

lemma job_get_mem: "jobs_ok E db \<Longrightarrow> j \<in> set (ad_jobs db) \<Longrightarrow> job_get db (jb_id j) = Some j"
proof -
  assume ok: "jobs_ok E db" and j: "j \<in> set (ad_jobs db)"
  then obtain q where q: "job_get db (jb_id j) = Some q" unfolding job_get_def using find_None_notin [of "\<lambda>q. jb_id q = jb_id j" "ad_jobs db" j] by auto
  then have "q = j" using job_get_Some [OF q] ok j distinct_key_eq [of jb_id "ad_jobs db" q j] by (simp add: jobs_ok_def)
  with q show ?thesis by simp
qed

section \<open>Properties\<close>

text \<open>
  C16. What is scheduled is what the table says: unless a resynchronisation is waiting, the trigger registered
  under an id is the one of the enabled job with that id, and every enabled job has one.
\<close>

theorem schedule_mirrors_the_table:
  assumes "sched_reachable E s" and "\<not> gs_resync s"
  shows "(map_of (gs_registered s) i = Some t \<longleftrightarrow>
      (\<exists>j \<in> set (ad_jobs (gs_db s)). jb_id j = i \<and> jb_enabled j \<and> trigger_of E (jb_cron j) (jb_timezone j) = Inr t))
    \<and> fst ` set (gs_registered s) = jb_id ` {j \<in> set (ad_jobs (gs_db s)). jb_enabled j}"
proof -
  have inv: "jobs_ok E (gs_db s)" "mirrored E s" using sched_reachable_inv [OF assms(1)] assms(2) by (auto simp: sched_inv_def)
  have ex: "\<exists>t. trigger_of E (jb_cron j) (jb_timezone j) = Inr t" if "j \<in> set (ad_jobs (gs_db s))" for j
    using inv(1) that by (simp add: jobs_ok_def job_ok_def is_ok_iff)
  have "k \<in> fst ` set (gs_registered s) \<longleftrightarrow> k \<in> jb_id ` {j \<in> set (ad_jobs (gs_db s)). jb_enabled j}" for k
  proof -
    have "k \<in> fst ` set (gs_registered s) \<longleftrightarrow> (\<exists>t. map_of (gs_registered s) k = Some t)"
      using map_of_eq_None_iff [of "gs_registered s" k] by fastforce
    also have "\<dots> \<longleftrightarrow> (\<exists>j \<in> set (ad_jobs (gs_db s)). jb_id j = k \<and> jb_enabled j)"
      using inv(2) ex unfolding mirrored_def by blast
    finally show ?thesis by auto
  qed
  then show ?thesis using inv(2) by (auto simp: mirrored_def)
qed

text \<open>
  C17. A restart catches up, once: it succeeds; every schedule missed by no more than the grace has an active run
  afterwards, unless it resolves to no guest; a run it queues belongs to such a schedule; and no schedule is
  missed any more, so that another restart at the same moment queues nothing.
\<close>

theorem restart_catches_up:
  assumes "sched_reachable E s" and law: "\<And>t r n. ce_next E t None r = Some n \<Longrightarrow> r \<le> n"
    and "start_scheduler E now (gs_db s) = (out, s')"
  shows "is_ok out \<and> collect_missed now (gs_db s') = []
    \<and> (\<forall>j \<in> set (ad_jobs (gs_db s)). \<forall>late. missed_by now j = Some late \<and> late \<le> ce_grace E * 1000000 \<longrightarrow>
        fst (resolve_job_targets (gs_db s) j) = [] \<or> active_for_job (gs_db s') (jb_id j) \<noteq> None)
    \<and> (\<forall>r \<in> set (ad_runs (gs_db s')) - set (ad_runs (gs_db s)). \<exists>j \<in> set (ad_jobs (gs_db s)). \<exists>late.
        rn_job_id r = Some (jb_id j) \<and> missed_by now j = Some late \<and> late \<le> ce_grace E * 1000000)"
proof -
  have ok: "jobs_ok E (gs_db s)" using sched_reachable_inv [OF assms(1)] by (simp add: sched_inv_def)
  let ?s = "sync_jobs E now \<lparr>gs_db = gs_db s, gs_registered = [], gs_resync = False\<rparr>"
  let ?ms = "collect_missed now (gs_db s)"
  have ok1: "jobs_ok E (gs_db ?s)" by (rule sync_jobs_ok) (simp add: ok)
  have time: "on_time now (gs_db ?s)" by (rule synced_on_time [OF _ law]) (simp_all add: ok)
  note keep = sync_keeps [of E now "\<lparr>gs_db = gs_db s, gs_registered = [], gs_resync = False\<rparr>", simplified]
  obtain db1 where f: "fire_missed E now ?ms (gs_db ?s) = (out, db1)" and s': "gs_db s' = db1"
    using assms(3) by (auto simp: start_scheduler_def Let_def split: prod.splits)
  have en: "job_enabled (gs_db ?s) (fst m)" if mem: "m \<in> set ?ms" for m
  proof -
    obtain j late where j: "j \<in> set (ad_jobs (gs_db s))" "missed_by now j = Some late" "fst m = jb_id j"
      using mem by (auto simp: set_collect_missed)
    then have "jb_enabled j" by (auto simp: missed_by_def split: option.splits if_splits)
    then show ?thesis using job_get_mem [OF ok j(1)] keep(2) [of "jb_id j"] by (simp add: job_enabled_def j(3))
  qed
  note facts = fire_missed_catches [OF ok1 en f]
  have "on_time now db1" using facts time law by blast
  moreover have "fst (resolve_job_targets (gs_db s) j) = [] \<or> active_for_job db1 (jb_id j) \<noteq> None"
    if "j \<in> set (ad_jobs (gs_db s))" "missed_by now j = Some late" "late \<le> ce_grace E * 1000000" for j late
  proof -
    have "(jb_id j, late) \<in> set ?ms" using that by (auto simp: set_collect_missed)
    moreover have "resolves (gs_db ?s) (jb_id j) = fst (resolve_job_targets (gs_db s) j)"
      unfolding keep(1) by (simp add: resolves_def job_get_mem [OF ok that(1)])
    ultimately show ?thesis using facts that(3) by fastforce
  qed
  moreover obtain new where new: "ad_runs db1 = ad_runs (gs_db s) @ new"
    "\<forall>r \<in> set new. \<exists>m \<in> set ?ms. rn_job_id r = Some (fst m) \<and> snd m \<le> ce_grace E * 1000000"
    using facts unfolding keep(3) by blast
  have "\<exists>j \<in> set (ad_jobs (gs_db s)). \<exists>late. rn_job_id r = Some (jb_id j) \<and> missed_by now j = Some late
      \<and> late \<le> ce_grace E * 1000000" if "r \<in> set (ad_runs db1) - set (ad_runs (gs_db s))" for r
  proof -
    have "r \<in> set new" using that new(1) by auto
    then obtain m where "m \<in> set ?ms" "rn_job_id r = Some (fst m)" "snd m \<le> ce_grace E * 1000000"
      using new(2) by blast
    then show ?thesis by (auto simp: set_collect_missed)
  qed
  ultimately show ?thesis using facts on_time_missed [of now db1] by (auto simp: s' is_ok_iff)
qed


section \<open>A concrete schedule\<close>

text \<open>Every expression is a trigger that fires one second after the reference.\<close>

definition tick_env :: "unit cron_env" where
  "tick_env = \<lparr>ce_zone_known = (\<lambda>z. True), ce_trigger = (\<lambda>f z. Some ()), ce_next = (\<lambda>t p r. Some ((case p of None \<Rightarrow> r | Some q \<Rightarrow> min r q) + 1000000)), ce_grace = 3600\<rparr>"

definition tick_form :: job_form where
  "tick_form = \<lparr>jf_name = ''all'', jf_enabled = True, jf_cron = ''* * * * *'', jf_timezone = ''UTC'', jf_mode = SNAPSHOT,
     jf_compression = ZSTD, jf_zstd_threads = None, jf_storage = ''hdd'', jf_selector = SEL_ALL, jf_targets = [],
     jf_keep_local = 2, jf_keep_remote = 2, jf_upload_enabled = True, jf_notify_on_start = True,
     jf_notify_on_success = True, jf_notify_on_failure = True, jf_bwlimit_kbps = 0, jf_max_parallel = 1\<rparr>"

definition tick_guest :: guest_row where
  "tick_guest = \<lparr>gu_id = 1, gu_vmid = 101, gu_type = VM, gu_name = ''web'', gu_node = ''pve'', gu_status = G_RUNNING,
     gu_enabled = True, gu_tags = None, gu_first_seen_at = 0, gu_last_seen_at = 0\<rparr>"

definition tick_db :: app_db where
  "tick_db = (empty_db default_sections)\<lparr>ad_guests := [tick_guest]\<rparr>"

lemma tick_form_ok: "job_form_ok tick_form"
  by (simp add: job_form_ok_def tick_form_def text_within_def in_bounds_def targets_match_selector_def MAX_TARGETS_def) code_simp

definition tick_job :: job_row where
  "tick_job = new_job tick_form ''* * * * *'' (Some 1000000)\<lparr>jb_id := 1\<rparr>"

lemma tick_timed: "timed_form tick_env 0 tick_form = Inr (''* * * * *'', Some 1000000)"
  by code_simp


definition tick_made :: "unit sched_sys" where
  "tick_made = \<lparr>gs_db = audit_job 0 (1, ''op'') tick_job (tick_db\<lparr>ad_jobs := [tick_job]\<rparr>), gs_registered = [], gs_resync = True\<rparr>"

lemma tick_job_fields [simp]: "jb_id tick_job = 1" "jb_enabled tick_job" "jb_cron tick_job = ''* * * * *''"
  "jb_timezone tick_job = ''UTC''" "jb_next_run_at tick_job = Some 1000000" "jb_selector tick_job = SEL_ALL"
  by (simp_all add: tick_job_def new_job_def tick_form_def)

lemma tick_reachable: "sched_reachable tick_env tick_made"
proof -
  have i: "sched_init tick_db = \<lparr>gs_db = tick_db, gs_registered = [], gs_resync = False\<rparr>"
    by (simp add: sched_init_def tick_db_def empty_db_def)
  have n: "job_by_name tick_db x = None" "\<not> name_stored tick_db None x" for x
    by (simp_all add: job_by_name_def name_stored_def tick_db_def)
  have "create_job tick_env 0 tick_form tick_db = (Inr tick_job, tick_db\<lparr>ad_jobs := [tick_job]\<rparr>)"
    by (simp add: create_job_def n tick_timed job_add_def Let_def tick_job_def) (simp add: tick_db_def next_id_def)
  then have "create_job_route tick_env 0 (1, ''op'') tick_form (gs_db (sched_init tick_db :: unit sched_sys)) = (Inr tick_job, gs_db tick_made)"
    by (simp add: create_job_route_def i tick_made_def)
  from gs_step [OF gs_init g_create [OF tick_form_ok this]] show ?thesis by (simp add: i tick_made_def)
qed

lemma tick_trigger: "trigger_of tick_env ''* * * * *'' z = Inr ()"
proof -
  have "py_split ''* * * * *'' = [''*'', ''*'', ''*'', ''*'', ''*'']" "py_strip ''*'' = ''*''" "translate_day_of_week ''*'' = Some ''*''"
    by code_simp+
  then show ?thesis by (simp add: trigger_of_def build_trigger_def resolve_timezone_def tick_env_def)
qed

lemma tick_jobs: "ad_jobs (gs_db tick_made) = [tick_job]"
  by (simp add: tick_made_def audit_job_def)

theorem schedule_mirrors_the_table_witness:
  "fst ` set (gs_registered (sync_jobs tick_env 5 tick_made)) = {1}"
proof -
  have "sched_reachable tick_env ((sync_jobs tick_env 5 tick_made)\<lparr>gs_resync := False\<rparr>)"
    by (rule gs_step [OF tick_reachable g_resync]) (simp add: tick_made_def)
  from schedule_mirrors_the_table [OF this] have "fst ` set (gs_registered (sync_jobs tick_env 5 tick_made))
      = jb_id ` {j \<in> set (ad_jobs (gs_db (sync_jobs tick_env 5 tick_made))). jb_enabled j}" by simp
  moreover have "{j \<in> set (ad_jobs (gs_db (sync_jobs tick_env 5 tick_made))). jb_enabled j} = {next_job tick_env 5 tick_job}"
    by (auto simp: sync_jobs_def Let_def tick_jobs next_job_def split: sum.splits)
  moreover have "jb_id (next_job tick_env 5 tick_job) = 1" by (simp add: next_job_def split: sum.split)
  ultimately show ?thesis by simp
qed

theorem restart_catches_up_witness:
  "\<exists>runs s'. start_scheduler tick_env 11000000 (gs_db tick_made) = (Inr runs, s') \<and> active_for_job (gs_db s') 1 \<noteq> None"
proof -
  obtain out s' where r: "start_scheduler tick_env 11000000 (gs_db tick_made) = (out, s')" by fastforce
  have law: "ce_next tick_env t None u = Some n \<Longrightarrow> u \<le> n" for t u n by (simp add: tick_env_def)
  have m: "missed_by 11000000 tick_job = Some 10000000" by (simp add: missed_by_def)
  have g: "fst (resolve_job_targets (gs_db tick_made) tick_job) \<noteq> []"
    by (simp add: resolve_job_targets_def enabled_map_def enabled_guests_def guests_ordered_def tick_made_def audit_job_def
        tick_db_def Let_def) (simp add: tick_guest_def)
  have e: "ce_grace tick_env = 3600" by (simp add: tick_env_def)
  from restart_catches_up [OF tick_reachable law r] have "is_ok out" "active_for_job (gs_db s') 1 \<noteq> None"
    using m g e by (fastforce simp: tick_jobs)+
  then show ?thesis using r by (auto simp: is_ok_iff)
qed

text \<open>
  The replacement of a target list fails as soon as a guest stays in it: an edit of any field of such a
  schedule is answered 500 and changes nothing.
\<close>

lemma update_keeping_a_target_fails:
  assumes "job_get db i = Some j" "t \<in> set (jb_targets j)" "t \<in> set (jf_targets f)"
    and "timed_form E now f = Inr (c, n)" "job_by_name db (jf_name f) = Some j"
  shows "update_job_route E now user i f db = (Inl INTEGRITY, db)"
proof -
  have "targets_collide j f" using assms(2,3) by (auto simp: targets_collide_def list_ex_iff)
  then show ?thesis using assms by (simp add: update_job_route_def update_job_def schedule_get_def session_def)
qed

end
