(* ===== verification/Spec2Isabelle.thy ===== *)
theory Spec2Isabelle
  imports Agent_Services Agent_Progress Agent_Artifacts Agent_Security Rate_Limits Cron Auth_Sessions Notify
    Retention_Agent Retention_Worker Run_Properties Sync_Worker Schedule
begin

text \<open>
  ProxSync backs up the guests of a Proxmox host, keeps the archives within a retention policy, copies
  them to a cloud remote and restores them. It is two programs: the \<^emph>\<open>agent\<close> (\<open>agent/app/\<close>) runs on the
  host and alone starts \<open>vzdump\<close>, \<open>qmrestore\<close>, \<open>pct\<close> and \<open>rclone\<close>; the \<^emph>\<open>dashboard\<close> (\<open>backend/app/\<close>) keeps
  the database, the users and the workers, and talks to the agent over signed HTTP. This development
  models the logic of both, definition by definition, and proves what makes it correct.

  \<^bold>\<open>Foundations.\<close> \<open>Prelude\<close>: lemmas on lists, options and rows, \<open>table_simps\<close>. \<open>Py_Text\<close>: Python's string
  methods on Latin-1 text. \<open>Vocabulary\<close>: the enums and the error hierarchies of both programs
  (\<open>schemas/enums.py\<close>, \<open>core/errors.py\<close>). \<open>Database\<close>: commit and rollback (\<open>db/session.py\<close>), LIKE,
  ordering, paging. \<open>Row_Tables\<close>: the locale \<open>row_table\<close>, a table whose rows keep their key and move
  along an allowed relation. \<open>Catalog\<close>: the tables of the dashboard as records (\<open>db/models/\<close>) in one
  state \<open>app_db\<close>, and the settings sections the services read.

  \<^bold>\<open>Agent.\<close> \<open>Agent_Validators\<close> (\<open>validators/\<close>): paths, remotes, artifact names, guest identifiers.
  \<open>Agent_Security\<close> (\<open>core/security.py\<close>): signature, freshness, nonces. \<open>Agent_Tasks\<close> (\<open>tasks/\<close>,
  \<open>core/concurrency.py\<close>): slots, task records, the registry and its journal. \<open>Agent_Commands\<close>
  (\<open>executors/\<close>): command lines and output parsers. \<open>Agent_Progress\<close> (\<open>tasks/progress.py\<close>).
  \<open>Agent_Artifacts\<close> and \<open>Agent_Services\<close> (\<open>services/\<close>): listing and deleting archives, accepting and
  executing backups, restores and transfers. Requests are validated, take a slot, create a task; the
  execution is a function of what the child process did.

  \<^bold>\<open>Dashboard.\<close> \<open>Rate_Limits\<close> (limiter, circuit breaker), \<open>Cron\<close>, \<open>Audit_Log\<close>, \<open>Auth\<close> and \<open>Auth_Sessions\<close>
  (sign-in, refresh with reuse detection, passwords), \<open>Notify\<close> (outbox and its worker), \<open>Agent_Client\<close>
  (signing, retries, reading of answers), \<open>Retention\<close>, \<open>Retention_Safety\<close>, \<open>Retention_Agent\<close>
  and \<open>Retention_Worker\<close> (policy, plans, deletion against an abstract agent and against the modelled
  agent, the worker with its queue and retries), \<open>Restore\<close> and
  \<open>Restore_Exec\<close> (checks, confirmation, the worker), \<open>Backups\<close>, \<open>Backup_Runner\<close>, \<open>Backup_Runs\<close> and
  \<open>Run_Properties\<close> (targets, frozen options, queue, the run executor), \<open>Sync\<close> and \<open>Sync_Worker\<close> (uploads:
  queue, verification, comparison of both sides, the upload worker), \<open>Schedule\<close> (backup schedules and the
  scheduler).

  \<^bold>\<open>How the parts meet.\<close> Services are functions from the database (and what they ask of the outside)
  to a result \<open>app_error + 'a\<close> and a database; routes wrap them in \<open>session\<close> or \<open>get_session\<close>, which roll
  back on an error. Workers are state machines: a phase is the place between two awaits, so that
  requests, other components, a crash and a restart fall between any two steps; \<open>restore_step\<close>,
  \<open>run_step\<close>, \<open>sync_step\<close>, \<open>sched_step\<close> and \<open>rw_step\<close> are these interleavings; \<open>zs_sent\<close> and \<open>us_sent\<close> record what was sent to the
  agent, \<open>ys_proofs\<close> what the agent vouched for. The
  agent's answers are arguments of the steps, so the theorems hold for every agent; \<open>Retention_Agent\<close>
  composes retention with the modelled client and the modelled agent.

  \<^bold>\<open>What is proved.\<close> For the agent: no accepted request injects an option into a command; a restore
  passes every guard; accepted backups settle and free their slot; an upload that succeeds was
  verified; deletion is confined; a replay is rejected; the journal survives a restart. For sessions: a
  reused token burns its family, one live token per family, every request refines the session
  contract. For retention: only expendable copies are marked, the newest survive, a pass leaves
  no false marker on a local copy at the modelled agent, a scheduled run's counts are applied as they
  were when it was requested; its worker makes every pass for the newest copy of a guest, visits every guest
  in a sweep and forgets no failure. For restores and runs: invariants over all reachable states by rule induction
  (nothing is started twice, one restore at a time, one run at a time, counters tell the rows), the
  documented life as a refinement, and confirmations that are safe
  and never accepted twice. For uploads: nothing is marked uploaded
  that the agent did not vouch for, so that retention over every reachable database gives up no local
  copy without such a proof; the claims of a transfer are bounded between its retries. For schedules: the registered triggers mirror the
  table, and a restart catches up exactly what it missed within the grace. Locales state the interfaces
  (\<open>row_table\<close>, the retention agent, the session contract) and are interpreted on the definitions.

  \<^bold>\<open>Bounds.\<close> Recursion is structural or has a measure. Recovery scans at most
  \<open>RECOVERY_SCAN_LIMIT\<close> = 1000 running rows; the restart step of \<open>run_step\<close> has this as its premise, since a
  thousand running rows need a thousand runs that crashed. Times are integers (microseconds), durations
  and progress exact rationals, where the code has floats; database identifiers are \<open>nat\<close>.

  \<^bold>\<open>Not modelled.\<close> HTTP, FastAPI's handlers and Pydantic's coercions (a request arrives as the typed value
  it is validated to; the validators themselves are modelled where the services rely on them); SQL
  and the ORM below the statements; asyncio (the interleavings are the steps above; two requests of the
  dashboard never overlap, which a refresh race would need); signals and process groups; SHA-256,
  HMAC, Argon2, PyJWT, the IP parser and APScheduler's search for the next moment, which are
  parameters with their documented laws as hypotheses; display texts, progress snapshots, events and
  log lines, which no decision reads; the response models, the settings forms and the migrations; the
  frontend, which is another language.
\<close>

end
